(* ===== verification/Prelude.thy ===== *)
theory Prelude
  imports Main "HOL-Library.Word" "HOL-Library.State_Monad"
begin

text \<open>
  Shared vocabulary of the development: machine-integer types, the state-monad operations
  used to write C functions that update a struct, the history-based view of port and
  register I/O, and generic lemmas on lists and words.

  Hardware is not part of the repository, so it is a parameter of the model.  Every access
  is recorded in a history (newest event first) and the value that a read returns is an
  arbitrary function of that history and of the address read: the environment argument
  \<open>E\<close> of the definitions.  A theorem that does not constrain \<open>E\<close> holds for every device.
\<close>

unbundle bit_operations_syntax

section \<open>Machine integers\<close>

type_synonym u8 = "8 word"
type_synonym u16 = "16 word"
type_synonym u32 = "32 word"
type_synonym u64 = "64 word"

section \<open>State monad\<close>

abbreviation ret :: "'a \<Rightarrow> ('s, 'a) state" where
  "ret \<equiv> State_Monad.return"

abbreviation gets :: "('s \<Rightarrow> 'a) \<Rightarrow> ('s, 'a) state" where
  "gets f \<equiv> State (\<lambda>s. (f s, s))"

abbreviation modify :: "('s \<Rightarrow> 's) \<Rightarrow> ('s, unit) state" where
  "modify f \<equiv> State (\<lambda>s. ((), f s))"

abbreviation skip :: "('s, unit) state" where
  "skip \<equiv> State_Monad.return ()"

abbreviation exec :: "('s, 'a) state \<Rightarrow> 's \<Rightarrow> 's" where
  "exec m s \<equiv> snd (run_state m s)"

abbreviation val_of :: "('s, 'a) state \<Rightarrow> 's \<Rightarrow> 'a" where
  "val_of m s \<equiv> fst (run_state m s)"

lemma run_state_if [simp]:
  "run_state (if b then m else n) s = (if b then run_state m s else run_state n s)"
  by simp

lemma run_state_let [simp]: "run_state (let x = e in f x) s = (let x = e in run_state (f x) s)"
  by simp

text \<open>A statement executed for every element of a list, in order.\<close>

fun for_each :: "'a list \<Rightarrow> ('a \<Rightarrow> ('s, unit) state) \<Rightarrow> ('s, unit) state" where
  "for_each [] f = skip"
| "for_each (x # xs) f = do { f x; for_each xs f }"

lemma exec_for_each: "exec (for_each xs f) s = foldl (\<lambda>t x. exec (f x) t) s xs"
  by (induction xs arbitrary: s) (auto split: prod.splits)

lemma run_for_each:
  "run_state (for_each xs f) s = ((), foldl (\<lambda>t x. exec (f x) t) s xs)"
  by (induction xs arbitrary: s) (auto split: prod.splits)

section \<open>Weakest preconditions\<close>

text \<open>
  \<open>wp m Q s\<close>: running \<open>m\<close> from \<open>s\<close> ends with a result and a state that satisfy \<open>Q\<close>.  The
  equations push \<open>Q\<close> backwards through a program; a read from the device is opened by an
  introduction rule that generalises over the value read.
\<close>

definition wp :: "('s, 'a) state \<Rightarrow> ('a \<Rightarrow> 's \<Rightarrow> bool) \<Rightarrow> 's \<Rightarrow> bool" where
  "wp m Q s = (case run_state m s of (a, t) \<Rightarrow> Q a t)"

lemma wp_iff: "wp m Q s \<longleftrightarrow> Q (val_of m s) (exec m s)"
  by (simp add: wp_def split: prod.splits)

lemma wp_return [simp]: "wp (ret x) Q s = Q x s"
  by (simp add: wp_def)

lemma wp_bind [simp]: "wp (State_Monad.bind m f) Q s = wp m (\<lambda>a t. wp (f a) Q t) s"
  by (simp add: wp_def split: prod.splits)

lemma wp_State [simp]: "wp (State g) Q s = (case g s of (a, t) \<Rightarrow> Q a t)"
  by (simp add: wp_def)

lemma wp_if [simp]: "wp (if b then m else n) Q s = (if b then wp m Q s else wp n Q s)"
  by simp

lemma wp_let [simp]: "wp (let x = e in f x) Q s = (let x = e in wp (f x) Q s)"
  by simp

text \<open>
  Execute the program before its postcondition is touched: the congruence rules keep the
  simplifier out of the continuation until the first statement is done.
\<close>

lemma wp_weak_cong [cong]: "m = m' \<Longrightarrow> s = s' \<Longrightarrow> wp m Q s = wp m' Q s'"
  by simp

lemma bind_weak_cong: "m = m' \<Longrightarrow> State_Monad.bind m f = State_Monad.bind m' f"
  by simp

lemma wp_mono: "wp m Q s \<Longrightarrow> (\<And>a t. Q a t \<Longrightarrow> R a t) \<Longrightarrow> wp m R s"
  by (simp add: wp_iff)

lemma wp_conj: "wp m Q s \<Longrightarrow> wp m R s \<Longrightarrow> wp m (\<lambda>a t. Q a t \<and> R a t) s"
  by (simp add: wp_iff)

lemma wp_for_each:
  assumes "I xs0 s0"
    and "\<And>x xs s. set (x # xs) \<subseteq> set xs0 \<Longrightarrow> I (x # xs) s \<Longrightarrow> wp (f x) (\<lambda>_ t. I xs t) s"
  shows "wp (for_each xs0 f) (\<lambda>_ t. I [] t) s0"
proof -
  have "set xs \<subseteq> set xs0 \<Longrightarrow> I xs s \<Longrightarrow> wp (for_each xs f) (\<lambda>_ t. I [] t) s" for xs s
  proof (induction xs arbitrary: s)
    case Nil
    then show ?case by simp
  next
    case (Cons x xs)
    then have "wp (f x) (\<lambda>_ t. I xs t) s" by (intro assms(2)) auto
    then show ?case using Cons by (auto intro: wp_mono)
  qed
  from this[of xs0 s0] assms(1) show ?thesis by simp
qed

section \<open>Port input and output\<close>

text \<open>
  The x86 port instructions of the drivers.  \<open>Outb v p\<close> is \<open>outb(v, p)\<close>; \<open>Inb p v\<close> is an
  \<open>inb(p)\<close> that returned \<open>v\<close>.
\<close>

datatype port_ev = Outb u8 u16 | Inb u16 u8

type_synonym port_env = "port_ev list \<Rightarrow> u16 \<Rightarrow> u8"

record port_state =
  hist :: "port_ev list"

definition outb :: "u8 \<Rightarrow> u16 \<Rightarrow> ('a port_state_scheme, unit) state" where
  "outb v p = modify (\<lambda>s. s\<lparr>hist := Outb v p # hist s\<rparr>)"

definition inb :: "port_env \<Rightarrow> u16 \<Rightarrow> ('a port_state_scheme, u8) state" where
  "inb E p = State (\<lambda>s. let v = E (hist s) p in (v, s\<lparr>hist := Inb p v # hist s\<rparr>))"

lemma run_outb [simp]: "run_state (outb v p) s = ((), s\<lparr>hist := Outb v p # hist s\<rparr>)"
  by (simp add: outb_def)

lemma run_inb [simp]:
  "run_state (inb E p) s = (E (hist s) p, s\<lparr>hist := Inb p (E (hist s) p) # hist s\<rparr>)"
  by (simp add: inb_def Let_def)

lemma wp_outb [simp]: "wp (outb v p) Q s = Q () (s\<lparr>hist := Outb v p # hist s\<rparr>)"
  by (simp add: wp_def)

lemma wp_inb: "(\<And>v. Q v (s\<lparr>hist := Inb p v # hist s\<rparr>)) \<Longrightarrow> wp (inb E p) Q s"
  by (simp add: wp_def)

section \<open>Bytes of a 16-bit value\<close>

definition hi8 :: "u16 \<Rightarrow> u8" where
  "hi8 w = ucast (drop_bit 8 w)"

definition lo8 :: "u16 \<Rightarrow> u8" where
  "lo8 w = ucast w"

definition join16 :: "u8 \<Rightarrow> u8 \<Rightarrow> u16" where
  "join16 h l = push_bit 8 (ucast h) OR ucast l"

lemma word_FF_mask: "(0xFF :: 'a::len word) = mask 8"
  by (simp add: mask_eq_exp_minus_1)

lemma u8_and_FF [simp]: "(x :: u8) AND 0xFF = x"
  unfolding word_FF_mask by (rule bit_eqI) (auto simp: bit_simps)

lemma ucast_low_byte: "ucast (w AND 0xFF) = lo8 w"
  unfolding word_FF_mask by (rule bit_eqI) (auto simp: lo8_def bit_simps)

lemma ucast_high_byte: "ucast (drop_bit 8 w AND 0xFF) = hi8 w"
  unfolding word_FF_mask by (rule bit_eqI) (auto simp: hi8_def bit_simps)

lemma lo8_drop_bit [simp]: "lo8 (drop_bit 8 w) = hi8 w"
  by (simp add: lo8_def hi8_def)

lemma join16_hi_lo [simp]: "join16 (hi8 w) (lo8 w) = w"
  by (rule bit_eqI) (auto simp: join16_def hi8_def lo8_def bit_simps)

lemma hi8_join16 [simp]: "hi8 (join16 h l) = h"
  by (rule bit_eqI) (auto simp: join16_def hi8_def bit_simps dest: bit_imp_le_length)

lemma lo8_join16 [simp]: "lo8 (join16 h l) = l"
  by (rule bit_eqI) (auto simp: join16_def lo8_def bit_simps)

end
