(* ===== verification/SuperIO.thy ===== *)
theory SuperIO
  imports Prelude
begin

text \<open>
  The ITE8712 Super-I/O configuration space as the board drivers use it.  Four drivers
  (watchdog, fan, LED, power) each carry their own copy of \<open>enterKey\<close>, \<open>setValue\<close> and
  \<open>getValue\<close>; what they have in common is the contract \<open>superio_port\<close> below.

  \<open>sio_of\<close> decodes a history of port accesses into the state of the configuration
  protocol: whether configuration mode was entered (key 0x87, 0x01, 0x55, 0x55 on port
  0x2E), the selected register and logical device, and the value last written to every
  register.  It is a specification of the traffic, not an assumption on what the chip
  answers: the values read stay arbitrary.
\<close>

section \<open>Decoding the configuration traffic\<close>

record sio =
  sio_key :: nat
  sio_config :: bool
  sio_index :: u8
  sio_ldn :: u8
  sio_regs :: "u8 \<Rightarrow> u8 \<Rightarrow> u8 option"

definition sio_reset :: sio where
  "sio_reset = \<lparr>sio_key = 0, sio_config = False, sio_index = 0, sio_ldn = 0,
     sio_regs = (\<lambda>_ _. None)\<rparr>"

text \<open>Registers below 0x30 are global; the others belong to the selected logical device.\<close>

definition sio_bank :: "u8 \<Rightarrow> u8 \<Rightarrow> u8" where
  "sio_bank ld r = (if r < 0x30 then 0xFF else ld)"

definition sio_key_byte :: "nat \<Rightarrow> u8" where
  "sio_key_byte k = (if k = 0 then 0x87 else if k = 1 then 0x01 else 0x55)"

definition sio_addr_write :: "u8 \<Rightarrow> sio \<Rightarrow> sio" where
  "sio_addr_write v c =
     (if sio_config c then c\<lparr>sio_index := v\<rparr>
      else if v = sio_key_byte (sio_key c) then
        (if sio_key c = 3 then c\<lparr>sio_key := 0, sio_config := True\<rparr>
         else c\<lparr>sio_key := Suc (sio_key c)\<rparr>)
      else c\<lparr>sio_key := (if v = 0x87 then 1 else 0)\<rparr>)"

definition sio_put :: "u8 \<Rightarrow> u8 \<Rightarrow> u8 \<Rightarrow> sio \<Rightarrow> sio" where
  "sio_put ld r v c =
     c\<lparr>sio_regs := (sio_regs c)(sio_bank ld r := (sio_regs c (sio_bank ld r))(r := Some v))\<rparr>"

definition sio_data_write :: "u8 \<Rightarrow> sio \<Rightarrow> sio" where
  "sio_data_write v c =
     (if \<not> sio_config c then c
      else if sio_index c = 0x07 then c\<lparr>sio_ldn := v\<rparr>
      else if sio_index c = 0x02 then (if bit v 1 then c\<lparr>sio_config := False\<rparr> else c)
      else sio_put (sio_ldn c) (sio_index c) v c)"

fun sio_step :: "port_ev \<Rightarrow> sio \<Rightarrow> sio" where
  "sio_step (Outb v p) c =
     (if p = 0x2E then sio_addr_write v c
      else if p = 0x2F then sio_data_write v c else c)"
| "sio_step (Inb p v) c = c"

fun sio_of :: "port_ev list \<Rightarrow> sio" where
  "sio_of [] = sio_reset"
| "sio_of (e # h) = sio_step e (sio_of h)"

text \<open>The register last written, if any, and the idle state between two sessions.\<close>

definition sio_reg :: "port_ev list \<Rightarrow> u8 \<Rightarrow> u8 \<Rightarrow> u8 option" where
  "sio_reg h ld r = sio_regs (sio_of h) (sio_bank ld r) r"

definition sio_idle :: "port_ev list \<Rightarrow> bool" where
  "sio_idle h = (\<not> sio_config (sio_of h))"

lemma sio_put_simps [simp]:
  "sio_key (sio_put ld r v c) = sio_key c"
  "sio_config (sio_put ld r v c) = sio_config c"
  "sio_index (sio_put ld r v c) = sio_index c"
  "sio_ldn (sio_put ld r v c) = sio_ldn c"
  by (simp_all add: sio_put_def)

text \<open>
  The effect of the accesses as functions on the decoded state: entering configuration mode,
  writing a register (address, then data) and reading one.
\<close>

definition sio_enter :: "sio \<Rightarrow> sio" where
  "sio_enter c = (if sio_config c then c\<lparr>sio_index := 0x55\<rparr>
                  else c\<lparr>sio_key := 0, sio_config := True\<rparr>)"

definition sio_setv :: "u8 \<Rightarrow> u8 \<Rightarrow> sio \<Rightarrow> sio" where
  "sio_setv r v c = sio_data_write v (sio_addr_write r c)"

lemma sio_enter_simps [simp]:
  "sio_config (sio_enter c)" "sio_regs (sio_enter c) = sio_regs c"
  "sio_ldn (sio_enter c) = sio_ldn c"
  by (simp_all add: sio_enter_def)

lemma sio_addr_write_87:
  "\<not> sio_config c \<Longrightarrow> sio_addr_write 0x87 c = c\<lparr>sio_key := 1\<rparr>"
  by (simp add: sio_addr_write_def sio_key_byte_def)

lemma sio_of_enter:
  "sio_of (Outb 0x55 0x2E # Outb 0x55 0x2E # Outb 0x01 0x2E # Outb 0x87 0x2E # h) =
     sio_enter (sio_of h)"
proof (cases "sio_config (sio_of h)")
  case True
  then show ?thesis by (simp add: sio_addr_write_def sio_enter_def)
next
  case False
  then show ?thesis
    by (simp add: sio_addr_write_87)
      (simp add: sio_addr_write_def sio_key_byte_def sio_enter_def)
qed

lemma sio_of_set: "sio_of (Outb v 0x2F # Outb r 0x2E # h) = sio_setv r v (sio_of h)"
  by (simp add: sio_setv_def)

lemma sio_of_get: "sio_of (Inb 0x2F v # Outb r 0x2E # h) = sio_addr_write r (sio_of h)"
  by simp

lemma sio_addr_write_config [simp]:
  "sio_config c \<Longrightarrow> sio_addr_write r c = c\<lparr>sio_index := r\<rparr>"
  by (simp add: sio_addr_write_def)

lemma sio_setv_config:
  "sio_config c \<Longrightarrow> sio_setv r v c =
     (if r = 0x07 then c\<lparr>sio_index := r, sio_ldn := v\<rparr>
      else if r = 0x02 then (if bit v 1 then c\<lparr>sio_index := r, sio_config := False\<rparr>
                             else c\<lparr>sio_index := r\<rparr>)
      else sio_put (sio_ldn c) r v (c\<lparr>sio_index := r\<rparr>))"
  by (simp add: sio_setv_def sio_data_write_def)

text \<open>Accesses to other ports are invisible to the configuration protocol.\<close>

lemma sio_of_other [simp]:
  "p \<noteq> 0x2E \<Longrightarrow> p \<noteq> 0x2F \<Longrightarrow> sio_of (Outb v p # h) = sio_of h"
  by simp

declare sio_of.simps(2) [simp del]

text \<open>The decoded effect of a straight-line session, register by register.\<close>

lemmas sio_eval = sio_of_set sio_of_get sio_of_enter sio_setv_config sio_put_def sio_idle_def
  sio_reg_def sio_bank_def

section \<open>A chip that keeps what is written\<close>

text \<open>
  Most configuration registers read back the value last written (ITE8712 data sheet).  The
  few theorems that depend on it take \<open>chip_latches E\<close> as a hypothesis; \<open>chip_mem\<close> is a
  device that satisfies it.
\<close>

definition chip_latches :: "port_env \<Rightarrow> bool" where
  "chip_latches E \<longleftrightarrow> (\<forall>h v. sio_config (sio_of h) \<longrightarrow>
     sio_reg h (sio_ldn (sio_of h)) (sio_index (sio_of h)) = Some v \<longrightarrow> E h 0x2F = v)"

definition chip_mem :: port_env where
  "chip_mem h p =
     (case sio_reg h (sio_ldn (sio_of h)) (sio_index (sio_of h)) of Some v \<Rightarrow> v | None \<Rightarrow> 0)"

lemma chip_mem_latches: "chip_latches chip_mem"
  by (simp add: chip_latches_def chip_mem_def)

section \<open>The contract of the access functions\<close>

text \<open>
  Every driver relies on three functions: \<open>enterKey\<close> sends the key, \<open>setValue\<close> writes a
  register, \<open>getValue\<close> selects and reads one.  The laws say what traffic they produce; the
  lemmas of the block are the register-level facts that the driver theories use.
\<close>

locale superio_port =
  fixes E :: port_env
    and enterKey :: "('a port_state_scheme, unit) state"
    and setValue :: "u8 \<Rightarrow> u8 \<Rightarrow> ('a port_state_scheme, unit) state"
    and getValue :: "u8 \<Rightarrow> ('a port_state_scheme, u8) state"
  assumes enter_run: "run_state enterKey s = ((), s\<lparr>hist :=
      Outb 0x55 0x2E # Outb 0x55 0x2E # Outb 0x01 0x2E # Outb 0x87 0x2E # hist s\<rparr>)"
    and set_run: "run_state (setValue r v) s =
      ((), s\<lparr>hist := Outb v 0x2F # Outb r 0x2E # hist s\<rparr>)"
    and get_run: "run_state (getValue r) s =
      (let h = Outb r 0x2E # hist s; v = E h 0x2F in (v, s\<lparr>hist := Inb 0x2F v # h\<rparr>))"
begin

lemma wp_enter: "wp enterKey Q s = Q () (s\<lparr>hist :=
    Outb 0x55 0x2E # Outb 0x55 0x2E # Outb 0x01 0x2E # Outb 0x87 0x2E # hist s\<rparr>)"
  by (simp add: wp_def enter_run)

lemma wp_set: "wp (setValue r v) Q s = Q () (s\<lparr>hist := Outb v 0x2F # Outb r 0x2E # hist s\<rparr>)"
  by (simp add: wp_def set_run)

lemma wp_get:
  "(\<And>v. Q v (s\<lparr>hist := Inb 0x2F v # Outb r 0x2E # hist s\<rparr>)) \<Longrightarrow> wp (getValue r) Q s"
  by (simp add: wp_def get_run Let_def)

lemma rmw_run:
  "run_state (do { v \<leftarrow> getValue r; setValue r (f v) }) s =
     (let h = Outb r 0x2E # hist s; v = E h 0x2F
      in ((), s\<lparr>hist := Outb (f v) 0x2F # Outb r 0x2E # Inb 0x2F v # h\<rparr>))"
  by (simp add: get_run set_run Let_def)

lemma rmw_effect:
  assumes "sio_config (sio_of (hist s))" "r \<noteq> 0x07" "r \<noteq> 0x02"
  shows "sio_of (hist (exec (do { v \<leftarrow> getValue r; setValue r (f v) }) s)) =
    sio_put (sio_ldn (sio_of (hist s))) r (f (E (Outb r 0x2E # hist s) 0x2F))
      ((sio_of (hist s))\<lparr>sio_index := r\<rparr>)"
  using assms by (simp add: get_run set_run Let_def sio_of_set sio_of_get sio_setv_config
     )

text \<open>
  A whole read-modify-write session: enter, select the device, update one register, leave.
  It ends outside configuration mode and changes that one register only.
\<close>

definition rmw_session :: "u8 \<Rightarrow> u8 \<Rightarrow> (u8 \<Rightarrow> u8) \<Rightarrow> ('a port_state_scheme, unit) state" where
  "rmw_session ld r f = do {
     enterKey;
     setValue 0x07 ld;
     v \<leftarrow> getValue r;
     setValue r (f v);
     setValue 0x02 0x02
   }"

definition session_read :: "u8 \<Rightarrow> u8 \<Rightarrow> port_ev list \<Rightarrow> u8" where
  "session_read ld r h = E (Outb r 0x2E # Outb ld 0x2F # Outb 0x07 0x2E #
     Outb 0x55 0x2E # Outb 0x55 0x2E # Outb 0x01 0x2E # Outb 0x87 0x2E # h) 0x2F"

lemma rmw_session_effect:
  assumes "r \<noteq> 0x07" "r \<noteq> 0x02"
  shows "sio_idle (hist (exec (rmw_session ld r f) s))"
    and "sio_reg (hist (exec (rmw_session ld r f) s)) ld r =
           Some (f (session_read ld r (hist s)))"
    and "sio_bank d q \<noteq> sio_bank ld r \<or> q \<noteq> r \<Longrightarrow>
         sio_reg (hist (exec (rmw_session ld r f) s)) d q = sio_reg (hist s) d q"
  using assms
  by (simp_all add: rmw_session_def session_read_def enter_run set_run get_run Let_def
      sio_idle_def sio_reg_def sio_of_set sio_of_get sio_of_enter sio_setv_config sio_put_def
      bit_numeral_rec)

end

end
