(* ===== verification/Watchdog.thy ===== *)
theory Watchdog
  imports SuperIO
begin

text \<open>
  The watchdog driver, watchdog/driver-V1.1/ite8712-watchdog.c: its device structure, the
  register sessions that enable, disable and program the timer, and its file operations.
  Kernel calls that touch user memory or register the device appear through their results:
  the record \<open>uaccess\<close> and the arguments of the module functions.
\<close>

section \<open>State and constants\<close>

abbreviation ADDR_PORT :: u16 where "ADDR_PORT \<equiv> 0x2E"
abbreviation DATA_PORT :: u16 where "DATA_PORT \<equiv> 0x2F"
abbreviation WDC_CTRL_REG :: u8 where "WDC_CTRL_REG \<equiv> 0x71"
abbreviation WDC_CFG_REG :: u8 where "WDC_CFG_REG \<equiv> 0x72"
abbreviation WDC_TIMEOUT_LSB :: u8 where "WDC_TIMEOUT_LSB \<equiv> 0x73"
abbreviation WDC_TIMEOUT_MSB :: u8 where "WDC_TIMEOUT_MSB \<equiv> 0x74"
abbreviation WDC_EXIT_MODE :: u8 where "WDC_EXIT_MODE \<equiv> 0x02"
abbreviation WDIOF_KEEPALIVEPING :: u32 where "WDIOF_KEEPALIVEPING \<equiv> 0x8000"

record oak2030_watchdog_struct = port_state +
  wd_status :: u32
  wd_opened :: bool
  timeout_counter :: u16
  gamePort_base :: u16

section \<open>Register access\<close>

definition watchdog_enterKey :: "('a port_state_scheme, unit) state" where
  "watchdog_enterKey = do {
     outb 0x87 ADDR_PORT;
     outb 0x01 ADDR_PORT;
     outb 0x55 ADDR_PORT;
     outb 0x55 ADDR_PORT
   }"

definition watchdog_setValue :: "u8 \<Rightarrow> u8 \<Rightarrow> ('a port_state_scheme, unit) state" where
  "watchdog_setValue reg val = do { outb reg ADDR_PORT; outb val DATA_PORT }"

definition watchdog_getValue :: "port_env \<Rightarrow> u8 \<Rightarrow> ('a port_state_scheme, u8) state" where
  "watchdog_getValue E reg = do { outb reg ADDR_PORT; inb E DATA_PORT }"

interpretation wd: superio_port E watchdog_enterKey watchdog_setValue "watchdog_getValue E"
  for E
  by unfold_locales
    (simp_all add: watchdog_enterKey_def watchdog_setValue_def watchdog_getValue_def Let_def)

section \<open>The timer\<close>

definition reset_watchdog :: "('a oak2030_watchdog_struct_scheme, unit) state" where
  "reset_watchdog = do { base \<leftarrow> gets gamePort_base; outb 0x01 base }"

definition enable_watchdog_counter ::
  "port_env \<Rightarrow> ('a oak2030_watchdog_struct_scheme, unit) state" where
  "enable_watchdog_counter E = do {
     watchdog_enterKey;
     watchdog_setValue 0x07 0x07;
     set \<leftarrow> watchdog_getValue E WDC_CTRL_REG;
     watchdog_setValue WDC_CTRL_REG (set AND 0xFE);
     set \<leftarrow> watchdog_getValue E WDC_CFG_REG;
     watchdog_setValue WDC_CFG_REG (set OR 0xC0);
     watchdog_setValue WDC_EXIT_MODE 0x02
   }"

definition disable_watchdog_counter ::
  "port_env \<Rightarrow> ('a oak2030_watchdog_struct_scheme, unit) state" where
  "disable_watchdog_counter E = do {
     watchdog_enterKey;
     watchdog_setValue 0x07 0x07;
     set \<leftarrow> watchdog_getValue E WDC_CFG_REG;
     watchdog_setValue WDC_CFG_REG (set AND 0xBF);
     watchdog_setValue WDC_EXIT_MODE 0x02
   }"

definition program_watchdog_timer :: "u16 \<Rightarrow> ('a oak2030_watchdog_struct_scheme, unit) state" where
  "program_watchdog_timer counter = do {
     watchdog_enterKey;
     watchdog_setValue 0x07 0x07;
     watchdog_setValue WDC_TIMEOUT_LSB (ucast (counter AND 0xFF));
     watchdog_setValue WDC_TIMEOUT_MSB (ucast (drop_bit 8 counter AND 0xFF));
     watchdog_setValue WDC_EXIT_MODE 0x02
   }"

section \<open>File operations\<close>

definition watchdog_write :: "nat \<Rightarrow> ('a oak2030_watchdog_struct_scheme, nat) state" where
  "watchdog_write count = do {
     (if count \<noteq> 0 then reset_watchdog else skip);
     ret count
   }"

text \<open>
  The commands of \<open>watchdog_ioctl\<close>; \<open>WDIOC_OTHER\<close> is any command the switch has no case for.
  \<open>uaccess\<close> holds the outcomes of the user-memory calls: whether \<open>copy_to_user\<close> and
  \<open>put_user\<close> fail, and the value \<open>get_user\<close> leaves in its variable.
\<close>

datatype wdioc = WDIOC_GETSUPPORT | WDIOC_GETSTATUS | WDIOC_GETBOOTSTATUS | WDIOC_KEEPALIVE
  | WDIOS_ENABLECARD | WDIOS_DISABLECARD | WDIOC_SETTIMEOUT | WDIOC_GETTIMEOUT | WDIOC_OTHER

record uaccess =
  copy_fails :: bool
  put_fails :: bool
  got :: u16

datatype user_out = NoOut | PutInfo | PutStatus u32 | PutTimeout u16

definition EFAULT :: int where "EFAULT = 14"
definition EBUSY :: int where "EBUSY = 16"
definition ENOIOCTLCMD :: int where "ENOIOCTLCMD = 515"

definition watchdog_ioctl ::
  "port_env \<Rightarrow> wdioc \<Rightarrow> uaccess \<Rightarrow> ('a oak2030_watchdog_struct_scheme, int \<times> user_out) state" where
  "watchdog_ioctl E cmd U = (case cmd of
     WDIOC_GETSUPPORT \<Rightarrow>
       (if copy_fails U then ret (- EFAULT, NoOut) else ret (0, PutInfo))
   | WDIOC_GETSTATUS \<Rightarrow> do {
       st \<leftarrow> gets wd_status;
       (if put_fails U then ret (- EFAULT, NoOut) else do {
          modify (\<lambda>s. s\<lparr>wd_status := wd_status s AND NOT WDIOF_KEEPALIVEPING\<rparr>);
          ret (0, PutStatus st) }) }
   | WDIOC_GETBOOTSTATUS \<Rightarrow> do {
       st \<leftarrow> gets wd_status;
       (if put_fails U then ret (- EFAULT, NoOut) else do {
          modify (\<lambda>s. s\<lparr>wd_status := wd_status s AND NOT WDIOF_KEEPALIVEPING\<rparr>);
          ret (0, PutStatus st) }) }
   | WDIOC_KEEPALIVE \<Rightarrow> do {
       reset_watchdog;
       modify (\<lambda>s. s\<lparr>wd_status := wd_status s OR WDIOF_KEEPALIVEPING\<rparr>);
       ret (0, NoOut) }
   | WDIOS_ENABLECARD \<Rightarrow> do { enable_watchdog_counter E; ret (0, NoOut) }
   | WDIOS_DISABLECARD \<Rightarrow> do { disable_watchdog_counter E; ret (0, NoOut) }
   | WDIOC_SETTIMEOUT \<Rightarrow> do {
       modify (\<lambda>s. s\<lparr>timeout_counter := got U\<rparr>);
       program_watchdog_timer (got U);
       program_watchdog_timer (got U);
       ret (0, NoOut) }
   | WDIOC_GETTIMEOUT \<Rightarrow> do {
       t \<leftarrow> gets timeout_counter;
       (if put_fails U then ret (- EFAULT, NoOut) else ret (0, PutTimeout t)) }
   | WDIOC_OTHER \<Rightarrow> ret (- ENOIOCTLCMD, NoOut))"

definition watchdog_open ::
  "port_env \<Rightarrow> ('a oak2030_watchdog_struct_scheme, int) state" where
  "watchdog_open E = do {
     busy \<leftarrow> gets wd_opened;
     modify (\<lambda>s. s\<lparr>wd_opened := True\<rparr>);
     (if busy then ret (- EBUSY) else do {
        watchdog_enterKey;
        watchdog_setValue 0x07 0x07;
        watchdog_setValue WDC_CTRL_REG 0x70;
        tc \<leftarrow> gets timeout_counter;
        watchdog_setValue WDC_TIMEOUT_LSB (ucast (tc AND 0xFF));
        watchdog_setValue WDC_TIMEOUT_MSB (ucast (drop_bit 8 tc AND 0xFF));
        set \<leftarrow> watchdog_getValue E WDC_CFG_REG;
        watchdog_setValue WDC_CFG_REG 0x80;
        set \<leftarrow> watchdog_getValue E 0x2C;
        watchdog_setValue 0x2C (set AND 0x0F);
        watchdog_setValue 0x07 0x09;
        gamePort \<leftarrow> watchdog_getValue E 0x60;
        modify (\<lambda>s. s\<lparr>gamePort_base := ucast gamePort\<rparr>);
        gamePort \<leftarrow> watchdog_getValue E 0x61;
        modify (\<lambda>s. s\<lparr>gamePort_base := push_bit 8 (gamePort_base s)\<rparr>);
        modify (\<lambda>s. s\<lparr>gamePort_base := gamePort_base s OR ucast gamePort\<rparr>);
        base \<leftarrow> gets gamePort_base;
        (if base = 0 then do {
           watchdog_setValue 0x60 0x02;
           watchdog_setValue 0x61 0x01;
           modify (\<lambda>s. s\<lparr>gamePort_base := 0x201\<rparr>)
         } else skip);
        watchdog_setValue 0x30 0x01;
        set \<leftarrow> watchdog_getValue E 0x29;
        watchdog_setValue WDC_EXIT_MODE 0x02;
        ret 0 })
   }"

definition watchdog_release ::
  "port_env \<Rightarrow> ('a oak2030_watchdog_struct_scheme, int) state" where
  "watchdog_release E = do {
     disable_watchdog_counter E;
     modify (\<lambda>s. s\<lparr>wd_opened := False\<rparr>);
     ret 0
   }"

section \<open>Module initialisation\<close>

text \<open>
  \<open>pci_dev\<close> is the part of a PCI device the loop looks at: its identifiers and the word at
  configuration offset 0x82.  \<open>reg_result\<close> is what \<open>misc_register\<close> returned.
\<close>

record pci_dev =
  vendor :: u16
  device :: u16
  cfg82 :: u16

definition enable_ich7_decode :: "pci_dev \<Rightarrow> pci_dev" where
  "enable_ich7_decode d =
     (if vendor d = 0x8086 \<and> (device d = 0x27B9 \<or> device d = 0x27B8)
      then d\<lparr>cfg82 := cfg82 d OR 0x0100\<rparr> else d)"

definition oak2030_watchdog_init ::
  "pci_dev list \<Rightarrow> int \<Rightarrow> ('a oak2030_watchdog_struct_scheme, int \<times> pci_dev list) state" where
  "oak2030_watchdog_init devs reg_result = do {
     modify (\<lambda>s. s\<lparr>wd_opened := False, timeout_counter := 0x0100\<rparr>);
     (let devs' = map enable_ich7_decode devs
      in ret (if reg_result < 0 then reg_result else 0, devs'))
   }"

section \<open>What the sessions do to the chip\<close>

text \<open>Whether the last value written to the configuration register arms the timer (bit 6).\<close>

definition wd_armed :: "port_ev list \<Rightarrow> bool" where
  "wd_armed h = (case sio_reg h 0x07 WDC_CFG_REG of None \<Rightarrow> False | Some v \<Rightarrow> bit v 6)"

definition wd_timeout_reg :: "port_ev list \<Rightarrow> u16 option" where
  "wd_timeout_reg h = (case (sio_reg h 0x07 WDC_TIMEOUT_MSB, sio_reg h 0x07 WDC_TIMEOUT_LSB) of
     (Some m, Some l) \<Rightarrow> Some (join16 m l) | _ \<Rightarrow> None)"

lemmas wd_run = wd.enter_run wd.set_run wd.get_run Let_def

lemma disable_is_rmw:
  "disable_watchdog_counter E = wd.rmw_session E 0x07 WDC_CFG_REG (\<lambda>v. v AND 0xBF)"
  by (simp add: disable_watchdog_counter_def wd.rmw_session_def)

lemma disable_regs:
  "sio_idle (hist (exec (disable_watchdog_counter E) s))"
  "sio_reg (hist (exec (disable_watchdog_counter E) s)) 0x07 WDC_CFG_REG =
     Some (wd.session_read E 0x07 WDC_CFG_REG (hist s) AND 0xBF)"
  unfolding disable_is_rmw by (rule wd.rmw_session_effect; simp)+

lemma disable_other:
  "exec (disable_watchdog_counter E) s = s\<lparr>hist := hist (exec (disable_watchdog_counter E) s)\<rparr>"
  by (simp add: disable_watchdog_counter_def wd_run)

lemma enable_regs:
  "sio_idle (hist (exec (enable_watchdog_counter E) s))"
  "\<exists>v. sio_reg (hist (exec (enable_watchdog_counter E) s)) 0x07 WDC_CTRL_REG = Some (v AND 0xFE)"
  "\<exists>v. sio_reg (hist (exec (enable_watchdog_counter E) s)) 0x07 WDC_CFG_REG = Some (v OR 0xC0)"
  by (simp add: enable_watchdog_counter_def wd_run sio_eval bit_numeral_rec; blast?)+

lemma enable_other:
  "exec (enable_watchdog_counter E) s = s\<lparr>hist := hist (exec (enable_watchdog_counter E) s)\<rparr>"
  by (simp add: enable_watchdog_counter_def wd_run)

lemma program_regs:
  "sio_idle (hist (exec (program_watchdog_timer c) s))"
  "wd_timeout_reg (hist (exec (program_watchdog_timer c) s)) = Some c"
  "sio_reg (hist (exec (program_watchdog_timer c) s)) 0x07 WDC_CFG_REG =
     sio_reg (hist s) 0x07 WDC_CFG_REG"
  by (simp_all add: program_watchdog_timer_def wd_run sio_eval wd_timeout_reg_def
      ucast_low_byte ucast_high_byte bit_numeral_rec)

lemma program_other:
  "exec (program_watchdog_timer c) s = s\<lparr>hist := hist (exec (program_watchdog_timer c) s)\<rparr>"
  by (simp add: program_watchdog_timer_def wd_run)

text \<open>The keep-alive write can hit any port, but outside a session it changes no register.\<close>

lemma idle_kick:
  assumes "sio_idle h"
  shows "sio_idle (Outb 0x01 p # h)" "sio_reg (Outb 0x01 p # h) d r = sio_reg h d r"
  using assms
  by (auto simp: sio_idle_def sio_reg_def sio_of.simps sio_addr_write_def sio_data_write_def
      sio_key_byte_def)

text \<open>
  The register state that a successful open leaves behind, and the game-port address it
  stores.
\<close>

lemma open_busy:
  "wd_opened s \<Longrightarrow> run_state (watchdog_open E) s = (- EBUSY, s)"
  by (simp add: watchdog_open_def)

lemma open_wp:
  assumes "\<not> wd_opened s"
  shows "wp (watchdog_open E) (\<lambda>r t. r = 0 \<and> sio_idle (hist t) \<and>
      sio_reg (hist t) 0x07 WDC_CTRL_REG = Some 0x70 \<and>
      sio_reg (hist t) 0x07 WDC_CFG_REG = Some 0x80 \<and>
      wd_timeout_reg (hist t) = Some (timeout_counter s) \<and>
      sio_reg (hist t) 0x09 0x30 = Some 0x01 \<and>
      wd_opened t \<and> gamePort_base t \<noteq> 0 \<and>
      timeout_counter t = timeout_counter s \<and> wd_status t = wd_status s) s"
  using assms
  by (auto simp: watchdog_open_def wd.wp_enter wd.wp_set sio_eval wd_timeout_reg_def
      ucast_low_byte ucast_high_byte bit_numeral_rec intro!: wd.wp_get cong: bind_weak_cong)

lemmas open_effect = open_wp [unfolded wp_iff]

section \<open>All runs of the driver\<close>

text \<open>
  The file operations as the kernel can call them: \<open>open\<close> at any time, the others only on
  an open file.  Every call may meet a different device (\<open>E\<close>) and different user memory.
\<close>

inductive wd_step :: "oak2030_watchdog_struct \<Rightarrow> oak2030_watchdog_struct \<Rightarrow> bool" where
  open_step: "wd_step s (exec (watchdog_open E) s)"
| write_step: "wd_opened s \<Longrightarrow> wd_step s (exec (watchdog_write n) s)"
| ioctl_step: "wd_opened s \<Longrightarrow> wd_step s (exec (watchdog_ioctl E cmd U) s)"
| release_step: "wd_opened s \<Longrightarrow> wd_step s (exec (watchdog_release E) s)"

inductive_cases wd_stepE: "wd_step s t"

text \<open>The device structure is static, hence zero before the module is initialised.\<close>

definition wd_zero :: oak2030_watchdog_struct where
  "wd_zero = \<lparr>hist = [], wd_status = 0, wd_opened = False, timeout_counter = 0,
     gamePort_base = 0\<rparr>"

definition wd_boot :: "pci_dev list \<Rightarrow> oak2030_watchdog_struct" where
  "wd_boot devs = exec (oak2030_watchdog_init devs 0) wd_zero"

definition wd_inv :: "oak2030_watchdog_struct \<Rightarrow> bool" where
  "wd_inv s \<longleftrightarrow> sio_idle (hist s) \<and> (\<not> wd_opened s \<longrightarrow> \<not> wd_armed (hist s)) \<and>
     (wd_opened s \<longrightarrow> gamePort_base s \<noteq> 0 \<and> wd_timeout_reg (hist s) = Some (timeout_counter s))"

lemma wd_inv_boot: "wd_inv (wd_boot devs)"
  by (simp add: wd_inv_def wd_boot_def oak2030_watchdog_init_def wd_zero_def sio_idle_def
      wd_armed_def sio_reg_def sio_reset_def)

lemma reset_run:
  "run_state reset_watchdog s = ((), s\<lparr>hist := Outb 0x01 (gamePort_base s) # hist s\<rparr>)"
  by (simp add: reset_watchdog_def)

lemma kick_timeout:
  "sio_idle h \<Longrightarrow> wd_timeout_reg (Outb 0x01 p # h) = wd_timeout_reg h"
  by (simp add: wd_timeout_reg_def idle_kick)

lemma enable_timeout:
  "wd_timeout_reg (hist (exec (enable_watchdog_counter E) s)) = wd_timeout_reg (hist s)"
  by (simp add: enable_watchdog_counter_def wd_run sio_eval wd_timeout_reg_def bit_numeral_rec)

lemma disable_timeout:
  "wd_timeout_reg (hist (exec (disable_watchdog_counter E) s)) = wd_timeout_reg (hist s)"
  by (simp add: disable_watchdog_counter_def wd_run sio_eval wd_timeout_reg_def bit_numeral_rec)

lemma disable_disarms: "\<not> wd_armed (hist (exec (disable_watchdog_counter E) s))"
  by (simp add: wd_armed_def disable_regs bit_simps bit_numeral_rec)

lemma enable_arms: "wd_armed (hist (exec (enable_watchdog_counter E) s))"
  using enable_regs(3)[of E s] by (auto simp: wd_armed_def bit_simps bit_numeral_rec)

lemma open_inv: "wd_inv s \<Longrightarrow> wd_inv (exec (watchdog_open E) s)"
  by (cases "wd_opened s") (simp_all add: open_busy wd_inv_def open_effect wd_armed_def
      bit_numeral_rec)

lemma release_run:
  "run_state (watchdog_release E) s =
     (0, (exec (disable_watchdog_counter E) s)\<lparr>wd_opened := False\<rparr>)"
  by (simp add: watchdog_release_def split: prod.splits)

lemma release_inv: "wd_inv s \<Longrightarrow> wd_inv (exec (watchdog_release E) s)"
  by (simp add: release_run wd_inv_def disable_regs disable_disarms)

lemma write_inv: "wd_inv s \<Longrightarrow> wd_opened s \<Longrightarrow> wd_inv (exec (watchdog_write n) s)"
  by (simp add: watchdog_write_def reset_run wd_inv_def idle_kick kick_timeout)

text \<open>Rules that open the three register sessions inside a larger handler.\<close>

lemma wp_enable:
  assumes "\<And>h. sio_idle h \<Longrightarrow> wd_armed h \<Longrightarrow> wd_timeout_reg h = wd_timeout_reg (hist s) \<Longrightarrow>
    Q () (s\<lparr>hist := h\<rparr>)"
  shows "wp (enable_watchdog_counter E) Q s"
  unfolding wp_iff
  by (subst enable_other) (simp add: assms enable_regs enable_arms enable_timeout)

lemma wp_disable:
  assumes "\<And>h. sio_idle h \<Longrightarrow> \<not> wd_armed h \<Longrightarrow> wd_timeout_reg h = wd_timeout_reg (hist s) \<Longrightarrow>
    Q () (s\<lparr>hist := h\<rparr>)"
  shows "wp (disable_watchdog_counter E) Q s"
  unfolding wp_iff
  by (subst disable_other) (simp add: assms disable_regs disable_disarms disable_timeout)

lemma wp_program:
  assumes "\<And>h. sio_idle h \<Longrightarrow> wd_timeout_reg h = Some c \<Longrightarrow> Q () (s\<lparr>hist := h\<rparr>)"
  shows "wp (program_watchdog_timer c) Q s"
  unfolding wp_iff
  by (subst program_other) (simp add: assms program_regs)

lemma wp_reset [simp]:
  "wp reset_watchdog Q s = Q () (s\<lparr>hist := Outb 0x01 (gamePort_base s) # hist s\<rparr>)"
  by (simp add: wp_def reset_run)

lemma ioctl_wp:
  assumes "wd_inv s" "wd_opened s"
  shows "wp (watchdog_ioctl E cmd U) (\<lambda>_ t. wd_inv t) s"
  using assms
  by (cases cmd) (auto simp: watchdog_ioctl_def wd_inv_def idle_kick kick_timeout
      intro!: wp_enable wp_disable wp_program)

lemmas ioctl_inv = ioctl_wp [unfolded wp_iff]

lemma wd_step_inv: "wd_step s t \<Longrightarrow> wd_inv s \<Longrightarrow> wd_inv t"
  by (erule wd_stepE) (simp_all add: open_inv write_inv ioctl_inv release_inv)

lemma wd_reach_inv: "wd_step\<^sup>*\<^sup>* (wd_boot devs) s \<Longrightarrow> wd_inv s"
  by (induction rule: rtranclp_induct) (auto intro: wd_step_inv wd_inv_boot)

section \<open>Properties\<close>

text \<open>
  C22: in every state the driver can reach from module initialisation, whatever the chip
  answers and whatever user space passes, the chip is outside configuration mode, a closed
  device never leaves the timer armed, and an open device has a non-zero game-port address
  and the timeout registers hold the timeout that GETTIMEOUT reports.
\<close>

theorem watchdog_reachable_safe:
  assumes "wd_step\<^sup>*\<^sup>* (wd_boot devs) s"
  shows "sio_idle (hist s) \<and> (\<not> wd_opened s \<longrightarrow> \<not> wd_armed (hist s)) \<and>
    (wd_opened s \<longrightarrow> gamePort_base s \<noteq> 0 \<and>
       wd_timeout_reg (hist s) = Some (timeout_counter s))"
  using wd_reach_inv[OF assms] by (simp add: wd_inv_def)

theorem watchdog_reachable_safe_witness:
  "let s = exec (watchdog_open (\<lambda>_ _. 0)) (wd_boot [])
   in wd_opened s \<and> gamePort_base s \<noteq> 0 \<and>
      wd_timeout_reg (hist s) = Some (timeout_counter s)"
proof -
  let ?s = "exec (watchdog_open (\<lambda>_ _. 0)) (wd_boot [])"
  have r: "wd_step\<^sup>*\<^sup>* (wd_boot []) ?s" by (rule r_into_rtranclp) (rule open_step)
  have "\<not> wd_opened (wd_boot [])" by (simp add: wd_boot_def oak2030_watchdog_init_def)
  from open_effect[OF this, of "\<lambda>_ _. 0"] watchdog_reachable_safe[OF r]
  show ?thesis unfolding Let_def by argo
qed

text \<open>
  Opening a closed device succeeds for every chip: it selects the key-board, mouse and
  game-port reset sources, loads the timeout registers from the stored timeout, selects
  seconds without arming the timer, enables the game port and records a usable base.
\<close>

theorem watchdog_open_correct:
  assumes "\<not> wd_opened s"
  shows "val_of (watchdog_open E) s = 0 \<and>
    (let t = exec (watchdog_open E) s in
      sio_idle (hist t) \<and> sio_reg (hist t) 0x07 WDC_CTRL_REG = Some 0x70 \<and>
      sio_reg (hist t) 0x07 WDC_CFG_REG = Some 0x80 \<and> \<not> wd_armed (hist t) \<and>
      wd_timeout_reg (hist t) = Some (timeout_counter s) \<and>
      sio_reg (hist t) 0x09 0x30 = Some 0x01 \<and> wd_opened t \<and> gamePort_base t \<noteq> 0)"
  using open_effect[OF assms, of E] by (simp add: Let_def wd_armed_def bit_numeral_rec)

theorem watchdog_open_correct_witness:
  "val_of (watchdog_open (\<lambda>_ _. 0xFF)) wd_zero = 0"
  using watchdog_open_correct [of wd_zero "\<lambda>_ _. 0xFF"] by (simp add: wd_zero_def)

text \<open>
  SETTIMEOUT loads both timeout registers with the value passed and a later GETTIMEOUT
  returns it; the second programming pass of the handler changes no register.
\<close>

theorem watchdog_timeout_roundtrip:
  "let t = exec (watchdog_ioctl E WDIOC_SETTIMEOUT (U\<lparr>got := c\<rparr>)) s in
     wd_timeout_reg (hist t) = Some c \<and>
     run_state (watchdog_ioctl E WDIOC_GETTIMEOUT (U\<lparr>put_fails := False\<rparr>)) t = ((0, PutTimeout c), t) \<and>
     sio_regs (sio_of (hist (exec (program_watchdog_timer c) t))) = sio_regs (sio_of (hist t))"
  by (simp add: watchdog_ioctl_def program_watchdog_timer_def wd_run sio_eval wd_timeout_reg_def
      ucast_low_byte ucast_high_byte bit_numeral_rec fun_eq_iff)

end
