(* ===== verification/CharDev.thy ===== *)
theory CharDev
  imports Prelude
begin

text \<open>
  The open/release contract of the board's character devices.  The fan, LED, power and bypass
  drivers hold the minor number of the one process that has the device open in an \<open>id\<close>
  field, -1 when it is free.  The locale states that contract once; each driver theory
  interprets it on its own \<open>open\<close> and \<open>release\<close>.
\<close>

locale exclusive_open =
  fixes holder :: "'s \<Rightarrow> int"
    and dopen :: "int \<Rightarrow> ('s, int) state"
    and drelease :: "int \<Rightarrow> ('s, int) state"
  assumes open_busy: "holder s \<noteq> -1 \<Longrightarrow> run_state (dopen m) s = (-1, s)"
    and open_free: "holder s = -1 \<Longrightarrow>
      val_of (dopen m) s = 0 \<and> holder (exec (dopen m) s) = m"
    and release_held: "0 \<le> holder s \<Longrightarrow> holder s = m \<Longrightarrow>
      val_of (drelease m) s = 0 \<and> holder (exec (drelease m) s) = -1"
begin

text \<open>Two opens without a release between them never both succeed.\<close>

lemma second_open_fails:
  assumes "0 \<le> m" "val_of (dopen m) s = 0"
  shows "run_state (dopen k) (exec (dopen m) s) = (-1, exec (dopen m) s)"
proof (cases "holder s = -1")
  case True
  with open_free[OF True, of m] assms(1) show ?thesis by (intro open_busy) simp
next
  case False
  from open_busy[OF this, of m] assms(2) show ?thesis by simp
qed

lemma open_release_open:
  assumes "0 \<le> m" "holder s = -1"
  shows "holder (exec (drelease m) (exec (dopen m) s)) = -1 \<and>
    val_of (dopen k) (exec (drelease m) (exec (dopen m) s)) = 0"
  using open_free[OF assms(2), of m] assms(1) release_held[of "exec (dopen m) s" m]
    open_free[of "exec (drelease m) (exec (dopen m) s)" k]
  by simp

text \<open>Any sequence of open attempts has exactly one winner: the first.\<close>

fun open_all :: "int list \<Rightarrow> 's \<Rightarrow> int list \<times> 's" where
  "open_all [] s = ([], s)"
| "open_all (m # ms) s =
     (let (r, s1) = run_state (dopen m) s; (rs, s2) = open_all ms s1 in (r # rs, s2))"

lemma open_all_busy: "holder s \<noteq> -1 \<Longrightarrow> open_all ms s = (map (\<lambda>_. -1) ms, s)"
  by (induction ms) (simp_all add: open_busy)

lemma open_all_free:
  assumes "holder s = -1" "0 \<le> m"
  shows "fst (open_all (m # ms) s) = 0 # map (\<lambda>_. -1) ms \<and>
    holder (snd (open_all (m # ms) s)) = m"
proof -
  obtain r t where rt: "run_state (dopen m) s = (r, t)" by fastforce
  with open_free[OF assms(1), of m] have t: "r = 0" "holder t = m" by simp_all
  with assms(2) have "open_all ms t = (map (\<lambda>_. -1) ms, t)" by (intro open_all_busy) simp
  with rt t show ?thesis by simp
qed

end

end
