(* ===== verification/Fan.thy ===== *)
theory Fan
  imports SuperIO CharDev
begin

text \<open>
  The fan driver, fan-ite8712/fan-driver/ite8712-fan.c: locating the environment controller,
  enabling the 16-bit tachometer and reading it.
\<close>

record oak3030_fan_struct = port_state +
  fan_id :: int
  fan_BasePort :: u16
  fan_AddrPort :: u16
  fan_DataPort :: u16

definition fan_io_read :: "port_env \<Rightarrow> u8 \<Rightarrow> ('a oak3030_fan_struct_scheme, u16) state" where
  "fan_io_read E reg = do {
     a \<leftarrow> gets fan_AddrPort;
     outb reg a;
     d \<leftarrow> gets fan_DataPort;
     v \<leftarrow> inb E d;
     ret (ucast v)
   }"

definition fan_io_write :: "u8 \<Rightarrow> u8 \<Rightarrow> ('a oak3030_fan_struct_scheme, unit) state" where
  "fan_io_write reg c = do {
     d \<leftarrow> gets fan_DataPort;
     outb reg d;
     outb c d
   }"

definition fan_enterKey :: "('a port_state_scheme, unit) state" where
  "fan_enterKey = do { outb 0x87 0x2E; outb 0x01 0x2E; outb 0x55 0x2E; outb 0x55 0x2E }"

definition fan_setValue :: "u8 \<Rightarrow> u8 \<Rightarrow> ('a port_state_scheme, unit) state" where
  "fan_setValue reg val = do { outb reg 0x2E; outb val 0x2F }"

definition fan_getValue :: "port_env \<Rightarrow> u8 \<Rightarrow> ('a port_state_scheme, u8) state" where
  "fan_getValue E reg = do { outb reg 0x2E; inb E 0x2F }"

interpretation fan: superio_port E fan_enterKey fan_setValue "fan_getValue E" for E
  by unfold_locales (simp_all add: fan_enterKey_def fan_setValue_def fan_getValue_def Let_def)

text \<open>The result of a read: the return code and the value stored at the user address.\<close>

definition fan_read ::
  "port_env \<Rightarrow> int \<Rightarrow> ('a oak3030_fan_struct_scheme, int \<times> u16 option) state" where
  "fan_read E minor = do {
     i \<leftarrow> gets fan_id;
     (if i \<noteq> minor then ret (-1, None) else do {
        value \<leftarrow> fan_io_read E 0x18;
        (let value = push_bit 8 value in do {
           low \<leftarrow> fan_io_read E 0x0D;
           ret (1, Some (value + low)) }) })
   }"

definition fan_open :: "port_env \<Rightarrow> int \<Rightarrow> ('a oak3030_fan_struct_scheme, int) state" where
  "fan_open E minor = do {
     i \<leftarrow> gets fan_id;
     (if i \<noteq> -1 then ret (-1) else do {
        modify (\<lambda>s. s\<lparr>fan_id := minor\<rparr>);
        fan_enterKey;
        id1 \<leftarrow> fan_getValue E 0x20;
        id2 \<leftarrow> fan_getValue E 0x21;
        fan_setValue 0x07 0x04;
        fan_setValue 0x30 0x01;
        v \<leftarrow> fan_getValue E 0x60;
        w \<leftarrow> fan_getValue E 0x61;
        (let Port = push_bit 8 (ucast v) + ucast w :: u16 in
           modify (\<lambda>s. s\<lparr>fan_BasePort := Port, fan_AddrPort := Port + 0x05,
                         fan_DataPort := Port + 0x06\<rparr>));
        reg \<leftarrow> fan_getValue E 0x0C;
        fan_setValue 0x0C (reg OR 0x01);
        reg \<leftarrow> fan_getValue E 0x13;
        fan_setValue 0x14 (reg OR 0x10);
        reg \<leftarrow> fan_getValue E 0x14;
        fan_setValue 0x14 (reg OR 0x01);
        fan_setValue 0x02 0x02;
        ret 0 })
   }"

definition fan_release :: "('a oak3030_fan_struct_scheme, int) state" where
  "fan_release = do {
     i \<leftarrow> gets fan_id;
     (if i < 0 then ret (-1) else do { modify (\<lambda>s. s\<lparr>fan_id := -1\<rparr>); ret 0 })
   }"

text \<open>
  Module initialisation; \<open>None\<close> is the kernel panic on a failed registration, and \<open>reg\<close> the
  result of \<open>register_chrdev\<close>.
\<close>

definition fan_init ::
  "int \<Rightarrow> 'a oak3030_fan_struct_scheme \<Rightarrow> (int \<times> 'a oak3030_fan_struct_scheme) option" where
  "fan_init reg s = (if reg < 0 then None else Some (0, s\<lparr>fan_id := -1\<rparr>))"

section \<open>Lemmas\<close>

lemma fan_open_busy: "fan_id s \<noteq> -1 \<Longrightarrow> run_state (fan_open E m) s = (-1, s)"
  by (simp add: fan_open_def)

lemma fan_open_wp:
  assumes "fan_id s = -1"
  shows "wp (fan_open E m) (\<lambda>r t. r = 0 \<and> fan_id t = m \<and> sio_idle (hist t) \<and>
     fan_AddrPort t = fan_BasePort t + 5 \<and> fan_DataPort t = fan_BasePort t + 6 \<and>
     sio_reg (hist t) 0x04 0x30 = Some 0x01 \<and>
     (\<exists>v. sio_reg (hist t) 0x04 0x0C = Some v \<and> bit v 0) \<and>
     (\<exists>v. sio_reg (hist t) 0x04 0x14 = Some v \<and> bit v 0) \<and>
     sio_reg (hist t) 0x04 0x13 = sio_reg (hist s) 0x04 0x13) s"
  using assms
  by (auto simp: fan_open_def fan.wp_enter fan.wp_set sio_eval bit_numeral_rec bit_simps Let_def
      intro!: fan.wp_get cong: bind_weak_cong)

lemmas fan_open_effect = fan_open_wp [unfolded wp_iff]

interpretation fan_dev: exclusive_open fan_id "fan_open E" "\<lambda>_. fan_release" for E
  by unfold_locales (simp_all add: fan_open_busy fan_open_effect fan_release_def)

text \<open>The tachometer value: high byte from register 0x18, low byte from register 0x0D.\<close>

lemma push_plus_join: "push_bit 8 (ucast (h::u8)) + ucast (l::u8) = join16 h l"
  unfolding join16_def
  by (rule disjunctive_add) (auto simp: bit_simps dest: bit_imp_le_length)

lemma fan_read_wp:
  assumes "fan_id s = m"
  shows "wp (fan_read E m) (\<lambda>r t. fst r = 1 \<and>
     (\<exists>h l. snd r = Some (join16 h l) \<and>
        hist t = Inb (fan_DataPort s) l # Outb 0x0D (fan_AddrPort s) #
                 Inb (fan_DataPort s) h # Outb 0x18 (fan_AddrPort s) # hist s)) s"
  using assms
  by (auto simp: fan_read_def fan_io_read_def push_plus_join intro!: wp_inb)

end
