(* ===== verification/LedIO.thy ===== *)
theory LedIO
  imports SuperIO CharDev
begin

text \<open>
  The LED driver, ledIO-ite8712/ledIO-driver/ite8712-ledio.c: GPIO-10 and GPIO-11 configured
  as outputs and written through the GPIO data port.
\<close>

record oak3030_ledio_struct = port_state +
  led_id :: int
  led_Port_base :: u16
  led_DataPort :: u16

definition led_io_write :: "u8 \<Rightarrow> ('a oak3030_ledio_struct_scheme, unit) state" where
  "led_io_write c = do { d \<leftarrow> gets led_DataPort; outb c d }"

definition ledio_enterKey :: "('a port_state_scheme, unit) state" where
  "ledio_enterKey = do { outb 0x87 0x2E; outb 0x01 0x2E; outb 0x55 0x2E; outb 0x55 0x2E }"

definition ledio_setValue :: "u8 \<Rightarrow> u8 \<Rightarrow> ('a port_state_scheme, unit) state" where
  "ledio_setValue reg val = do { outb reg 0x2E; outb val 0x2F }"

definition ledio_getValue :: "port_env \<Rightarrow> u8 \<Rightarrow> ('a port_state_scheme, u8) state" where
  "ledio_getValue E reg = do { outb reg 0x2E; inb E 0x2F }"

interpretation led: superio_port E ledio_enterKey ledio_setValue "ledio_getValue E" for E
  by unfold_locales
    (simp_all add: ledio_enterKey_def ledio_setValue_def ledio_getValue_def Let_def)

text \<open>\<open>kbuf\<close> is the kernel buffer as \<open>copy_from_user\<close> left it (32 bytes).\<close>

definition ledio_write ::
  "int \<Rightarrow> u8 list \<Rightarrow> nat \<Rightarrow> ('a oak3030_ledio_struct_scheme, int) state" where
  "ledio_write minor kbuf count = do {
     i \<leftarrow> gets led_id;
     (if i \<noteq> minor then ret (-1)
      else if count = 0 then ret 0
      else if count > 32 then ret (-1)
      else do { for_each (take count kbuf) led_io_write; ret (int count) })
   }"

definition ledio_open :: "port_env \<Rightarrow> int \<Rightarrow> ('a oak3030_ledio_struct_scheme, int) state" where
  "ledio_open E minor = do {
     i \<leftarrow> gets led_id;
     (if i \<noteq> -1 then ret (-1) else do {
        modify (\<lambda>s. s\<lparr>led_id := minor\<rparr>);
        ledio_enterKey;
        id1 \<leftarrow> ledio_getValue E 0x20;
        id2 \<leftarrow> ledio_getValue E 0x21;
        ledio_setValue 0x07 0x07;
        v \<leftarrow> ledio_getValue E 0x62;
        w \<leftarrow> ledio_getValue E 0x63;
        (let Port = push_bit 8 (ucast v) + ucast w :: u16 in
           modify (\<lambda>s. s\<lparr>led_Port_base := Port, led_DataPort := Port\<rparr>));
        v \<leftarrow> ledio_getValue E 0x2A;
        ledio_setValue 0x2A (v OR 0x03);
        v \<leftarrow> ledio_getValue E 0x2A;
        v \<leftarrow> ledio_getValue E 0x25;
        ledio_setValue 0x25 (v OR 0x03);
        v \<leftarrow> ledio_getValue E 0x25;
        v \<leftarrow> ledio_getValue E 0xB0;
        ledio_setValue 0xB0 (v AND 0xFC);
        v \<leftarrow> ledio_getValue E 0xB8;
        ledio_setValue 0xB8 (v OR 0x03);
        v \<leftarrow> ledio_getValue E 0xC8;
        ledio_setValue 0xC8 (v OR 0x03);
        v \<leftarrow> ledio_getValue E 0x25;
        ledio_setValue 0xC0 (v OR 0x03);
        ledio_setValue 0x02 0x02;
        ret 0 })
   }"

definition ledio_release :: "('a oak3030_ledio_struct_scheme, int) state" where
  "ledio_release = do {
     i \<leftarrow> gets led_id;
     (if i < 0 then ret (-1) else do { modify (\<lambda>s. s\<lparr>led_id := -1\<rparr>); ret 0 })
   }"

definition ledio_init ::
  "int \<Rightarrow> 'a oak3030_ledio_struct_scheme \<Rightarrow> (int \<times> 'a oak3030_ledio_struct_scheme) option" where
  "ledio_init reg s = (if reg < 0 then None else Some (0, s\<lparr>led_id := -1\<rparr>))"

section \<open>Lemmas\<close>

text \<open>Both LED pins (bits 0 and 1) are set, or both are clear, in a register value.\<close>

definition led_pins_set :: "u8 option \<Rightarrow> bool" where
  "led_pins_set r = (case r of None \<Rightarrow> False | Some v \<Rightarrow> bit v 0 \<and> bit v 1)"

definition led_pins_clear :: "u8 option \<Rightarrow> bool" where
  "led_pins_clear r = (case r of None \<Rightarrow> False | Some v \<Rightarrow> \<not> bit v 0 \<and> \<not> bit v 1)"

lemma ledio_open_busy: "led_id s \<noteq> -1 \<Longrightarrow> run_state (ledio_open E m) s = (-1, s)"
  by (simp add: ledio_open_def)

lemma ledio_open_wp:
  assumes "led_id s = -1"
  shows "wp (ledio_open E m) (\<lambda>r t. r = 0 \<and> led_id t = m \<and> sio_idle (hist t) \<and>
     led_DataPort t = led_Port_base t \<and>
     led_pins_set (sio_reg (hist t) 0x07 0x2A) \<and>
     led_pins_set (sio_reg (hist t) 0x07 0x25) \<and>
     led_pins_clear (sio_reg (hist t) 0x07 0xB0) \<and>
     led_pins_set (sio_reg (hist t) 0x07 0xB8) \<and>
     led_pins_set (sio_reg (hist t) 0x07 0xC8) \<and>
     led_pins_set (sio_reg (hist t) 0x07 0xC0)) s"
  using assms
  by (auto simp: ledio_open_def led.wp_enter led.wp_set sio_eval bit_numeral_rec bit_simps Let_def
      led_pins_set_def led_pins_clear_def intro!: led.wp_get cong: bind_weak_cong)

lemmas ledio_open_effect = ledio_open_wp [unfolded wp_iff]

interpretation led_dev: exclusive_open led_id "ledio_open E" "\<lambda>_. ledio_release" for E
  by unfold_locales (simp_all add: ledio_open_busy ledio_open_effect ledio_release_def)

lemma led_write_all:
  "foldl (\<lambda>t x. exec (led_io_write x) t) s xs =
     s\<lparr>hist := rev (map (\<lambda>c. Outb c (led_DataPort s)) xs) @ hist s\<rparr>"
  by (induction xs arbitrary: s) (simp_all add: led_io_write_def)

end
