(* ===== verification/PowerIO.thy ===== *)
theory PowerIO
  imports SuperIO CharDev
begin

text \<open>
  The reset-button driver, ResetIO-ite8712/ResetIO-driver/ite8712-powerio.c: GPIO-52 as an
  input, read through the GPIO data port.
\<close>

record oak20x0_powerio_struct = port_state +
  pwr_id :: int
  pwr_Port_base :: u16
  pwr_DataPort :: u16

definition pwr_io_read :: "port_env \<Rightarrow> ('a oak20x0_powerio_struct_scheme, u8) state" where
  "pwr_io_read E = do { d \<leftarrow> gets pwr_DataPort; inb E d }"

definition powerio_enterKey :: "('a port_state_scheme, unit) state" where
  "powerio_enterKey = do { outb 0x87 0x2E; outb 0x01 0x2E; outb 0x55 0x2E; outb 0x55 0x2E }"

definition powerio_setValue :: "u8 \<Rightarrow> u8 \<Rightarrow> ('a port_state_scheme, unit) state" where
  "powerio_setValue reg val = do { outb reg 0x2E; outb val 0x2F }"

definition powerio_getValue :: "port_env \<Rightarrow> u8 \<Rightarrow> ('a port_state_scheme, u8) state" where
  "powerio_getValue E reg = do { outb reg 0x2E; inb E 0x2F }"

interpretation pwr: superio_port E powerio_enterKey powerio_setValue "powerio_getValue E" for E
  by unfold_locales
    (simp_all add: powerio_enterKey_def powerio_setValue_def powerio_getValue_def Let_def)

definition powerio_read ::
  "port_env \<Rightarrow> int \<Rightarrow> ('a oak20x0_powerio_struct_scheme, int \<times> u8 option) state" where
  "powerio_read E minor = do {
     i \<leftarrow> gets pwr_id;
     (if i \<noteq> minor then ret (-1, None) else do {
        value \<leftarrow> pwr_io_read E;
        (let value = (ucast value :: u32) AND 0x04; value = drop_bit 2 value
         in ret (1, Some (ucast value))) })
   }"

definition powerio_open :: "port_env \<Rightarrow> int \<Rightarrow> ('a oak20x0_powerio_struct_scheme, int) state" where
  "powerio_open E minor = do {
     i \<leftarrow> gets pwr_id;
     (if i \<noteq> -1 then ret (-1) else do {
        modify (\<lambda>s. s\<lparr>pwr_id := minor\<rparr>);
        powerio_enterKey;
        id1 \<leftarrow> powerio_getValue E 0x20;
        id2 \<leftarrow> powerio_getValue E 0x21;
        powerio_setValue 0x07 0x07;
        v \<leftarrow> powerio_getValue E 0x62;
        w \<leftarrow> powerio_getValue E 0x63;
        (let Port = push_bit 8 (ucast v) + ucast w :: u16 in
           modify (\<lambda>s. s\<lparr>pwr_Port_base := Port, pwr_DataPort := Port + 4\<rparr>));
        v \<leftarrow> powerio_getValue E 0x29;
        powerio_setValue 0x29 (v OR 0x04);
        v \<leftarrow> powerio_getValue E 0xB4;
        powerio_setValue 0xB4 (v AND 0xFB);
        v \<leftarrow> powerio_getValue E 0xBC;
        powerio_setValue 0xBC (v OR 0x04);
        v \<leftarrow> powerio_getValue E 0xCC;
        powerio_setValue 0xCC (v AND 0xFB);
        v \<leftarrow> powerio_getValue E 0x29;
        powerio_setValue 0xC4 (v OR 0x04);
        powerio_setValue 0x02 0x02;
        ret 0 })
   }"

definition powerio_release :: "('a oak20x0_powerio_struct_scheme, int) state" where
  "powerio_release = do {
     i \<leftarrow> gets pwr_id;
     (if i < 0 then ret (-1) else do { modify (\<lambda>s. s\<lparr>pwr_id := -1\<rparr>); ret 0 })
   }"

definition powerio_init ::
  "int \<Rightarrow> 'a oak20x0_powerio_struct_scheme \<Rightarrow>
   (int \<times> 'a oak20x0_powerio_struct_scheme) option" where
  "powerio_init reg s = (if reg < 0 then None else Some (0, s\<lparr>pwr_id := -1\<rparr>))"

section \<open>Lemmas\<close>

definition pwr_pin :: "u8 option \<Rightarrow> bool option" where
  "pwr_pin r = map_option (\<lambda>v. bit v 2) r"

lemma powerio_open_busy: "pwr_id s \<noteq> -1 \<Longrightarrow> run_state (powerio_open E m) s = (-1, s)"
  by (simp add: powerio_open_def)

lemma powerio_open_wp:
  assumes "pwr_id s = -1"
  shows "wp (powerio_open E m) (\<lambda>r t. r = 0 \<and> pwr_id t = m \<and> sio_idle (hist t) \<and>
     pwr_DataPort t = pwr_Port_base t + 4 \<and>
     pwr_pin (sio_reg (hist t) 0x07 0x29) = Some True \<and>
     pwr_pin (sio_reg (hist t) 0x07 0xB4) = Some False \<and>
     pwr_pin (sio_reg (hist t) 0x07 0xBC) = Some True \<and>
     pwr_pin (sio_reg (hist t) 0x07 0xCC) = Some False \<and>
     pwr_pin (sio_reg (hist t) 0x07 0xC4) = Some True) s"
  using assms
  by (auto simp: powerio_open_def pwr.wp_enter pwr.wp_set sio_eval bit_numeral_rec bit_simps
      Let_def pwr_pin_def intro!: pwr.wp_get cong: bind_weak_cong)

lemmas powerio_open_effect = powerio_open_wp [unfolded wp_iff]

interpretation pwr_dev: exclusive_open pwr_id "powerio_open E" "\<lambda>_. powerio_release" for E
  by unfold_locales (simp_all add: powerio_open_busy powerio_open_effect powerio_release_def)

lemma bit2_value:
  "ucast (drop_bit 2 (ucast (v :: u8) :: u32) AND 1) = (of_bool (bit v 2) :: u8)"
  by (rule bit_eqI) (auto simp: bit_simps bit_1_iff numeral_2_eq_2)

lemma powerio_read_wp:
  assumes "pwr_id s = m"
  shows "wp (powerio_read E m) (\<lambda>r t. \<exists>v. hist t = Inb (pwr_DataPort s) v # hist s \<and>
     r = (1, Some (of_bool (bit v 2)))) s"
  using assms
  by (auto simp: powerio_read_def pwr_io_read_def Let_def bit2_value intro!: wp_inb)

end
