(* ===== verification/Bypass.thy ===== *)
theory Bypass
  imports CharDev
begin

text \<open>
  The LAN bypass driver, lan-bypass/driver/bypass.c.  The bypass controller is addressed
  through an index port 0x200 and a data port 0x201; the driver keeps copies of its control
  and timer registers in \<open>bypass_ctrl\<close> and \<open>bypass_timer\<close>.
\<close>

abbreviation IDXPORT :: u16 where "IDXPORT \<equiv> 0x200"
abbreviation DATAPORT :: u16 where "DATAPORT \<equiv> 0x201"
abbreviation BYPASS_TIMER_REG :: u8 where "BYPASS_TIMER_REG \<equiv> 0xA0"
abbreviation BYPASS_CTRL_REG :: u8 where "BYPASS_CTRL_REG \<equiv> 0xA1"

record bypass_state = port_state +
  bypass_timer :: u8
  bypass_ctrl :: u8
  bypass_id :: int

section \<open>Register access\<close>

definition wr_ctrl_reg :: "u8 \<Rightarrow> ('a bypass_state_scheme, unit) state" where
  "wr_ctrl_reg c = do { outb BYPASS_CTRL_REG IDXPORT; outb c DATAPORT }"

definition rd_ctrl_reg :: "port_env \<Rightarrow> ('a bypass_state_scheme, u8) state" where
  "rd_ctrl_reg E = do { outb BYPASS_CTRL_REG IDXPORT; inb E DATAPORT }"

definition wr_timer_reg :: "u8 \<Rightarrow> ('a bypass_state_scheme, unit) state" where
  "wr_timer_reg c = do { outb BYPASS_TIMER_REG IDXPORT; outb c DATAPORT }"

definition rd_timer_reg :: "port_env \<Rightarrow> ('a bypass_state_scheme, u8) state" where
  "rd_timer_reg E = do { outb BYPASS_TIMER_REG IDXPORT; inb E DATAPORT }"

definition init_bypass :: "('a bypass_state_scheme, unit) state" where
  "init_bypass = do {
     wr_ctrl_reg 0;
     wr_timer_reg 0;
     modify (\<lambda>s. s\<lparr>bypass_ctrl := 0, bypass_timer := 0\<rparr>)
   }"

section \<open>Modes\<close>

definition set_ctrl :: "(u8 \<Rightarrow> u8) \<Rightarrow> ('a bypass_state_scheme, unit) state" where
  "set_ctrl f = modify (\<lambda>s. s\<lparr>bypass_ctrl := f (bypass_ctrl s)\<rparr>)"

definition set_timer :: "(u8 \<Rightarrow> u8) \<Rightarrow> ('a bypass_state_scheme, unit) state" where
  "set_timer f = modify (\<lambda>s. s\<lparr>bypass_timer := f (bypass_timer s)\<rparr>)"

definition bypass_enabled_immediately :: "('a bypass_state_scheme, unit) state" where
  "bypass_enabled_immediately = do {
     c \<leftarrow> gets bypass_ctrl;
     (if c AND 0x04 \<noteq> 0 then do {
        set_ctrl (\<lambda>c. c AND 0xE7);
        set_ctrl (\<lambda>c. c OR 0x14);
        c \<leftarrow> gets bypass_ctrl;
        wr_ctrl_reg c
      } else skip)
   }"

definition bypass_back2Normal :: "('a bypass_state_scheme, unit) state" where
  "bypass_back2Normal = do {
     set_ctrl (\<lambda>c. c AND 0xE7);
     set_ctrl (\<lambda>c. c OR 0x08);
     c \<leftarrow> gets bypass_ctrl;
     wr_ctrl_reg c
   }"

definition bypass_disabled :: "('a bypass_state_scheme, unit) state" where
  "bypass_disabled = do { set_ctrl (\<lambda>c. c AND 0xFB); bypass_back2Normal }"

definition bypass_timerCtrl :: "('a bypass_state_scheme, unit) state" where
  "bypass_timerCtrl = do {
     c \<leftarrow> gets bypass_ctrl;
     (if c AND 0x04 \<noteq> 0 then do {
        set_ctrl (\<lambda>c. c AND 0xE7);
        set_ctrl (\<lambda>c. c OR 0x1C);
        c \<leftarrow> gets bypass_ctrl;
        wr_ctrl_reg c
      } else skip)
   }"

definition bypass_timerSetting :: "u8 \<Rightarrow> ('a bypass_state_scheme, unit) state" where
  "bypass_timerSetting tCode = (let tCode = tCode AND 0x0F in
     if tCode \<noteq> 0 then do {
       set_timer (\<lambda>t. t AND 0xF0);
       set_timer (\<lambda>t. t OR (0x40 OR tCode));
       t \<leftarrow> gets bypass_timer;
       wr_timer_reg t
     } else skip)"

definition bypass_disable_timer :: "('a bypass_state_scheme, unit) state" where
  "bypass_disable_timer = do {
     set_timer (\<lambda>t. t AND 0xBF);
     t \<leftarrow> gets bypass_timer;
     wr_timer_reg t
   }"

definition check_timer_status :: "port_env \<Rightarrow> ('a bypass_state_scheme, u8) state" where
  "check_timer_status E = do {
     v \<leftarrow> rd_timer_reg E;
     (if v AND 0x80 \<noteq> 0 then ret 1 else ret 0)
   }"

definition bypass_set_poweroff :: "u8 \<Rightarrow> ('a bypass_state_scheme, unit) state" where
  "bypass_set_poweroff c = do {
     k \<leftarrow> gets bypass_ctrl;
     (if k AND 0x04 \<noteq> 0 then do {
        set_ctrl (\<lambda>k. k OR (c AND 0x03));
        k \<leftarrow> gets bypass_ctrl;
        wr_ctrl_reg k
      } else skip)
   }"

definition bypass_preState :: "('a bypass_state_scheme, unit) state" where
  "bypass_preState = do {
     c \<leftarrow> gets bypass_ctrl;
     (if c AND 0x04 \<noteq> 0 then do {
        set_ctrl (\<lambda>c. c AND 0xE7);
        set_ctrl (\<lambda>c. c OR 0x04);
        c \<leftarrow> gets bypass_ctrl;
        wr_ctrl_reg c
      } else skip)
   }"

definition check_bypass_status :: "port_env \<Rightarrow> ('a bypass_state_scheme, u8) state" where
  "check_bypass_status E = do {
     v \<leftarrow> rd_ctrl_reg E;
     (if v AND 0x80 \<noteq> 0 then ret 1 else ret 0)
   }"

section \<open>File operations\<close>

text \<open>
  \<open>req\<close> is the request byte that \<open>get_user\<close> read from the caller's buffer; the second result
  is the byte stored back.
\<close>

definition bypass_read ::
  "port_env \<Rightarrow> int \<Rightarrow> nat \<Rightarrow> u8 \<Rightarrow> ('a bypass_state_scheme, int \<times> u8 option) state" where
  "bypass_read E minor count req = do {
     i \<leftarrow> gets bypass_id;
     (if i \<noteq> minor then ret (-1, None)
      else if count = 0 then ret (0, None)
      else do {
        r \<leftarrow> (if req AND 0xF0 \<noteq> 0 then check_bypass_status E else check_timer_status E);
        ret (1, Some r) })
   }"

text \<open>\<open>setValue\<close> is the 16-bit value that \<open>get_user\<close> read from the caller's buffer.\<close>

definition bypass_write ::
  "int \<Rightarrow> nat \<Rightarrow> u16 \<Rightarrow> ('a bypass_state_scheme, int) state" where
  "bypass_write minor count setValue = do {
     i \<leftarrow> gets bypass_id;
     (if i \<noteq> minor then ret (-1)
      else if count = 0 then ret 0
      else (let ctrl_reg = ucast (setValue AND 0x00FF) :: u8;
                timer_reg = ucast (drop_bit 8 setValue) AND 0xFF :: u8;
                rest = do {
                  bypass_set_poweroff (ctrl_reg AND 0x03);
                  (let bypass_type = drop_bit 3 ctrl_reg AND 0x03 in
                     if bypass_type = 0 then bypass_preState
                     else if bypass_type = 1 then bypass_back2Normal
                     else if bypass_type = 2 then bypass_enabled_immediately
                     else do { bypass_timerSetting timer_reg; bypass_timerCtrl });
                  ret 1 }
            in if ctrl_reg AND 0x04 \<noteq> 0
               then do { set_ctrl (\<lambda>c. c OR 0x04); rest }
               else do {
                 set_ctrl (\<lambda>c. c AND 0xFB);
                 bypass_back2Normal;
                 (if timer_reg = 0 then ret 1 else rest) }))
   }"

definition bypass_open :: "int \<Rightarrow> ('a bypass_state_scheme, int) state" where
  "bypass_open minor = do {
     i \<leftarrow> gets bypass_id;
     (if i \<noteq> -1 then ret (-1) else do {
        modify (\<lambda>s. s\<lparr>bypass_id := minor\<rparr>);
        init_bypass;
        ret 0 })
   }"

definition bypass_release :: "int \<Rightarrow> ('a bypass_state_scheme, int) state" where
  "bypass_release minor = do {
     i \<leftarrow> gets bypass_id;
     (if i \<noteq> minor then ret (-1) else do { modify (\<lambda>s. s\<lparr>bypass_id := -1\<rparr>); ret 0 })
   }"

definition bypass_init ::
  "int \<Rightarrow> 'a bypass_state_scheme \<Rightarrow> (int \<times> 'a bypass_state_scheme) option" where
  "bypass_init reg s = (if reg < 0 then None else Some (0, s\<lparr>bypass_id := -1\<rparr>))"

section \<open>The controller's registers\<close>

text \<open>The index/data traffic decoded: the selected register and the value last written to each.\<close>

record bp =
  bp_index :: u8
  bp_regs :: "u8 \<Rightarrow> u8 option"

fun bp_step :: "port_ev \<Rightarrow> bp \<Rightarrow> bp" where
  "bp_step (Outb v p) b =
     (if p = IDXPORT then b\<lparr>bp_index := v\<rparr>
      else if p = DATAPORT then b\<lparr>bp_regs := (bp_regs b)(bp_index b := Some v)\<rparr> else b)"
| "bp_step (Inb p v) b = b"

fun bp_of :: "port_ev list \<Rightarrow> bp" where
  "bp_of [] = \<lparr>bp_index = 0, bp_regs = (\<lambda>_. None)\<rparr>"
| "bp_of (e # h) = bp_step e (bp_of h)"

definition bp_reg :: "port_ev list \<Rightarrow> u8 \<Rightarrow> u8 option" where
  "bp_reg h r = bp_regs (bp_of h) r"

text \<open>The fields of the control byte: function enabled, mode bits, power-off behaviour.\<close>

definition bp_enabled :: "u8 \<Rightarrow> bool" where
  "bp_enabled c = bit c 2"

definition bp_mode :: "u8 \<Rightarrow> bool \<times> bool" where
  "bp_mode c = (bit c 4, bit c 3)"

definition bp_poweroff :: "u8 \<Rightarrow> bool \<times> bool" where
  "bp_poweroff c = (bit c 1, bit c 0)"

lemma flag_04: "((c :: u8) AND 4 = 0) = (\<not> bit c 2)"
  using and_exp_eq_0_iff_not_bit[of c 2] by simp

lemma flag_04_16: "((c :: u16) AND 4 = 0) = (\<not> bit c 2)"
  using and_exp_eq_0_iff_not_bit[of c 2] by simp

lemmas bypass_defs = wr_ctrl_reg_def wr_timer_reg_def rd_ctrl_reg_def rd_timer_reg_def
  init_bypass_def set_ctrl_def set_timer_def bypass_enabled_immediately_def
  bypass_back2Normal_def bypass_disabled_def bypass_timerCtrl_def bypass_timerSetting_def
  bypass_disable_timer_def check_timer_status_def bypass_set_poweroff_def bypass_preState_def
  check_bypass_status_def

lemmas bp_eval = bp_reg_def flag_04 bp_enabled_def bp_mode_def bp_poweroff_def bit_simps
  bit_numeral_rec

text \<open>What holds of an open device between two calls.\<close>

definition bp_inv :: "'a bypass_state_scheme \<Rightarrow> bool" where
  "bp_inv s \<longleftrightarrow> bp_reg (hist s) BYPASS_CTRL_REG = Some (bypass_ctrl s) \<and>
     bp_reg (hist s) BYPASS_TIMER_REG = Some (bypass_timer s) \<and>
     (\<not> bp_enabled (bypass_ctrl s) \<longrightarrow> \<not> fst (bp_mode (bypass_ctrl s)))"

lemma bypass_open_wp:
  assumes "bypass_id s = -1"
  shows "wp (bypass_open m) (\<lambda>r t. r = 0 \<and> bypass_id t = m \<and> bp_inv t \<and>
     bypass_ctrl t = 0 \<and> bypass_timer t = 0) s"
  using assms by (simp add: bypass_open_def bypass_defs bp_inv_def bp_eval)

lemma bypass_open_busy: "bypass_id s \<noteq> -1 \<Longrightarrow> run_state (bypass_open m) s = (-1, s)"
  by (simp add: bypass_open_def)

lemmas bypass_open_effect = bypass_open_wp [unfolded wp_iff]

interpretation bypass_dev: exclusive_open bypass_id bypass_open bypass_release
  by unfold_locales (simp_all add: bypass_open_busy bypass_open_effect bypass_release_def)

lemma bypass_write_inv:
  "bp_inv s \<Longrightarrow> wp (bypass_write m n v) (\<lambda>_ t. bp_inv t) s"
  by (auto simp: bypass_write_def bypass_defs bp_inv_def bp_eval Let_def cong: bind_weak_cong)

lemma bypass_read_inv:
  "bp_inv s \<Longrightarrow> wp (bypass_read E m n q) (\<lambda>_ t. bp_inv t) s"
  by (auto simp: bypass_read_def bypass_defs bp_inv_def bp_eval Let_def
      intro!: wp_inb cong: bind_weak_cong)

section \<open>What a write does\<close>

lemma and_3_bits: "(c :: u8) AND 3 = of_bool (bit c 0) + 2 * of_bool (bit c 1)"
proof -
  have "c AND 3 = take_bit 2 c" by (simp add: take_bit_eq_mask mask_eq_exp_minus_1)
  also have "\<dots> = of_bool (bit c 0) + 2 * of_bool (bit c 1)"
    by (simp add: numeral_2_eq_2 take_bit_Suc bit_Suc bit_0 add.commute mod_2_eq_odd)
  finally show ?thesis .
qed

lemma bypass_type_iff:
  "(drop_bit 3 (c :: u8) AND 3 = 0) = (\<not> bit c 4 \<and> \<not> bit c 3)"
  "(drop_bit 3 c AND 3 = 1) = (\<not> bit c 4 \<and> bit c 3)"
  "(drop_bit 3 c AND 3 = 2) = (bit c 4 \<and> \<not> bit c 3)"
  by (simp_all add: and_3_bits bit_drop_bit_eq of_bool_def)

text \<open>
  Enabling writes: the mode bits are exactly the requested ones in every mode; the power-off
  bits accumulate.
\<close>

lemma bypass_write_enable:
  assumes "bypass_id s = m" "n \<noteq> 0" "bit v 2"
  shows "wp (bypass_write m n v) (\<lambda>r t. r = 1 \<and> bypass_id t = m \<and>
     bp_enabled (bypass_ctrl t) \<and> bp_mode (bypass_ctrl t) = (bit v 4, bit v 3) \<and>
     bp_poweroff (bypass_ctrl t) = (bit (bypass_ctrl s) 1 \<or> bit v 1, bit (bypass_ctrl s) 0 \<or> bit v 0)) s"
  using assms
  by (auto simp: bypass_write_def bypass_defs bp_eval Let_def bypass_type_iff cong: bind_weak_cong)

lemma bypass_write_disable:
  assumes "bypass_id s = m" "n \<noteq> 0" "\<not> bit v 2"
  shows "wp (bypass_write m n v) (\<lambda>r t. r = 1 \<and> bypass_id t = m \<and>
     \<not> bp_enabled (bypass_ctrl t) \<and> bp_mode (bypass_ctrl t) = (False, True) \<and>
     bp_poweroff (bypass_ctrl t) = bp_poweroff (bypass_ctrl s)) s"
  using assms
  by (auto simp: bypass_write_def bypass_defs bp_eval Let_def bypass_type_iff cong: bind_weak_cong)

text \<open>The timer register: only a timer-mode write with a non-zero code loads it.\<close>

lemma bypass_write_timer:
  assumes "bypass_id s = m" "n \<noteq> 0"
  shows "wp (bypass_write m n v) (\<lambda>r t. bypass_timer t =
     (if bit v 4 \<and> bit v 3 \<and> hi8 v AND 0x0F \<noteq> 0
      then bypass_timer s AND 0xF0 OR (0x40 OR (hi8 v AND 0x0F)) else bypass_timer s)) s"
  using assms
  by (auto simp: bypass_write_def bypass_defs bp_eval Let_def bypass_type_iff hi8_def
      cong: bind_weak_cong)

section \<open>All runs of the driver\<close>

inductive bypass_step :: "bypass_state \<Rightarrow> bypass_state \<Rightarrow> bool" where
  bp_open: "0 \<le> m \<Longrightarrow> bypass_step s (exec (bypass_open m) s)"
| bp_read: "bypass_step s (exec (bypass_read E m n q) s)"
| bp_write: "bypass_step s (exec (bypass_write m n v) s)"
| bp_release: "bypass_step s (exec (bypass_release m) s)"

inductive_cases bypass_stepE: "bypass_step s t"

definition bypass_boot :: bypass_state where
  "bypass_boot = \<lparr>hist = [], bypass_timer = 0, bypass_ctrl = 0, bypass_id = -1\<rparr>"

text \<open>Reads and writes on a device the caller does not hold change nothing.\<close>

lemma bypass_rw_closed:
  "bypass_id s \<noteq> m \<Longrightarrow> exec (bypass_read E m n q) s = s"
  "bypass_id s \<noteq> m \<Longrightarrow> exec (bypass_write m n v) s = s"
  "bypass_id s \<noteq> m \<Longrightarrow> exec (bypass_release m) s = s"
  by (simp_all add: bypass_read_def bypass_write_def bypass_release_def)

lemma bypass_rw_id:
  "wp (bypass_read E m n q) (\<lambda>_ t. bypass_id t = bypass_id s) s"
  "wp (bypass_write m n v) (\<lambda>_ t. bypass_id t = bypass_id s) s"
  by (auto simp: bypass_read_def bypass_write_def bypass_defs Let_def intro!: wp_inb
      cong: bind_weak_cong)

lemmas bypass_facts =
  bypass_write_inv [unfolded wp_iff] bypass_read_inv [unfolded wp_iff] bypass_rw_id [unfolded wp_iff]
  bypass_open_effect bypass_open_busy

definition bypass_ok :: "bypass_state \<Rightarrow> bool" where
  "bypass_ok s \<longleftrightarrow> (bypass_id s \<noteq> -1 \<longrightarrow> bp_inv s)"

lemma bypass_step_ok: "bypass_step s t \<Longrightarrow> bypass_ok s \<Longrightarrow> bypass_ok t"
proof (erule bypass_stepE)
  fix m assume "0 \<le> m" "t = exec (bypass_open m) s" "bypass_ok s"
  then show "bypass_ok t"
    by (cases "bypass_id s = -1") (simp_all add: bypass_ok_def bypass_facts)
next
  fix m assume "t = exec (bypass_release m) s" "bypass_ok s"
  then show "bypass_ok t"
    by (cases "bypass_id s = m") (simp_all add: bypass_ok_def bypass_rw_closed bypass_release_def)
qed (simp_all add: bypass_ok_def bypass_facts)

lemma bypass_reach_ok: "bypass_step\<^sup>*\<^sup>* bypass_boot s \<Longrightarrow> bypass_ok s"
proof (induction rule: rtranclp_induct)
  case base
  show ?case by (simp add: bypass_ok_def bypass_boot_def)
next
  case (step y z)
  then show ?case by (blast intro: bypass_step_ok)
qed

end
