(* ===== verification/BypassAp.thy ===== *)
theory BypassAp
  imports Bypass
begin

text \<open>
  The bypass demonstration program, lan-bypass/bypass-driver-ap/bypass-ap.c, running on the
  driver: its \<open>write\<close> and \<open>read\<close> system calls are the driver's file operations, called with
  the minor number \<open>M\<close> of /dev/bypass.
\<close>

datatype bypass_msg = MsgTimeOut | MsgCounting | MsgReadErr | MsgBypass | MsgNormal
  | MsgHelp | MsgTimerVal u16 | MsgCmdErr

record bypass_ap = bypass_state +
  ap_timer :: u16
  ap_ctrl :: u16
  ap_out :: "bypass_msg list"

section \<open>Commands\<close>

definition ap_print :: "bypass_msg \<Rightarrow> (bypass_ap, unit) state" where
  "ap_print m = modify (\<lambda>s. s\<lparr>ap_out := ap_out s @ [m]\<rparr>)"

definition wr_bypass :: "int \<Rightarrow> u16 \<Rightarrow> (bypass_ap, unit) state" where
  "wr_bypass M v = do { r \<leftarrow> bypass_write M 2 v; skip }"

text \<open>The caller's two-byte buffer before and after: the driver replaces its first byte.\<close>

definition rd_bypass :: "port_env \<Rightarrow> int \<Rightarrow> u16 \<Rightarrow> (bypass_ap, int \<times> u16) state" where
  "rd_bypass E M buf = do {
     (r, b) \<leftarrow> bypass_read E M 2 (lo8 buf);
     ret (r, case b of None \<Rightarrow> buf | Some v \<Rightarrow> join16 (hi8 buf) v)
   }"

definition ap_set_ctrl :: "(u16 \<Rightarrow> u16) \<Rightarrow> (bypass_ap, unit) state" where
  "ap_set_ctrl f = modify (\<lambda>s. s\<lparr>ap_ctrl := f (ap_ctrl s)\<rparr>)"

definition ap_set_timer :: "(u16 \<Rightarrow> u16) \<Rightarrow> (bypass_ap, unit) state" where
  "ap_set_timer f = modify (\<lambda>s. s\<lparr>ap_timer := f (ap_timer s)\<rparr>)"

definition enable_bypass_immediately :: "int \<Rightarrow> (bypass_ap, unit) state" where
  "enable_bypass_immediately M = do {
     ap_set_ctrl (\<lambda>c. c AND 0x00E7);
     ap_set_ctrl (\<lambda>c. c OR 0x14);
     c \<leftarrow> gets ap_ctrl;
     wr_bypass M c
   }"

definition ap_back2Normal :: "int \<Rightarrow> (bypass_ap, unit) state" where
  "ap_back2Normal M = do {
     ap_set_ctrl (\<lambda>c. c AND 0x00E7);
     ap_set_ctrl (\<lambda>c. c OR 0x0C);
     c \<leftarrow> gets ap_ctrl;
     wr_bypass M c
   }"

definition ap_timerCtrl :: "int \<Rightarrow> (bypass_ap, unit) state" where
  "ap_timerCtrl M = do {
     ap_set_ctrl (\<lambda>c. c AND 0x00E7);
     ap_set_ctrl (\<lambda>c. c OR 0x1C);
     t \<leftarrow> gets ap_timer;
     ap_set_ctrl (\<lambda>c. c OR t);
     c \<leftarrow> gets ap_ctrl;
     wr_bypass M c
   }"

definition ap_timerSetting :: "u8 \<Rightarrow> (bypass_ap, unit) state" where
  "ap_timerSetting tcode = do {
     ap_set_timer (\<lambda>t. t AND 0x00F0);
     ap_set_timer (\<lambda>t. t OR (0x40 OR ucast tcode));
     ap_set_timer (\<lambda>t. push_bit 8 t);
     t \<leftarrow> gets ap_timer;
     ap_print (MsgTimerVal t)
   }"

definition ap_disable_timer :: "int \<Rightarrow> (bypass_ap, unit) state" where
  "ap_disable_timer M = do {
     ap_set_timer (\<lambda>t. t AND 0xBF);
     ap_set_timer (\<lambda>t. push_bit 8 t);
     t \<leftarrow> gets ap_timer;
     wr_bypass M t
   }"

definition ap_check_timer_status :: "port_env \<Rightarrow> int \<Rightarrow> (bypass_ap, unit) state" where
  "ap_check_timer_status E M = do {
     (r, timeout) \<leftarrow> rd_bypass E M 0x00;
     (if r \<noteq> 0 then
        (if timeout AND 0x01 \<noteq> 0 then ap_print MsgTimeOut else ap_print MsgCounting)
      else ap_print MsgReadErr)
   }"

definition normal_poweroff :: "int \<Rightarrow> (bypass_ap, unit) state" where
  "normal_poweroff M = do {
     ap_set_ctrl (\<lambda>c. c AND 0xFC);
     c \<leftarrow> gets ap_ctrl;
     wr_bypass M c
   }"

definition bypass_poweroff :: "int \<Rightarrow> (bypass_ap, unit) state" where
  "bypass_poweroff M = do {
     ap_set_ctrl (\<lambda>c. c AND 0xFC);
     ap_set_ctrl (\<lambda>c. c OR 0x01);
     c \<leftarrow> gets ap_ctrl;
     wr_bypass M c
   }"

definition bypass_keep_preState :: "int \<Rightarrow> (bypass_ap, unit) state" where
  "bypass_keep_preState M = do {
     ap_set_ctrl (\<lambda>c. c AND 0xFC);
     ap_set_ctrl (\<lambda>c. c OR 0x02);
     c \<leftarrow> gets ap_ctrl;
     wr_bypass M c
   }"

definition ap_check_bypass_status :: "port_env \<Rightarrow> int \<Rightarrow> (bypass_ap, unit) state" where
  "ap_check_bypass_status E M = do {
     (r, mode) \<leftarrow> rd_bypass E M 0x10;
     (if r \<noteq> 0 then
        (if mode AND 0x01 \<noteq> 0 then ap_print MsgBypass else ap_print MsgNormal)
      else ap_print MsgReadErr)
   }"

definition disable_bypass :: "int \<Rightarrow> (bypass_ap, unit) state" where
  "disable_bypass M = do {
     ap_set_ctrl (\<lambda>c. c AND 0xFB);
     c \<leftarrow> gets ap_ctrl;
     wr_bypass M c
   }"

section \<open>The command loop\<close>

text \<open>
  One iteration of the loop: \<open>r\<close> and \<open>c\<close> are what \<open>stdin_read\<close> delivered, \<open>tcode\<close> the
  value typed after the T command.  The result is the \<open>quit\<close> flag.
\<close>

record bypass_input =
  in_ret :: int
  in_char :: char
  in_tcode :: u8

definition bypass_ap_step :: "port_env \<Rightarrow> int \<Rightarrow> bypass_input \<Rightarrow> (bypass_ap, bool) state" where
  "bypass_ap_step E M i =
     (if in_char i = CHR 0x0A then ret False
      else if in_ret i > 0 then
        (if in_char i = CHR ''?'' then do { ap_print MsgHelp; ret False }
         else if in_char i = CHR ''q'' then do { r \<leftarrow> bypass_release M; ret True }
         else if in_char i = CHR ''B'' then do { ap_back2Normal M; ret False }
         else if in_char i = CHR ''C'' then do { ap_check_bypass_status E M; ret False }
         else if in_char i = CHR ''D'' then do { disable_bypass M; ret False }
         else if in_char i = CHR ''E'' then do { enable_bypass_immediately M; ret False }
         else if in_char i = CHR ''N'' then do { normal_poweroff M; ret False }
         else if in_char i = CHR ''A'' then do { bypass_poweroff M; ret False }
         else if in_char i = CHR ''K'' then do { bypass_keep_preState M; ret False }
         else if in_char i = CHR ''t'' then do { ap_disable_timer M; ret False }
         else if in_char i = CHR ''c'' then do { ap_check_timer_status E M; ret False }
         else if in_char i = CHR ''T'' then do {
           ap_timerSetting (in_tcode i); ap_timerCtrl M; ret False }
         else do { ap_print MsgCmdErr; ret False })
      else ret False)"

fun bypass_ap_loop :: "port_env \<Rightarrow> int \<Rightarrow> bypass_input list \<Rightarrow> (bypass_ap, bool) state" where
  "bypass_ap_loop E M [] = ret False"
| "bypass_ap_loop E M (i # is) = do {
     quit \<leftarrow> bypass_ap_step E M i;
     (if quit then ret True else bypass_ap_loop E M is)
   }"

section \<open>The program and the driver together\<close>

text \<open>
  The state between two commands: the driver's registers are consistent and, once the
  program has enabled the function, the low byte it keeps agrees with the driver's copy on
  the enable bit and the mode.
\<close>

lemmas ap_defs = wr_bypass_def ap_set_ctrl_def ap_set_timer_def ap_print_def
  enable_bypass_immediately_def ap_back2Normal_def ap_timerCtrl_def ap_timerSetting_def
  ap_disable_timer_def normal_poweroff_def bypass_poweroff_def bypass_keep_preState_def
  disable_bypass_def

lemma wp_write_enable:
  assumes "bypass_id s = M" "bit v 2"
    and "\<And>t. bypass_id t = M \<Longrightarrow> bp_enabled (bypass_ctrl t) \<Longrightarrow>
      bp_mode (bypass_ctrl t) = (bit v 4, bit v 3) \<Longrightarrow>
      bp_poweroff (bypass_ctrl t) =
        (bit (bypass_ctrl s) 1 \<or> bit v 1, bit (bypass_ctrl s) 0 \<or> bit v 0) \<Longrightarrow> Q 1 t"
  shows "wp (bypass_write M 2 v) Q s"
  using bypass_write_enable[OF assms(1) _ assms(2), of 2] by (auto elim!: wp_mono intro: assms(3))

lemma wp_write_disable:
  assumes "bypass_id s = M" "\<not> bit v 2"
    and "\<And>t. bypass_id t = M \<Longrightarrow> \<not> bp_enabled (bypass_ctrl t) \<Longrightarrow>
      bp_mode (bypass_ctrl t) = (False, True) \<Longrightarrow>
      bp_poweroff (bypass_ctrl t) = bp_poweroff (bypass_ctrl s) \<Longrightarrow> Q 1 t"
  shows "wp (bypass_write M 2 v) Q s"
  using bypass_write_disable[OF assms(1) _ assms(2), of 2] by (auto elim!: wp_mono intro: assms(3))

lemma enable_cmd:
  "bypass_id s = M \<Longrightarrow> wp (enable_bypass_immediately M)
     (\<lambda>_ t. bp_enabled (bypass_ctrl t) \<and> bp_mode (bypass_ctrl t) = (True, False)) s"
  by (auto simp: ap_defs bit_simps bit_numeral_rec intro!: wp_write_enable cong: bind_weak_cong)

lemma normal_cmd:
  "bypass_id s = M \<Longrightarrow> wp (ap_back2Normal M)
     (\<lambda>_ t. bp_enabled (bypass_ctrl t) \<and> bp_mode (bypass_ctrl t) = (False, True)) s"
  by (auto simp: ap_defs bit_simps bit_numeral_rec intro!: wp_write_enable cong: bind_weak_cong)

lemma disable_cmd:
  "bypass_id s = M \<Longrightarrow> wp (disable_bypass M)
     (\<lambda>_ t. \<not> bp_enabled (bypass_ctrl t) \<and> bp_mode (bypass_ctrl t) = (False, True)) s"
  by (auto simp: ap_defs bit_simps bit_numeral_rec intro!: wp_write_disable cong: bind_weak_cong)

text \<open>
  The program's timer word always has a zero low byte, so its command to stop the timer
  sends the word 0: the driver then drops the enable bit and leaves the timer register alone.
\<close>

lemma write_more: "wp (bypass_write M n v) (\<lambda>_ t. bypass_state.more t = bypass_state.more s) s"
  by (auto simp: bypass_write_def bypass_defs Let_def cong: bind_weak_cong)

lemma read_more: "wp (bypass_read E M n q) (\<lambda>_ t. bypass_state.more t = bypass_state.more s) s"
  by (auto simp: bypass_read_def bypass_defs Let_def intro!: wp_inb cong: bind_weak_cong)

lemma ap_timer_more:
  "bypass_state.more t = bypass_state.more s \<Longrightarrow> ap_timer t = ap_timer s"
  "bypass_state.more t = bypass_state.more s \<Longrightarrow> ap_ctrl t = ap_ctrl s"
  by (cases t; cases s; simp)+

lemma wp_write_any:
  "(\<And>r t. ap_timer t = ap_timer s \<Longrightarrow> Q r t) \<Longrightarrow> wp (bypass_write M n v) Q s"
  by (rule wp_mono[OF write_more]) (auto dest: ap_timer_more)

lemma wp_read_any:
  "(\<And>r t. ap_timer t = ap_timer s \<Longrightarrow> Q r t) \<Longrightarrow> wp (bypass_read E M n q) Q s"
  by (rule wp_mono[OF read_more]) (auto dest: ap_timer_more)

lemma lo8_shift [simp]: "lo8 (push_bit 8 w) = 0"
  by (rule bit_eqI) (auto simp: lo8_def bit_simps)

lemma lo8_bits [simp]: "lo8 (a AND b) = lo8 a AND lo8 b" "lo8 (a OR b) = lo8 a OR lo8 b"
  by (rule bit_eqI; auto simp: lo8_def bit_simps)+

lemma ap_step_timer:
  "lo8 (ap_timer s) = 0 \<Longrightarrow> wp (bypass_ap_step E M i) (\<lambda>_ t. lo8 (ap_timer t) = 0) s"
  by (auto simp: bypass_ap_step_def ap_defs ap_check_timer_status_def ap_check_bypass_status_def
      rd_bypass_def bypass_release_def lo8_def[of "numeral _"] intro!: wp_write_any wp_read_any cong: bind_weak_cong)

lemma ap_loop_timer:
  "lo8 (ap_timer s) = 0 \<Longrightarrow> wp (bypass_ap_loop E M is) (\<lambda>_ t. lo8 (ap_timer t) = 0) s"
proof (induction "is" arbitrary: s)
  case (Cons i "is")
  show ?case
    by (simp, rule wp_mono[OF ap_step_timer[OF Cons.prems]]) (simp add: Cons.IH)
qed simp

lemma shift_low_zero:
  assumes "lo8 w = 0"
  shows "push_bit 8 (w AND 0xBF) = 0"
proof (rule bit_word_eqI)
  fix n assume n: "n < LENGTH(16)"
  have "\<not> bit (lo8 w) (n - 8)" using assms by simp
  with n show "bit (push_bit 8 (w AND 0xBF)) n = bit (0 :: u16) n"
    by (auto simp: lo8_def bit_simps)
qed

end
