(* ===== verification/BoardProps.thy ===== *)
theory BoardProps
  imports Fan LedIO PowerIO BypassAp
begin

text \<open>
  The properties of the fan, LED, reset-button and LAN-bypass drivers and of the bypass
  program, each with a concrete instance where it has hypotheses.
\<close>

section \<open>Fan\<close>

definition fan_zero :: oak3030_fan_struct where
  "fan_zero = \<lparr>hist = [], fan_id = -1, fan_BasePort = 0, fan_AddrPort = 0, fan_DataPort = 0\<rparr>"

text \<open>
  Opening the free fan device succeeds for every chip: the environment controller is
  activated, its address and data ports follow its base, bit 0 of the tachometer and control
  registers is set, and the chip is outside configuration mode.  The main control register
  0x13, which the code reads, is never written; and a second open fails without an access.
\<close>

theorem fan_open_correct:
  assumes "fan_id s = -1" "0 \<le> m"
  shows "let t = exec (fan_open E m) s in
    val_of (fan_open E m) s = 0 \<and> sio_idle (hist t) \<and>
    fan_AddrPort t = fan_BasePort t + 5 \<and> fan_DataPort t = fan_BasePort t + 6 \<and>
    sio_reg (hist t) 0x04 0x30 = Some 0x01 \<and>
    (\<exists>v. sio_reg (hist t) 0x04 0x0C = Some v \<and> bit v 0) \<and>
    (\<exists>v. sio_reg (hist t) 0x04 0x14 = Some v \<and> bit v 0) \<and>
    sio_reg (hist t) 0x04 0x13 = sio_reg (hist s) 0x04 0x13 \<and>
    run_state (fan_open E k) t = (-1, t)"
  using fan_open_effect[OF assms(1), of E m] fan_dev.second_open_fails[OF assms(2), of E s k]
  by (simp add: Let_def)

theorem fan_open_correct_witness:
  "let t = exec (fan_open (\<lambda>_ _. 0) 7) fan_zero in
    val_of (fan_open (\<lambda>_ _. 0) 7) fan_zero = 0 \<and> sio_idle (hist t) \<and>
    fan_AddrPort t = fan_BasePort t + 5 \<and> fan_DataPort t = fan_BasePort t + 6 \<and>
    sio_reg (hist t) 0x04 0x30 = Some 0x01 \<and>
    (\<exists>v. sio_reg (hist t) 0x04 0x0C = Some v \<and> bit v 0) \<and>
    (\<exists>v. sio_reg (hist t) 0x04 0x14 = Some v \<and> bit v 0) \<and>
    sio_reg (hist t) 0x04 0x13 = sio_reg (hist fan_zero) 0x04 0x13 \<and>
    run_state (fan_open (\<lambda>_ _. 0) 8) t = (-1, t)"
  by (rule fan_open_correct) (simp_all add: fan_zero_def)

text \<open>
  A read by the holder performs exactly two indexed reads and returns the 16-bit
  tachometer count, high byte from register 0x18 and low byte from 0x0D; a read by anyone
  else fails and touches no port.
\<close>

theorem fan_read_correct:
  "let (r, t) = run_state (fan_read E m) s in
   if fan_id s = m then \<exists>h l. r = (1, Some (join16 h l)) \<and>
     hist t = Inb (fan_DataPort s) l # Outb 0x0D (fan_AddrPort s) #
              Inb (fan_DataPort s) h # Outb 0x18 (fan_AddrPort s) # hist s
   else r = (-1, None) \<and> t = s"
proof (cases "fan_id s = m")
  case True
  from fan_read_wp[OF this, of E, unfolded wp_iff] True show ?thesis
    by (cases "run_state (fan_read E m) s") (auto simp: Let_def)
next
  case False
  then show ?thesis by (simp add: fan_read_def)
qed

section \<open>LEDs\<close>

text \<open>
  Opening the free LED device succeeds for every chip: both LED pins are routed to the
  GPIO block, selected, given their polarity, simple-I/O and output settings, the data port is
  the GPIO base and the chip is outside configuration mode; a second open fails.
\<close>

theorem led_open_correct:
  assumes "led_id s = -1" "0 \<le> m"
  shows "let t = exec (ledio_open E m) s in
    val_of (ledio_open E m) s = 0 \<and> sio_idle (hist t) \<and> led_DataPort t = led_Port_base t \<and>
    led_pins_set (sio_reg (hist t) 0x07 0x2A) \<and> led_pins_set (sio_reg (hist t) 0x07 0x25) \<and>
    led_pins_clear (sio_reg (hist t) 0x07 0xB0) \<and> led_pins_set (sio_reg (hist t) 0x07 0xB8) \<and>
    led_pins_set (sio_reg (hist t) 0x07 0xC8) \<and> led_pins_set (sio_reg (hist t) 0x07 0xC0) \<and>
    run_state (ledio_open E k) t = (-1, t)"
  using ledio_open_effect[OF assms(1), of E m] led_dev.second_open_fails[OF assms(2), of E s k]
  by (simp add: Let_def)

definition led_zero :: oak3030_ledio_struct where
  "led_zero = \<lparr>hist = [], led_id = -1, led_Port_base = 0, led_DataPort = 0\<rparr>"

theorem led_open_correct_witness:
  "let t = exec (ledio_open (\<lambda>_ _. 0) 7) led_zero in
    val_of (ledio_open (\<lambda>_ _. 0) 7) led_zero = 0 \<and> sio_idle (hist t) \<and>
    led_DataPort t = led_Port_base t \<and>
    led_pins_set (sio_reg (hist t) 0x07 0x2A) \<and> led_pins_set (sio_reg (hist t) 0x07 0x25) \<and>
    led_pins_clear (sio_reg (hist t) 0x07 0xB0) \<and> led_pins_set (sio_reg (hist t) 0x07 0xB8) \<and>
    led_pins_set (sio_reg (hist t) 0x07 0xC8) \<and> led_pins_set (sio_reg (hist t) 0x07 0xC0) \<and>
    run_state (ledio_open (\<lambda>_ _. 0) 8) t = (-1, t)"
  by (rule led_open_correct) (simp_all add: led_zero_def)

text \<open>
  The last configuration step writes the pins' I/O mode register 0xC0 with the value just
  read from the GPIO selection register 0x25, not from 0xC0 itself: the mode bits of the
  other pins are overwritten with their selection bits.
\<close>

theorem led_mode_from_select:
  assumes "led_id s = -1"
  shows "\<exists>w h. hist (exec (ledio_open E m) s) =
    Outb 0x02 0x2F # Outb 0x02 0x2E # Outb (w OR 0x03) 0x2F # Outb 0xC0 0x2E #
    Inb 0x2F w # Outb 0x25 0x2E # h"
proof -
  have "wp (ledio_open E m) (\<lambda>_ t. \<exists>w h. hist t =
    Outb 0x02 0x2F # Outb 0x02 0x2E # Outb (w OR 0x03) 0x2F # Outb 0xC0 0x2E #
    Inb 0x2F w # Outb 0x25 0x2E # h) s"
    using assms
    by (auto simp: ledio_open_def led.wp_enter led.wp_set Let_def intro!: led.wp_get
        cong: bind_weak_cong)
  then show ?thesis by (simp add: wp_iff)
qed

theorem led_mode_from_select_witness:
  "\<exists>w h. hist (exec (ledio_open (\<lambda>_ _. 0) 7) led_zero) =
    Outb 0x02 0x2F # Outb 0x02 0x2E # Outb (w OR 0x03) 0x2F # Outb 0xC0 0x2E #
    Inb 0x2F w # Outb 0x25 0x2E # h"
  by (rule led_mode_from_select) (simp add: led_zero_def)

text \<open>
  A write by the holder of 1 to 32 bytes puts each byte on the GPIO data port, in order,
  and returns the count; a write by anyone else, an empty write and an oversized write touch
  no port and return -1, 0 and -1.
\<close>

theorem led_write_correct:
  "run_state (ledio_write m kbuf n) s =
    (if led_id s \<noteq> m then (-1, s) else if n = 0 then (0, s) else if n > 32 then (-1, s)
     else (int n, s\<lparr>hist := rev (map (\<lambda>c. Outb c (led_DataPort s)) (take n kbuf)) @ hist s\<rparr>))"
  by (simp add: ledio_write_def run_for_each led_write_all)

section \<open>Reset button\<close>

definition pwr_zero :: oak20x0_powerio_struct where
  "pwr_zero = \<lparr>hist = [], pwr_id = -1, pwr_Port_base = 0, pwr_DataPort = 0\<rparr>"

text \<open>
  Opening the free button device succeeds for every chip: pin GPIO-52 is selected and its
  direction bit cleared (input), the chip is outside configuration mode, a read by the holder
  then samples the data port once and returns the pin's bit, and a second open fails.
\<close>

theorem power_open_read:
  assumes "pwr_id s = -1" "0 \<le> m"
  shows "let t = exec (powerio_open E m) s; (r, u) = run_state (powerio_read E m) t in
    val_of (powerio_open E m) s = 0 \<and> sio_idle (hist t) \<and>
    pwr_DataPort t = pwr_Port_base t + 4 \<and>
    pwr_pin (sio_reg (hist t) 0x07 0x29) = Some True \<and>
    pwr_pin (sio_reg (hist t) 0x07 0xCC) = Some False \<and>
    (\<exists>v. hist u = Inb (pwr_DataPort t) v # hist t \<and> r = (1, Some (of_bool (bit v 2)))) \<and>
    run_state (powerio_open E k) t = (-1, t)"
proof -
  let ?t = "exec (powerio_open E m) s"
  note o = powerio_open_effect[OF assms(1), of E m]
  with powerio_read_wp[of ?t m E, unfolded wp_iff] pwr_dev.second_open_fails[OF assms(2), of E s k]
  show ?thesis by (cases "run_state (powerio_read E m) ?t") (auto simp: Let_def)
qed

theorem power_open_read_witness:
  "let t = exec (powerio_open (\<lambda>_ _. 4) 7) pwr_zero;
       (r, u) = run_state (powerio_read (\<lambda>_ _. 4) 7) t in
    val_of (powerio_open (\<lambda>_ _. 4) 7) pwr_zero = 0 \<and> sio_idle (hist t) \<and>
    pwr_DataPort t = pwr_Port_base t + 4 \<and>
    pwr_pin (sio_reg (hist t) 0x07 0x29) = Some True \<and>
    pwr_pin (sio_reg (hist t) 0x07 0xCC) = Some False \<and>
    (\<exists>v. hist u = Inb (pwr_DataPort t) v # hist t \<and> r = (1, Some (of_bool (bit v 2)))) \<and>
    run_state (powerio_open (\<lambda>_ _. 4) 8) t = (-1, t)"
  by (rule power_open_read) (simp_all add: pwr_zero_def)

section \<open>LAN bypass\<close>

text \<open>
  C26: In every state the bypass driver can reach from module initialisation with any
  sequence of opens, reads, writes and releases, the controller's registers of an open device
  hold exactly the driver's copies, and a disabled function is never left in a bypass mode.
\<close>

theorem bypass_reachable_consistent:
  assumes "bypass_step\<^sup>*\<^sup>* bypass_boot s" "bypass_id s \<noteq> -1"
  shows "bp_reg (hist s) BYPASS_CTRL_REG = Some (bypass_ctrl s) \<and>
    bp_reg (hist s) BYPASS_TIMER_REG = Some (bypass_timer s) \<and>
    (\<not> bp_enabled (bypass_ctrl s) \<longrightarrow> \<not> fst (bp_mode (bypass_ctrl s)))"
  using bypass_reach_ok[OF assms(1)] assms(2) by (simp add: bypass_ok_def bp_inv_def)

definition bypass_opened :: bypass_state where
  "bypass_opened = exec (bypass_open 3) bypass_boot"

lemma bypass_opened_reach: "bypass_step\<^sup>*\<^sup>* bypass_boot bypass_opened"
  unfolding bypass_opened_def by (rule r_into_rtranclp) (rule bp_open, simp)

lemma bypass_opened_id: "bypass_id bypass_opened = 3"
  using bypass_open_effect[of bypass_boot 3] by (simp add: bypass_opened_def bypass_boot_def)

theorem bypass_reachable_consistent_witness:
  "bp_reg (hist bypass_opened) BYPASS_CTRL_REG = Some (bypass_ctrl bypass_opened) \<and>
    bp_reg (hist bypass_opened) BYPASS_TIMER_REG = Some (bypass_timer bypass_opened)"
  using bypass_reachable_consistent[OF bypass_opened_reach] by (simp add: bypass_opened_id)

text \<open>
  C27: What a write of the control word \<open>v\<close> by the holder does on every branch: with the
  enable bit set the mode bits become the requested ones and the power-off bits are added to
  those already set (none is ever cleared); without it the function is disabled and the line
  back to normal; the timer register is loaded, and started, only by a timer-mode word with a
  non-zero code.
\<close>

theorem bypass_write_correct:
  assumes "bypass_id s = m" "n \<noteq> 0"
  shows "let t = exec (bypass_write m n v) s in
    val_of (bypass_write m n v) s = 1 \<and> bp_enabled (bypass_ctrl t) = bit v 2 \<and>
    bp_mode (bypass_ctrl t) = (if bit v 2 then (bit v 4, bit v 3) else (False, True)) \<and>
    bp_poweroff (bypass_ctrl t) =
      (bit (bypass_ctrl s) 1 \<or> (bit v 2 \<and> bit v 1), bit (bypass_ctrl s) 0 \<or> (bit v 2 \<and> bit v 0)) \<and>
    bypass_timer t = (if bit v 4 \<and> bit v 3 \<and> hi8 v AND 0x0F \<noteq> 0
      then bypass_timer s AND 0xF0 OR (0x40 OR (hi8 v AND 0x0F)) else bypass_timer s)"
  using bypass_write_enable[OF assms, of v] bypass_write_disable[OF assms, of v]
    bypass_write_timer[OF assms, of v]
  by (cases "bit v 2") (simp_all add: wp_iff Let_def bp_poweroff_def)

theorem bypass_write_correct_witness:
  "let t = exec (bypass_write 3 2 0x0514) bypass_opened in
    val_of (bypass_write 3 2 0x0514) bypass_opened = 1 \<and>
    bp_enabled (bypass_ctrl t) = bit (0x0514 :: u16) 2 \<and>
    bp_mode (bypass_ctrl t) = (if bit (0x0514 :: u16) 2
      then (bit (0x0514 :: u16) 4, bit (0x0514 :: u16) 3) else (False, True)) \<and>
    bp_poweroff (bypass_ctrl t) =
      (bit (bypass_ctrl bypass_opened) 1 \<or> (bit (0x0514 :: u16) 2 \<and> bit (0x0514 :: u16) 1),
       bit (bypass_ctrl bypass_opened) 0 \<or> (bit (0x0514 :: u16) 2 \<and> bit (0x0514 :: u16) 0)) \<and>
    bypass_timer t =
      (if bit (0x0514 :: u16) 4 \<and> bit (0x0514 :: u16) 3 \<and> hi8 0x0514 AND 0x0F \<noteq> 0
      then bypass_timer bypass_opened AND 0xF0 OR (0x40 OR (hi8 0x0514 AND 0x0F))
      else bypass_timer bypass_opened)"
  by (rule bypass_write_correct) (simp_all add: bypass_opened_id)


definition ap_opened :: bypass_ap where
  "ap_opened = bypass_state.extend bypass_opened (bypass_ap.fields 0 0 [])"

lemma ap_opened_id: "bypass_id ap_opened = 3"
  using bypass_opened_id by (simp add: ap_opened_def bypass_state.defs)


text \<open>
  After any sequence of commands of the program, its command to stop the timer does not
  stop it: the word it sends is zero, so the driver disables the whole bypass function, puts
  the line back to normal and leaves the timer register as it was.
\<close>

theorem bypass_ap_timer_stop:
  assumes "lo8 (ap_timer s) = 0" "u = exec (bypass_ap_loop E M is) s" "bypass_id u = M"
  shows "let t = exec (ap_disable_timer M) u in
    bypass_timer t = bypass_timer u \<and> \<not> bp_enabled (bypass_ctrl t) \<and>
    bp_mode (bypass_ctrl t) = (False, True)"
proof -
  have "lo8 (ap_timer u) = 0"
    using ap_loop_timer[OF assms(1), of E M "is"] assms(2) by (simp add: wp_iff)
  then have z: "push_bit 8 (ap_timer u AND 0xBF) = 0" by (rule shift_low_zero)
  let ?u = "u\<lparr>ap_timer := 0\<rparr>"
  have id: "bypass_id ?u = M" using assms(3) by simp
  have "exec (ap_disable_timer M) u = exec (bypass_write M 2 0) ?u"
    using z by (simp add: ap_defs split: prod.splits)
  with bypass_write_disable[OF id, of 2 0] bypass_write_timer[OF id, of 2 0]
  show ?thesis by (simp add: wp_iff Let_def)
qed

theorem bypass_ap_timer_stop_witness:
  "let t = exec (ap_disable_timer 3) ap_opened in
    bypass_timer t = bypass_timer ap_opened \<and> \<not> bp_enabled (bypass_ctrl t) \<and>
    bp_mode (bypass_ctrl t) = (False, True)"
  by (rule bypass_ap_timer_stop[of ap_opened ap_opened "\<lambda>_ _. 0" 3 "[]"])
    (simp_all add: ap_opened_id, simp add: ap_opened_def bypass_state.defs bypass_ap.defs lo8_def)

end
