(* ===== verification/BoardAps.thy ===== *)
theory BoardAps
  imports Watchdog LedIO PowerIO
begin

text \<open>
  The command-line programs that run on the board drivers: watchdog/watchdog-ap, ledIO-ap,
  ledIO-ap-auto and resetIO-ap.  Their system calls are the drivers' file operations; a call
  on a descriptor that is not open has no effect on the driver.
\<close>

section \<open>watchdog-ap\<close>

text \<open>
  \<open>wa_file\<close> is the descriptor the kernel has on record for the device (at most one, since
  the driver admits one opener), \<open>wa_fd\<close> the program's variable, \<open>wa_live\<close> the bit of
  \<open>status\<close> that says the program believes the device open.
\<close>

record wd_ap = oak2030_watchdog_struct +
  wa_file :: "int option"
  wa_fd :: int
  wa_live :: bool
  wa_timeout :: u16

definition wa_open :: "port_env \<Rightarrow> int \<Rightarrow> (wd_ap, int) state" where
  "wa_open E n = do {
     r \<leftarrow> watchdog_open E;
     (if r < 0 then ret (-1) else do { modify (\<lambda>s. s\<lparr>wa_file := Some n\<rparr>); ret n })
   }"

definition wa_close :: "port_env \<Rightarrow> int \<Rightarrow> (wd_ap, unit) state" where
  "wa_close E fd = do {
     f \<leftarrow> gets wa_file;
     (if f = Some fd then do {
        r \<leftarrow> watchdog_release E;
        modify (\<lambda>s. s\<lparr>wa_file := None\<rparr>)
      } else skip)
   }"

definition wa_ioctl :: "port_env \<Rightarrow> int \<Rightarrow> wdioc \<Rightarrow> uaccess \<Rightarrow> (wd_ap, int \<times> user_out) state" where
  "wa_ioctl E fd cmd U = do {
     f \<leftarrow> gets wa_file;
     (if f = Some fd then watchdog_ioctl E cmd U else ret (-1, NoOut))
   }"

text \<open>The program's pointers are valid: no user access fails.\<close>

definition wa_access :: "u16 \<Rightarrow> uaccess" where
  "wa_access v = \<lparr>copy_fails = False, put_fails = False, got = v\<rparr>"

text \<open>
  One turn of the command loop: \<open>wi_ret\<close> and \<open>wi_char\<close> from \<open>stdin_read\<close>, \<open>wi_fd\<close> the
  descriptor an open would get, \<open>wi_set\<close> the value typed after T.  The result is \<open>quit\<close>.
\<close>

record wa_input =
  wi_ret :: int
  wi_char :: char
  wi_fd :: int
  wi_set :: u32

definition watchdog_ap_step :: "port_env \<Rightarrow> wa_input \<Rightarrow> (wd_ap, bool) state" where
  "watchdog_ap_step E i =
     (if wi_char i = CHR 0x0A then ret False
      else if wi_ret i > 0 then do {
        fd \<leftarrow> gets wa_fd;
        live \<leftarrow> gets wa_live;
        (if wi_char i = CHR ''Q'' then do {
           (if live then do { wa_close E fd; modify (\<lambda>s. s\<lparr>wa_live := False\<rparr>) } else skip);
           ret True
         } else if wi_char i = CHR ''O'' then do {
           fd \<leftarrow> wa_open E (wi_fd i);
           modify (\<lambda>s. s\<lparr>wa_fd := fd\<rparr>);
           (if fd \<le> 0 then skip else modify (\<lambda>s. s\<lparr>wa_live := True\<rparr>));
           ret False
         } else if wi_char i = CHR ''C'' then do {
           (if live then do { wa_close E fd; modify (\<lambda>s. s\<lparr>wa_live := False\<rparr>) } else skip);
           ret False
         } else if wi_char i = CHR ''R'' then do {
           r \<leftarrow> wa_ioctl E fd WDIOC_KEEPALIVE (wa_access 0); ret False
         } else if wi_char i = CHR ''E'' then do {
           r \<leftarrow> wa_ioctl E fd WDIOS_ENABLECARD (wa_access 0); ret False
         } else if wi_char i = CHR ''D'' then do {
           r \<leftarrow> wa_ioctl E fd WDIOS_DISABLECARD (wa_access 0); ret False
         } else if wi_char i = CHR ''G'' then do {
           (r, out) \<leftarrow> wa_ioctl E fd WDIOC_GETTIMEOUT (wa_access 0);
           (case out of PutTimeout t \<Rightarrow> modify (\<lambda>s. s\<lparr>wa_timeout := t\<rparr>) | _ \<Rightarrow> skip);
           ret False
         } else if wi_char i = CHR ''T'' then do {
           r \<leftarrow> wa_ioctl E fd WDIOC_SETTIMEOUT (wa_access (ucast (wi_set i))); ret False
         } else ret False)
      } else ret False)"

fun watchdog_ap_loop :: "port_env \<Rightarrow> wa_input list \<Rightarrow> (wd_ap, bool) state" where
  "watchdog_ap_loop E [] = ret False"
| "watchdog_ap_loop E (i # is) = do {
     quit \<leftarrow> watchdog_ap_step E i;
     (if quit then ret True else watchdog_ap_loop E is)
   }"

section \<open>ledIO-ap\<close>

text \<open>
  \<open>la_open\<close> is whether the descriptor is open, \<open>la_timer\<close> the flag \<open>ledtimer\<close> that the
  interval timer sets.
\<close>

record led_ap = oak3030_ledio_struct +
  la_open :: bool
  la_b :: u8
  la_auto :: bool
  la_timer :: bool
  la_index :: int

definition la_write :: "int \<Rightarrow> (led_ap, int) state" where
  "la_write M = do {
     op \<leftarrow> gets la_open;
     b \<leftarrow> gets la_b;
     (if op then ledio_write M [b] 1 else ret (-1))
   }"

definition la_close :: "(led_ap, unit) state" where
  "la_close = do {
     op \<leftarrow> gets la_open;
     (if op then do { r \<leftarrow> ledio_release; modify (\<lambda>s. s\<lparr>la_open := False\<rparr>) } else skip)
   }"

definition la_toggle :: "(led_ap, unit) state" where
  "la_toggle = modify (\<lambda>s. s\<lparr>la_b := la_b s XOR 0x03\<rparr>)"

text \<open>\<open>timer_handler\<close> of key.c\<close>

definition la_tick :: "(led_ap, unit) state" where
  "la_tick = do { t \<leftarrow> gets la_timer; (if \<not> t then modify (\<lambda>s. s\<lparr>la_timer := True\<rparr>) else skip) }"

definition ledio_ap_step :: "int \<Rightarrow> int \<Rightarrow> char \<Rightarrow> (led_ap, bool) state" where
  "ledio_ap_step M r c =
     (if c = CHR 0x0A then ret False else do {
        quit \<leftarrow> (if r > 0 then
            (if c = CHR ''q'' then do { la_close; ret True }
             else if c = CHR ''w'' then do { la_toggle; n \<leftarrow> la_write M; ret False }
             else if c = CHR ''t'' then do { modify (\<lambda>s. s\<lparr>la_auto := \<not> la_auto s\<rparr>); ret False }
             else ret False)
          else ret False);
        auto \<leftarrow> gets la_auto;
        timer \<leftarrow> gets la_timer;
        (if auto \<and> timer then do {
           modify (\<lambda>s. s\<lparr>la_timer := False\<rparr>);
           la_toggle;
           n \<leftarrow> la_write M;
           ret quit
         } else ret quit) })"

section \<open>ledIO-ap-auto\<close>

text \<open>One turn of the loop, \<open>tick\<close>: whether the interval timer fired since the last one.\<close>

definition led_auto_turn :: "int \<Rightarrow> bool \<Rightarrow> (led_ap, bool) state" where
  "led_auto_turn M tick = do {
     (if tick then la_tick else skip);
     auto \<leftarrow> gets la_auto;
     timer \<leftarrow> gets la_timer;
     (if auto \<and> timer then do {
        modify (\<lambda>s. s\<lparr>la_timer := False\<rparr>);
        la_toggle;
        n \<leftarrow> la_write M;
        modify (\<lambda>s. s\<lparr>la_index := la_index s + 1\<rparr>)
      } else skip);
     modify (\<lambda>s. s\<lparr>la_auto := \<not> la_auto s\<rparr>);
     i \<leftarrow> gets la_index;
     (if i > 10 then do {
        la_close;
        modify (\<lambda>s. s\<lparr>la_timer := True\<rparr>);
        ret True
      } else ret False)
   }"

text \<open>After the loop: turn the LED on.\<close>

definition led_auto_end :: "int \<Rightarrow> (led_ap, unit) state" where
  "led_auto_end M = do { modify (\<lambda>s. s\<lparr>la_b := 0x00\<rparr>); n \<leftarrow> la_write M; skip }"

fun led_auto_loop :: "int \<Rightarrow> bool list \<Rightarrow> (led_ap, bool) state" where
  "led_auto_loop M [] = ret False"
| "led_auto_loop M (tick # ticks) = do {
     quit \<leftarrow> led_auto_turn M tick;
     (if quit then do { led_auto_end M; ret True } else led_auto_loop M ticks)
   }"

section \<open>resetIO-ap\<close>

datatype pwr_msg = PwrHelp | PwrVal u8 | PwrErr int | PwrCmdErr | PwrPressed

record pwr_ap = oak20x0_powerio_struct +
  pa_open :: bool
  pa_b :: u8
  pa_out :: "pwr_msg list"

definition pa_print :: "pwr_msg \<Rightarrow> (pwr_ap, unit) state" where
  "pa_print m = modify (\<lambda>s. s\<lparr>pa_out := pa_out s @ [m]\<rparr>)"

definition pa_read :: "port_env \<Rightarrow> int \<Rightarrow> (pwr_ap, int) state" where
  "pa_read E M = do {
     op \<leftarrow> gets pa_open;
     (if op then do {
        (r, v) \<leftarrow> powerio_read E M;
        (case v of None \<Rightarrow> skip | Some b \<Rightarrow> modify (\<lambda>s. s\<lparr>pa_b := b\<rparr>));
        ret r
      } else ret (-1))
   }"

definition pa_close :: "(pwr_ap, unit) state" where
  "pa_close = do {
     op \<leftarrow> gets pa_open;
     (if op then do { r \<leftarrow> powerio_release; modify (\<lambda>s. s\<lparr>pa_open := False\<rparr>) } else skip)
   }"

definition powerio_ap_step :: "port_env \<Rightarrow> int \<Rightarrow> int \<Rightarrow> char \<Rightarrow> (pwr_ap, bool) state" where
  "powerio_ap_step E M r c =
     (if c = CHR 0x0A then ret False else do {
        quit \<leftarrow> (if r > 0 then
            (if c = CHR ''?'' then do { pa_print PwrHelp; ret False }
             else if c = CHR ''q'' then do { pa_close; ret True }
             else if c = CHR ''r'' then do {
               n \<leftarrow> pa_read E M;
               b \<leftarrow> gets pa_b;
               (if n > 0 then pa_print (PwrVal b) else pa_print (PwrErr n));
               ret False }
             else do { pa_print PwrCmdErr; ret False })
          else ret False);
        n \<leftarrow> pa_read E M;
        b \<leftarrow> gets pa_b;
        (if n > 0 \<and> b = 0 then pa_print PwrPressed else skip);
        ret quit })"

section \<open>The automatic LED program\<close>

text \<open>The bytes written so far, newest first: 3, 0, 3, 0, ...\<close>

fun la_log :: "nat \<Rightarrow> u16 \<Rightarrow> port_ev list" where
  "la_log 0 P = []"
| "la_log (Suc k) P = Outb (if even k then 0x03 else 0x00) P # la_log k P"

definition la_inv :: "int \<Rightarrow> u16 \<Rightarrow> port_ev list \<Rightarrow> led_ap \<Rightarrow> bool" where
  "la_inv M P h s \<longleftrightarrow> led_id s = M \<and> la_open s \<and> led_DataPort s = P \<and> 0 \<le> la_index s \<and>
     la_index s \<le> 10 \<and> la_b s = (if even (la_index s) then 0 else 3) \<and>
     hist s = la_log (nat (la_index s)) P @ h"

definition la_done :: "u16 \<Rightarrow> port_ev list \<Rightarrow> led_ap \<Rightarrow> bool" where
  "la_done P h s \<longleftrightarrow> \<not> la_open s \<and> hist s = la_log 11 P @ h"

lemma wp_la_write: "led_id s = M \<Longrightarrow> la_open s \<Longrightarrow>
  wp (la_write M) Q s = Q 1 (s\<lparr>hist := Outb (la_b s) (led_DataPort s) # hist s\<rparr>)"
  by (simp add: la_write_def ledio_write_def led_io_write_def)

lemma nat_suc: "0 \<le> (i :: int) \<Longrightarrow> nat (i + 1) = Suc (nat i)"
  by simp

lemma la_log_int: "0 \<le> i \<Longrightarrow>
  la_log (nat (i + 1)) P = Outb (if even i then 3 else 0) P # la_log (nat i) P"
  by (simp add: nat_suc even_nat_iff)

lemma led_auto_turn_wp:
  assumes inv: "la_inv M P h s"
  shows "wp (led_auto_turn M tick) (\<lambda>q t. if q then la_done P h t else la_inv M P h t) s"
proof -
  have i: "0 \<le> la_index s" using inv by (simp add: la_inv_def)
  have eleven: "10 < la_index s + 1 \<Longrightarrow> la_log (nat (la_index s + 1)) P = la_log 11 P"
    using inv by (simp add: la_inv_def)
  show ?thesis
    using inv la_log_int[OF i, of P] eleven
    by (auto simp: led_auto_turn_def la_tick_def la_toggle_def la_close_def ledio_release_def
        wp_la_write la_inv_def la_done_def cong: bind_weak_cong)
qed

lemma led_auto_loop_wp:
  "la_inv M P h s \<Longrightarrow> wp (led_auto_loop M ticks) (\<lambda>q t. q \<longrightarrow> la_done P h t \<and> la_b t = 0) s"
proof (induction ticks arbitrary: s)
  case (Cons tick ticks)
  have fin: "la_done P h t \<Longrightarrow>
      wp (led_auto_end M) (\<lambda>_ t. la_done P h t \<and> la_b t = 0) t" for t
    by (simp add: led_auto_end_def la_write_def la_done_def)
  show ?case
    by (simp, rule wp_mono[OF led_auto_turn_wp[OF Cons.prems]])
      (auto simp: Cons.IH intro!: wp_mono[OF fin] split: if_splits)
qed simp

text \<open>With the timer firing in every turn, one turn in two writes.\<close>

lemma led_auto_turn_on:
  assumes "la_inv M P h s" "la_auto s"
  shows "wp (led_auto_turn M True) (\<lambda>q t. q = (la_index s = 10) \<and>
    (\<not> q \<longrightarrow> la_inv M P h t \<and> \<not> la_auto t \<and> la_index t = la_index s + 1)) s"
  using led_auto_turn_wp[OF assms(1), of True] assms
  by (auto simp: led_auto_turn_def la_tick_def la_toggle_def la_close_def ledio_release_def
      wp_la_write la_inv_def la_done_def cong: bind_weak_cong)

lemma led_auto_turn_off:
  assumes "la_inv M P h s" "\<not> la_auto s"
  shows "wp (led_auto_turn M True) (\<lambda>q t. \<not> q \<and>
    la_inv M P h t \<and> la_auto t \<and> la_index t = la_index s) s"
  using assms
  by (auto simp: led_auto_turn_def la_tick_def la_inv_def cong: bind_weak_cong)

lemma led_auto_quits:
  "la_inv M P h s \<Longrightarrow> la_auto s \<Longrightarrow> la_index s = 10 - int n \<Longrightarrow>
   wp (led_auto_loop M (replicate (2 * n + 1) True)) (\<lambda>q _. q) s"
proof (induction n arbitrary: s)
  case 0
  then show ?case
    by simp (rule wp_mono[OF led_auto_turn_on[OF 0(1,2)]], simp add: wp_iff split: prod.splits)
next
  case (Suc n)
  define L where "L = replicate (2 * n + 1) True"
  have L: "replicate (2 * Suc n + 1) True = True # True # L" by (simp add: L_def)
  have IH: "la_inv M P h t \<Longrightarrow> la_auto t \<Longrightarrow> la_index t = 10 - int n \<Longrightarrow>
      wp (led_auto_loop M L) (\<lambda>q _. q) t" for t
    unfolding L_def by (rule Suc.IH)
  show ?case
    unfolding L using Suc.prems(3)
    by (simp only: led_auto_loop.simps wp_bind)
      (rule wp_mono[OF led_auto_turn_on[OF Suc.prems(1,2)]], simp,
        rule wp_mono[OF led_auto_turn_off], auto intro!: IH)
qed

section \<open>The watchdog program after a failed reopen\<close>

definition wa_stuck :: "int \<Rightarrow> port_ev list \<Rightarrow> wd_ap \<Rightarrow> bool" where
  "wa_stuck n h s \<longleftrightarrow> wd_opened s \<and> wa_file s = Some n \<and> n \<noteq> -1 \<and> wa_fd s = -1 \<and> hist s = h"

lemma wa_open_busy: "wd_opened s \<Longrightarrow> wp (wa_open E n) Q s = Q (-1) (s\<lparr>wd_opened := True\<rparr>)"
  by (simp add: wa_open_def watchdog_open_def EBUSY_def)

lemma wa_stuck_step:
  "wa_stuck n h s \<Longrightarrow> wp (watchdog_ap_step E i) (\<lambda>_ t. wa_stuck n h t) s"
  by (auto simp: watchdog_ap_step_def wa_close_def wa_ioctl_def wa_stuck_def wa_open_busy
      cong: bind_weak_cong)

lemma wa_stuck_loop:
  "wa_stuck n h s \<Longrightarrow> wp (watchdog_ap_loop E is) (\<lambda>_ t. wa_stuck n h t) s"
proof (induction "is" arbitrary: s)
  case (Cons i "is")
  show ?case
    by (simp, rule wp_mono[OF wa_stuck_step[OF Cons.prems]]) (simp add: Cons.IH)
qed simp

section \<open>Properties\<close>

text \<open>
  The automatic LED program writes the two LED bits alternately on and off, 3 first,
  eleven times in all whatever the timer does, and then ends with the device closed and 3 the
  last byte written: its final write that should turn the LED on goes to a closed descriptor
  and never reaches the port.  With the timer firing in every turn it ends within 21 turns.
\<close>

theorem led_auto_result:
  assumes "led_id s = M" "la_open s" "la_b s = 0" "la_auto s" "la_index s = 0"
  shows "let (quit, t) = run_state (led_auto_loop M ticks) s in
    (quit \<longrightarrow> hist t = la_log 11 (led_DataPort s) @ hist s \<and>
       hd (hist t) = Outb 0x03 (led_DataPort s) \<and> la_b t = 0) \<and>
    (ticks = replicate 21 True \<longrightarrow> quit)"
proof -
  have inv: "la_inv M (led_DataPort s) (hist s) s"
    using assms by (simp add: la_inv_def)
  have "hd (la_log 11 P @ h) = Outb 3 P" for P h
    using la_log.simps(2)[of 10 P] by simp
  with led_auto_loop_wp[OF inv, of ticks] led_auto_quits[OF inv assms(4), of 10] assms(5)
  show ?thesis by (auto simp: wp_def la_done_def split: prod.splits)
qed

definition led_ap_opened :: led_ap where
  "led_ap_opened = \<lparr>hist = [], led_id = 7, led_Port_base = 0x800, led_DataPort = 0x800,
     la_open = True, la_b = 0, la_auto = True, la_timer = False, la_index = 0\<rparr>"

theorem led_auto_result_witness:
  "let (quit, t) = run_state (led_auto_loop 7 (replicate 21 True)) led_ap_opened in
    quit \<and> hist t = la_log 11 0x800 \<and> hd (hist t) = Outb 0x03 0x800 \<and> la_b t = 0"
  using led_auto_result[of led_ap_opened 7 "replicate 21 True"]
  by (auto simp: led_ap_opened_def split: prod.splits)

text \<open>
  When the watchdog program is told to open the device a second time it overwrites its
  only descriptor with -1: from then on no sequence of commands, the one that closes the
  device and the one that stops the timer included, reaches the chip or closes the device.
\<close>

theorem watchdog_ap_reopen:
  assumes "wd_opened s" "wa_file s = Some n" "n \<noteq> -1"
    and "wi_ret i > 0" "wi_char i = CHR ''O''"
  shows "let t = exec (watchdog_ap_loop E (i # is)) s in
    hist t = hist s \<and> wd_opened t \<and> wa_file t = Some n"
proof -
  have "wp (watchdog_ap_step E i) (\<lambda>q t. \<not> q \<and> wa_stuck n (hist s) t) s"
    using assms by (simp add: watchdog_ap_step_def wa_open_busy wa_stuck_def cong: bind_weak_cong)
  then have "wp (watchdog_ap_loop E (i # is)) (\<lambda>_ t. wa_stuck n (hist s) t) s"
    by simp (erule wp_mono, simp add: wa_stuck_loop)
  then show ?thesis by (simp add: wp_iff wa_stuck_def Let_def)
qed

definition wd_ap_running :: wd_ap where
  "wd_ap_running = \<lparr>hist = [], wd_status = 0, wd_opened = True, timeout_counter = 0x100,
     gamePort_base = 0x201, wa_file = Some 3, wa_fd = 3, wa_live = True, wa_timeout = 0\<rparr>"

theorem watchdog_ap_reopen_witness:
  "let t = exec (watchdog_ap_loop (\<lambda>_ _. 0)
      [\<lparr>wi_ret = 1, wi_char = CHR ''O'', wi_fd = 4, wi_set = 0\<rparr>,
       \<lparr>wi_ret = 1, wi_char = CHR ''D'', wi_fd = 4, wi_set = 0\<rparr>]) wd_ap_running in
    hist t = hist wd_ap_running \<and> wd_opened t \<and> wa_file t = Some 3"
  by (rule watchdog_ap_reopen) (simp_all add: wd_ap_running_def)

end
