(* ===== verification/LcmCrc.thy ===== *)
theory LcmCrc
  imports Prelude
begin

text \<open>
  The checksum of the LCM panel protocol, lcm/lcm-ap-080414/panel-net.c: \<open>ByteCRC16\<close> and
  \<open>CalcCRC16Bytes\<close> on C's 32-bit \<open>int\<close>, a bit-serial reference (CRC-16 with polynomial
  0x1021, most significant bit first), their equivalence, and the residue property that the
  receiver's check relies on.
\<close>

section \<open>The code\<close>

text \<open>The do-while loop, \<open>bits\<close> iterations left; \<open>crc\<close> and \<open>k\<close> are 32-bit ints.\<close>

fun crc16_loop :: "nat \<Rightarrow> u32 \<Rightarrow> u32 \<Rightarrow> u32" where
  "crc16_loop 0 crc k = crc"
| "crc16_loop (Suc bits) crc k =
     crc16_loop bits
       (if (crc XOR k) AND 0x8000 \<noteq> 0 then push_bit 1 crc XOR 0x1021 else push_bit 1 crc)
       (push_bit 1 k)"

definition ByteCRC16 :: "u32 \<Rightarrow> u32 \<Rightarrow> u32" where
  "ByteCRC16 val crcin =
     (let k = push_bit 8 ((signed_drop_bit 8 crcin XOR val) AND 255)
      in push_bit 8 crcin XOR crc16_loop 8 0 k)"

text \<open>
  The checksum of a buffer.  The loop runs at least once, so an empty buffer is read out of
  bounds: \<open>None\<close>.  The result is returned as an unsigned short.
\<close>

definition CalcCRC16Bytes :: "u8 list \<Rightarrow> u16 option" where
  "CalcCRC16Bytes buffer =
     (if buffer = [] then None
      else Some (ucast (foldl (\<lambda>crc val. ByteCRC16 (ucast val) crc) 0 buffer)))"

section \<open>Bit-serial reference\<close>

definition crc_bit :: "u16 \<Rightarrow> bool \<Rightarrow> u16" where
  "crc_bit c b = (if bit c 15 \<noteq> b then push_bit 1 c XOR 0x1021 else push_bit 1 c)"

fun crc_bits :: "nat \<Rightarrow> u8 \<Rightarrow> u16 \<Rightarrow> u16" where
  "crc_bits 0 v c = c"
| "crc_bits (Suc n) v c = crc_bits n v (crc_bit c (bit v n))"

definition crc_byte :: "u16 \<Rightarrow> u8 \<Rightarrow> u16" where
  "crc_byte c v = crc_bits 8 v c"

definition crc_ref :: "u8 list \<Rightarrow> u16" where
  "crc_ref bs = foldl crc_byte 0 bs"

section \<open>Equivalence\<close>

lemma flag_8000: "((x :: u32) AND 0x8000 = 0) = (\<not> bit x 15)"
  using and_exp_eq_0_iff_not_bit[of x 15] by simp

lemma ucast_push_bit: "ucast (push_bit n (x :: u32)) = push_bit n (ucast x :: u16)"
  by (rule bit_word_eqI) (auto simp: bit_simps)

lemma ucast_double: "ucast (x * 2 :: u32) = (ucast x * 2 :: u16)"
  using ucast_push_bit[of 1 x] by simp

lemma bit_double16: "0 < j \<Longrightarrow> j < 16 \<Longrightarrow> bit ((c :: u16) * 2) j = bit c (j - 1)"
  using bit_push_bit_iff[of 1 c j] by simp

lemma bit_double32: "0 < j \<Longrightarrow> j < 32 \<Longrightarrow> bit ((c :: u32) * 2) j = bit c (j - 1)"
  using bit_push_bit_iff[of 1 c j] by simp

lemma ucast_xor: "ucast (x XOR y :: u32) = (ucast x XOR ucast y :: u16)"
  by (rule bit_word_eqI) (auto simp: bit_simps)

text \<open>
  After \<open>8 - n\<close> steps the reference register is the loop's \<open>crc\<close> combined with the input
  register shifted by as much.
\<close>

lemma crc16_loop_ref:
  assumes "n \<le> 8"
    and k: "\<And>i. i < n \<Longrightarrow> bit k (15 - (n - 1 - i)) = (bit c (15 - (n - 1 - i)) \<noteq> bit v i)"
  shows "ucast (crc16_loop n crc k) XOR push_bit n c = crc_bits n v (ucast crc XOR c)"
  using assms
proof (induction n arbitrary: crc k c)
  case 0
  then show ?case by simp
next
  case (Suc n)
  let ?c = "push_bit 1 c"
  let ?crc = "if (crc XOR k) AND 0x8000 \<noteq> 0 then push_bit 1 crc XOR 0x1021 else push_bit 1 crc"
  have k15: "bit k 15 = (bit c 15 \<noteq> bit v n)"
    using Suc.prems(2)[of n] by simp
  have step: "ucast ?crc XOR ?c = crc_bit (ucast crc XOR c) (bit v n)"
    by (auto simp: crc_bit_def flag_8000 k15 bit_simps ucast_double ucast_xor push_bit_xor
        xor.assoc xor.commute xor.left_commute)
  have "ucast (crc16_loop n ?crc (push_bit 1 k)) XOR push_bit n ?c
      = crc_bits n v (ucast ?crc XOR ?c)"
  proof (rule Suc.IH)
    fix i assume "i < n"
    with Suc.prems show "bit (push_bit 1 k) (15 - (n - 1 - i)) =
        (bit ?c (15 - (n - 1 - i)) \<noteq> bit v i)"
      using Suc.prems(2)[of i] by (simp add: bit_double16 bit_double32)
  qed (use Suc.prems in simp)
  then show ?case
    unfolding crc16_loop.simps step crc_bits.simps by (simp add: push_bit_push_bit)
qed

text \<open>
  The code's byte step, on the low 16 bits, is the bit-serial step, whatever the upper half
  of the running \<open>int\<close> holds.
\<close>

lemma and_255_bit: "bit ((x :: u32) AND 255) n = (n < 8 \<and> bit x n)"
proof -
  have "x AND 255 = take_bit 8 x" by (simp add: take_bit_eq_mask mask_eq_exp_minus_1)
  then show ?thesis by (simp add: bit_take_bit_iff)
qed

lemma high_byte_bit: "i < 8 \<Longrightarrow> bit (push_bit 8 ((y :: u32) AND 255)) (8 + i) = bit y i"
  by (subst bit_push_bit_iff) (simp add: and_255_bit)

lemma ByteCRC16_ref: "ucast (ByteCRC16 (ucast v) x) = crc_byte (ucast x) v"
proof -
  let ?k = "push_bit 8 ((signed_drop_bit 8 x XOR ucast v) AND 255)"
  have "ucast (crc16_loop 8 0 ?k) XOR push_bit 8 (ucast x)
      = crc_bits 8 v (ucast (0 :: u32) XOR (ucast x :: u16))"
  proof (rule crc16_loop_ref)
    fix i :: nat assume i: "i < 8"
    have "bit ?k (8 + i) = bit (signed_drop_bit 8 x XOR ucast v) i"
      using i by (rule high_byte_bit)
    also have "\<dots> = (bit (ucast x :: u16) (8 + i) \<noteq> bit v i)"
      using i by (simp add: bit_xor_iff bit_unsigned_iff bit_signed_drop_bit_iff add.commute)
    finally show "bit ?k (15 - (8 - 1 - i)) = (bit (ucast x :: u16) (15 - (8 - 1 - i)) \<noteq> bit v i)"
      using i by simp
  qed simp
  then show ?thesis
    by (simp add: ByteCRC16_def Let_def crc_byte_def ucast_xor ucast_push_bit xor.commute)
qed

lemma foldl_crc_ref:
  "ucast (foldl (\<lambda>crc val. ByteCRC16 (ucast val) crc) x bs) = foldl crc_byte (ucast x) bs"
  by (induction bs arbitrary: x) (simp_all add: ByteCRC16_ref)

lemma CalcCRC16Bytes_ref: "bs \<noteq> [] \<Longrightarrow> CalcCRC16Bytes bs = Some (crc_ref bs)"
  by (simp add: CalcCRC16Bytes_def crc_ref_def foldl_crc_ref)

section \<open>Residue\<close>

text \<open>Feeding the register its own high byte shifts it out without a single subtraction.\<close>

lemma crc_bits_own:
  "n \<le> 8 \<Longrightarrow> (\<And>i. i < n \<Longrightarrow> bit v i = bit c (15 - (n - 1 - i))) \<Longrightarrow> crc_bits n v c = push_bit n c"
proof (induction n arbitrary: c)
  case 0
  then show ?case by simp
next
  case (Suc n)
  have "bit v n = bit c 15" using Suc.prems(2)[of n] by simp
  then have "crc_bits (Suc n) v c = crc_bits n v (push_bit 1 c)" by (simp add: crc_bit_def)
  also have "\<dots> = push_bit n (push_bit 1 c)"
  proof (rule Suc.IH)
    fix i assume "i < n"
    with Suc.prems show "bit v i = bit (push_bit 1 c) (15 - (n - 1 - i))"
      using Suc.prems(2)[of i] by (simp add: bit_double16)
  qed (use Suc.prems in simp)
  finally show ?case by (simp add: push_bit_push_bit)
qed

lemma crc_byte_own: "crc_byte c (hi8 c) = push_bit 8 c"
  unfolding crc_byte_def
  by (rule crc_bits_own) (auto simp: hi8_def bit_unsigned_iff bit_drop_bit_eq)

lemma crc_residue: "crc_ref (bs @ [hi8 (crc_ref bs), lo8 (crc_ref bs)]) = 0"
proof -
  let ?c = "crc_ref bs"
  have hi: "hi8 (push_bit 8 ?c) = lo8 ?c"
    by (rule bit_word_eqI) (auto simp: hi8_def lo8_def bit_simps)
  have "crc_ref (bs @ [hi8 ?c, lo8 ?c]) = crc_byte (crc_byte ?c (hi8 ?c)) (lo8 ?c)"
    by (simp add: crc_ref_def)
  also have "\<dots> = push_bit 8 (push_bit 8 ?c)"
    unfolding crc_byte_own hi[symmetric] by simp
  also have "\<dots> = 0" by (rule bit_word_eqI) (auto simp: bit_simps)
  finally show ?thesis .
qed

end
