(* ===== verification/Lcm.thy ===== *)
theory Lcm
  imports LcmCrc
begin

text \<open>
  The LCM panel program, lcm/lcm-ap-080414/panel-net.c: transmitting command and data frames
  over the serial line, and the protocol state machine that answers received frames.

  Functions return \<open>None\<close> where the C code writes outside an array (undefined behaviour) or
  never returns.  \<open>W k n\<close> is the result of the \<open>k\<close>-th \<open>write\<close> system call when asked to
  write \<open>n\<close> bytes; \<open>sent\<close> collects the bytes the line accepted.
\<close>

section \<open>State\<close>

abbreviation CONNECT :: u8 where "CONNECT \<equiv> 0x05"
abbreviation DISCONNECT :: u8 where "DISCONNECT \<equiv> 0x06"
abbreviation WRITE :: u8 where "WRITE \<equiv> 0x08"
abbreviation PRINT1 :: u8 where "PRINT1 \<equiv> 0x09"
abbreviation PRINT2 :: u8 where "PRINT2 \<equiv> 0x0A"
abbreviation ACK :: u8 where "ACK \<equiv> 0x0B"
abbreviation NACK :: u8 where "NACK \<equiv> 0x0C"
abbreviation CONFIRM :: u8 where "CONFIRM \<equiv> 0x0D"
abbreviation RESET :: u8 where "RESET \<equiv> 0x0E"
abbreviation FRAME_MASK :: u8 where "FRAME_MASK \<equiv> 0xFF"
abbreviation ESC :: u8 where "ESC \<equiv> 0x1B"

definition RXFRAME_SIZE :: nat where "RXFRAME_SIZE = 22"
definition TXFRAME_SIZE :: nat where "TXFRAME_SIZE = 32"
definition MAX_INBUF_SIZE :: nat where "MAX_INBUF_SIZE = 128"

type_synonym uart = "nat \<Rightarrow> int \<Rightarrow> int"

record lcm =
  Mode :: nat
  dataframe :: "u8 list"
  txframe :: "u8 list"
  rx_len :: nat
  escFlag :: bool
  keys :: "u8 list"
  sent :: "u8 list"
  nwr :: nat

definition lcm_static :: lcm where
  "lcm_static = \<lparr>Mode = 0, dataframe = replicate RXFRAME_SIZE 0,
     txframe = replicate TXFRAME_SIZE 0, rx_len = 0, escFlag = False, keys = [],
     sent = [], nwr = 0\<rparr>"

text \<open>Total correctness of an optional result: it exists and satisfies \<open>Q\<close>.\<close>

definition wpo :: "'a option \<Rightarrow> ('a \<Rightarrow> bool) \<Rightarrow> bool" where
  "wpo m Q = (case m of None \<Rightarrow> False | Some x \<Rightarrow> Q x)"

lemma wpo_simps [simp]:
  "wpo (Some x) Q = Q x" "wpo None Q = False"
  "wpo (Option.bind m f) Q = wpo m (\<lambda>x. wpo (f x) Q)"
  "wpo (if b then m else n) Q = (if b then wpo m Q else wpo n Q)"
  by (simp_all add: wpo_def split: option.splits)

lemma wpo_cong [cong]: "m = m' \<Longrightarrow> wpo m Q = wpo m' Q"
  by simp

lemma wpoD: "wpo m Q \<Longrightarrow> \<exists>x. m = Some x \<and> Q x"
  by (auto simp: wpo_def split: option.splits)

lemma wpo_mono: "wpo m Q \<Longrightarrow> (\<And>x. Q x \<Longrightarrow> R x) \<Longrightarrow> wpo m R"
  by (auto simp: wpo_def split: option.splits)

section \<open>Transmitting\<close>

text \<open>
  \<open>put_charString\<close>: offer the rest of the buffer until all of it is accepted.  A negative
  result is retried; the number of bytes accepted is dropped from the front.
\<close>

partial_function (option) put_loop :: "uart \<Rightarrow> u8 list \<Rightarrow> lcm \<Rightarrow> lcm option" where
  "put_loop W s st =
     (let r = W (nwr st) (int (length s));
          k = (if 0 \<le> r \<and> r \<le> int (length s) then nat r else 0);
          st = st\<lparr>sent := sent st @ take k s, nwr := Suc (nwr st)\<rparr>;
          s = drop k s
      in if s \<noteq> [] then put_loop W s st else Some st)"

definition put_charString :: "uart \<Rightarrow> u8 list \<Rightarrow> lcm \<Rightarrow> (nat \<times> lcm) option" where
  "put_charString W s st = do { st \<leftarrow> put_loop W s st; Some (length s, st) }"

partial_function (option) put_char :: "uart \<Rightarrow> u8 \<Rightarrow> lcm \<Rightarrow> lcm option" where
  "put_char W c st =
     (let r = W (nwr st) 1;
          st = st\<lparr>sent := sent st @ (if 1 \<le> r then [c] else []), nwr := Suc (nwr st)\<rparr>
      in if r < 0 then put_char W c st else Some st)"

definition set_txframe :: "lcm \<Rightarrow> lcm" where
  "set_txframe st = st\<lparr>txframe := [FRAME_MASK, WRITE, 0x01, 0, 0, 0, 0, 0] @ drop 8 (txframe st)\<rparr>"

definition lcm_sw_init :: "lcm \<Rightarrow> lcm" where
  "lcm_sw_init st = set_txframe (st\<lparr>Mode := 0\<rparr>)"

definition send_cmd_frame :: "uart \<Rightarrow> u8 \<Rightarrow> lcm \<Rightarrow> lcm option" where
  "send_cmd_frame W cmd st = do {
     (k, st) \<leftarrow> put_charString W [FRAME_MASK, cmd, FRAME_MASK] st;
     Some st
   }"

text \<open>\<open>txframe[i++] = c\<close>; a write past the 32 bytes of the array is undefined.\<close>

definition tx_put :: "u8 \<Rightarrow> nat \<times> lcm \<Rightarrow> (nat \<times> lcm) option" where
  "tx_put c p = (case p of (i, st) \<Rightarrow>
     if i < TXFRAME_SIZE then Some (Suc i, st\<lparr>txframe := (txframe st)[i := c]\<rparr>) else None)"

definition is_special :: "u8 \<Rightarrow> bool" where
  "is_special c \<longleftrightarrow> c = 0xFF \<or> c = ESC"

definition tx_put_esc :: "u8 \<Rightarrow> nat \<times> lcm \<Rightarrow> (nat \<times> lcm) option" where
  "tx_put_esc c p = (if is_special c then tx_put ESC p \<bind> tx_put c else tx_put c p)"

definition crc_step :: "u8 \<Rightarrow> u16 \<Rightarrow> u16" where
  "crc_step c crc = ucast (ByteCRC16 (ucast c) (ucast crc))"

fun tx_data :: "u8 list \<Rightarrow> u16 \<times> (nat \<times> lcm) \<Rightarrow> (u16 \<times> (nat \<times> lcm)) option" where
  "tx_data [] p = Some p"
| "tx_data (c # cs) (crc, p) = do {
     p \<leftarrow> tx_put_esc c p;
     tx_data cs (crc_step c crc, p)
   }"

partial_function (option) tx_flush :: "uart \<Rightarrow> nat \<Rightarrow> nat \<Rightarrow> lcm \<Rightarrow> lcm option" where
  "tx_flush W i j st =
     (if i > 0 then do {
        (k, st) \<leftarrow> put_charString W (take i (drop j (txframe st))) st;
        tx_flush W (i - k) (j + k) st
      } else Some st)"

definition send_data_frame :: "uart \<Rightarrow> u8 \<Rightarrow> u8 list \<Rightarrow> lcm \<Rightarrow> lcm option" where
  "send_data_frame W cmd send_data st =
     (let len = of_nat (length send_data) :: u16;
          st = st\<lparr>txframe := (txframe st)[0 := FRAME_MASK, 1 := cmd, 2 := hi8 len, 3 := lo8 len]\<rparr>;
          crc = crc_step (lo8 len) (crc_step (hi8 len) (crc_step cmd 0))
      in do {
        (crc, p) \<leftarrow> tx_data send_data (crc, (4, st));
        p \<leftarrow> tx_put_esc (hi8 crc) p;
        p \<leftarrow> tx_put_esc (lo8 crc) p;
        (i, st) \<leftarrow> tx_put FRAME_MASK p;
        tx_flush W i 0 st
      })"

end
