(* ===== verification/LcmMain.thy ===== *)
theory LcmMain
  imports Lcm
begin

text \<open>
  The LCM panel program, second part: received frames (\<open>do_cmd_action\<close>,
  \<open>do_frame_analysis\<close>), the display commands, the reconnection timer (key.c) and the main
  loop of lcm/lcm-ap-080414/panel-net.c, with the variant of lcm/lcm-ap-testAuto.
\<close>

section \<open>Received frames\<close>

definition is_fun_key :: "u8 \<Rightarrow> bool" where
  "is_fun_key c \<longleftrightarrow> c \<in> set [0x31, 0x32, 0x33, 0x34, 0x35, 0x36, 0x37, 0x38, 0x39, 0x3A]"

definition lcm_fun_key :: "u8 \<Rightarrow> lcm \<Rightarrow> lcm" where
  "lcm_fun_key c st = (if is_fun_key c then st\<lparr>keys := keys st @ [c]\<rparr> else st)"

text \<open>\<open>do_frame_analysis(dataframe, sz)\<close>\<close>

definition do_frame_analysis :: "uart \<Rightarrow> nat \<Rightarrow> lcm \<Rightarrow> lcm option" where
  "do_frame_analysis W sz st =
     (if Mode st \<noteq> 2 then send_cmd_frame W NACK st
      else do {
        crc \<leftarrow> CalcCRC16Bytes (take sz (dataframe st));
        st \<leftarrow> (if crc = 0 then Some st else send_cmd_frame W NACK st);
        Some (if dataframe st ! 0 = WRITE then lcm_fun_key (dataframe st ! 3) st else st)
      })"

definition do_cmd_action :: "uart \<Rightarrow> u8 \<Rightarrow> lcm \<Rightarrow> lcm option" where
  "do_cmd_action W c st =
     (if Mode st \<noteq> 2 then
        if c = CONNECT then send_cmd_frame W ACK (st\<lparr>Mode := 1\<rparr>)
        else if c = ACK then do { st \<leftarrow> send_cmd_frame W CONFIRM st; Some (st\<lparr>Mode := 2\<rparr>) }
        else if c = NACK then do { st \<leftarrow> send_cmd_frame W CONFIRM st; Some (st\<lparr>Mode := 0\<rparr>) }
        else if c = CONFIRM then Some (st\<lparr>Mode := 2\<rparr>)
        else if c = RESET then
          do { st \<leftarrow> send_cmd_frame W CONNECT (lcm_sw_init st); Some (st\<lparr>Mode := 1\<rparr>) }
        else do { st \<leftarrow> send_cmd_frame W NACK st; Some (st\<lparr>Mode := 0\<rparr>) }
      else
        if c = ACK then send_cmd_frame W CONFIRM st
        else if c = NACK then Some st
        else if c = CONFIRM then Some st
        else if c = CONNECT then send_cmd_frame W NACK st
        else if c = DISCONNECT then send_cmd_frame W ACK st
        else if c = RESET then send_cmd_frame W CONNECT (lcm_sw_init st)
        else Some st)"

text \<open>\<open>dataframe[length++] = c\<close>; a write past the 22 bytes of the array is undefined.\<close>

definition rx_store :: "u8 \<Rightarrow> lcm \<Rightarrow> lcm option" where
  "rx_store c st =
     (if rx_len st < RXFRAME_SIZE
      then Some (st\<lparr>dataframe := (dataframe st)[rx_len st := c], rx_len := Suc (rx_len st)\<rparr>)
      else None)"

text \<open>One byte of the receive loop of \<open>main\<close>.\<close>

definition rx_byte :: "uart \<Rightarrow> u8 \<Rightarrow> lcm \<Rightarrow> lcm option" where
  "rx_byte W c st =
     (if c = ESC then
        if escFlag st then rx_store c (st\<lparr>escFlag := False\<rparr>)
        else Some (st\<lparr>escFlag := True\<rparr>)
      else if escFlag st then rx_store c (st\<lparr>escFlag := False\<rparr>)
      else if c = FRAME_MASK then
        if rx_len st > 0 then do {
          st \<leftarrow> (if rx_len st = 1 then do_cmd_action W (dataframe st ! 0) st
                else do_frame_analysis W (rx_len st) st);
          Some (st\<lparr>rx_len := 0\<rparr>)
        }
        else Some st
      else rx_store c st)"

fun rx_bytes :: "uart \<Rightarrow> u8 list \<Rightarrow> lcm \<Rightarrow> lcm option" where
  "rx_bytes W [] st = Some st"
| "rx_bytes W (c # cs) st = do { st \<leftarrow> rx_byte W c st; rx_bytes W cs st }"

text \<open>
  \<open>datafound = get_charString(inBuf); inBuf[datafound] = 0; ...\<close>: the byte written behind the
  data lies outside the 128-byte buffer when \<open>read\<close> failed (-1) or filled it.
\<close>

definition rx_chunk :: "uart \<Rightarrow> int \<Rightarrow> u8 list \<Rightarrow> lcm \<Rightarrow> lcm option" where
  "rx_chunk W datafound inBuf st =
     (if 0 \<le> datafound \<and> datafound < int MAX_INBUF_SIZE
      then rx_bytes W (take (nat datafound) inBuf) st else None)"

section \<open>Display commands\<close>

text \<open>A command that is only sent in the connected mode.\<close>

definition lcm_cmd :: "uart \<Rightarrow> u8 \<Rightarrow> lcm \<Rightarrow> lcm option" where
  "lcm_cmd W cmd st = (if Mode st = 2 then send_cmd_frame W cmd st else Some st)"

definition lcm_clear where "lcm_clear W = lcm_cmd W 0x21"
definition lcm_return_home where "lcm_return_home W = lcm_cmd W 0x22"
definition lcm_move_line2 where "lcm_move_line2 W = lcm_cmd W 0x27"
definition lcm_cursor_on where "lcm_cursor_on W = lcm_cmd W 0x2A"
definition lcm_cursor_off where "lcm_cursor_off W = lcm_cmd W 0x2B"
definition lcm_cursor_blink where "lcm_cursor_blink W = lcm_cmd W 0x2C"
definition lcm_display_on where "lcm_display_on W = lcm_cmd W 0x2D"
definition lcm_display_off where "lcm_display_off W = lcm_cmd W 0x2E"

definition lcm_backlight :: "uart \<Rightarrow> u8 \<Rightarrow> lcm \<Rightarrow> lcm option" where
  "lcm_backlight W status = lcm_cmd W (if status \<noteq> 0 then 0x25 else 0x26)"

text \<open>The shift commands: the same frame \<open>i\<close> times, \<open>i\<close> a C int.\<close>

fun repeat_cmd :: "uart \<Rightarrow> u8 \<Rightarrow> nat \<Rightarrow> lcm \<Rightarrow> lcm option" where
  "repeat_cmd W cmd 0 st = Some st"
| "repeat_cmd W cmd (Suc n) st = do { st \<leftarrow> send_cmd_frame W cmd st; repeat_cmd W cmd n st }"

definition shift_cmd :: "uart \<Rightarrow> u8 \<Rightarrow> int \<Rightarrow> lcm \<Rightarrow> lcm option" where
  "shift_cmd W cmd i st = (if Mode st = 2 then repeat_cmd W cmd (nat i) st else Some st)"

definition lcm_cursor_shift_right where "lcm_cursor_shift_right W = shift_cmd W 0x23"
definition lcm_cursor_shift_left where "lcm_cursor_shift_left W = shift_cmd W 0x24"
definition lcm_display_shift_right where "lcm_display_shift_right W = shift_cmd W 0x28"
definition lcm_display_shift_left where "lcm_display_shift_left W = shift_cmd W 0x29"

text \<open>
  \<open>lcm_print_msg\<close>: the argument is the memory from the pointer on, \<open>strlen\<close> the bytes before
  its first zero, kept in an unsigned short.
\<close>

definition strlen :: "u8 list \<Rightarrow> nat" where
  "strlen s = length (takeWhile (\<lambda>c. c \<noteq> 0) s)"

definition print_msg :: "uart \<Rightarrow> u8 \<Rightarrow> u8 list \<Rightarrow> lcm \<Rightarrow> lcm option" where
  "print_msg W cmd s st =
     (if Mode st = 2 then
        (let len = unat (of_nat (strlen s) :: u16) in
         if len = 0 then Some st else send_data_frame W cmd (take len s) st)
      else Some st)"

definition lcm_print_msg1 where "lcm_print_msg1 W = print_msg W PRINT1"
definition lcm_print_msg2 where "lcm_print_msg2 W = print_msg W PRINT2"

definition check_connect_status :: "uart \<Rightarrow> lcm \<Rightarrow> lcm option" where
  "check_connect_status W st =
     (if Mode st = 0 then do { st \<leftarrow> send_cmd_frame W CONNECT st; Some (st\<lparr>Mode := 1\<rparr>) }
      else if Mode st = 1 then Some (st\<lparr>Mode := 0\<rparr>) else Some st)"

text \<open>\<open>timer_handler\<close>: every second expiry of the timer checks the connection.\<close>

definition timer_handler :: "uart \<Rightarrow> int \<times> lcm \<Rightarrow> (int \<times> lcm) option" where
  "timer_handler W p = (case p of (count, st) \<Rightarrow>
     if count + 1 = 2 then do { st \<leftarrow> check_connect_status W st; Some (0, st) }
     else Some (count + 1, st))"

section \<open>Main loop\<close>

abbreviation byte :: "char \<Rightarrow> u8" where "byte \<equiv> of_char"
abbreviation cstring :: "string \<Rightarrow> u8 list" where "cstring s \<equiv> map of_char s @ [0]"

text \<open>The key switch of \<open>main\<close>; the result is \<open>quit\<close>.\<close>

definition key_action :: "uart \<Rightarrow> u8 \<Rightarrow> lcm \<Rightarrow> (bool \<times> lcm) option" where
  "key_action W c st =
     (if c = byte (CHR ''q'') then
        do { st \<leftarrow> send_cmd_frame W DISCONNECT st; Some (True, st\<lparr>Mode := 0\<rparr>) }
      else do {
        st \<leftarrow>
         (if c = 0x0A then Some st
          else if c = byte (CHR ''c'') then
            do { st \<leftarrow> send_cmd_frame W CONNECT st; Some (st\<lparr>Mode := 1\<rparr>) }
          else if c = byte (CHR ''d'') then
            if Mode st = 2
            then do { st \<leftarrow> send_cmd_frame W DISCONNECT st; Some (st\<lparr>Mode := 0\<rparr>) }
            else Some st
          else if c = byte (CHR ''h'') then lcm_clear W st
          else if c = byte (CHR ''r'') then lcm_return_home W st
          else if c = byte (CHR ''L'') then lcm_move_line2 W st
          else if c = byte (CHR ''1'') then lcm_print_msg1 W (cstring ''1-1234567890ABCDEFGH'') st
          else if c = byte (CHR ''2'') then lcm_print_msg2 W (cstring ''2-1234567890abcdefg'') st
          else if c = byte (CHR ''b'') then lcm_backlight W 1 st
          else if c = byte (CHR ''f'') then lcm_backlight W 0 st
          else if c = byte (CHR ''3'') then lcm_cursor_shift_left W 5 st
          else if c = byte (CHR ''4'') then lcm_cursor_shift_right W 5 st
          else if c = byte (CHR ''5'') then lcm_display_shift_left W 5 st
          else if c = byte (CHR ''6'') then lcm_display_shift_right W 5 st
          else if c = byte (CHR ''7'') then lcm_cursor_on W st
          else if c = byte (CHR ''8'') then lcm_cursor_off W st
          else if c = byte (CHR ''9'') then lcm_cursor_blink W st
          else if c = byte (CHR ''0'') then lcm_display_off W st
          else if c = byte (CHR ''p'') then lcm_display_on W st
          else put_char W c st);
        Some (False, st)
      })"

text \<open>
  One turn of the main loop.  \<open>rd\<close> is the result of \<open>read\<close> on the line when a SIGIO was
  received since the last turn, \<open>li_ret\<close> and \<open>li_c\<close> the result of \<open>stdin_read\<close> and the
  character it stored.
\<close>

record lcm_input =
  li_rd :: "(int \<times> u8 list) option"
  li_ret :: int
  li_c :: u8

definition lcm_turn :: "uart \<Rightarrow> lcm_input \<Rightarrow> lcm \<Rightarrow> (bool \<times> lcm) option" where
  "lcm_turn W x st = do {
     st \<leftarrow> (case li_rd x of Some (datafound, inBuf) \<Rightarrow> rx_chunk W datafound inBuf st
           | None \<Rightarrow> Some st);
     if li_ret x > 0 then key_action W (li_c x) st else Some (False, st)
   }"

text \<open>\<open>main\<close> after the line is open: reset the panel, then the turns until \<open>q\<close>.\<close>

fun lcm_turns :: "uart \<Rightarrow> lcm_input list \<Rightarrow> lcm \<Rightarrow> lcm option" where
  "lcm_turns W [] st = Some st"
| "lcm_turns W (x # xs) st = do {
     (quit, st) \<leftarrow> lcm_turn W x st;
     if quit then Some st else lcm_turns W xs st
   }"

definition lcm_main :: "uart \<Rightarrow> lcm_input list \<Rightarrow> lcm \<Rightarrow> lcm option" where
  "lcm_main W xs st = do {
     st \<leftarrow> send_cmd_frame W RESET ((lcm_sw_init st)\<lparr>Mode := 0, rx_len := 0, escFlag := False\<rparr>);
     lcm_turns W xs st
   }"

section \<open>The automatic test variant\<close>

text \<open>
  lcm-ap-testAuto: the keys \<open>s\<close> and \<open>t\<close> print the 20-byte buffer \<open>testBuf\<close>, filled with 0xFF
  and not terminated; \<open>after\<close> is the memory behind it.  With no key pending and the panel
  connected, the next character of \<open>testPattern\<close> is taken.
\<close>

definition testBuf :: "u8 list" where
  "testBuf = replicate 20 0xFF"

definition key_action_auto :: "uart \<Rightarrow> u8 list \<Rightarrow> u8 \<Rightarrow> lcm \<Rightarrow> (bool \<times> lcm) option" where
  "key_action_auto W after c st =
     (if c = byte (CHR ''s'') then
        do { st \<leftarrow> lcm_print_msg1 W (testBuf @ after) st; Some (False, st) }
      else if c = byte (CHR ''t'') then
        do { st \<leftarrow> lcm_print_msg2 W (testBuf @ after) st; Some (False, st) }
      else if c = byte (CHR ''2'') then
        do { st \<leftarrow> lcm_print_msg2 W (cstring ''2-1234567890abcdefgh'') st; Some (False, st) }
      else key_action W c st)"

definition testINDEX :: int where "testINDEX = 22"

definition testPattern :: "u8 list" where
  "testPattern = map of_char ''hrstrh12bfb33445566789'' @ replicate 4 0"

definition lcm_turn_auto ::
    "uart \<Rightarrow> u8 list \<Rightarrow> lcm_input \<Rightarrow> int \<times> lcm \<Rightarrow> (bool \<times> (int \<times> lcm)) option" where
  "lcm_turn_auto W after x p = (case p of (Idx, st) \<Rightarrow> do {
     st \<leftarrow> (case li_rd x of Some (datafound, inBuf) \<Rightarrow> rx_chunk W datafound inBuf st
           | None \<Rightarrow> Some st);
     let (key, Idx) =
       (if li_ret x < 0 \<and> Mode st = 2
        then (Some (testPattern ! nat Idx), if Idx + 1 \<ge> testINDEX then 0 else Idx + 1)
        else if li_ret x > 0 then (Some (li_c x), Idx) else (None, Idx));
     (case key of
        Some c \<Rightarrow> do { (quit, st) \<leftarrow> key_action_auto W after c st; Some (quit, (Idx, st)) }
      | None \<Rightarrow> Some (False, (Idx, st)))
   })"

definition lcm_start_auto :: "uart \<Rightarrow> lcm \<Rightarrow> lcm option" where
  "lcm_start_auto W st = do {
     st \<leftarrow> send_cmd_frame W RESET ((lcm_sw_init st)\<lparr>Mode := 0, rx_len := 0, escFlag := False\<rparr>);
     if Mode st = 0
     then do { st \<leftarrow> send_cmd_frame W CONNECT st; Some (st\<lparr>Mode := 1\<rparr>) }
     else Some st
   }"

end
