(* ===== verification/LcmRx.thy ===== *)
theory LcmRx
  imports LcmFacts
begin

text \<open>
  The receiving side of the LCM panel program: the receive buffer, round trip of the frame
  encoding, error detection, the connection handshake, and the well-formedness invariant of
  the program's state.
\<close>

section \<open>The receive buffer\<close>

lemma rx_bytes_append [simp]:
  "rx_bytes W (xs @ ys) st = rx_bytes W xs st \<bind> rx_bytes W ys"
  by (induction xs arbitrary: st) (auto split: Option.bind_splits)

lemma rx_escape1: "\<not> escFlag st \<Longrightarrow> rx_bytes W (escape [c]) st = rx_store c st"
  by (cases st) (auto simp: rx_byte_def is_special_def rx_store_def)

text \<open>The buffer with \<open>d\<close> stored behind the bytes it already holds.\<close>

definition rx_filled :: "u8 list \<Rightarrow> lcm \<Rightarrow> lcm" where
  "rx_filled d st = st\<lparr>dataframe := take (rx_len st) (dataframe st) @ d @
     drop (rx_len st + length d) (dataframe st), rx_len := rx_len st + length d\<rparr>"

definition rx_idle :: "lcm \<Rightarrow> bool" where
  "rx_idle st \<longleftrightarrow> rx_len st = 0 \<and> \<not> escFlag st \<and> length (dataframe st) = RXFRAME_SIZE"

lemma rx_escape:
  "\<not> escFlag st \<Longrightarrow> length (dataframe st) = RXFRAME_SIZE \<Longrightarrow> rx_len st \<le> RXFRAME_SIZE \<Longrightarrow>
   rx_bytes W (escape d) st =
     (if rx_len st + length d \<le> RXFRAME_SIZE then Some (rx_filled d st) else None)"
proof (induction d arbitrary: st)
  case Nil
  then show ?case by (cases st) (simp add: rx_filled_def)
next
  case (Cons c d)
  have 1: "rx_bytes W (escape (c # d)) st = rx_store c st \<bind> rx_bytes W (escape d)"
    using rx_escape1[OF Cons.prems(1), of W c] rx_bytes_append[of W "escape [c]" "escape d" st]
    by simp
  show ?case
  proof (cases "rx_len st < RXFRAME_SIZE")
    case False
    then show ?thesis unfolding 1 by (simp add: rx_store_def)
  next
    case True
    let ?st = "st\<lparr>dataframe := (dataframe st)[rx_len st := c], rx_len := Suc (rx_len st)\<rparr>"
    have "rx_filled d ?st = rx_filled (c # d) st"
      using True Cons.prems by (simp add: rx_filled_def take_Suc_conv_app_nth)
    then show ?thesis
      unfolding 1 using True Cons.prems Cons.IH[of ?st] by (simp add: rx_store_def)
  qed
qed

lemma rx_frame:
  assumes idle: "rx_idle st" and body: "body \<noteq> []" "length body \<le> RXFRAME_SIZE"
  shows "rx_bytes W (FRAME_MASK # escape body @ [FRAME_MASK]) st = do {
     st \<leftarrow> (if length body = 1 then do_cmd_action W (body ! 0) (rx_filled body st)
           else do_frame_analysis W (length body) (rx_filled body st));
     Some (st\<lparr>rx_len := 0\<rparr>) }"
proof -
  have "rx_byte W FRAME_MASK st = Some st"
    using idle by (simp add: rx_byte_def rx_idle_def)
  moreover have "rx_bytes W (escape body) st = Some (rx_filled body st)"
    using idle body by (simp add: rx_escape rx_idle_def)
  ultimately show ?thesis
    using idle body by (simp add: rx_byte_def rx_idle_def rx_filled_def nth_append)
qed

lemma rx_cmd:
  "rx_idle st \<Longrightarrow> \<not> is_special c \<Longrightarrow>
   rx_bytes W [FRAME_MASK, c, FRAME_MASK] st =
     do { st \<leftarrow> do_cmd_action W c (rx_filled [c] st); Some (st\<lparr>rx_len := 0\<rparr>) }"
  using rx_frame[of st "[c]" W] by (simp add: RXFRAME_SIZE_def)

section \<open>Error detection\<close>

lemma crc_bit_xor: "crc_bit (c XOR d) (a = (\<not> b)) = crc_bit c a XOR crc_bit d b"
  unfolding crc_bit_def
  by (auto simp: bit_xor_iff push_bit_xor xor.assoc xor.commute xor.left_commute)

lemma crc_bits_xor: "crc_bits n (v XOR w) (c XOR d) = crc_bits n v c XOR crc_bits n w d"
  by (induction n arbitrary: c d) (simp_all add: bit_xor_iff crc_bit_xor)

lemma crc_byte_xor: "crc_byte (c XOR d) (v XOR w) = crc_byte c v XOR crc_byte d w"
  by (simp add: crc_byte_def crc_bits_xor)

lemma crc_bit_zero: "crc_bit c False = 0 \<Longrightarrow> c = 0"
proof (rule bit_word_eqI)
  fix j assume z: "crc_bit c False = 0" and j: "j < LENGTH(16)"
  have top: "\<not> bit c 15"
  proof
    assume "bit c 15"
    then have "bit (crc_bit c False) 0" by (simp add: crc_bit_def bit_0 even_xor_iff)
    with z show False by simp
  qed
  then have sh: "push_bit 1 c = 0" using z by (simp add: crc_bit_def)
  show "bit c j = bit 0 j"
  proof (cases "j = 15")
    case False
    have "bit (push_bit 1 c) (Suc j) = bit c j"
      using j False by (simp only: bit_push_bit_iff) simp
    with sh show ?thesis by simp
  qed (use top in simp)
qed

lemma crc_bits_zero: "crc_bits n 0 c = 0 \<Longrightarrow> c = 0"
  by (induction n arbitrary: c) (auto dest: crc_bit_zero)

lemma crc_byte_zero: "crc_byte c 0 = 0 \<Longrightarrow> c = 0"
  by (simp add: crc_byte_def crc_bits_zero)

lemma push_join: "push_bit 8 (join16 a b) = join16 b 0"
  by (rule bit_word_eqI) (auto simp: join16_def bit_simps)

lemma join16_eq_0: "join16 a b = 0 \<longleftrightarrow> a = 0 \<and> b = 0"
proof
  assume "join16 a b = 0"
  then have "hi8 (join16 a b) = 0 \<and> lo8 (join16 a b) = 0"
    by (simp only:) (simp add: hi8_def lo8_def)
  then show "a = 0 \<and> b = 0" by simp
next
  assume "a = 0 \<and> b = 0"
  then show "join16 a b = 0" by (simp add: join16_def)
qed

lemma join16_0 [simp]: "join16 0 0 = 0"
  by (simp add: join16_eq_0)

lemma join16_xor: "join16 a b XOR join16 c d = join16 (a XOR c) (b XOR d)"
  by (rule bit_word_eqI) (auto simp: join16_def bit_simps dest: bit_imp_le_length)

lemma crc_byte_join: "crc_byte (join16 a b) a = join16 b 0"
  using crc_byte_own[of "join16 a b"] by (simp add: push_join)

lemma crc_byte_feed: "crc_byte c v = crc_byte (c XOR join16 v 0) 0"
  using crc_byte_xor[of c "join16 v 0" v v] by (simp add: crc_byte_join)

text \<open>An error of at most two adjacent bytes leaves a non-zero checksum.\<close>

lemma crc_two_bytes: "crc_byte (crc_byte 0 a) b = 0 \<Longrightarrow> a = 0 \<and> b = 0"
proof -
  assume "crc_byte (crc_byte 0 a) b = 0"
  then have "crc_byte (crc_byte (join16 a 0) 0 XOR join16 b 0) 0 = 0"
    by (simp add: crc_byte_feed[of 0 a] crc_byte_feed[of _ b])
  then have "crc_byte (join16 a 0) 0 XOR join16 b 0 = 0" by (rule crc_byte_zero)
  moreover have "crc_byte (join16 a 0 XOR join16 0 b) (0 XOR 0) =
      crc_byte (join16 a 0) 0 XOR join16 b 0"
    by (simp only: crc_byte_xor crc_byte_join)
  ultimately have "crc_byte (join16 a b) 0 = 0" by (simp add: join16_xor)
  then have "join16 a b = 0" by (rule crc_byte_zero)
  then show ?thesis by (simp add: join16_eq_0)
qed

lemma xor_zero_eq: "(a :: 'a::len word) XOR b = 0 \<Longrightarrow> a = b"
proof (rule bit_word_eqI)
  fix n assume "a XOR b = 0"
  then have "bit (a XOR b) n = bit 0 n" by simp
  then show "bit a n = bit b n" by (simp add: bit_xor_iff)
qed

lemma foldl_crc_diff:
  "foldl crc_byte c xs = foldl crc_byte d xs \<Longrightarrow> c = d"
proof (induction xs arbitrary: c d)
  case (Cons x xs)
  then have "crc_byte c x = crc_byte d x" by simp
  then have "crc_byte (c XOR d) (x XOR x) = 0" by (simp only: crc_byte_xor) simp
  then have "c XOR d = 0" using crc_byte_zero by simp
  then show ?case by (rule xor_zero_eq)
qed simp

lemma crc_burst:
  assumes "crc_ref (pre @ [a, b] @ post) = crc_ref (pre @ [a', b'] @ post)"
  shows "a = a' \<and> b = b'"
proof -
  let ?c = "foldl crc_byte 0 pre"
  have "crc_byte (crc_byte ?c a) b = crc_byte (crc_byte ?c a') b'"
    using assms by (auto simp: crc_ref_def dest: foldl_crc_diff)
  then have "crc_byte (crc_byte (?c XOR ?c) (a XOR a')) (b XOR b') = 0"
    by (simp only: crc_byte_xor) simp
  then have "a XOR a' = 0 \<and> b XOR b' = 0" by (intro crc_two_bytes) simp
  then show ?thesis by (auto dest: xor_zero_eq)
qed

section \<open>The analysis of a received frame\<close>

text \<open>Every frame of two bytes or more, whatever it holds, received in the connected mode.\<close>

definition frame_keys :: "u8 list \<Rightarrow> u8 list" where
  "frame_keys df = (if df ! 0 = WRITE \<and> is_fun_key (df ! 3) then [df ! 3] else [])"

lemma do_frame_analysis_connected:
  assumes "uart_ok W" "Mode st = 2" "0 < n" "n \<le> length (dataframe st)"
  shows "\<exists>k. do_frame_analysis W n st = Some (st\<lparr>
    sent := sent st @ (if crc_ref (take n (dataframe st)) = 0 then []
                       else [FRAME_MASK, NACK, FRAME_MASK]),
    nwr := k, keys := keys st @ frame_keys (dataframe st)\<rparr>)"
proof -
  have ne: "take n (dataframe st) \<noteq> []" using assms by auto
  obtain k where k: "send_cmd_frame W NACK st =
      Some (emit [FRAME_MASK, NACK, FRAME_MASK] k st)"
    using send_cmd_frame_sends[OF assms(1)] by blast
  show ?thesis
  proof (cases "crc_ref (take n (dataframe st)) = 0")
    case True
    then show ?thesis using assms ne
      by (cases st) (auto simp: do_frame_analysis_def CalcCRC16Bytes_ref lcm_fun_key_def
          frame_keys_def)
  next
    case False
    then show ?thesis using assms ne k
      by (cases st) (auto simp: do_frame_analysis_def CalcCRC16Bytes_ref lcm_fun_key_def
          frame_keys_def)
  qed
qed

lemma rx_data_frame:
  assumes W: "uart_ok W" and st: "rx_idle st" "Mode st = 2"
    and body: "2 \<le> length body" "length body \<le> RXFRAME_SIZE"
  shows "\<exists>k. rx_bytes W (FRAME_MASK # escape body @ [FRAME_MASK]) st = Some (st\<lparr>
    dataframe := body @ drop (length body) (dataframe st),
    sent := sent st @ (if crc_ref body = 0 then [] else [FRAME_MASK, NACK, FRAME_MASK]),
    nwr := k, keys := keys st @ frame_keys (body @ drop (length body) (dataframe st))\<rparr>)"
proof -
  have ne: "body \<noteq> []" using body by auto
  obtain k where "do_frame_analysis W (length body) (rx_filled body st) =
     Some ((rx_filled body st)\<lparr>
    sent := sent st @ (if crc_ref body = 0 then [] else [FRAME_MASK, NACK, FRAME_MASK]),
    nwr := k, keys := keys st @ frame_keys (body @ drop (length body) (dataframe st))\<rparr>)"
    using do_frame_analysis_connected[OF W, of "rx_filled body st" "length body"] st body ne
    by (auto simp: rx_filled_def rx_idle_def)
  then show ?thesis
    unfolding rx_frame[OF st(1) ne body(2)] using body st
    by (cases st) (auto simp: rx_filled_def rx_idle_def)
qed

section \<open>Connection\<close>

definition lcm_wf :: "lcm \<Rightarrow> bool" where
  "lcm_wf st \<longleftrightarrow> Mode st \<le> 2 \<and> length (dataframe st) = RXFRAME_SIZE \<and>
     length (txframe st) = TXFRAME_SIZE \<and> rx_len st \<le> RXFRAME_SIZE"

lemma lcm_wf_emit [simp]: "lcm_wf (emit bs k st) = lcm_wf st"
  by (simp add: lcm_wf_def)

lemma length_set_txframe [simp]:
  "length (txframe st) = TXFRAME_SIZE \<Longrightarrow> length (txframe (set_txframe st)) = TXFRAME_SIZE"
  by (simp add: set_txframe_def TXFRAME_SIZE_def)

lemma lcm_wf_sw_init [simp]: "lcm_wf st \<Longrightarrow> lcm_wf (lcm_sw_init st)"
  by (simp add: lcm_wf_def lcm_sw_init_def set_txframe_def TXFRAME_SIZE_def)

lemma Mode_sw_init [simp]: "Mode (lcm_sw_init st) = 0"
  by (simp add: lcm_sw_init_def set_txframe_def)

text \<open>
  A command frame: the mode changes to connected only on ACK or CONFIRM, and a connected
  program leaves that mode only on RESET.
\<close>

lemma do_cmd_action_total:
  "uart_ok W \<Longrightarrow> lcm_wf st \<Longrightarrow> wpo (do_cmd_action W c st) (\<lambda>t. lcm_wf t \<and>
     (Mode st \<noteq> 2 \<longrightarrow> (Mode t = 2 \<longleftrightarrow> c = ACK \<or> c = CONFIRM)) \<and>
     (Mode st = 2 \<longrightarrow> Mode t = (if c = RESET then 0 else 2)) \<and>
     rx_len t = rx_len st \<and> escFlag t = escFlag st \<and> dataframe t = dataframe st)"
  unfolding do_cmd_action_def
  by (auto intro!: wpo_send_cmd_frame simp: lcm_wf_def lcm_sw_init_def set_txframe_def
      TXFRAME_SIZE_def)

lemma do_frame_analysis_total:
  "uart_ok W \<Longrightarrow> lcm_wf st \<Longrightarrow> 0 < n \<Longrightarrow> n \<le> RXFRAME_SIZE \<Longrightarrow>
   wpo (do_frame_analysis W n st) (\<lambda>t. lcm_wf t \<and> Mode t = Mode st \<and>
     rx_len t = rx_len st \<and> escFlag t = escFlag st \<and> dataframe t = dataframe st)"
  unfolding do_frame_analysis_def
  by (subst CalcCRC16Bytes_ref)
    (auto intro!: wpo_send_cmd_frame simp: lcm_wf_def lcm_fun_key_def RXFRAME_SIZE_def)

text \<open>
  One received byte: the only failure is a full receive buffer, and a connection is made
  only by the mark that ends an ACK or CONFIRM frame.
\<close>

definition rx_room :: "u8 \<Rightarrow> lcm \<Rightarrow> bool" where
  "rx_room c st \<longleftrightarrow> rx_len st < RXFRAME_SIZE \<or>
     (if escFlag st then False else c = ESC \<or> c = FRAME_MASK)"

lemma rx_byte_total:
  assumes "uart_ok W" "lcm_wf st" "rx_room c st"
  shows "wpo (rx_byte W c st) (\<lambda>t. lcm_wf t \<and>
    (Mode st \<noteq> 2 \<and> Mode t = 2 \<longrightarrow> c = FRAME_MASK \<and> \<not> escFlag st \<and> rx_len st = 1 \<and>
       dataframe st ! 0 \<in> {ACK, CONFIRM}))"
proof (cases "c = FRAME_MASK \<and> \<not> escFlag st \<and> rx_len st > 0")
  case True
  then show ?thesis
  proof (cases "rx_len st = 1")
    case True
    then show ?thesis
      using assms \<open>c = FRAME_MASK \<and> \<not> escFlag st \<and> rx_len st > 0\<close>
      by (auto simp: rx_byte_def lcm_wf_def
          intro!: wpo_mono[OF do_cmd_action_total[OF assms(1,2), of "dataframe st ! 0"]])
  next
    case False
    have "wpo (do_frame_analysis W (rx_len st) st) (\<lambda>t. lcm_wf t \<and> Mode t = Mode st)"
      using assms True
      by (intro wpo_mono[OF do_frame_analysis_total[OF assms(1,2)]]) (auto simp: lcm_wf_def)
    then show ?thesis
      using assms \<open>c = FRAME_MASK \<and> \<not> escFlag st \<and> rx_len st > 0\<close> False
      by (auto simp: rx_byte_def elim!: wpo_mono) (auto simp: lcm_wf_def)
  qed
next
  case False
  then show ?thesis
    using assms by (auto simp: rx_byte_def rx_store_def rx_room_def lcm_wf_def)
qed

lemma rx_byte_full:
  "\<not> rx_room c st \<Longrightarrow> rx_byte W c st = None"
  by (auto simp: rx_room_def rx_byte_def rx_store_def split: if_splits)

section \<open>Keys\<close>

lemma lcm_cmd_total:
  "uart_ok W \<Longrightarrow> wpo (lcm_cmd W c st) (\<lambda>t. \<exists>k.
     t = emit (if Mode st = 2 then [FRAME_MASK, c, FRAME_MASK] else []) k st)"
  using send_cmd_frame_sends[of W c st]
  by (auto simp: lcm_cmd_def intro: exI[of _ "nwr st"])

lemma repeat_cmd_total:
  "uart_ok W \<Longrightarrow> wpo (repeat_cmd W c n st) (\<lambda>t. \<exists>k.
     t = emit (concat (replicate n [FRAME_MASK, c, FRAME_MASK])) k st)"
proof (induction n arbitrary: st)
  case 0
  then show ?case by (auto intro: exI[of _ "nwr st"])
next
  case (Suc n)
  then show ?case
    by (auto intro!: wpo_send_cmd_frame wpo_mono[OF Suc.IH])
qed

lemma shift_cmd_total:
  "uart_ok W \<Longrightarrow> wpo (shift_cmd W c i st) (\<lambda>t. \<exists>k.
     t = emit (if Mode st = 2 then concat (replicate (nat i) [FRAME_MASK, c, FRAME_MASK]) else []) k st)"
  using repeat_cmd_total[of W c "nat i" st]
  by (auto simp: shift_cmd_def intro!: exI[of _ "nwr st"])

lemma takeWhile_cstring: "0 \<notin> set xs \<Longrightarrow> takeWhile (\<lambda>c. c \<noteq> 0) (xs @ [0]) = (xs :: u8 list)"
  by (induction xs) auto

lemma print_msg_total:
  assumes "uart_ok W" "lcm_wf st" "0 \<notin> set d" "d \<noteq> []" "length d \<le> 23"
    and "\<forall>c\<in>set d. \<not> is_special c"
  shows "\<exists>tf k. length tf = TXFRAME_SIZE \<and>
    print_msg W cmd (d @ [0]) st =
      Some (emit (if Mode st = 2 then frame_line cmd d else []) k (st\<lparr>txframe := tf\<rparr>))"
proof (cases "Mode st = 2")
  case True
  have len: "unat (of_nat (length d) :: u16) = length d"
    using assms(5) by (simp add: unat_of_nat)
  have "length (frame_line cmd d) \<le> TXFRAME_SIZE"
    using assms(5,6) by (intro frame_line_fits) (simp add: filter_False)
  with True show ?thesis
    using send_data_frame_sends[of W st cmd d] assms len
    by (auto simp: print_msg_def strlen_def takeWhile_cstring lcm_wf_def Let_def)
next
  case False
  then show ?thesis using assms(2)
    by (auto simp: print_msg_def lcm_wf_def intro!: exI[of _ "txframe st"] exI[of _ "nwr st"])
qed

text \<open>What each display key puts on the line when connected.\<close>

definition key_line :: "u8 \<Rightarrow> u8 list option" where
  "key_line c = map_of
    ([(byte (CHR ''1''), frame_line PRINT1 (map of_char ''1-1234567890ABCDEFGH'')),
      (byte (CHR ''2''), frame_line PRINT2 (map of_char ''2-1234567890abcdefg''))] @
     map (\<lambda>(key, n, cmd). (byte key, concat (replicate n [FRAME_MASK, cmd, FRAME_MASK])))
       [(CHR ''h'', 1, 0x21), (CHR ''r'', 1, 0x22), (CHR ''L'', 1, 0x27), (CHR ''b'', 1, 0x25),
        (CHR ''f'', 1, 0x26), (CHR ''3'', 5, 0x24), (CHR ''4'', 5, 0x23), (CHR ''5'', 5, 0x29),
        (CHR ''6'', 5, 0x28), (CHR ''7'', 1, 0x2A), (CHR ''8'', 1, 0x2B), (CHR ''9'', 1, 0x2C),
        (CHR ''0'', 1, 0x2E), (CHR ''p'', 1, 0x2D)]) c"

lemmas key_cmd_defs = lcm_clear_def lcm_return_home_def lcm_move_line2_def lcm_cursor_on_def
  lcm_cursor_off_def lcm_cursor_blink_def lcm_display_on_def lcm_display_off_def
  lcm_backlight_def lcm_cursor_shift_right_def lcm_cursor_shift_left_def
  lcm_display_shift_right_def lcm_display_shift_left_def lcm_print_msg1_def lcm_print_msg2_def

text \<open>\<open>m\<close> succeeds, sends \<open>bs\<close> if connected, and changes nothing but the transmit buffer.\<close>

definition sends :: "lcm \<Rightarrow> u8 list \<Rightarrow> (bool \<times> lcm) option \<Rightarrow> bool" where
  "sends st bs m \<longleftrightarrow> (\<exists>tf k. length tf = TXFRAME_SIZE \<and>
     m = Some (False, emit (if Mode st = 2 then bs else []) k (st\<lparr>txframe := tf\<rparr>)))"

lemma sends_cmd:
  "uart_ok W \<Longrightarrow> lcm_wf st \<Longrightarrow>
   sends st [FRAME_MASK, c, FRAME_MASK] (lcm_cmd W c st \<bind> (\<lambda>st. Some (False, st)))"
  using lcm_cmd_total[of W c st]
  by (cases "lcm_cmd W c st")
    (auto simp: sends_def lcm_wf_def wpo_def intro!: exI[of _ "txframe st"])

lemma sends_shift:
  "uart_ok W \<Longrightarrow> lcm_wf st \<Longrightarrow>
   sends st (concat (replicate (nat i) [FRAME_MASK, c, FRAME_MASK]))
     (shift_cmd W c i st \<bind> (\<lambda>st. Some (False, st)))"
  using shift_cmd_total[of W c i st]
  by (cases "shift_cmd W c i st")
    (auto simp: sends_def lcm_wf_def wpo_def intro!: exI[of _ "txframe st"])

lemma sends_msg:
  "uart_ok W \<Longrightarrow> lcm_wf st \<Longrightarrow> 0 \<notin> set d \<Longrightarrow> d \<noteq> [] \<Longrightarrow> length d \<le> 23 \<Longrightarrow>
   \<forall>c\<in>set d. \<not> is_special c \<Longrightarrow>
   sends st (frame_line cmd d) (print_msg W cmd (d @ [0]) st \<bind> (\<lambda>st. Some (False, st)))"
  using print_msg_total[of W st d cmd] unfolding sends_def by fastforce

lemma sends_cmd1:
  "uart_ok W \<Longrightarrow> lcm_wf st \<Longrightarrow>
   sends st (concat (replicate 1 [FRAME_MASK, c, FRAME_MASK]))
     (lcm_cmd W c st \<bind> (\<lambda>st. Some (False, st)))"
  using sends_cmd[of W st c] by simp

lemma sends_shift5:
  "uart_ok W \<Longrightarrow> lcm_wf st \<Longrightarrow>
   sends st (concat (replicate 5 [FRAME_MASK, c, FRAME_MASK]))
     (shift_cmd W c 5 st \<bind> (\<lambda>st. Some (False, st)))"
  using sends_shift[of W st 5 c] by simp

text \<open>The branches of the key switch.\<close>

lemma key_action_keys:
  "key_action W (byte (CHR ''h'')) st = lcm_cmd W 0x21 st \<bind> (\<lambda>st. Some (False, st))"
  "key_action W (byte (CHR ''r'')) st = lcm_cmd W 0x22 st \<bind> (\<lambda>st. Some (False, st))"
  "key_action W (byte (CHR ''L'')) st = lcm_cmd W 0x27 st \<bind> (\<lambda>st. Some (False, st))"
  "key_action W (byte (CHR ''b'')) st = lcm_cmd W 0x25 st \<bind> (\<lambda>st. Some (False, st))"
  "key_action W (byte (CHR ''f'')) st = lcm_cmd W 0x26 st \<bind> (\<lambda>st. Some (False, st))"
  "key_action W (byte (CHR ''3'')) st = shift_cmd W 0x24 5 st \<bind> (\<lambda>st. Some (False, st))"
  "key_action W (byte (CHR ''4'')) st = shift_cmd W 0x23 5 st \<bind> (\<lambda>st. Some (False, st))"
  "key_action W (byte (CHR ''5'')) st = shift_cmd W 0x29 5 st \<bind> (\<lambda>st. Some (False, st))"
  "key_action W (byte (CHR ''6'')) st = shift_cmd W 0x28 5 st \<bind> (\<lambda>st. Some (False, st))"
  "key_action W (byte (CHR ''7'')) st = lcm_cmd W 0x2A st \<bind> (\<lambda>st. Some (False, st))"
  "key_action W (byte (CHR ''8'')) st = lcm_cmd W 0x2B st \<bind> (\<lambda>st. Some (False, st))"
  "key_action W (byte (CHR ''9'')) st = lcm_cmd W 0x2C st \<bind> (\<lambda>st. Some (False, st))"
  "key_action W (byte (CHR ''0'')) st = lcm_cmd W 0x2E st \<bind> (\<lambda>st. Some (False, st))"
  "key_action W (byte (CHR ''p'')) st = lcm_cmd W 0x2D st \<bind> (\<lambda>st. Some (False, st))"
  by (simp_all add: key_action_def key_cmd_defs)

lemma key_action_msgs:
  "key_action W (byte (CHR ''1'')) st =
     print_msg W PRINT1 (cstring ''1-1234567890ABCDEFGH'') st \<bind> (\<lambda>st. Some (False, st))"
  "key_action W (byte (CHR ''2'')) st =
     print_msg W PRINT2 (cstring ''2-1234567890abcdefg'') st \<bind> (\<lambda>st. Some (False, st))"
  by (simp_all add: key_action_def key_cmd_defs)

lemma display_key_sends:
  assumes ok: "uart_ok W" "lcm_wf st" and key: "key_line c = Some bs"
  shows "sends st bs (key_action W c st)"
proof -
  note cmds = sends_cmd1[OF ok] sends_shift5[OF ok]
  have m1: "sends st (frame_line PRINT1 (map of_char ''1-1234567890ABCDEFGH''))
      (print_msg W PRINT1 (cstring ''1-1234567890ABCDEFGH'') st \<bind> (\<lambda>st. Some (False, st)))"
    by (rule sends_msg[OF ok]) (simp_all add: is_special_def)
  have m2: "sends st (frame_line PRINT2 (map of_char ''2-1234567890abcdefg''))
      (print_msg W PRINT2 (cstring ''2-1234567890abcdefg'') st \<bind> (\<lambda>st. Some (False, st)))"
    by (rule sends_msg[OF ok]) (simp_all add: is_special_def)
  from key[unfolded key_line_def, THEN map_of_SomeD] show ?thesis
    unfolding append.simps list.map prod.case list.set insert_iff empty_iff prod.inject
    by (elim disjE conjE FalseE)
      (simp_all only: key_action_keys key_action_msgs[unfolded list.map] cmds
        m1[unfolded list.map] m2[unfolded list.map])
qed

end
