(* ===== verification/LcmProps.thy ===== *)
theory LcmProps
  imports LcmRx
begin

text \<open>
  The properties of the LCM panel program, each with a concrete instance where it has
  hypotheses.
\<close>

lemma uart_ok_all: "uart_ok (\<lambda>k n. n)"
  by (auto simp: uart_ok_def)

text \<open>A line that fails every other call and accepts one byte per call otherwise.\<close>

definition slow_uart :: uart where
  "slow_uart k n = (if even k then -1 else min 1 n)"

lemma uart_ok_slow: "uart_ok slow_uart"
proof -
  have "\<exists>j\<ge>k. \<forall>n>0. 0 < slow_uart j n" for k
    by (rule exI[of _ "Suc (2 * k)"]) (simp add: slow_uart_def)
  then show ?thesis by (auto simp: uart_ok_def slow_uart_def)
qed

definition lcm_connected :: lcm where
  "lcm_connected = lcm_static\<lparr>Mode := 2\<rparr>"

lemma lcm_connected_wf: "lcm_wf lcm_connected" "rx_idle lcm_connected" "Mode lcm_connected = 2"
  by (simp_all add: lcm_connected_def lcm_static_def lcm_wf_def rx_idle_def)

lemma lcm_static_wf: "lcm_wf lcm_static" "rx_idle lcm_static" "Mode lcm_static = 0"
  by (simp_all add: lcm_static_def lcm_wf_def rx_idle_def)

lemmas lcm_lengths =
  lcm_connected_wf(1)[unfolded lcm_wf_def] lcm_static_wf(1)[unfolded lcm_wf_def]

text \<open>
  C32: The table-free CRC loop of the program computes, on 32-bit ints truncated to an unsigned
  short, the bit-serial CRC-16 with polynomial 0x1021 of the buffer; the empty buffer, which
  the do-while loop would read out of bounds, has no result.
\<close>

theorem lcm_crc_equivalence:
  "CalcCRC16Bytes bs = (if bs = [] then None else Some (crc_ref bs))"
  by (simp add: CalcCRC16Bytes_ref) (simp add: CalcCRC16Bytes_def)

text \<open>
  C36: On a line whose writes fail, or accept only a part, any number of times but keep
  making progress, \<open>put_charString\<close> returns and the line has received exactly the bytes
  given, once each and in order.
\<close>

theorem lcm_delivery:
  assumes "uart_ok W"
  shows "\<exists>k. put_charString W s st = Some (length s, emit s k st)"
  using put_charString_sends[OF assms] .

theorem lcm_delivery_witness:
  "\<exists>k. put_charString slow_uart [1, 2, 3] lcm_static =
     Some (length [1, 2, 3 :: u8], emit [1, 2, 3] k lcm_static)"
  by (rule lcm_delivery[OF uart_ok_slow])

text \<open>
  C28: \<open>send_data_frame\<close> puts the escaped, checksummed frame on the line when it fits the 32
  bytes of the transmit buffer, and writes outside the buffer exactly when it does not.
\<close>

theorem lcm_send_data_frame:
  assumes "uart_ok W" "length (txframe st) = TXFRAME_SIZE"
  shows "if length (frame_line cmd d) \<le> TXFRAME_SIZE
    then \<exists>tf k. length tf = TXFRAME_SIZE \<and>
      send_data_frame W cmd d st = Some (emit (frame_line cmd d) k (st\<lparr>txframe := tf\<rparr>))
    else send_data_frame W cmd d st = None"
  using send_data_frame_sends[OF assms] send_data_frame_overflow[OF assms(2)] by auto

theorem lcm_send_data_frame_witness:
  "if length (frame_line WRITE [0x31]) \<le> TXFRAME_SIZE
    then \<exists>tf k. length tf = TXFRAME_SIZE \<and> send_data_frame slow_uart WRITE [0x31] lcm_static =
      Some (emit (frame_line WRITE [0x31]) k (lcm_static\<lparr>txframe := tf\<rparr>))
    else send_data_frame slow_uart WRITE [0x31] lcm_static = None"
  using lcm_send_data_frame[OF uart_ok_slow, of lcm_static WRITE "[0x31]"] lcm_lengths by blast

section \<open>Frames\<close>

lemma frame_line_escape:
  assumes "\<not> is_special cmd" "length d \<le> 17"
  shows "frame_line cmd d =
    FRAME_MASK # escape (frame_head cmd d @ d @ frame_crc cmd d) @ [FRAME_MASK]"
proof -
  have hi: "hi8 (of_nat (length d)) = 0"
    using assms(2) unfolding hi8_def
    by (intro word_unat_eq_iff[THEN iffD2])
       (simp add: unat_drop_bit_eq unsigned_ucast_eq drop_bit_eq_div unat_of_nat take_bit_eq_mod unat_div)
  have "unat (lo8 (of_nat (length d))) = length d"
    using assms(2) by (simp add: lo8_def unsigned_ucast_eq unat_of_nat take_bit_eq_mod)
  then have "\<not> is_special (lo8 (of_nat (length d)))"
    using assms(2) by (auto simp: is_special_def)
  then show ?thesis
    using assms(1) hi by (simp add: frame_line_def frame_head_def is_special_def)
qed

lemma frame_crc_ok: "crc_ref (frame_head cmd d @ d @ frame_crc cmd d) = 0"
  using crc_residue[of "frame_head cmd d @ d"] by (simp add: frame_crc_def Let_def)

lemma length_frame_body: "length (frame_head cmd d @ d @ frame_crc cmd d) = length d + 5"
  by (simp add: frame_head_def frame_crc_def Let_def)

text \<open>
  C23: Round trip of the frame encoding: whatever data frame one program manages to send, of
  up to 17 data bytes, a connected program receives with its header, data and checksum in
  place, does not answer it with NACK, stays ready for the next frame, and takes the first
  data byte of a WRITE frame as the key.
\<close>

theorem lcm_frame_roundtrip:
  assumes "uart_ok W" "uart_ok V"
    and "length (txframe a) = TXFRAME_SIZE" "length (frame_line cmd d) \<le> TXFRAME_SIZE"
    and "\<not> is_special cmd" "d \<noteq> []" "length d \<le> 17" "rx_idle b" "Mode b = 2"
  shows "\<exists>a' b'. send_data_frame W cmd d a = Some a' \<and>
    rx_bytes V (drop (length (sent a)) (sent a')) b = Some b' \<and>
    take (length d) (drop 3 (dataframe b')) = d \<and> dataframe b' ! 0 = cmd \<and>
    sent b' = sent b \<and> Mode b' = 2 \<and> rx_idle b' \<and>
    keys b' = keys b @ (if cmd = WRITE \<and> is_fun_key (hd d) then [hd d] else [])"
proof -
  let ?body = "frame_head cmd d @ d @ frame_crc cmd d"
  let ?df = "?body @ drop (length ?body) (dataframe b)"
  obtain tf k where a': "send_data_frame W cmd d a =
      Some (emit (frame_line cmd d) k (a\<lparr>txframe := tf\<rparr>))"
    using send_data_frame_sends[OF assms(1,3,4)] by blast
  have len: "2 \<le> length ?body" "length ?body \<le> RXFRAME_SIZE"
    unfolding length_frame_body using assms(7) by (simp_all add: RXFRAME_SIZE_def)
  obtain k' where "rx_bytes V (FRAME_MASK # escape ?body @ [FRAME_MASK]) b = Some (b\<lparr>
      dataframe := ?df, sent := sent b @ (if crc_ref ?body = 0 then [] else [FRAME_MASK, NACK, FRAME_MASK]),
      nwr := k', keys := keys b @ frame_keys ?df\<rparr>)"
    using rx_data_frame[OF assms(2,8,9) len] by blast
  then have b': "rx_bytes V (frame_line cmd d) b = Some (b\<lparr>
      dataframe := ?df, sent := sent b, nwr := k', keys := keys b @ frame_keys ?df\<rparr>)"
    by (simp only: frame_line_escape[OF assms(5,7)] frame_crc_ok if_True simp_thms append_Nil2)
  have key: "frame_keys ?df = (if cmd = WRITE \<and> is_fun_key (hd d) then [hd d] else [])"
    using assms(6) by (cases d) (simp_all add: frame_keys_def frame_head_def)
  have "length ?df = RXFRAME_SIZE"
    using len assms(8) by (simp only: length_append length_drop) (simp add: rx_idle_def)
  with a' b' key assms(8,9) show ?thesis
    by (intro exI[of _ "emit (frame_line cmd d) k (a\<lparr>txframe := tf\<rparr>)"]
        exI[of _ "b\<lparr>dataframe := ?df, sent := sent b, nwr := k', keys := keys b @ frame_keys ?df\<rparr>"])
      (simp add: rx_idle_def frame_head_def)
qed

theorem lcm_frame_roundtrip_witness:
  "\<exists>a' b'. send_data_frame slow_uart WRITE [0x31] lcm_static = Some a' \<and>
    rx_bytes slow_uart (drop (length (sent lcm_static)) (sent a')) lcm_connected = Some b' \<and>
    take (length [0x31 :: u8]) (drop 3 (dataframe b')) = [0x31] \<and> dataframe b' ! 0 = WRITE \<and>
    sent b' = sent lcm_connected \<and> Mode b' = 2 \<and> rx_idle b' \<and>
    keys b' = keys lcm_connected @
      (if WRITE = WRITE \<and> is_fun_key (hd [0x31]) then [hd [0x31]] else [])"
  by (rule lcm_frame_roundtrip[OF uart_ok_slow uart_ok_slow])
    (use lcm_lengths in \<open>simp_all add: lcm_connected_wf frame_line_fits is_special_def\<close>)

text \<open>
  C34: A connected program answers a received frame of two bytes or more with NACK exactly
  when its checksum is wrong, stays connected, and takes the fourth byte of a WRITE frame as
  a pressed key in both cases: the answer to a bad frame does not stop its processing.
\<close>

theorem lcm_data_frame_answer:
  assumes "uart_ok W" "rx_idle st" "Mode st = 2" "2 \<le> length body" "length body \<le> RXFRAME_SIZE"
  shows "\<exists>k. rx_bytes W (FRAME_MASK # escape body @ [FRAME_MASK]) st = Some (st\<lparr>
    dataframe := body @ drop (length body) (dataframe st),
    sent := sent st @ (if crc_ref body = 0 then [] else [FRAME_MASK, NACK, FRAME_MASK]),
    nwr := k, keys := keys st @ frame_keys (body @ drop (length body) (dataframe st))\<rparr>)"
  by (rule rx_data_frame[OF assms])

theorem lcm_data_frame_answer_witness:
  "\<exists>t. rx_bytes slow_uart (FRAME_MASK # escape [WRITE, 0, 1, 0x31, 0, 0] @ [FRAME_MASK])
      lcm_connected = Some t \<and> sent t = [FRAME_MASK, NACK, FRAME_MASK] \<and> keys t = [0x31]"
proof -
  have "crc_ref [WRITE, 0, 1, 0x31, 0, 0] \<noteq> 0" by code_simp
  moreover have "is_fun_key 0x31" by code_simp
  moreover note lcm_data_frame_answer[OF uart_ok_slow lcm_connected_wf(2,3),
      of "[WRITE, 0, 1, 0x31, 0, 0]"]
  ultimately show ?thesis
    by (auto simp: RXFRAME_SIZE_def frame_keys_def lcm_connected_def lcm_static_def)
qed



section \<open>Connection and keys\<close>

text \<open>
  C33: The receive loop is defined on every byte for which the receive buffer has room and on
  no other, keeps the state well-formed, and enters the connected mode only at the mark that
  ends an ACK or CONFIRM command frame.
\<close>

theorem lcm_rx_byte_safe:
  assumes "uart_ok W" "lcm_wf st"
  shows "if rx_room c st
    then \<exists>t. rx_byte W c st = Some t \<and> lcm_wf t \<and>
      (Mode st \<noteq> 2 \<and> Mode t = 2 \<longrightarrow> c = FRAME_MASK \<and> \<not> escFlag st \<and> rx_len st = 1 \<and>
        dataframe st ! 0 \<in> {ACK, CONFIRM})
    else rx_byte W c st = None"
  using wpoD[OF rx_byte_total[OF assms]] rx_byte_full[of c st W] by auto

theorem lcm_rx_byte_safe_witness:
  "\<exists>t. rx_byte slow_uart 0x41 lcm_static = Some t \<and> lcm_wf t \<and> Mode t \<noteq> 2"
proof -
  have "rx_room 0x41 lcm_static"
    by (simp add: rx_room_def lcm_static_def RXFRAME_SIZE_def)
  with lcm_rx_byte_safe[OF uart_ok_slow lcm_static_wf(1), of "0x41"] lcm_static_wf(3)
  show ?thesis by auto
qed

lemma wpo_rx_cmd:
  "rx_idle st \<Longrightarrow> \<not> is_special c \<Longrightarrow>
   wpo (do_cmd_action W c (rx_filled [c] st)) (\<lambda>t. Q (t\<lparr>rx_len := 0\<rparr>)) \<Longrightarrow>
   wpo (rx_bytes W [FRAME_MASK, c, FRAME_MASK] st) Q"
  by (subst rx_cmd) (auto elim: wpo_mono)

lemma rx_connect:
  "uart_ok W \<Longrightarrow> rx_idle st \<Longrightarrow> Mode st \<noteq> 2 \<Longrightarrow>
   wpo (rx_bytes W [FRAME_MASK, CONNECT, FRAME_MASK] st) (\<lambda>t. rx_idle t \<and> Mode t = 1 \<and>
     sent t = sent st @ [FRAME_MASK, ACK, FRAME_MASK])"
  by (rule wpo_rx_cmd) (auto simp: is_special_def do_cmd_action_def rx_idle_def rx_filled_def
      RXFRAME_SIZE_def intro!: wpo_send_cmd_frame)

lemma rx_ack:
  "uart_ok W \<Longrightarrow> rx_idle st \<Longrightarrow>
   wpo (rx_bytes W [FRAME_MASK, ACK, FRAME_MASK] st) (\<lambda>t. rx_idle t \<and> Mode t = 2 \<and>
     sent t = sent st @ [FRAME_MASK, CONFIRM, FRAME_MASK])"
  by (rule wpo_rx_cmd) (auto simp: is_special_def do_cmd_action_def rx_idle_def rx_filled_def
      RXFRAME_SIZE_def intro!: wpo_send_cmd_frame)

lemma rx_confirm:
  "rx_idle st \<Longrightarrow>
   wpo (rx_bytes W [FRAME_MASK, CONFIRM, FRAME_MASK] st) (\<lambda>t. rx_idle t \<and> Mode t = 2 \<and>
     sent t = sent st)"
  by (rule wpo_rx_cmd) (auto simp: is_special_def do_cmd_action_def rx_idle_def rx_filled_def
      RXFRAME_SIZE_def)

text \<open>
  C29: The handshake completes: when an idle program's timer asks for a connection and the
  line carries each side's answer to the other, the request, its ACK and the CONFIRM leave
  both sides connected.
\<close>

theorem lcm_handshake:
  assumes "uart_ok W" "uart_ok V" "rx_idle a" "rx_idle b" "Mode a = 0" "Mode b \<noteq> 2"
  shows "\<exists>a1 a2 b1 b2. check_connect_status W a = Some a1 \<and>
    rx_bytes V (drop (length (sent a)) (sent a1)) b = Some b1 \<and>
    rx_bytes W (drop (length (sent b)) (sent b1)) a1 = Some a2 \<and>
    rx_bytes V (drop (length (sent a1)) (sent a2)) b1 = Some b2 \<and>
    Mode a2 = 2 \<and> Mode b2 = 2 \<and> rx_idle a2 \<and> rx_idle b2"
proof -
  obtain k where k: "send_cmd_frame W CONNECT a = Some (emit [FRAME_MASK, CONNECT, FRAME_MASK] k a)"
    using send_cmd_frame_sends[OF assms(1)] by blast
  let ?a1 = "(emit [FRAME_MASK, CONNECT, FRAME_MASK] k a)\<lparr>Mode := 1\<rparr>"
  have a1: "check_connect_status W a = Some ?a1" "rx_idle ?a1"
    using k assms by (simp_all add: check_connect_status_def rx_idle_def)
  obtain b1 where b1: "rx_bytes V [FRAME_MASK, CONNECT, FRAME_MASK] b = Some b1"
    "rx_idle b1" "sent b1 = sent b @ [FRAME_MASK, ACK, FRAME_MASK]"
    using wpoD[OF rx_connect[OF assms(2,4,6)]] by blast
  obtain a2 where a2: "rx_bytes W [FRAME_MASK, ACK, FRAME_MASK] ?a1 = Some a2"
    "rx_idle a2" "Mode a2 = 2" "sent a2 = sent ?a1 @ [FRAME_MASK, CONFIRM, FRAME_MASK]"
    using wpoD[OF rx_ack[OF assms(1) a1(2)]] by blast
  obtain b2 where b2: "rx_bytes V [FRAME_MASK, CONFIRM, FRAME_MASK] b1 = Some b2"
    "rx_idle b2" "Mode b2 = 2"
    using wpoD[OF rx_confirm[OF b1(2)]] by blast
  show ?thesis
    by (rule exI[of _ ?a1], rule exI[of _ a2], rule exI[of _ b1], rule exI[of _ b2])
      (use a1 a2 b1 b2 in simp)
qed

theorem lcm_handshake_witness:
  "\<exists>a1 a2 b1 b2. check_connect_status slow_uart lcm_static = Some a1 \<and>
    rx_bytes slow_uart (drop (length (sent lcm_static)) (sent a1)) lcm_static = Some b1 \<and>
    rx_bytes slow_uart (drop (length (sent lcm_static)) (sent b1)) a1 = Some a2 \<and>
    rx_bytes slow_uart (drop (length (sent a1)) (sent a2)) b1 = Some b2 \<and>
    Mode a2 = 2 \<and> Mode b2 = 2 \<and> rx_idle a2 \<and> rx_idle b2"
  by (rule lcm_handshake) (simp_all add: uart_ok_slow lcm_static_wf)

text \<open>
  Every display key of the menu sends its frame (five of them for a shift key, the
  checksummed text frame for the message keys) when the panel is connected and nothing at
  all otherwise; it never overruns a buffer and never ends the program.
\<close>

theorem lcm_display_keys:
  assumes "uart_ok W" "lcm_wf st" "key_line c = Some bs"
  shows "sends st bs (key_action W c st)"
  by (rule display_key_sends[OF assms])

theorem lcm_display_keys_witness:
  "sends lcm_connected [FRAME_MASK, 0x21, FRAME_MASK] (key_action slow_uart 0x68 lcm_connected)"
  by (rule lcm_display_keys[OF uart_ok_slow lcm_connected_wf(1)]) (simp add: key_line_def)

text \<open>
  C40: In the automatic test variant the key \<open>s\<close> of a connected panel, which prints the
  unterminated test buffer of twenty 0xFF bytes, always writes past the end of the transmit
  buffer: every byte is escaped, so the frame needs at least 47 bytes.
\<close>

theorem lcm_auto_test_overflow:
  assumes "length (txframe st) = TXFRAME_SIZE" "Mode st = 2" "strlen after < 65516"
  shows "key_action_auto W after (byte (CHR ''s'')) st = None"
proof -
  let ?n = "20 + strlen after"
  let ?d = "take ?n (testBuf @ after)"
  have n: "strlen (testBuf @ after) = ?n"
    unfolding strlen_def testBuf_def by (subst takeWhile_append2) auto
  have "filter is_special testBuf = testBuf"
    by (simp add: testBuf_def is_special_def)
  then have "20 \<le> length (filter is_special ?d)" "20 \<le> length ?d"
    by (simp_all add: testBuf_def)
  then have "length (frame_line PRINT1 ?d) > TXFRAME_SIZE"
    by (simp add: length_frame_line TXFRAME_SIZE_def)
  then have "send_data_frame W PRINT1 ?d st = None"
    by (rule send_data_frame_overflow[OF assms(1)])
  moreover have unat16: "unat (of_nat m :: u16) = m" if "m < 65536" for m
    using that by (simp add: unat_of_nat)
  have "unat (of_nat ?n :: u16) = ?n" by (rule unat16) (use assms(3) in simp)
  with calculation show ?thesis
    using assms(2) unfolding key_action_auto_def lcm_print_msg1_def print_msg_def Let_def n
    by (simp del: of_nat_add)
qed

theorem lcm_auto_test_overflow_witness:
  "key_action_auto slow_uart [0] (byte (CHR ''s'')) lcm_connected = None"
  by (rule lcm_auto_test_overflow) (use lcm_lengths in \<open>simp_all add: lcm_connected_wf strlen_def\<close>)

end
