(* ===== verification/E1000Base.thy ===== *)
theory E1000Base
  imports Prelude
begin

text \<open>
  The network driver's hardware view, e1000e-0.5.18.3/src (hw.h, e1000.h): memory-mapped
  register access, the parts of \<open>struct e1000_hw\<close> the modelled functions use, and results
  that may fail.

  A register access is an event of \<open>rhist\<close>, newest first; \<open>E h reg\<close> is the value a read of
  \<open>reg\<close> returns after the history \<open>h\<close>.  Delays have no effect on the state.
\<close>

section \<open>Small words\<close>

lemma and_mask_small: "unat (x :: u32) < 2 ^ n \<Longrightarrow> x AND mask n = x"
  by (simp add: word_unat_eq_iff unsigned_take_bit_eq take_bit_nat_eq_self flip: take_bit_eq_mask)

lemma bit_small: "unat (x :: u32) < 2 ^ k \<Longrightarrow> bit x n \<Longrightarrow> n < k"
  using and_mask_small[of x k] by (metis bit_and_iff bit_mask_iff)

section \<open>Register access\<close>

datatype reg_ev = Wr u32 u32 | Rd u32 u32

type_synonym mmio = "reg_ev list \<Rightarrow> u32 \<Rightarrow> u32"

record e1000_dev =
  rhist :: "reg_ev list"

definition er32 :: "mmio \<Rightarrow> u32 \<Rightarrow> ('a e1000_dev_scheme, u32) state" where
  "er32 E r = State (\<lambda>s. let v = E (rhist s) r in (v, s\<lparr>rhist := Rd r v # rhist s\<rparr>))"

definition ew32 :: "u32 \<Rightarrow> u32 \<Rightarrow> ('a e1000_dev_scheme, unit) state" where
  "ew32 r v = modify (\<lambda>s. s\<lparr>rhist := Wr r v # rhist s\<rparr>)"

definition e1e_flush :: "mmio \<Rightarrow> ('a e1000_dev_scheme, unit) state" where
  "e1e_flush E = do { v \<leftarrow> er32 E 0x00008; skip }"

lemma run_er32 [simp]:
  "run_state (er32 E r) s = (E (rhist s) r, s\<lparr>rhist := Rd r (E (rhist s) r) # rhist s\<rparr>)"
  by (simp add: er32_def Let_def)

lemma run_ew32 [simp]: "run_state (ew32 r v) s = ((), s\<lparr>rhist := Wr r v # rhist s\<rparr>)"
  by (simp add: ew32_def)

lemma wp_ew32 [simp]: "wp (ew32 r v) Q s = Q () (s\<lparr>rhist := Wr r v # rhist s\<rparr>)"
  by (simp add: wp_def)

lemma wp_er32:
  "(\<And>v. v = E (rhist s) r \<Longrightarrow> Q v (s\<lparr>rhist := Rd r v # rhist s\<rparr>)) \<Longrightarrow> wp (er32 E r) Q s"
  by (simp add: wp_def)

lemma wp_er32_any:
  "(\<And>v. Q v (s\<lparr>rhist := Rd r v # rhist s\<rparr>)) \<Longrightarrow> wp (er32 E r) Q s"
  by (simp add: wp_def)

lemma wp_flush:
  "(\<And>v. Q () (s\<lparr>rhist := Rd 0x00008 v # rhist s\<rparr>)) \<Longrightarrow> wp (e1e_flush E) Q s"
  by (simp add: wp_def e1e_flush_def)

text \<open>The value last written to a register, if any.\<close>

fun reg_last :: "reg_ev list \<Rightarrow> u32 \<Rightarrow> u32 option" where
  "reg_last [] r = None"
| "reg_last (Wr q v # h) r = (if q = r then Some v else reg_last h r)"
| "reg_last (Rd q v # h) r = reg_last h r"

text \<open>\<open>E1000_WRITE_REG_ARRAY\<close> and \<open>E1000_READ_REG_ARRAY\<close>\<close>

definition reg_array :: "u32 \<Rightarrow> u32 \<Rightarrow> u32" where
  "reg_array base off = base + push_bit 2 off"

section \<open>Results\<close>

text \<open>
  Functions that return an \<open>s32\<close> code return that code; when they also store results through
  pointers they return \<open>Inl\<close> the non-zero code or \<open>Inr\<close> the results.  \<open>when_ok\<close> is
  the test for a zero code followed by a jump to the exit.
\<close>

definition E1000_ERR_NVM :: int where "E1000_ERR_NVM = 1"
definition E1000_ERR_PHY :: int where "E1000_ERR_PHY = 2"
definition E1000_ERR_CONFIG :: int where "E1000_ERR_CONFIG = 3"
definition E1000_ERR_PARAM :: int where "E1000_ERR_PARAM = 4"
definition E1000_ERR_RESET :: int where "E1000_ERR_RESET = 9"
definition E1000_ERR_MASTER_REQUESTS_PENDING :: int where "E1000_ERR_MASTER_REQUESTS_PENDING = 10"
definition E1000_ERR_HOST_INTERFACE_COMMAND :: int where "E1000_ERR_HOST_INTERFACE_COMMAND = 11"
definition E1000_BLK_PHY_RESET :: int where "E1000_BLK_PHY_RESET = 12"
definition E1000_ERR_SWFW_SYNC :: int where "E1000_ERR_SWFW_SYNC = 13"
definition E1000_NOT_IMPLEMENTED :: int where "E1000_NOT_IMPLEMENTED = 14"

lemmas e1000_err_defs = E1000_ERR_NVM_def E1000_ERR_PHY_def E1000_ERR_CONFIG_def
  E1000_ERR_PARAM_def E1000_ERR_RESET_def E1000_ERR_MASTER_REQUESTS_PENDING_def
  E1000_ERR_HOST_INTERFACE_COMMAND_def E1000_BLK_PHY_RESET_def E1000_ERR_SWFW_SYNC_def
  E1000_NOT_IMPLEMENTED_def

definition when_ok :: "int + 'a \<Rightarrow> ('a \<Rightarrow> ('s, int + 'b) state) \<Rightarrow> ('s, int + 'b) state" where
  "when_ok r f = (case r of Inl e \<Rightarrow> ret (Inl e) | Inr a \<Rightarrow> f a)"

lemma when_ok_simps [simp]:
  "when_ok (Inl e) f = ret (Inl e)" "when_ok (Inr a) f = f a"
  by (simp_all add: when_ok_def)

text \<open>The same for a caller that returns a code only.\<close>

definition ok_or_code :: "int + 'a \<Rightarrow> ('a \<Rightarrow> ('s, int) state) \<Rightarrow> ('s, int) state" where
  "ok_or_code r f = (case r of Inl e \<Rightarrow> ret e | Inr a \<Rightarrow> f a)"

lemma ok_or_code_simps [simp]:
  "ok_or_code (Inl e) f = ret e" "ok_or_code (Inr a) f = f a"
  by (simp_all add: ok_or_code_def)

text \<open>
  \<open>poll n m p\<close>: a loop that runs \<open>m\<close> up to \<open>n\<close> times and breaks at the first result that
  satisfies \<open>p\<close>; \<open>None\<close> when it ran out of attempts.
\<close>

fun poll :: "nat \<Rightarrow> ('s, 'a) state \<Rightarrow> ('a \<Rightarrow> bool) \<Rightarrow> ('s, 'a option) state" where
  "poll 0 m p = ret None"
| "poll (Suc n) m p = do { a \<leftarrow> m; (if p a then ret (Some a) else poll n m p) }"

text \<open>
  The rule for polling loops: an invariant of one attempt carries over, and the result, if
  any, satisfies the test.
\<close>

lemma wp_poll:
  assumes "I s" and "\<And>s. I s \<Longrightarrow> wp m (\<lambda>a t. if p a then J a t else I t) s"
  shows "wp (poll n m p) (\<lambda>r t. case r of None \<Rightarrow> I t | Some a \<Rightarrow> p a \<and> J a t) s"
  using assms(1)
proof (induction n arbitrary: s)
  case 0
  then show ?case by simp
next
  case (Suc n)
  show ?case
    by (simp, rule wp_mono[OF assms(2)[OF Suc.prems]]) (auto simp: Suc.IH split: if_splits)
qed

lemma wp_poll_elim:
  assumes "I s" and "\<And>s. I s \<Longrightarrow> wp m (\<lambda>a t. if p a then J a t else I t) s"
    and "\<And>t. I t \<Longrightarrow> Q None t" and "\<And>a t. p a \<Longrightarrow> J a t \<Longrightarrow> Q (Some a) t"
  shows "wp (poll n m p) Q s"
  by (rule wp_mono[OF wp_poll[where I = I and J = J]])
    (use assms in \<open>auto split: option.splits\<close>)

text \<open>An attempt that always succeeds ends the loop at once.\<close>

lemma poll_hit: "wp m (\<lambda>a t. p a \<and> Q (Some a) t) s \<Longrightarrow> 0 < n \<Longrightarrow> wp (poll n m p) Q s"
  by (cases n) (auto elim!: wp_mono)

section \<open>The device structure\<close>

text \<open>
  The fields the modelled functions use: function pointers are arguments of the functions
  that call them, delays, identification numbers and fields without a reader are left out.
  \<open>mng_cookie\<close> is the memory of the management cookie, byte by byte; \<open>laa_is_present\<close> is the
  field of the 82571 part of \<open>dev_spec\<close>, \<open>kmrn_lock_loss_workaround_enabled\<close> and \<open>shadow_ram\<close> (a
  word and whether it is modified) those of its ICH8 part.
\<close>

datatype e1000_mac_type = e1000_undefined | e1000_82571 | e1000_82572 | e1000_82573
  | e1000_82574 | e1000_82583 | e1000_80003es2lan | e1000_ich8lan | e1000_ich9lan
  | e1000_ich10lan

datatype e1000_media_type = e1000_media_type_unknown | e1000_media_type_copper
  | e1000_media_type_fiber | e1000_media_type_internal_serdes

datatype e1000_nvm_type = e1000_nvm_unknown | e1000_nvm_none | e1000_nvm_eeprom_spi
  | e1000_nvm_flash_hw | e1000_nvm_flash_sw

datatype e1000_phy_type = e1000_phy_unknown | e1000_phy_none | e1000_phy_m88 | e1000_phy_igp
  | e1000_phy_igp_2 | e1000_phy_gg82563 | e1000_phy_igp_3 | e1000_phy_ife | e1000_phy_bm

datatype e1000_bus_type = e1000_bus_type_unknown | e1000_bus_type_pci | e1000_bus_type_pcix
  | e1000_bus_type_pci_express | e1000_bus_type_reserved

datatype e1000_bus_speed = e1000_bus_speed_unknown | e1000_bus_speed_33 | e1000_bus_speed_66
  | e1000_bus_speed_100 | e1000_bus_speed_120 | e1000_bus_speed_133 | e1000_bus_speed_2500
  | e1000_bus_speed_5000 | e1000_bus_speed_reserved

datatype e1000_fc_mode = e1000_fc_none | e1000_fc_rx_pause | e1000_fc_tx_pause | e1000_fc_full
  | e1000_fc_default

datatype e1000_1000t_rx_status = e1000_1000t_rx_status_not_ok | e1000_1000t_rx_status_ok
  | e1000_1000t_rx_status_undefined

datatype e1000_rev_polarity = e1000_rev_polarity_normal | e1000_rev_polarity_reversed
  | e1000_rev_polarity_undefined

datatype e1000_ms_type = e1000_ms_hw_default | e1000_ms_force_master | e1000_ms_force_slave
  | e1000_ms_auto

datatype e1000_smart_speed = e1000_smart_speed_default | e1000_smart_speed_on
  | e1000_smart_speed_off

datatype e1000_serdes_link_state = e1000_serdes_link_down | e1000_serdes_link_autoneg_progress
  | e1000_serdes_link_autoneg_complete | e1000_serdes_link_forced_up

record e1000_mac_info =
  mac_addr :: "u8 list"
  perm_addr :: "u8 list"
  mac_type :: e1000_mac_type
  collision_delta :: u32
  ledctl_default :: u32
  ledctl_mode1 :: u32
  ledctl_mode2 :: u32
  mc_filter_type :: u32
  tx_packet_delta :: u32
  mac_txcw :: u32
  current_ifs_val :: u16
  ifs_max_val :: u16
  ifs_min_val :: u16
  ifs_ratio :: u16
  ifs_step_size :: u16
  mta_reg_count :: u16
  rar_entry_count :: u16
  forced_speed_duplex :: u8
  adaptive_ifs :: bool
  arc_subsystem_valid :: bool
  asf_firmware_present :: bool
  mac_autoneg :: bool
  autoneg_failed :: bool
  get_link_status :: bool
  in_ifs_mode :: bool
  serdes_link_state :: e1000_serdes_link_state
  serdes_has_link :: bool
  tx_pkt_filtering :: bool

record e1000_phy_info =
  phy_type :: e1000_phy_type
  local_rx :: e1000_1000t_rx_status
  remote_rx :: e1000_1000t_rx_status
  ms_type :: e1000_ms_type
  original_ms_type :: e1000_ms_type
  cable_polarity :: e1000_rev_polarity
  smart_speed :: e1000_smart_speed
  phy_addr :: u32
  phy_id :: u32
  phy_revision :: u32
  media_type :: e1000_media_type
  autoneg_advertised :: u16
  autoneg_mask :: u16
  cable_length :: u16
  max_cable_length :: u16
  min_cable_length :: u16
  mdix :: u8
  disable_polarity_correction :: bool
  is_mdix :: bool
  polarity_correction :: bool
  reset_disable :: bool
  speed_downgraded :: bool
  autoneg_wait_to_complete :: bool

record e1000_nvm_info =
  nvm_type :: e1000_nvm_type
  word_size :: u16
  address_bits :: u16
  opcode_bits :: u16
  page_size :: u16

record e1000_bus_info =
  bus_type :: e1000_bus_type
  bus_speed :: e1000_bus_speed
  bus_width :: u16
  bus_func :: u16

record e1000_fc_info =
  high_water :: u32
  low_water :: u32
  pause_time :: u16
  send_xon :: bool
  current_mode :: e1000_fc_mode
  requested_mode :: e1000_fc_mode

record e1000_hw = e1000_dev +
  mac :: e1000_mac_info
  phy :: e1000_phy_info
  nvm :: e1000_nvm_info
  bus :: e1000_bus_info
  fc :: e1000_fc_info
  mng_cookie :: "u8 list"
  laa_is_present :: bool
  kmrn_lock_loss_workaround_enabled :: bool
  shadow_ram :: "(u16 \<times> bool) list"

definition set_mac :: "(e1000_mac_info \<Rightarrow> e1000_mac_info) \<Rightarrow> (e1000_hw, unit) state" where
  "set_mac f = modify (\<lambda>s. s\<lparr>mac := f (mac s)\<rparr>)"

definition set_phy :: "(e1000_phy_info \<Rightarrow> e1000_phy_info) \<Rightarrow> (e1000_hw, unit) state" where
  "set_phy f = modify (\<lambda>s. s\<lparr>phy := f (phy s)\<rparr>)"

definition set_bus :: "(e1000_bus_info \<Rightarrow> e1000_bus_info) \<Rightarrow> (e1000_hw, unit) state" where
  "set_bus f = modify (\<lambda>s. s\<lparr>bus := f (bus s)\<rparr>)"

definition set_fc :: "(e1000_fc_info \<Rightarrow> e1000_fc_info) \<Rightarrow> (e1000_hw, unit) state" where
  "set_fc f = modify (\<lambda>s. s\<lparr>fc := f (fc s)\<rparr>)"

lemma wp_setters [simp]:
  "wp (set_mac f) Q s = Q () (s\<lparr>mac := f (mac s)\<rparr>)"
  "wp (set_phy g) Q s = Q () (s\<lparr>phy := g (phy s)\<rparr>)"
  "wp (set_bus h) Q s = Q () (s\<lparr>bus := h (bus s)\<rparr>)"
  "wp (set_fc k) Q s = Q () (s\<lparr>fc := k (fc s)\<rparr>)"
  by (simp_all add: set_mac_def set_phy_def set_bus_def set_fc_def)

text \<open>A structure with every field zero, as after \<open>kzalloc\<close>.\<close>

definition mac_zero :: e1000_mac_info where
  "mac_zero = \<lparr>mac_addr = replicate 6 0, perm_addr = replicate 6 0, mac_type = e1000_undefined,
     collision_delta = 0, ledctl_default = 0, ledctl_mode1 = 0, ledctl_mode2 = 0,
     mc_filter_type = 0, tx_packet_delta = 0, mac_txcw = 0, current_ifs_val = 0,
     ifs_max_val = 0, ifs_min_val = 0, ifs_ratio = 0, ifs_step_size = 0, mta_reg_count = 0,
     rar_entry_count = 0, forced_speed_duplex = 0,
     adaptive_ifs = False, arc_subsystem_valid = False, asf_firmware_present = False,
     mac_autoneg = False, autoneg_failed = False, get_link_status = False, in_ifs_mode = False,
     serdes_link_state = e1000_serdes_link_down, serdes_has_link = False, tx_pkt_filtering = False\<rparr>"

definition phy_zero :: e1000_phy_info where
  "phy_zero = \<lparr>phy_type = e1000_phy_unknown, local_rx = e1000_1000t_rx_status_not_ok,
     remote_rx = e1000_1000t_rx_status_not_ok, ms_type = e1000_ms_hw_default,
     original_ms_type = e1000_ms_hw_default, cable_polarity = e1000_rev_polarity_normal,
     smart_speed = e1000_smart_speed_default, phy_addr = 0, phy_id = 0, phy_revision = 0,
     media_type = e1000_media_type_unknown, autoneg_advertised = 0, autoneg_mask = 0,
     cable_length = 0, max_cable_length = 0, min_cable_length = 0, mdix = 0,
     disable_polarity_correction = False, is_mdix = False, polarity_correction = False,
     reset_disable = False, speed_downgraded = False, autoneg_wait_to_complete = False\<rparr>"

definition hw_zero :: e1000_hw where
  "hw_zero = \<lparr>rhist = [], mac = mac_zero, phy = phy_zero,
     nvm = \<lparr>nvm_type = e1000_nvm_unknown, word_size = 0, address_bits = 0, opcode_bits = 0,
       page_size = 0\<rparr>,
     bus = \<lparr>bus_type = e1000_bus_type_unknown, bus_speed = e1000_bus_speed_unknown,
       bus_width = 0, bus_func = 0\<rparr>,
     fc = \<lparr>high_water = 0, low_water = 0, pause_time = 0, send_xon = False,
       current_mode = e1000_fc_none, requested_mode = e1000_fc_none\<rparr>,
     mng_cookie = replicate 16 0, laa_is_present = False,
     kmrn_lock_loss_workaround_enabled = False, shadow_ram = []\<rparr>"

end
