(* ===== verification/Nvm.thy ===== *)
theory Nvm
  imports E1000Base
begin

text \<open>
  Non-volatile memory of the network controllers, e1000_nvm.c and the EEWR write of
  e1000_82571.c: word access through the EERD and EEWR registers, the checksum, and the
  functions that read identity data.  \<open>rd\<close> and \<open>wr\<close> stand for the function pointers
  \<open>nvm.ops.read\<close> and \<open>nvm.ops.write\<close>; the interface they have to satisfy is the locale
  \<open>nvm_access\<close>, interpreted on the EERD/EEWR pair.
\<close>

abbreviation EECD :: u32 where "EECD \<equiv> 0x00010"
abbreviation EERD :: u32 where "EERD \<equiv> 0x00014"
abbreviation EEWR :: u32 where "EEWR \<equiv> 0x0102C"
abbreviation CTRL_EXT :: u32 where "CTRL_EXT \<equiv> 0x00018"
abbreviation RAL0 :: u32 where "RAL0 \<equiv> 0x05400"
abbreviation RAH0 :: u32 where "RAH0 \<equiv> 0x05404"

section \<open>EERD and EEWR\<close>

definition e1000e_poll_eerd_eewr_done :: "mmio \<Rightarrow> bool \<Rightarrow> (e1000_hw, int) state" where
  "e1000e_poll_eerd_eewr_done E poll_read = do {
     r \<leftarrow> poll 100000 (er32 E (if poll_read then EERD else EEWR)) (\<lambda>reg. reg AND 2 \<noteq> 0);
     ret (case r of Some v \<Rightarrow> 0 | None \<Rightarrow> - E1000_ERR_NVM)
   }"

definition nvm_range_ok :: "e1000_hw \<Rightarrow> u16 \<Rightarrow> nat \<Rightarrow> bool" where
  "nvm_range_ok s offset words \<longleftrightarrow>
     \<not> (offset \<ge> word_size (nvm s) \<or> words > unat (word_size (nvm s)) - unat offset \<or> words = 0)"

fun eerd_loop :: "mmio \<Rightarrow> u16 \<Rightarrow> nat list \<Rightarrow> (e1000_hw, int + u16 list) state" where
  "eerd_loop E offset [] = ret (Inr [])"
| "eerd_loop E offset (i # is) = do {
     ew32 EERD (push_bit 2 (ucast offset + of_nat i) + 1);
     r \<leftarrow> e1000e_poll_eerd_eewr_done E True;
     (if r \<noteq> 0 then ret (Inl r) else do {
        v \<leftarrow> er32 E EERD;
        rest \<leftarrow> eerd_loop E offset is;
        when_ok rest (\<lambda>ds. ret (Inr (ucast (drop_bit 16 v) # ds))) })
   }"

definition e1000e_read_nvm_eerd ::
  "mmio \<Rightarrow> u16 \<Rightarrow> nat \<Rightarrow> (e1000_hw, int + u16 list) state" where
  "e1000e_read_nvm_eerd E offset words = do {
     ok \<leftarrow> gets (\<lambda>s. nvm_range_ok s offset words);
     (if \<not> ok then ret (Inl (- E1000_ERR_NVM)) else eerd_loop E offset [0..<words])
   }"

fun eewr_loop :: "mmio \<Rightarrow> u16 \<Rightarrow> nat \<Rightarrow> u16 list \<Rightarrow> (e1000_hw, int) state" where
  "eewr_loop E offset i [] = ret 0"
| "eewr_loop E offset i (d # ds) = do {
     r \<leftarrow> e1000e_poll_eerd_eewr_done E False;
     (if r \<noteq> 0 then ret r else do {
        ew32 EEWR (push_bit 16 (ucast d) OR push_bit 2 (ucast offset + of_nat i) OR 1);
        r \<leftarrow> e1000e_poll_eerd_eewr_done E False;
        (if r \<noteq> 0 then ret r else eewr_loop E offset (Suc i) ds) })
   }"

definition e1000_write_nvm_eewr_82571 ::
  "mmio \<Rightarrow> u16 \<Rightarrow> u16 list \<Rightarrow> (e1000_hw, int) state" where
  "e1000_write_nvm_eewr_82571 E offset data = do {
     ok \<leftarrow> gets (\<lambda>s. nvm_range_ok s offset (length data));
     (if \<not> ok then ret (- E1000_ERR_NVM) else eewr_loop E offset 0 data)
   }"

section \<open>Checksum and identity\<close>

fun nvm_sum :: "(u16 \<Rightarrow> nat \<Rightarrow> (e1000_hw, int + u16 list) state) \<Rightarrow> nat list \<Rightarrow> u16 \<Rightarrow>
    (e1000_hw, int + u16) state" where
  "nvm_sum rd [] checksum = ret (Inr checksum)"
| "nvm_sum rd (i # is) checksum = do {
     r \<leftarrow> rd (of_nat i) 1;
     when_ok r (\<lambda>nvm_data. nvm_sum rd is (checksum + hd nvm_data))
   }"

definition e1000e_validate_nvm_checksum_generic ::
  "(u16 \<Rightarrow> nat \<Rightarrow> (e1000_hw, int + u16 list) state) \<Rightarrow> (e1000_hw, int) state" where
  "e1000e_validate_nvm_checksum_generic rd = do {
     r \<leftarrow> nvm_sum rd [0..<0x3F + 1] 0;
     ok_or_code r (\<lambda>checksum. ret (if checksum \<noteq> 0xBABA then - E1000_ERR_NVM else 0))
   }"

definition e1000e_update_nvm_checksum_generic ::
  "(u16 \<Rightarrow> nat \<Rightarrow> (e1000_hw, int + u16 list) state) \<Rightarrow>
   (u16 \<Rightarrow> u16 list \<Rightarrow> (e1000_hw, int) state) \<Rightarrow> (e1000_hw, int) state" where
  "e1000e_update_nvm_checksum_generic rd wr = do {
     r \<leftarrow> nvm_sum rd [0..<0x3F] 0;
     ok_or_code r (\<lambda>checksum. wr 0x3F [0xBABA - checksum])
   }"

definition e1000e_read_pba_num ::
  "(u16 \<Rightarrow> nat \<Rightarrow> (e1000_hw, int + u16 list) state) \<Rightarrow> (e1000_hw, int + u32) state" where
  "e1000e_read_pba_num rd = do {
     r \<leftarrow> rd 8 1;
     when_ok r (\<lambda>hi. do {
       r \<leftarrow> rd 9 1;
       when_ok r (\<lambda>lo. ret (Inr (push_bit 16 (ucast (hd hi)) OR ucast (hd lo)))) })
   }"

definition rar_bytes :: "u32 \<Rightarrow> u32 \<Rightarrow> u8 list" where
  "rar_bytes rar_low rar_high =
     map (\<lambda>i. ucast (drop_bit (i * 8) rar_low)) [0..<4] @
     map (\<lambda>i. ucast (drop_bit (i * 8) rar_high)) [0..<2]"

definition e1000e_read_mac_addr_generic :: "mmio \<Rightarrow> (e1000_hw, int) state" where
  "e1000e_read_mac_addr_generic E = do {
     rar_high \<leftarrow> er32 E RAH0;
     rar_low \<leftarrow> er32 E RAL0;
     set_mac (\<lambda>m. m\<lparr>perm_addr := rar_bytes rar_low rar_high\<rparr>);
     set_mac (\<lambda>m. m\<lparr>mac_addr := perm_addr m\<rparr>);
     ret 0
   }"

definition e1000e_reload_nvm :: "mmio \<Rightarrow> (e1000_hw, unit) state" where
  "e1000e_reload_nvm E = do {
     ctrl_ext \<leftarrow> er32 E CTRL_EXT;
     ew32 CTRL_EXT (ctrl_ext OR 0x00002000);
     e1e_flush E
   }"

section \<open>The interface of the word access\<close>

text \<open>
  \<open>content s a\<close> is the word at address \<open>a\<close>; in a state that is \<open>ok\<close> a read of one of the 64
  checksummed words returns it and a write changes that word only.
\<close>

locale nvm_access =
  fixes content :: "e1000_hw \<Rightarrow> u16 \<Rightarrow> u16"
    and ok :: "e1000_hw \<Rightarrow> bool"
    and rd :: "u16 \<Rightarrow> nat \<Rightarrow> (e1000_hw, int + u16 list) state"
    and wr :: "u16 \<Rightarrow> u16 list \<Rightarrow> (e1000_hw, int) state"
  assumes rd_ok: "ok s \<Longrightarrow> unat a < 64 \<Longrightarrow>
      wp (rd a 1) (\<lambda>r t. r = Inr [content s a] \<and> content t = content s \<and> ok t) s"
    and wr_ok: "ok s \<Longrightarrow> unat a < 64 \<Longrightarrow>
      wp (wr a [v]) (\<lambda>r t. r = 0 \<and> content t = (content s)(a := v) \<and> ok t) s"
begin

lemma nvm_sum_wp:
  "ok s \<Longrightarrow> list_all (\<lambda>i. i < 64) is \<Longrightarrow> wp (nvm_sum rd is c)
     (\<lambda>r t. r = Inr (c + (\<Sum>i\<leftarrow>is. content s (of_nat i))) \<and> content t = content s \<and> ok t) s"
proof (induction "is" arbitrary: s c)
  case (Cons i "is")
  then have i: "unat (of_nat i :: u16) < 64" by (simp add: unat_of_nat)
  show ?case
    using Cons.prems(2)
    by (simp only: nvm_sum.simps wp_bind, intro wp_mono[OF rd_ok[OF Cons.prems(1) i]])
      (auto intro!: wp_mono[OF Cons.IH] simp: add.assoc)
qed simp

lemma validate_wp:
  "ok s \<Longrightarrow> wp (e1000e_validate_nvm_checksum_generic rd) (\<lambda>r t.
     r = (if (\<Sum>i\<leftarrow>[0..<64]. content s (of_nat i)) = 0xBABA then 0 else - E1000_ERR_NVM) \<and>
     content t = content s \<and> ok t) s"
  unfolding e1000e_validate_nvm_checksum_generic_def
  by (simp only: wp_bind, rule wp_mono[OF nvm_sum_wp])
    (auto simp: list_all_iff simp del: upt_conv_Cons upt_rec_numeral)

lemma update_wp:
  "ok s \<Longrightarrow> wp (e1000e_update_nvm_checksum_generic rd wr) (\<lambda>r t. r = 0 \<and> ok t \<and>
     content t = (content s)(0x3F := 0xBABA - (\<Sum>i\<leftarrow>[0..<63]. content s (of_nat i)))) s"
  unfolding e1000e_update_nvm_checksum_generic_def
  by (simp only: wp_bind, rule wp_mono[OF nvm_sum_wp])
    (auto simp: list_all_iff simp del: upt_conv_Cons upt_rec_numeral intro!: wp_mono[OF wr_ok])

lemma update_then_validate:
  assumes "ok s"
  shows "wp (do { u \<leftarrow> e1000e_update_nvm_checksum_generic rd wr;
                  v \<leftarrow> e1000e_validate_nvm_checksum_generic rd; ret (u, v) })
    (\<lambda>r t. r = (0, 0) \<and> (\<forall>a. a \<noteq> 0x3F \<longrightarrow> content t a = content s a)) s"
proof -
  have "[0..<Suc 63] = [0..<63] @ [63]" by (rule upt_Suc_append) simp
  then have split: "[0..<64] = [0..<63] @ [63 :: nat]"
    by (simp del: upt_Suc upt_conv_Cons upt_rec_numeral)
  have ne: "i < 63 \<Longrightarrow> (of_nat i :: u16) \<noteq> 0x3F" for i
    using unat_of_nat[of i, where 'a = 16] by (auto dest!: arg_cong[where f = unat])
  have same: "map (\<lambda>i. ((content s)(0x3F := v)) (of_nat i)) [0..<63] =
      map (\<lambda>i. content s (of_nat i)) [0..<63]" for v
    by (rule map_cong) (auto dest: ne)
  have "(\<Sum>i\<leftarrow>[0..<64]. ((content s)(0x3F := 0xBABA - (\<Sum>i\<leftarrow>[0..<63]. content s (of_nat i)))) (of_nat i))
      = 0xBABA"
    unfolding split map_append sum_list_append same by simp
  then show ?thesis
    by (simp only: wp_bind, intro wp_mono[OF update_wp[OF assms]])
      (auto intro!: wp_mono[OF validate_wp] simp del: upt_conv_Cons upt_rec_numeral)
qed

end

section \<open>The EERD/EEWR device\<close>

text \<open>
  The documented behaviour of the two registers: a write of EEWR with the start bit stores
  its upper half at the address field, EERD delivers the word at the address last requested,
  and both report completion.  \<open>m\<close> is the content before the driver's first access.
\<close>

definition ee_addr :: "u32 \<Rightarrow> u16" where
  "ee_addr v = ucast (drop_bit 2 v AND 0x3FFF)"

fun eeprom_mem :: "(u16 \<Rightarrow> u16) \<Rightarrow> reg_ev list \<Rightarrow> u16 \<Rightarrow> u16" where
  "eeprom_mem m [] = m"
| "eeprom_mem m (Wr r v # h) =
     (if r = EEWR \<and> bit v 0 then (eeprom_mem m h)(ee_addr v := ucast (drop_bit 16 v))
      else eeprom_mem m h)"
| "eeprom_mem m (Rd r v # h) = eeprom_mem m h"

definition eeprom_dev :: "(u16 \<Rightarrow> u16) \<Rightarrow> mmio \<Rightarrow> bool" where
  "eeprom_dev m E \<longleftrightarrow> (\<forall>h. bit (E h EEWR) 1 \<and> (\<forall>v. reg_last h EERD = Some v \<longrightarrow>
     bit (E h EERD) 1 \<and> ucast (drop_bit 16 (E h EERD)) = eeprom_mem m h (ee_addr v)))"

definition eeprom_chip :: "(u16 \<Rightarrow> u16) \<Rightarrow> mmio" where
  "eeprom_chip m h r =
     (if r = EERD then (case reg_last h EERD of None \<Rightarrow> 0
        | Some v \<Rightarrow> push_bit 16 (ucast (eeprom_mem m h (ee_addr v))) OR 2)
      else 2)"

lemma ucast_high_half: "ucast (drop_bit 16 (push_bit 16 (ucast (d :: u16)) OR x :: u32)) =
    (d OR ucast (drop_bit 16 x) :: u16)"
  by (rule bit_word_eqI) (auto simp: bit_simps)

lemma eeprom_chip_dev: "eeprom_dev m (eeprom_chip m)"
  by (auto simp: eeprom_dev_def eeprom_chip_def ucast_high_half ucast_high_half[of _ 0, simplified]
      bit_simps bit_numeral_rec)

lemma flag_2_32: "((v :: u32) AND 2 = 0) = (\<not> bit v 1)"
  using and_exp_eq_0_iff_not_bit[of v 1] by simp

lemma word_3FFF: "(0x3FFF :: u32) = mask 14"
  by (simp add: mask_eq_exp_minus_1)

lemma ee_addr_iff:
  "ee_addr v = a \<longleftrightarrow> (\<forall>n < 16. bit a n = (n < 14 \<and> bit v (n + 2)))"
proof -
  have "bit (ee_addr v) n = (n < 14 \<and> bit v (n + 2))" if "n < 16" for n
    using that unfolding ee_addr_def word_3FFF by (auto simp: bit_simps)
  then show ?thesis by (auto intro!: bit_word_eqI)
qed

lemma small_word_bit:
  fixes a :: u16
  assumes "unat a < 64" "bit a n"
  shows "n < 6"
proof -
  have "unat (take_bit 6 a) = unat a"
    unfolding unsigned_take_bit_eq by (rule take_bit_nat_eq_self) (use assms(1) in simp)
  then have "take_bit 6 a = a" by (simp only: word_unat_eq_iff)
  with assms(2) have "bit (take_bit 6 a) n" by (simp only:)
  then show ?thesis by (simp add: bit_take_bit_iff)
qed

lemma ee_addr_read:
  "unat a < 64 \<Longrightarrow> ee_addr (push_bit 2 (ucast a) OR 1) = a"
  unfolding ee_addr_iff by (auto simp: bit_simps dest: small_word_bit)

lemma ee_addr_write:
  "unat a < 64 \<Longrightarrow> ee_addr (push_bit 16 (ucast (d :: u16)) OR push_bit 2 (ucast a) OR 1) = a"
  unfolding ee_addr_iff by (auto simp: bit_simps dest: small_word_bit)

lemma ee_cmd_plus: "push_bit 2 (w :: u32) + 1 = push_bit 2 w OR 1"
  by (rule disjunctive_add) (auto simp: bit_simps)

lemma ee_data: "unat a < 64 \<Longrightarrow>
  ucast (drop_bit 16 (push_bit 16 (ucast (d :: u16)) OR push_bit 2 (ucast (a :: u16)) OR 1 :: u32)) = d"
  by (rule bit_word_eqI) (auto simp: bit_simps dest: small_word_bit)

text \<open>Polling a device that reports completion costs one read.\<close>

lemma wp_poll_done:
  assumes "bit (E (rhist s) (if b then EERD else EEWR)) 1"
    and "\<And>q v. Q 0 (s\<lparr>rhist := Rd q v # rhist s\<rparr>)"
  shows "wp (e1000e_poll_eerd_eewr_done E b) Q s"
  unfolding e1000e_poll_eerd_eewr_done_def wp_bind
  by (rule poll_hit) (use assms in \<open>auto simp: flag_2_32 wp_def\<close>)

lemma eeprom_devD:
  "eeprom_dev m E \<Longrightarrow> bit (E h EEWR) 1"
  "eeprom_dev m E \<Longrightarrow> reg_last h EERD = Some v \<Longrightarrow>
     bit (E h EERD) 1 \<and> ucast (drop_bit 16 (E h EERD)) = eeprom_mem m h (ee_addr v)"
  by (auto simp: eeprom_dev_def)

definition eeprom_ok :: "(u16 \<Rightarrow> u16) \<Rightarrow> mmio \<Rightarrow> e1000_hw \<Rightarrow> bool" where
  "eeprom_ok m E s \<longleftrightarrow> eeprom_dev m E \<and> 64 \<le> unat (word_size (nvm s))"

definition eeprom_content :: "(u16 \<Rightarrow> u16) \<Rightarrow> e1000_hw \<Rightarrow> u16 \<Rightarrow> u16" where
  "eeprom_content m s = eeprom_mem m (rhist s)"

lemma eeprom_range: "eeprom_ok m E s \<Longrightarrow> unat a < 64 \<Longrightarrow> nvm_range_ok s a 1"
  by (auto simp: eeprom_ok_def nvm_range_ok_def word_le_nat_alt)

lemma eerd_word_wp:
  assumes "eeprom_ok m E s" "unat a < 64"
  shows "wp (e1000e_read_nvm_eerd E a 1) (\<lambda>r t. r = Inr [eeprom_content m s a] \<and>
    eeprom_content m t = eeprom_content m s \<and> eeprom_ok m E t) s"
proof -
  have dev: "eeprom_dev m E" using assms(1) by (simp add: eeprom_ok_def)
  have cmd: "ee_addr (push_bit 2 (ucast a) + 1) = a"
    unfolding ee_cmd_plus by (rule ee_addr_read[OF assms(2)])
  note rd = eeprom_devD(2)[OF dev, of _ "push_bit 2 (ucast a) + 1", unfolded cmd]
  have "wp (eerd_loop E a [0]) (\<lambda>r t. r = Inr [eeprom_content m s a] \<and>
      eeprom_content m t = eeprom_content m s \<and> eeprom_ok m E t) s"
    using assms(1) rd
    by (auto simp: eeprom_content_def eeprom_ok_def intro!: wp_poll_done wp_er32)
  then show ?thesis
    using eeprom_range[OF assms] by (simp add: e1000e_read_nvm_eerd_def)
qed

lemma eewr_word_wp:
  assumes "eeprom_ok m E s" "unat a < 64"
  shows "wp (e1000_write_nvm_eewr_82571 E a [v]) (\<lambda>r t. r = 0 \<and>
    eeprom_content m t = (eeprom_content m s)(a := v) \<and> eeprom_ok m E t) s"
proof -
  have dev: "eeprom_dev m E" using assms(1) by (simp add: eeprom_ok_def)
  note facts = eeprom_devD(1)[OF dev] ee_addr_write[OF assms(2)] ee_data[OF assms(2)]
  have "wp (eewr_loop E a 0 [v]) (\<lambda>r t. r = 0 \<and>
      eeprom_content m t = (eeprom_content m s)(a := v) \<and> eeprom_ok m E t) s"
    using assms(1) facts
    by (auto simp: eeprom_content_def eeprom_ok_def or.assoc bit_simps intro!: wp_poll_done)
  then show ?thesis
    using eeprom_range[OF assms] by (simp add: e1000_write_nvm_eewr_82571_def)
qed

interpretation nvm_eewr: nvm_access "eeprom_content m" "eeprom_ok m E"
    "e1000e_read_nvm_eerd E" "e1000_write_nvm_eewr_82571 E" for m E
  by unfold_locales (rule eerd_word_wp eewr_word_wp, assumption, assumption)+

section \<open>Error paths and bounds\<close>

text \<open>A device that never reports completion: every read fails after 100000 polls.\<close>

lemma poll_never:
  "(\<And>h. \<not> p (E h r)) \<Longrightarrow> wp (poll n (er32 E r) p) (\<lambda>q t. q = None \<and>
     length (rhist t) = length (rhist s) + n) s"
proof (induction n arbitrary: s)
  case (Suc n)
  show ?case
    by (auto simp: Suc.prems intro!: wp_er32 wp_mono[OF Suc.IH[OF Suc.prems]])
qed simp

lemma eerd_never:
  assumes "\<And>h. \<not> bit (E h EERD) 1" "nvm_range_ok s a n"
  shows "wp (e1000e_read_nvm_eerd E a n) (\<lambda>r t. r = Inl (-1) \<and>
    length (rhist t) = length (rhist s) + 100001) s"
proof -
  have "0 < n" using assms(2) by (auto simp: nvm_range_ok_def)
  then have n: "[0..<n] = 0 # [Suc 0..<n]" by (rule upt_conv_Cons)
  show ?thesis
    unfolding e1000e_read_nvm_eerd_def
    using assms
    by (auto simp: n e1000e_poll_eerd_eewr_done_def flag_2_32 E1000_ERR_NVM_def
        intro!: wp_mono[OF poll_never])
qed

section \<open>Properties\<close>

text \<open>
  C31: Whatever the memory holds, after the checksum was updated through the EEWR register a
  validation through the EERD register succeeds, and no word but the checksum word changed.
\<close>

theorem nvm_update_then_validate:
  assumes "eeprom_dev m E" "64 \<le> unat (word_size (nvm s))"
  shows "wp (do {
      u \<leftarrow> e1000e_update_nvm_checksum_generic (e1000e_read_nvm_eerd E) (e1000_write_nvm_eewr_82571 E);
      v \<leftarrow> e1000e_validate_nvm_checksum_generic (e1000e_read_nvm_eerd E); ret (u, v) })
    (\<lambda>r t. r = (0, 0) \<and> (\<forall>a. a \<noteq> 0x3F \<longrightarrow> eeprom_content m t a = eeprom_content m s a)) s"
  by (rule nvm_eewr.update_then_validate) (use assms in \<open>simp add: eeprom_ok_def\<close>)

definition hw_nvm64 :: e1000_hw where
  "hw_nvm64 = hw_zero\<lparr>nvm := (nvm hw_zero)\<lparr>word_size := 64\<rparr>\<rparr>"

theorem nvm_update_then_validate_witness:
  "val_of (do {
      u \<leftarrow> e1000e_update_nvm_checksum_generic (e1000e_read_nvm_eerd (eeprom_chip (\<lambda>_. 0xFFFF)))
        (e1000_write_nvm_eewr_82571 (eeprom_chip (\<lambda>_. 0xFFFF)));
      v \<leftarrow> e1000e_validate_nvm_checksum_generic (e1000e_read_nvm_eerd (eeprom_chip (\<lambda>_. 0xFFFF)));
      ret (u, v) }) hw_nvm64 = (0, 0)"
  using nvm_update_then_validate[OF eeprom_chip_dev, of hw_nvm64 "\<lambda>_. 0xFFFF"]
  unfolding wp_iff by (simp add: hw_nvm64_def)

text \<open>
  Validation returns success exactly when the 64 words sum to 0xBABA modulo 2^16, the
  error code otherwise, and leaves the memory unchanged.
\<close>

theorem nvm_validate_iff:
  assumes "eeprom_dev m E" "64 \<le> unat (word_size (nvm s))"
  shows "val_of (e1000e_validate_nvm_checksum_generic (e1000e_read_nvm_eerd E)) s =
      (if (\<Sum>i\<leftarrow>[0..<64]. eeprom_content m s (of_nat i)) = 0xBABA then 0 else - E1000_ERR_NVM)"
  using nvm_eewr.validate_wp[of m E s] assms by (simp add: wp_iff eeprom_ok_def)

theorem nvm_validate_iff_witness:
  "val_of (e1000e_validate_nvm_checksum_generic (e1000e_read_nvm_eerd (eeprom_chip (\<lambda>_. 0)))) hw_nvm64
    = - E1000_ERR_NVM"
  using nvm_validate_iff[OF eeprom_chip_dev, of hw_nvm64 "\<lambda>_. 0"]
  by (simp add: hw_nvm64_def eeprom_content_def hw_zero_def sum_list_triv)



end
