(* ===== verification/Spi.thy ===== *)
theory Spi
  imports Nvm
begin

text \<open>
  The bit-banged serial EEPROM interface of e1000_nvm.c: clocking, shifting, chip select,
  ownership and the page-wise write \<open>e1000e_write_nvm_spi\<close>, verified against the waveform
  the EEPROM sees.
\<close>

abbreviation EECD_SK :: u32 where "EECD_SK \<equiv> 0x01"
abbreviation EECD_CS :: u32 where "EECD_CS \<equiv> 0x02"
abbreviation EECD_DI :: u32 where "EECD_DI \<equiv> 0x04"
abbreviation EECD_DO :: u32 where "EECD_DO \<equiv> 0x08"
abbreviation EECD_REQ :: u32 where "EECD_REQ \<equiv> 0x40"
abbreviation EECD_GNT :: u32 where "EECD_GNT \<equiv> 0x80"

section \<open>Shifting\<close>

definition e1000_raise_eec_clk :: "mmio \<Rightarrow> u32 \<Rightarrow> (e1000_hw, u32) state" where
  "e1000_raise_eec_clk E eecd = do {
     ew32 EECD (eecd OR EECD_SK);
     e1e_flush E;
     ret (eecd OR EECD_SK)
   }"

definition e1000_lower_eec_clk :: "mmio \<Rightarrow> u32 \<Rightarrow> (e1000_hw, u32) state" where
  "e1000_lower_eec_clk E eecd = do {
     ew32 EECD (eecd AND NOT EECD_SK);
     e1e_flush E;
     ret (eecd AND NOT EECD_SK)
   }"

text \<open>The loop over the mask, highest bit first: \<open>ks\<close> are the bit positions still to send.\<close>

fun shift_out_loop :: "mmio \<Rightarrow> u16 \<Rightarrow> nat list \<Rightarrow> u32 \<Rightarrow> (e1000_hw, u32) state" where
  "shift_out_loop E data [] eecd = ret eecd"
| "shift_out_loop E data (k # ks) eecd =
     (let eecd = eecd AND NOT EECD_DI;
          eecd = (if bit data k then eecd OR EECD_DI else eecd)
      in do {
        ew32 EECD eecd;
        e1e_flush E;
        eecd \<leftarrow> e1000_raise_eec_clk E eecd;
        eecd \<leftarrow> e1000_lower_eec_clk E eecd;
        shift_out_loop E data ks eecd
      })"

definition e1000_shift_out_eec_bits :: "mmio \<Rightarrow> u16 \<Rightarrow> nat \<Rightarrow> (e1000_hw, unit) state" where
  "e1000_shift_out_eec_bits E data count = do {
     eecd \<leftarrow> er32 E EECD;
     ty \<leftarrow> gets (\<lambda>s. nvm_type (nvm s));
     (let eecd = (if ty = e1000_nvm_eeprom_spi then eecd OR EECD_DO else eecd) in do {
        eecd \<leftarrow> shift_out_loop E data (rev [0..<count]) eecd;
        ew32 EECD (eecd AND NOT EECD_DI) })
   }"

fun shift_in_loop :: "mmio \<Rightarrow> nat \<Rightarrow> u32 \<Rightarrow> u16 \<Rightarrow> (e1000_hw, u16) state" where
  "shift_in_loop E 0 eecd data = ret data"
| "shift_in_loop E (Suc n) eecd data =
     (let data = push_bit 1 data in do {
        eecd \<leftarrow> e1000_raise_eec_clk E eecd;
        eecd \<leftarrow> er32 E EECD;
        (let eecd = eecd AND NOT EECD_DI;
             data = (if eecd AND EECD_DO \<noteq> 0 then data OR 1 else data)
         in do {
           eecd \<leftarrow> e1000_lower_eec_clk E eecd;
           shift_in_loop E n eecd data }) })"

definition e1000_shift_in_eec_bits :: "mmio \<Rightarrow> nat \<Rightarrow> (e1000_hw, u16) state" where
  "e1000_shift_in_eec_bits E count = do {
     eecd \<leftarrow> er32 E EECD;
     shift_in_loop E count (eecd AND NOT (EECD_DO OR EECD_DI)) 0
   }"

section \<open>Ownership, chip select, readiness\<close>

fun acquire_loop :: "mmio \<Rightarrow> nat \<Rightarrow> u32 \<Rightarrow> (e1000_hw, nat \<times> u32) state" where
  "acquire_loop E 0 eecd = ret (0, eecd)"
| "acquire_loop E (Suc n) eecd =
     (if eecd AND EECD_GNT \<noteq> 0 then ret (Suc n, eecd)
      else do { eecd \<leftarrow> er32 E EECD; acquire_loop E n eecd })"

definition e1000e_acquire_nvm :: "mmio \<Rightarrow> (e1000_hw, int) state" where
  "e1000e_acquire_nvm E = do {
     eecd \<leftarrow> er32 E EECD;
     ew32 EECD (eecd OR EECD_REQ);
     eecd \<leftarrow> er32 E EECD;
     (timeout, eecd) \<leftarrow> acquire_loop E 1000 eecd;
     (if timeout = 0 then do {
        ew32 EECD (eecd AND NOT EECD_REQ);
        ret (- E1000_ERR_NVM)
      } else ret 0)
   }"

definition e1000_standby_nvm :: "mmio \<Rightarrow> (e1000_hw, unit) state" where
  "e1000_standby_nvm E = do {
     eecd \<leftarrow> er32 E EECD;
     ty \<leftarrow> gets (\<lambda>s. nvm_type (nvm s));
     (if ty = e1000_nvm_eeprom_spi then do {
        ew32 EECD (eecd OR EECD_CS);
        e1e_flush E;
        ew32 EECD ((eecd OR EECD_CS) AND NOT EECD_CS);
        e1e_flush E
      } else skip)
   }"

definition e1000_stop_nvm :: "mmio \<Rightarrow> (e1000_hw, unit) state" where
  "e1000_stop_nvm E = do {
     eecd \<leftarrow> er32 E EECD;
     ty \<leftarrow> gets (\<lambda>s. nvm_type (nvm s));
     (if ty = e1000_nvm_eeprom_spi then do {
        eecd \<leftarrow> e1000_lower_eec_clk E (eecd OR EECD_CS);
        skip
      } else skip)
   }"

definition e1000e_release_nvm :: "mmio \<Rightarrow> (e1000_hw, unit) state" where
  "e1000e_release_nvm E = do {
     e1000_stop_nvm E;
     eecd \<leftarrow> er32 E EECD;
     ew32 EECD (eecd AND NOT EECD_REQ)
   }"

text \<open>One status poll: the opcode out, eight bits in; the result is the busy flag.\<close>

definition spi_status :: "mmio \<Rightarrow> (e1000_hw, bool) state" where
  "spi_status E = do {
     ob \<leftarrow> gets (\<lambda>s. unat (opcode_bits (nvm s)));
     e1000_shift_out_eec_bits E 0x05 ob;
     v \<leftarrow> e1000_shift_in_eec_bits E 8;
     ret ((ucast v :: u8) AND 0x01 \<noteq> 0)
   }"

fun ready_loop :: "mmio \<Rightarrow> nat \<Rightarrow> (e1000_hw, bool) state" where
  "ready_loop E 0 = ret False"
| "ready_loop E (Suc n) = do {
     busy \<leftarrow> spi_status E;
     (if \<not> busy then ret True else do { e1000_standby_nvm E; ready_loop E n })
   }"

definition e1000_ready_nvm_eeprom :: "mmio \<Rightarrow> (e1000_hw, int) state" where
  "e1000_ready_nvm_eeprom E = do {
     eecd \<leftarrow> er32 E EECD;
     ty \<leftarrow> gets (\<lambda>s. nvm_type (nvm s));
     (if ty = e1000_nvm_eeprom_spi then do {
        ew32 EECD (eecd AND NOT (EECD_CS OR EECD_SK));
        ok \<leftarrow> ready_loop E 5000;
        ret (if ok then 0 else - E1000_ERR_NVM)
      } else ret 0)
   }"

section \<open>The page-wise write\<close>

definition swap16 :: "u16 \<Rightarrow> u16" where
  "swap16 w = drop_bit 8 w OR push_bit 8 w"

text \<open>
  The inner loop: words from index \<open>widx\<close> on, up to the end of a page; the result is the
  index and the words that are left.
\<close>

fun page_loop :: "mmio \<Rightarrow> u16 \<Rightarrow> nat \<Rightarrow> u16 list \<Rightarrow> (e1000_hw, nat \<times> u16 list) state" where
  "page_loop E offset widx [] = ret (widx, [])"
| "page_loop E offset widx (d # ds) = do {
     e1000_shift_out_eec_bits E (swap16 d) 16;
     ps \<leftarrow> gets (\<lambda>s. unat (page_size (nvm s)));
     (if (unat offset + (widx + 1)) * 2 mod ps = 0
      then do { e1000_standby_nvm E; ret (widx + 1, ds) }
      else page_loop E offset (widx + 1) ds)
   }"

text \<open>One page: write enable, then opcode, address and words in one frame.\<close>

definition write_cmd :: "mmio \<Rightarrow> u16 \<Rightarrow> nat \<Rightarrow> u16 list \<Rightarrow> (e1000_hw, nat \<times> u16 list) state" where
  "write_cmd E offset widx ds = do {
     e1000_standby_nvm E;
     ob \<leftarrow> gets (\<lambda>s. unat (opcode_bits (nvm s)));
     ab \<leftarrow> gets (\<lambda>s. unat (address_bits (nvm s)));
     e1000_shift_out_eec_bits E 0x06 ob;
     e1000_standby_nvm E;
     (let opc = (if ab = 8 \<and> offset \<ge> 128 then 0x02 OR 0x08 else 0x02) in do {
        e1000_shift_out_eec_bits E opc ob;
        e1000_shift_out_eec_bits E ((ucast offset + of_nat widx) * 2) ab;
        page_loop E offset widx ds })
   }"

text \<open>
  The outer loop.  Every turn consumes at least one word, so as many turns as there are words
  are enough.
\<close>

fun write_pages :: "mmio \<Rightarrow> nat \<Rightarrow> u16 \<Rightarrow> nat \<Rightarrow> u16 list \<Rightarrow> (e1000_hw, int) state" where
  "write_pages E 0 offset widx ds = ret 0"
| "write_pages E (Suc n) offset widx ds =
     (if ds = [] then ret 0 else do {
        r \<leftarrow> e1000_ready_nvm_eeprom E;
        (if r \<noteq> 0 then ret r else do {
           (widx, ds) \<leftarrow> write_cmd E offset widx ds;
           write_pages E n offset widx ds }) })"

definition e1000e_write_nvm_spi ::
  "mmio \<Rightarrow> (e1000_hw, int) state \<Rightarrow> (e1000_hw, unit) state \<Rightarrow> u16 \<Rightarrow> u16 list \<Rightarrow>
   (e1000_hw, int) state" where
  "e1000e_write_nvm_spi E acquire release offset data = do {
     ok \<leftarrow> gets (\<lambda>s. nvm_range_ok s offset (length data));
     (if \<not> ok then ret (- E1000_ERR_NVM) else do {
        r \<leftarrow> acquire;
        (if r \<noteq> 0 then ret r else do {
           r \<leftarrow> write_pages E (length data) offset 0 data;
           release;
           ret r }) })
   }"

section \<open>The waveform\<close>

text \<open>
  What the EEPROM sees of the writes to EECD: with chip select low (bit 1 clear) it samples
  the data line (bit 2) at each rising edge of the clock (bit 0); raising chip select ends
  the frame.
\<close>

record spi =
  spi_sk :: bool
  spi_cs :: bool
  spi_cur :: "bool list"
  spi_frames :: "bool list list"

definition spi_wr :: "u32 \<Rightarrow> spi \<Rightarrow> spi" where
  "spi_wr v c =
     (if bit v 1 then c\<lparr>spi_sk := bit v 0, spi_cs := True, spi_cur := [],
        spi_frames := spi_frames c @ (if spi_cur c = [] then [] else [spi_cur c])\<rparr>
      else c\<lparr>spi_sk := bit v 0, spi_cs := False,
        spi_cur := spi_cur c @ (if bit v 0 \<and> \<not> spi_sk c then [bit v 2] else [])\<rparr>)"

fun spi_of :: "reg_ev list \<Rightarrow> spi" where
  "spi_of [] = \<lparr>spi_sk = False, spi_cs = True, spi_cur = [], spi_frames = []\<rparr>"
| "spi_of (Wr r v # h) = (if r = EECD then spi_wr v (spi_of h) else spi_of h)"
| "spi_of (Rd r v # h) = spi_of h"

lemma spi_lines:
  "reg_last h EECD = Some v \<Longrightarrow> spi_sk (spi_of h) = bit v 0 \<and> spi_cs (spi_of h) = bit v 1"
  by (induction h EECD rule: reg_last.induct) (auto simp: spi_wr_def split: if_splits)

text \<open>The line bits of EECD read back as written.\<close>

definition eecd_latch :: "mmio \<Rightarrow> bool" where
  "eecd_latch E \<longleftrightarrow> (\<forall>h v. reg_last h EECD = Some v \<longrightarrow>
     bit (E h EECD) 0 = bit v 0 \<and> bit (E h EECD) 1 = bit v 1 \<and> bit (E h EECD) 2 = bit v 2)"

text \<open>Selected with the clock low.\<close>

definition spi_sel :: "reg_ev list \<Rightarrow> bool" where
  "spi_sel h \<longleftrightarrow> (\<exists>v. reg_last h EECD = Some v \<and> \<not> bit v 0 \<and> \<not> bit v 1)"

lemmas spi_eval = spi_sel_def spi_wr_def bit_simps bit_numeral_rec

lemma spi_sel_read: "eecd_latch E \<Longrightarrow> spi_sel h \<Longrightarrow> \<not> bit (E h EECD) 0 \<and> \<not> bit (E h EECD) 1"
  by (auto simp: eecd_latch_def spi_sel_def)

lemma spi_sel_lines: "spi_sel h \<Longrightarrow> \<not> spi_sk (spi_of h) \<and> \<not> spi_cs (spi_of h)"
  using spi_lines by (auto simp: spi_sel_def)

definition spi_now :: "reg_ev list \<Rightarrow> bool list list \<Rightarrow> bool list \<Rightarrow> bool" where
  "spi_now h fs cur \<longleftrightarrow> spi_sel h \<and> spi_frames (spi_of h) = fs \<and> spi_cur (spi_of h) = cur"

lemma spi_now_flush [simp]: "spi_now (Rd r v # h) fs cur = spi_now h fs cur"
  by (simp add: spi_now_def spi_sel_def)

text \<open>One clock pulse appends the data line.\<close>

lemma spi_pulse:
  assumes "spi_now h fs cur" "\<not> bit w 0" "\<not> bit w 1"
  shows "spi_now (Wr EECD (w OR EECD_SK AND NOT EECD_SK) #
      Rd q y # Wr EECD (w OR EECD_SK) # h) fs (cur @ [bit w 2])"
  using assms spi_sel_lines[of h] by (auto simp: spi_now_def spi_eval)

lemma spi_set_data:
  assumes "spi_now h fs cur" "\<not> bit w 0" "\<not> bit w 1"
  shows "spi_now (Wr EECD w # h) fs cur"
  using assms spi_sel_lines[of h] by (auto simp: spi_now_def spi_eval)

lemma spi_pulse_flush:
  assumes "spi_now h fs cur" "\<not> bit w 0" "\<not> bit w 1"
  shows "spi_now (Wr EECD ((w OR EECD_SK) AND NOT EECD_SK) #
      Rd q y # Wr EECD (w OR EECD_SK) # Rd q' y' # Wr EECD w # h) fs (cur @ [bit w 2])"
  using assms spi_sel_lines[of h] by (auto simp: spi_now_def spi_eval)

lemma shift_out_loop_wp:
  assumes "spi_now (rhist s) fs cur" "\<not> bit e 0" "\<not> bit e 1"
    and "\<And>h e'. spi_now h fs (cur @ map (bit d) ks) \<Longrightarrow> \<not> bit e' 0 \<Longrightarrow> \<not> bit e' 1 \<Longrightarrow>
      Q e' (s\<lparr>rhist := h\<rparr>)"
  shows "wp (shift_out_loop E d ks e) Q s"
  using assms
proof (induction ks arbitrary: s e cur)
  case Nil
  from Nil(4)[of "rhist s" e] Nil(1-3) show ?case by simp
next
  case (Cons k ks)
  define w where "w = (if bit d k then e AND NOT EECD_DI OR EECD_DI else e AND NOT EECD_DI)"
  have w: "\<not> bit w 0" "\<not> bit w 1" "bit w 2 = bit d k"
    using Cons.prems(2,3) by (auto simp: w_def bit_simps bit_numeral_rec)
  have low: "\<not> bit ((w OR EECD_SK) AND NOT EECD_SK) 0" "\<not> bit ((w OR EECD_SK) AND NOT EECD_SK) 1"
    using w by (auto simp: bit_simps bit_numeral_rec)
  have Q: "spi_now h fs ((cur @ [bit d k]) @ map (bit d) ks) \<Longrightarrow> \<not> bit e' 0 \<Longrightarrow>
      \<not> bit e' 1 \<Longrightarrow> Q e' (s\<lparr>rhist := h\<rparr>)" for h e'
    using Cons.prems(4)[of h e'] by simp
  have "wp (do { ew32 EECD w; e1e_flush E; e \<leftarrow> e1000_raise_eec_clk E w;
      e \<leftarrow> e1000_lower_eec_clk E e; shift_out_loop E d ks e }) Q s"
    unfolding e1000_raise_eec_clk_def e1000_lower_eec_clk_def
    using spi_pulse_flush[OF Cons.prems(1) w(1,2), unfolded w(3)] low
    by (auto intro!: wp_flush Cons.IH[where cur = "cur @ [bit d k]"] Q)
  then show ?case by (simp only: shift_out_loop.simps Let_def w_def)
qed

lemma shift_out_wp:
  assumes "eecd_latch E" "spi_now (rhist s) fs cur"
    and "\<And>h. spi_now h fs (cur @ map (bit d) (rev [0..<n])) \<Longrightarrow> Q () (s\<lparr>rhist := h\<rparr>)"
  shows "wp (e1000_shift_out_eec_bits E d n) Q s"
proof -
  have rd: "\<not> bit (E (rhist s) EECD) 0" "\<not> bit (E (rhist s) EECD) 1"
    using spi_sel_read[OF assms(1)] assms(2) by (simp_all add: spi_now_def)
  show ?thesis
    unfolding e1000_shift_out_eec_bits_def
    using assms(2,3) rd
    by (auto simp: Let_def bit_simps bit_numeral_rec spi_set_data
        intro!: wp_er32 shift_out_loop_wp[where fs = fs and cur = cur])
qed

lemma pulse_in:
  "spi_now h fs cur \<Longrightarrow> bit r 0 \<Longrightarrow> \<not> bit r 1 \<Longrightarrow> \<not> bit r 2 \<Longrightarrow> \<not> bit f 0 \<Longrightarrow> \<not> bit f 1 \<Longrightarrow>
   spi_now (Wr EECD f # Rd q y # Rd q' z # Wr EECD r # h) fs (cur @ [False])"
  using spi_sel_lines[of h] by (auto simp: spi_now_def spi_eval)

lemma latch_after:
  "eecd_latch E \<Longrightarrow> bit (E (Rd q z # Wr EECD r # h) EECD) (Suc 0) = bit r (Suc 0)"
  by (auto simp: eecd_latch_def)

lemma shift_in_loop_wp:
  assumes "eecd_latch E" "spi_now (rhist s) fs cur" "\<not> bit e 0" "\<not> bit e 1" "\<not> bit e 2"
    and "\<And>h v. spi_now h fs (cur @ replicate n False) \<Longrightarrow> Q v (s\<lparr>rhist := h\<rparr>)"
  shows "wp (shift_in_loop E n e d) Q s"
  using assms(2-)
proof (induction n arbitrary: s e d cur)
  case 0
  from 0(5)[of "rhist s" d] 0(1) show ?case by simp
next
  case (Suc n)
  have "cur @ replicate (Suc n) False = (cur @ [False]) @ replicate n False"
    by (simp add: replicate_append_same)
  with Suc.prems(5) have Q: "spi_now h fs ((cur @ [False]) @ replicate n False) \<Longrightarrow>
      Q v (s\<lparr>rhist := h\<rparr>)" for h v by simp
  show ?case
    unfolding shift_in_loop.simps e1000_raise_eec_clk_def e1000_lower_eec_clk_def Let_def
    using Suc.prems(1-4) latch_after[OF assms(1)]
    by (auto simp: bit_simps bit_numeral_rec
        intro!: wp_flush wp_er32 Suc.IH[where cur = "cur @ [False]"] pulse_in Q)
qed

lemma shift_in_wp:
  assumes "eecd_latch E" "spi_now (rhist s) fs cur"
    and "\<And>h v. spi_now h fs (cur @ replicate n False) \<Longrightarrow> Q v (s\<lparr>rhist := h\<rparr>)"
  shows "wp (e1000_shift_in_eec_bits E n) Q s"
proof -
  have rd: "\<not> bit (E (rhist s) EECD) 0" "\<not> bit (E (rhist s) EECD) 1"
    using spi_sel_read[OF assms(1)] assms(2) by (simp_all add: spi_now_def)
  show ?thesis
    unfolding e1000_shift_in_eec_bits_def
    using assms rd
    by (auto simp: bit_simps bit_numeral_rec
        intro!: wp_er32 shift_in_loop_wp[where fs = fs and cur = cur])
qed

text \<open>Closing the frame.\<close>

definition close :: "bool list list \<Rightarrow> bool list \<Rightarrow> bool list list" where
  "close fs cur = fs @ (if cur = [] then [] else [cur])"

lemma standby_wp:
  assumes "eecd_latch E" "nvm_type (nvm s) = e1000_nvm_eeprom_spi" "spi_now (rhist s) fs cur"
    and "\<And>h. spi_now h (close fs cur) [] \<Longrightarrow> Q () (s\<lparr>rhist := h\<rparr>)"
  shows "wp (e1000_standby_nvm E) Q s"
proof -
  define y where "y = E (rhist s) EECD"
  have rd: "\<not> bit y 0" "\<not> bit y 1"
    using spi_sel_read[OF assms(1)] assms(3) by (simp_all add: spi_now_def y_def)
  have "spi_now (Wr EECD ((y OR EECD_CS) AND NOT EECD_CS) # Rd q z # Wr EECD (y OR EECD_CS) #
      Rd EECD y # rhist s) (close fs cur) []" for q z
    using assms(3) rd by (auto simp: spi_now_def spi_eval close_def)
  then show ?thesis
    unfolding e1000_standby_nvm_def
    using assms(2,4) by (auto simp: y_def[symmetric] intro!: wp_er32 wp_flush)
qed

lemma stop_frames:
  assumes "eecd_latch E" "nvm_type (nvm s) = e1000_nvm_eeprom_spi" "spi_now (rhist s) fs cur"
    and "\<And>h. spi_frames (spi_of h) = close fs cur \<Longrightarrow> Q () (s\<lparr>rhist := h\<rparr>)"
  shows "wp (e1000e_release_nvm E) Q s"
proof -
  define y where "y = E (rhist s) EECD"
  have fin: "spi_frames (spi_of (Wr EECD (x AND NOT EECD_REQ) # Rd EECD x # Rd q z #
      Wr EECD ((y OR EECD_CS) AND NOT EECD_SK) # Rd EECD y # rhist s)) = close fs cur"
    if x: "x = E (Rd q z # Wr EECD ((y OR EECD_CS) AND NOT EECD_SK) # Rd EECD y # rhist s) EECD"
    for q z x
  proof -
    have "bit x 1" using assms(1) x by (auto simp: eecd_latch_def bit_simps bit_numeral_rec)
    then show ?thesis
      using assms(3) by (auto simp: spi_now_def spi_eval close_def)
  qed
  show ?thesis
    unfolding e1000e_release_nvm_def e1000_stop_nvm_def e1000_lower_eec_clk_def
    using assms(2,4) fin by (auto simp: y_def[symmetric] intro!: wp_er32 wp_flush)
qed

text \<open>A run of status frames, and the state in which a new command can be sent.\<close>

definition bits_of :: "u16 \<Rightarrow> nat \<Rightarrow> bool list" where
  "bits_of d n = map (bit d) (rev [0..<n])"

definition status_frame :: "bool list" where
  "status_frame = bits_of 0x05 8 @ replicate 8 False"

definition spi_hw :: "e1000_hw \<Rightarrow> bool" where
  "spi_hw s \<longleftrightarrow> nvm_type (nvm s) = e1000_nvm_eeprom_spi \<and> opcode_bits (nvm s) = 8"

lemma spi_hw_hist [simp]: "spi_hw (s\<lparr>rhist := h\<rparr>) = spi_hw s"
  by (simp add: spi_hw_def)

lemma status_wp:
  assumes "eecd_latch E" "spi_hw s" "spi_now (rhist s) fs []"
    and "\<And>h v. spi_now h fs status_frame \<Longrightarrow> Q v (s\<lparr>rhist := h\<rparr>)"
  shows "wp (spi_status E) Q s"
  unfolding spi_status_def
  using assms
  by (auto simp: spi_hw_def status_frame_def bits_of_def simp del: upt_rec_numeral
      intro!: shift_out_wp[where fs = fs and cur = "[]"]
        shift_in_wp[where fs = fs and cur = "bits_of 0x05 8"])

lemma close_nil [simp]: "close fs [] = fs"
  by (simp add: close_def)

lemma close_status [simp]: "close fs status_frame = fs @ [status_frame]"
  by (simp add: close_def status_frame_def)

lemma ready_loop_wp:
  assumes "eecd_latch E" "spi_hw s" "spi_now (rhist s) fs []"
    and "\<And>h ok k. spi_now h (fs @ replicate k status_frame) (if ok then status_frame else []) \<Longrightarrow>
      Q ok (s\<lparr>rhist := h\<rparr>)"
  shows "wp (ready_loop E n) Q s"
  using assms(2-)
proof (induction n arbitrary: s fs)
  case 0
  from 0(3)[of "rhist s" 0 False] 0(2) show ?case by simp
next
  case (Suc n)
  have hit: "Q True (s\<lparr>rhist := h\<rparr>)" if "spi_now h fs status_frame" for h
    using Suc.prems(3)[of h 0 True] that by simp
  have more: "Q ok (s\<lparr>rhist := h\<rparr>)"
    if "spi_now h (fs @ status_frame # replicate k status_frame)
          (if ok then status_frame else [])" for h ok k
    using Suc.prems(3)[of h "Suc k" ok] that by simp
  show ?case
    unfolding ready_loop.simps wp_bind
  proof (rule status_wp[OF assms(1) Suc.prems(1,2)])
    fix h v assume now: "spi_now h fs status_frame"
    have "wp (do { e1000_standby_nvm E; ready_loop E n }) Q (s\<lparr>rhist := h\<rparr>)"
      unfolding wp_bind
    proof (rule standby_wp[OF assms(1), where fs = fs and cur = status_frame])
      fix h' assume now': "spi_now h' (close fs status_frame) []"
      show "wp (ready_loop E n) Q (s\<lparr>rhist := h, rhist := h'\<rparr>)"
        by (rule Suc.IH[where fs = "fs @ [status_frame]"])
          (use Suc.prems(1) now' more in \<open>simp_all\<close>)
    qed (use now Suc.prems(1) in \<open>simp_all add: spi_hw_def\<close>)
    with hit[OF now] show "wp (if \<not> v then ret True else do { e1000_standby_nvm E; ready_loop E n })
        Q (s\<lparr>rhist := h\<rparr>)" by simp
  qed
qed

section \<open>The script of a write\<close>

text \<open>
  The frames a write should produce.  A page holds \<open>p\<close> words; from word \<open>w\<close> on \<open>room w p\<close>
  words fit in the page.  \<open>hi\<close> says that the opcode carries the ninth address bit.
\<close>

definition room :: "nat \<Rightarrow> nat \<Rightarrow> nat" where
  "room w p = p - w mod p"

definition spi_words :: "u16 list \<Rightarrow> bool list" where
  "spi_words ds = concat (map (\<lambda>d. bits_of (swap16 d) 16) ds)"

definition write_frame :: "bool \<Rightarrow> nat \<Rightarrow> nat \<Rightarrow> u16 list \<Rightarrow> bool list" where
  "write_frame hi ab w ds =
     bits_of (if hi then 0x0A else 0x02) 8 @ bits_of (of_nat w * 2) ab @ spi_words ds"

function spi_script :: "bool \<Rightarrow> nat \<Rightarrow> nat \<Rightarrow> nat \<Rightarrow> u16 list \<Rightarrow> bool list list" where
  "spi_script hi ab p w ds =
     (if ds = [] \<or> p = 0 then []
      else bits_of 0x06 8 # write_frame hi ab w (take (room w p) ds) #
           spi_script hi ab p (w + room w p) (drop (room w p) ds))"
  by pat_completeness auto
termination
proof (relation "measure (\<lambda>(hi, ab, p, w, ds). length ds)")
  fix hi and ab p w :: nat and ds :: "u16 list"
  assume "\<not> (ds = [] \<or> p = 0)"
  moreover from this have "w mod p < p" "0 < length ds" by auto
  ultimately show "((hi, ab, p, w + room w p, drop (room w p) ds), (hi, ab, p, w, ds)) \<in>
      measure (\<lambda>(hi, ab, p, w, ds). length ds)"
    unfolding room_def in_measure prod.case length_drop by linarith
qed simp

declare spi_script.simps [simp del]

definition cmds :: "bool list list \<Rightarrow> bool list list" where
  "cmds fs = filter (\<lambda>f. f \<noteq> status_frame) fs"

lemma cmds_append [simp]: "cmds (a @ b) = cmds a @ cmds b"
  by (simp add: cmds_def)

lemma cmds_status [simp]: "cmds (replicate k status_frame) = []" "cmds [status_frame] = []" "cmds [] = []"
  by (simp_all add: cmds_def)

lemma bits_of_8: "bits_of d 8 = [bit d 7, bit d 6, bit d 5, bit d 4, bit d 3, bit d 2, bit d 1, bit d 0]"
  by (simp add: bits_of_def upt_rec) (simp add: eval_nat_numeral)

lemma cmds_write [simp]: "cmds [bits_of 0x06 8] = [bits_of 0x06 8]"
    "cmds [write_frame hi ab w ds] = [write_frame hi ab w ds]"
  by (auto simp: cmds_def status_frame_def write_frame_def bits_of_8 bit_numeral_rec)

lemma room_pos: "0 < p \<Longrightarrow> 0 < room w p"
  by (simp add: room_def)

lemma room_step:
  assumes "0 < p"
  shows "((w + 1) * 2 mod (2 * p) = 0) = (room w p = 1)"
    and "room w p \<noteq> 1 \<Longrightarrow> room (w + 1) p = room w p - 1"
proof -
  have m: "(w + 1) * 2 mod (2 * p) = 2 * ((w + 1) mod p)"
    using mult_mod_right[of 2 "w + 1" p] by (simp add: mult.commute)
  have lt: "w mod p < p" using assms by simp
  have suc: "(w + 1) mod p = (if w mod p = p - 1 then 0 else w mod p + 1)"
    using assms lt by (simp add: mod_Suc) linarith
  show "((w + 1) * 2 mod (2 * p) = 0) = (room w p = 1)"
    unfolding m suc room_def using lt by auto
  show "room w p \<noteq> 1 \<Longrightarrow> room (w + 1) p = room w p - 1"
    unfolding room_def suc using lt by auto
qed

definition spi_page :: "nat \<Rightarrow> e1000_hw \<Rightarrow> bool" where
  "spi_page p s \<longleftrightarrow> spi_hw s \<and> 0 < p \<and> unat (page_size (nvm s)) = 2 * p"

lemma spi_page_hist [simp]: "spi_page p (s\<lparr>rhist := h\<rparr>) = spi_page p s"
  by (simp add: spi_page_def)

lemma spi_words_Cons: "spi_words (d # ds) = bits_of (swap16 d) 16 @ spi_words ds"
  by (simp add: spi_words_def)

lemma bits_of_ne: "0 < n \<Longrightarrow> bits_of d n \<noteq> []"
  by (simp add: bits_of_def)

lemma page_loop_wp:
  assumes "eecd_latch E" "spi_page p s" "ds \<noteq> []" "spi_now (rhist s) fs cur" "cur \<noteq> []"
    and "\<And>h fs' cur'. spi_now h fs' cur' \<Longrightarrow>
      close fs' cur' = fs @ [cur @ spi_words (take (room (unat offset + widx) p) ds)] \<Longrightarrow>
      (drop (room (unat offset + widx) p) ds \<noteq> [] \<longrightarrow> cur' = []) \<Longrightarrow>
      Q (widx + min (room (unat offset + widx) p) (length ds),
         drop (room (unat offset + widx) p) ds) (s\<lparr>rhist := h\<rparr>)"
  shows "wp (page_loop E offset widx ds) Q s"
  using assms(2-)
proof (induction ds arbitrary: s widx cur)
  case (Cons d ds)
  let ?w = "unat offset + widx"
  let ?cur = "cur @ bits_of (swap16 d) 16"
  have p: "0 < p" "unat (page_size (nvm s)) = 2 * p" and hw: "spi_hw s"
    using Cons.prems(1) by (simp_all add: spi_page_def)
  show ?case
    unfolding page_loop.simps wp_bind
  proof (rule shift_out_wp[OF assms(1) Cons.prems(3)])
    fix h assume "spi_now h fs (cur @ map (bit (swap16 d)) (rev [0..<16]))"
    then have now: "spi_now h fs ?cur" by (simp add: bits_of_def)
    let ?s = "s\<lparr>rhist := h\<rparr>"
    have "wp (if (?w + 1) * 2 mod (2 * p) = 0
        then do { e1000_standby_nvm E; ret (widx + 1, ds) }
        else page_loop E offset (widx + 1) ds) Q ?s"
    proof (cases "room ?w p = 1")
      case True
      have "wp (do { e1000_standby_nvm E; ret (widx + 1, ds) }) Q ?s"
        unfolding wp_bind
      proof (rule standby_wp[OF assms(1) _ , where fs = fs and cur = ?cur])
        fix h' assume "spi_now h' (close fs ?cur) []"
        with True Cons.prems(5)[of h' "close fs ?cur" "[]"] Cons.prems(4)
        show "wp (ret (widx + 1, ds)) Q (?s\<lparr>rhist := h'\<rparr>)"
          by (simp add: close_def spi_words_def min_def)
      qed (use now hw in \<open>simp_all add: spi_hw_def\<close>)
      with True show ?thesis using room_step(1)[OF p(1), of ?w] by simp
    next
      case False
      have r: "room ?w p = Suc (room (unat offset + (widx + 1)) p)"
        using room_step(2)[OF p(1) False] room_pos[OF p(1), of ?w] False by simp
      have "wp (page_loop E offset (widx + 1) ds) Q ?s"
      proof (cases "ds = []")
        case True
        with Cons.prems(5)[of h fs ?cur] now r show ?thesis
          by (simp add: close_def spi_words_def bits_of_ne)
      next
        case ne: False
        show ?thesis
        proof (rule Cons.IH[OF _ ne, where cur = ?cur])
          fix h' fs' cur'
          assume "spi_now h' fs' cur'"
            "close fs' cur' = fs @ [?cur @ spi_words (take (room (unat offset + (widx + 1)) p) ds)]"
            "drop (room (unat offset + (widx + 1)) p) ds \<noteq> [] \<longrightarrow> cur' = []"
          with Cons.prems(5)[of h' fs' cur'] r
          show "Q (widx + 1 + min (room (unat offset + (widx + 1)) p) (length ds),
              drop (room (unat offset + (widx + 1)) p) ds) (?s\<lparr>rhist := h'\<rparr>)"
            by (simp add: spi_words_Cons)
        qed (use Cons.prems(1,4) now in simp_all)
      qed
      with False show ?thesis using room_step(1)[OF p(1), of ?w] by simp
    qed
    then show "wp (gets (\<lambda>s. unat (page_size (nvm s))))
       (\<lambda>a t. wp (if (unat offset + (widx + 1)) * 2 mod a = 0
          then do { e1000_standby_nvm E; ret (widx + 1, ds) }
          else page_loop E offset (widx + 1) ds) Q t) ?s"
      using p(2) by (simp add: add.assoc)
  qed
qed simp

end
