(* ===== verification/SpiWrite.thy ===== *)
theory SpiWrite
  imports Spi
begin

text \<open>
  The frames that a page-wise EEPROM write puts on the wire: write enable and write commands,
  page by page, with nothing but status polls between them.
\<close>

text \<open>Between two commands: the clock low, no frame begun.\<close>

definition spi_rest :: "reg_ev list \<Rightarrow> bool list list \<Rightarrow> bool" where
  "spi_rest h fs \<longleftrightarrow> (\<exists>v. reg_last h EECD = Some v \<and> \<not> bit v 0) \<and>
     spi_frames (spi_of h) = fs \<and> spi_cur (spi_of h) = []"

lemma spi_now_rest: "spi_now h fs [] \<Longrightarrow> spi_rest h fs"
  by (auto simp: spi_now_def spi_rest_def spi_sel_def)

lemma ready_wp:
  assumes "eecd_latch E" "spi_hw s" "spi_rest (rhist s) fs"
    and "\<And>h k. spi_now h (fs @ replicate k status_frame) status_frame \<Longrightarrow> Q 0 (s\<lparr>rhist := h\<rparr>)"
    and "\<And>h. Q (- E1000_ERR_NVM) (s\<lparr>rhist := h\<rparr>)"
  shows "wp (e1000_ready_nvm_eeprom E) Q s"
proof -
  have "\<not> spi_sk (spi_of (rhist s))"
    using assms(3) spi_lines[of "rhist s"] by (auto simp: spi_rest_def)
  then have now: "spi_now (Wr EECD (y AND NOT (EECD_CS OR EECD_SK)) # Rd EECD y # rhist s) fs []" for y
    using assms(3) by (auto simp: spi_now_def spi_rest_def spi_eval)
  have sel: "rhist (s\<lparr>rhist := h\<rparr>) = h" for h by simp
  have loop: "wp (do { ok \<leftarrow> ready_loop E 5000; ret (if ok then 0 else - E1000_ERR_NVM) }) Q
      (s\<lparr>rhist := Wr EECD (y AND NOT (EECD_CS OR EECD_SK)) # Rd EECD y # rhist s\<rparr>)" for y
    unfolding wp_bind
  proof (rule ready_loop_wp[OF assms(1) _ , where fs = fs])
    fix h ok k
    assume "spi_now h (fs @ replicate k status_frame) (if ok then status_frame else [])"
    then show "wp (ret (if ok then 0 else - E1000_ERR_NVM)) Q
        (s\<lparr>rhist := Wr EECD (y AND NOT (EECD_CS OR EECD_SK)) # Rd EECD y # rhist s, rhist := h\<rparr>)"
      using assms(4)[of h k] assms(5)[of h] by (cases ok) simp_all
  qed (use now[of y] assms(2) in \<open>simp_all only: spi_hw_hist sel\<close>)
  show ?thesis
    unfolding e1000_ready_nvm_eeprom_def wp_bind
    by (rule wp_er32) (use loop assms(2) in \<open>simp add: spi_hw_def\<close>)
qed

lemma write_pages_Suc:
  "wp (write_pages E (Suc n) offset widx ds) Q s =
   (if ds = [] then Q 0 s else
    wp (e1000_ready_nvm_eeprom E) (\<lambda>r t. if r \<noteq> 0 then Q r t
      else wp (write_cmd E offset widx ds) (\<lambda>(w, d). wp (write_pages E n offset w d) Q) t) s)"
  by (simp add: split_def cong del: wp_weak_cong)

lemma shift_out_bits:
  assumes "eecd_latch E" "spi_now (rhist s) fs cur"
    and "\<And>h. spi_now h fs (cur @ bits_of d n) \<Longrightarrow> Q () (s\<lparr>rhist := h\<rparr>)"
  shows "wp (e1000_shift_out_eec_bits E d n) Q s"
  by (rule shift_out_wp[OF assms(1,2)]) (rule assms(3), simp add: bits_of_def)

lemma e1000_dev_again: "s\<lparr>rhist := h\<rparr>\<lparr>rhist := h'\<rparr> = (s\<lparr>rhist := h'\<rparr> :: e1000_hw)"
  by simp

lemma write_cmd_wp:
  assumes E: "eecd_latch E" and pg: "spi_page p s" and "ds \<noteq> []"
    and now: "spi_now (rhist s) fs cur"
    and Q: "\<And>h fs' cur'. spi_now h fs' cur' \<Longrightarrow>
      close fs' cur' = close fs cur @ [bits_of 0x06 8,
        write_frame (address_bits (nvm s) = 8 \<and> offset \<ge> 128) (unat (address_bits (nvm s)))
          (unat offset + widx) (take (room (unat offset + widx) p) ds)] \<Longrightarrow>
      (drop (room (unat offset + widx) p) ds \<noteq> [] \<longrightarrow> cur' = []) \<Longrightarrow>
      Q (widx + min (room (unat offset + widx) p) (length ds),
         drop (room (unat offset + widx) p) ds) (s\<lparr>rhist := h\<rparr>)"
  shows "wp (write_cmd E offset widx ds) Q s"
proof -
  let ?hi = "address_bits (nvm s) = 8 \<and> offset \<ge> 128" and ?ab = "unat (address_bits (nvm s))"
  let ?a = "(ucast offset + of_nat widx) * 2 :: u16"
  let ?opc = "if ?hi then 0x02 OR 0x08 else 0x02 :: u16"
  have hw: "nvm_type (nvm (s\<lparr>rhist := h\<rparr>)) = e1000_nvm_eeprom_spi"
    "unat (opcode_bits (nvm (s\<lparr>rhist := h\<rparr>))) = 8" "unat (address_bits (nvm (s\<lparr>rhist := h\<rparr>))) = ?ab"
    "spi_page p (s\<lparr>rhist := h\<rparr>)" "rhist (s\<lparr>rhist := h\<rparr>) = h" for h
    using pg by (simp_all add: spi_page_def spi_hw_def)
  have hw0: "nvm_type (nvm s) = e1000_nvm_eeprom_spi"
    using pg by (simp add: spi_page_def spi_hw_def)
  have ab: "(unat (address_bits (nvm s)) = 8) = (address_bits (nvm s) = 8)"
    by (simp add: word_unat_eq_iff)
  have frame: "(([] @ bits_of ?opc 8) @ bits_of ?a ?ab) @ spi_words xs = write_frame ?hi ?ab
      (unat offset + widx) xs" for xs by (simp add: write_frame_def)
  have two: "close (close fs cur) ([] @ bits_of 0x06 8) = close fs cur @ [bits_of 0x06 8]"
    by (simp add: close_def bits_of_ne)
  show ?thesis
    unfolding write_cmd_def wp_bind wp_State prod.case Let_def
    apply (rule standby_wp[OF E _ now], simp add: hw0)
    apply (simp only: hw ab)
    apply (rule shift_out_bits[OF E], simp only: hw)
    apply (rule standby_wp[OF E], simp only: hw e1000_dev_again, simp only: hw e1000_dev_again)
    apply (rule shift_out_bits[OF E], simp only: hw e1000_dev_again)
    apply (rule shift_out_bits[OF E], simp only: hw e1000_dev_again)
    apply (rule page_loop_wp[OF E, where p = p])
    apply (simp_all only: hw e1000_dev_again)
    subgoal using assms(3) .
    subgoal by (simp add: bits_of_ne)
    subgoal premises prems for h ha hb hc hd he fs' cur'
      by (rule Q[OF prems(6) _ prems(8)]) (simp only: prems(7)[unfolded frame two], simp)
    done
qed

lemma script_step:
  "ds \<noteq> [] \<Longrightarrow> 0 < p \<Longrightarrow> spi_script hi ab p w ds =
     bits_of 0x06 8 # write_frame hi ab w (take (room w p) ds) #
     spi_script hi ab p (w + room w p) (drop (room w p) ds)"
  by (subst spi_script.simps) simp

lemma script_nil [simp]: "spi_script hi ab p w [] = []"
  by (subst spi_script.simps) simp

lemma cmds_status_Cons [simp]: "cmds (status_frame # fs) = cmds fs"
  by (simp add: cmds_def)

lemma cmds_two [simp]: "cmds [bits_of 0x06 8, write_frame hi ab w ds] =
    [bits_of 0x06 8, write_frame hi ab w ds]"
  using cmds_append[of "[bits_of 0x06 8]" "[write_frame hi ab w ds]"] by simp

lemma write_pages_wp:
  assumes "eecd_latch E" "spi_page p s" "length ds \<le> n" "ds \<noteq> []" "spi_rest (rhist s) fs"
    and "\<And>h gs cur. spi_now h gs cur \<Longrightarrow>
      cmds (close gs cur) = cmds fs @ spi_script (address_bits (nvm s) = 8 \<and> offset \<ge> 128)
        (unat (address_bits (nvm s))) p (unat offset + widx) ds \<Longrightarrow> Q 0 (s\<lparr>rhist := h\<rparr>)"
    and "\<And>r h. r \<noteq> 0 \<Longrightarrow> Q r (s\<lparr>rhist := h\<rparr>)"
  shows "wp (write_pages E n offset widx ds) Q s"
  using assms(2-)
proof (induction n arbitrary: s fs widx ds)
  case (Suc n)
  let ?hi = "address_bits (nvm s) = 8 \<and> offset \<ge> 128" and ?ab = "unat (address_bits (nvm s))"
  let ?w = "unat offset + widx"
  let ?r = "room ?w p"
  let ?ds = "drop ?r ds"
  have p: "0 < p" "spi_hw s" using Suc.prems(1) by (simp_all add: spi_page_def)
  have shorter: "length ?ds \<le> n" using Suc.prems(2,3) room_pos[OF p(1), of ?w] by (cases ds) auto
  have script: "spi_script ?hi ?ab p ?w ds = bits_of 0x06 8 # write_frame ?hi ?ab ?w (take ?r ds) #
      spi_script ?hi ?ab p (?w + ?r) ?ds"
    by (rule script_step[OF Suc.prems(3) p(1)])
  have err: "Q (- E1000_ERR_NVM) (s\<lparr>rhist := h\<rparr>)" for h
    by (rule Suc.prems(6)) (simp add: E1000_ERR_NVM_def)
  have page: "wp (write_cmd E offset widx ds) (\<lambda>(w, d). wp (write_pages E n offset w d) Q) (s\<lparr>rhist := h\<rparr>)"
    if now: "spi_now h (fs @ replicate k status_frame) status_frame" for h k
  proof (rule write_cmd_wp[OF assms(1) _ Suc.prems(3), where p = p])
    fix h' gs cur
    assume g: "spi_now h' gs cur"
      "close gs cur = close (fs @ replicate k status_frame) status_frame @ [bits_of 0x06 8,
        write_frame (address_bits (nvm (s\<lparr>rhist := h\<rparr>)) = 8 \<and> offset \<ge> 128)
          (unat (address_bits (nvm (s\<lparr>rhist := h\<rparr>)))) ?w (take ?r ds)]"
      "?ds \<noteq> [] \<longrightarrow> cur = []"
    have c: "cmds (close gs cur) = cmds fs @ [bits_of 0x06 8, write_frame ?hi ?ab ?w (take ?r ds)]"
      unfolding g(2) close_status by simp
    have "wp (write_pages E n offset (widx + min ?r (length ds)) ?ds) Q (s\<lparr>rhist := h'\<rparr>)"
    proof (cases "?ds = []")
      case True
      then show ?thesis using Suc.prems(5)[OF g(1)] c script by (cases n) simp_all
    next
      case False
      then have m: "min ?r (length ds) = ?r" by simp
      have rest: "spi_rest h' gs" and c': "cmds gs = cmds (close gs cur)"
        using g(1,3) False by (simp_all add: spi_now_rest)
      show ?thesis
        unfolding m
      proof (rule Suc.IH[OF _ shorter False, where fs = gs])
        fix h'' gs' cur'
        assume "spi_now h'' gs' cur'" and "cmds (close gs' cur') = cmds gs @
          spi_script (address_bits (nvm (s\<lparr>rhist := h'\<rparr>)) = 8 \<and> offset \<ge> 128)
            (unat (address_bits (nvm (s\<lparr>rhist := h'\<rparr>)))) p (unat offset + (widx + ?r)) ?ds"
        with Suc.prems(5)[of h'' gs' cur'] c c' script
        show "Q 0 (s\<lparr>rhist := h'\<rparr>\<lparr>rhist := h''\<rparr>)" by (simp add: add.assoc)
      qed (use Suc.prems(1,6) rest in simp_all)
    qed
    then show "(\<lambda>(w, d). wp (write_pages E n offset w d) Q) (widx + min ?r (length ds), ?ds)
        (s\<lparr>rhist := h\<rparr>\<lparr>rhist := h'\<rparr>)" by simp
  qed (use now Suc.prems(1) in simp_all)
  show ?case
    unfolding write_pages_Suc
    using Suc.prems(3) err page
    by (auto intro!: ready_wp[OF assms(1) p(2) Suc.prems(4)] simp: E1000_ERR_NVM_def)
qed simp

section \<open>Ownership\<close>

lemma acquire_loop_wp:
  assumes "spi_rest (rhist s) fs"
    and "\<And>h r. spi_rest h fs \<Longrightarrow> Q r (s\<lparr>rhist := h\<rparr>)"
  shows "wp (acquire_loop E n e) Q s"
  using assms
proof (induction n arbitrary: s e)
  case 0
  from 0(2)[of "rhist s"] 0(1) show ?case by simp
next
  case (Suc n)
  from Suc.prems(2)[of "rhist s"] Suc.prems(1) have "Q r s" for r by simp
  then show ?case
    using Suc.prems by (auto intro!: wp_er32_any Suc.IH simp: spi_rest_def)
qed

lemma acquire_wp:
  assumes "eecd_latch E" "spi_rest (rhist s) fs"
    and "\<And>h. spi_rest h fs \<Longrightarrow> Q 0 (s\<lparr>rhist := h\<rparr>)"
    and "\<And>h. Q (- E1000_ERR_NVM) (s\<lparr>rhist := h\<rparr>)"
  shows "wp (e1000e_acquire_nvm E) Q s"
proof -
  define y where "y = E (rhist s) EECD"
  have "\<not> bit y 0" "\<not> spi_sk (spi_of (rhist s))"
    using assms(1,2) spi_lines[of "rhist s"] by (auto simp: eecd_latch_def spi_rest_def y_def)
  then have "spi_rest (Rd EECD v # Wr EECD (y OR EECD_REQ) # Rd EECD y # rhist s) fs" for v
    using assms(2) by (auto simp: spi_rest_def spi_eval)
  with assms(3,4) show ?thesis
    unfolding e1000e_acquire_nvm_def
    by (auto simp: y_def[symmetric] intro!: wp_er32 acquire_loop_wp[where fs = fs])
qed

text \<open>A memory that grants ownership at once and is never busy lets every write succeed.\<close>

definition spi_idle :: "mmio \<Rightarrow> bool" where
  "spi_idle E \<longleftrightarrow> (\<forall>h. bit (E h EECD) 7 \<and> \<not> bit (E h EECD) 3)"

lemma wp_true [simp]: "wp m (\<lambda>_ _. True) s"
  by (simp add: wp_def split: prod.splits)

lemma wp_val_then: "wp m (\<lambda>a _. a = v) s \<Longrightarrow> (\<And>t. Q v t) \<Longrightarrow> wp m Q s"
  by (auto elim: wp_mono)

lemma wp_any_val: "(\<And>a t. Q a t) \<Longrightarrow> wp m Q s"
  by (simp add: wp_iff)

lemma and_exp_0: "(w :: u32) AND push_bit n 1 = 0 \<longleftrightarrow> \<not> bit w n"
  by (auto simp: and_exp_eq_0_iff_not_bit push_bit_of_1)

lemma eecd_do_exp: "EECD_DO = push_bit 3 1" "EECD_GNT = push_bit 7 1"
  by simp_all

lemma shift_in_idle:
  "spi_idle E \<Longrightarrow> wp (shift_in_loop E n e d) (\<lambda>v _. v = push_bit n d) s"
proof (induction n arbitrary: e d s)
  case (Suc n)
  have "(E h EECD AND NOT EECD_DI) AND EECD_DO = 0" for h
    using Suc.prems unfolding eecd_do_exp and_exp_0 by (simp add: spi_idle_def bit_and_iff)
  then have "(E h EECD AND - 5) AND 8 = 0" for h by simp
  then show ?case
    using Suc by (auto simp: Let_def push_bit_Suc push_bit_push_bit e1000_raise_eec_clk_def e1000_lower_eec_clk_def
        intro!: wp_er32 wp_flush)
qed simp

lemma status_idle: "spi_idle E \<Longrightarrow> wp (spi_status E) (\<lambda>v _. v = False) s"
  unfolding spi_status_def e1000_shift_in_eec_bits_def wp_bind wp_State prod.case
  by (rule wp_any_val, rule wp_er32, rule wp_mono[OF shift_in_idle]) auto

lemma ready_loop_idle: "spi_idle E \<Longrightarrow> 0 < n \<Longrightarrow> wp (ready_loop E n) (\<lambda>r _. r) s"
  by (cases n) (auto intro!: wp_val_then[OF status_idle])

lemma ready_idle: "spi_idle E \<Longrightarrow> wp (e1000_ready_nvm_eeprom E) (\<lambda>r _. r = 0) s"
  unfolding e1000_ready_nvm_eeprom_def
  by (auto intro!: wp_er32 wp_mono[OF ready_loop_idle])

lemma write_pages_idle: "spi_idle E \<Longrightarrow> wp (write_pages E n offset widx ds) (\<lambda>r _. r = 0) s"
proof (induction n arbitrary: widx ds s)
  case (Suc n)
  show ?case
    unfolding write_pages_Suc
    using Suc.IH[OF Suc.prems]
    by (auto intro!: wp_val_then[OF ready_idle[OF Suc.prems]] wp_any_val[where m = "write_cmd E offset widx ds"])
qed simp

lemma acquire_idle: "spi_idle E \<Longrightarrow> wp (e1000e_acquire_nvm E) (\<lambda>r _. r = 0) s"
proof -
  assume "spi_idle E"
  then have g: "E h EECD AND EECD_GNT \<noteq> 0" for h
    unfolding eecd_do_exp and_exp_0 by (simp add: spi_idle_def)
  have "wp (acquire_loop E (Suc n) (E h EECD)) (\<lambda>(t, e) _. t \<noteq> 0) s" for n h s
    using g by simp
  from this[of 999] have acq: "wp (acquire_loop E 1000 (E h EECD)) (\<lambda>(t, e) _. t \<noteq> 0) s" for h s
    by simp
  show ?thesis
    unfolding e1000e_acquire_nvm_def
    by (auto intro!: wp_er32 wp_mono[OF acq])
qed

lemma write_idle:
  assumes "spi_idle E" "nvm_range_ok s offset (length ds)"
  shows "wp (e1000e_write_nvm_spi E (e1000e_acquire_nvm E) (e1000e_release_nvm E) offset ds) (\<lambda>r _. r = 0) s"
  unfolding e1000e_write_nvm_spi_def
  using assms(2)
  by (auto intro!: wp_val_then[OF acquire_idle[OF assms(1)]] wp_val_then[OF write_pages_idle[OF assms(1)]]
    wp_any_val[where m = "e1000e_release_nvm E"])

definition spi_dev :: mmio where
  "spi_dev h r = (if r = EECD then (case reg_last h EECD of None \<Rightarrow> EECD_GNT
     | Some v \<Rightarrow> (v AND NOT EECD_DO) OR EECD_GNT) else 0)"

definition spi_hw0 :: e1000_hw where
  "spi_hw0 = hw_zero\<lparr>rhist := [Wr EECD EECD_CS], nvm := \<lparr>nvm_type = e1000_nvm_eeprom_spi,
     word_size = 64, address_bits = 8, opcode_bits = 8, page_size = 4\<rparr>\<rparr>"

lemma spi_dev_ok: "eecd_latch spi_dev" "spi_idle spi_dev"
  by (auto simp: eecd_latch_def spi_idle_def spi_dev_def bit_simps bit_numeral_rec split: option.splits)

lemma spi_hw0_ok: "spi_page 2 spi_hw0" "nvm_range_ok spi_hw0 3 (length [0x1234::u16, 0x5678])"
    "spi_rest (rhist spi_hw0) []"
  by (auto simp: spi_page_def spi_hw_def spi_hw0_def nvm_range_ok_def spi_rest_def spi_eval)



end
