(* ===== verification/MacAddr.thy ===== *)
theory MacAddr
  imports Nvm
begin

text \<open>
  Addresses in e1000_mac.c: the receive address registers, the multicast table and its hash,
  the VLAN filter table, the alternate address in the NVM, bus information and the
  statistics registers.
\<close>

abbreviation STATUS :: u32 where "STATUS \<equiv> 0x00008"
abbreviation MTA :: u32 where "MTA \<equiv> 0x05200"
abbreviation VFTA :: u32 where "VFTA \<equiv> 0x05600"

definition RAL :: "u32 \<Rightarrow> u32" where
  "RAL i = (if i \<le> 15 then 0x05400 + i * 8 else 0x054E0 + (i - 16) * 8)"

definition RAH :: "u32 \<Rightarrow> u32" where
  "RAH i = (if i \<le> 15 then 0x05404 + i * 8 else 0x054E4 + (i - 16) * 8)"

section \<open>Bus information\<close>

definition e1000_set_lan_id_multi_port_pcie :: "mmio \<Rightarrow> (e1000_hw, unit) state" where
  "e1000_set_lan_id_multi_port_pcie E = do {
     reg \<leftarrow> er32 E STATUS;
     set_bus (\<lambda>b. b\<lparr>bus_func := ucast (drop_bit 2 (reg AND 0x0C))\<rparr>)
   }"

definition e1000_set_lan_id_single_port :: "(e1000_hw, unit) state" where
  "e1000_set_lan_id_single_port = set_bus (\<lambda>b. b\<lparr>bus_func := 0\<rparr>)"

text \<open>
  \<open>cap\<close> is \<open>e1000_read_pcie_cap_reg\<close> for the link status, \<open>set_lan_id\<close> the function pointer.
\<close>

definition e1000e_get_bus_info_pcie ::
  "(e1000_hw, int + u16) state \<Rightarrow> (e1000_hw, unit) state \<Rightarrow> (e1000_hw, int) state" where
  "e1000e_get_bus_info_pcie cap set_lan_id = do {
     set_bus (\<lambda>b. b\<lparr>bus_type := e1000_bus_type_pci_express, bus_speed := e1000_bus_speed_2500\<rparr>);
     r \<leftarrow> cap;
     (case r of
        Inl e \<Rightarrow> set_bus (\<lambda>b. b\<lparr>bus_width := 0\<rparr>)
      | Inr v \<Rightarrow> set_bus (\<lambda>b. b\<lparr>bus_width := drop_bit 4 (v AND 0x3F0)\<rparr>));
     set_lan_id;
     ret 0
   }"

section \<open>Receive addresses\<close>

definition rar_low :: "u8 list \<Rightarrow> u32" where
  "rar_low addr = ucast (addr ! 0) OR push_bit 8 (ucast (addr ! 1)) OR
     push_bit 16 (ucast (addr ! 2)) OR push_bit 24 (ucast (addr ! 3))"

definition rar_high :: "u8 list \<Rightarrow> u32" where
  "rar_high addr = (let rar_high = ucast (addr ! 4) OR push_bit 8 (ucast (addr ! 5)) in
     if rar_low addr \<noteq> 0 \<or> rar_high \<noteq> 0 then rar_high OR 0x80000000 else rar_high)"

definition e1000e_rar_set :: "mmio \<Rightarrow> u8 list \<Rightarrow> u32 \<Rightarrow> (e1000_hw, unit) state" where
  "e1000e_rar_set E addr index = do {
     ew32 (RAL index) (rar_low addr);
     e1e_flush E;
     ew32 (RAH index) (rar_high addr);
     e1e_flush E
   }"

definition zero_addr :: "u8 list" where
  "zero_addr = replicate 6 0"

definition e1000e_init_rx_addrs :: "mmio \<Rightarrow> u16 \<Rightarrow> (e1000_hw, unit) state" where
  "e1000e_init_rx_addrs E rar_count = do {
     a \<leftarrow> gets (\<lambda>s. mac_addr (mac s));
     e1000e_rar_set E a 0;
     for_each [1..<unat rar_count] (\<lambda>i. e1000e_rar_set E zero_addr (of_nat i))
   }"

text \<open>The three words of the alternate address, low byte first.\<close>

fun alt_addr_words :: "(u16 \<Rightarrow> nat \<Rightarrow> (e1000_hw, int + u16 list) state) \<Rightarrow> u16 \<Rightarrow> nat list \<Rightarrow>
    (e1000_hw, int + u8 list) state" where
  "alt_addr_words rd off [] = ret (Inr [])"
| "alt_addr_words rd off (i # is) = do {
     r \<leftarrow> rd (off + of_nat (i div 2)) 1;
     when_ok r (\<lambda>d. do {
       rest \<leftarrow> alt_addr_words rd off is;
       when_ok rest (\<lambda>bs. ret (Inr (lo8 (hd d) # hi8 (hd d) # bs))) })
   }"

definition e1000_check_alt_mac_addr_generic ::
  "mmio \<Rightarrow> (u16 \<Rightarrow> nat \<Rightarrow> (e1000_hw, int + u16 list) state) \<Rightarrow> (e1000_hw, int) state" where
  "e1000_check_alt_mac_addr_generic E rd = do {
     r \<leftarrow> rd 0x37 1;
     ok_or_code r (\<lambda>d.
       if hd d = 0xFFFF then ret (- E1000_NOT_IMPLEMENTED)
       else do {
         f \<leftarrow> gets (\<lambda>s. bus_func (bus s));
         r \<leftarrow> alt_addr_words rd (if f = 1 then hd d + 3 else hd d) [0, 2, 4];
         ok_or_code r (\<lambda>alt.
           if alt ! 0 AND 0x01 \<noteq> 0 then ret (- E1000_NOT_IMPLEMENTED)
           else do {
             set_mac (\<lambda>m. m\<lparr>perm_addr := alt, mac_addr := alt\<rparr>);
             a \<leftarrow> gets (\<lambda>s. perm_addr (mac s));
             e1000e_rar_set E a 0;
             ret 0 }) }) }"

section \<open>Multicast\<close>

text \<open>
  The hash: the loop looks for the shift that leaves exactly 0xFF of the mask.  \<open>None\<close> stands
  for a register count for which it finds none, or for which a later shift is negative.
\<close>

definition mc_shift :: "u32 \<Rightarrow> nat option" where
  "mc_shift hash_mask = find (\<lambda>k. drop_bit k hash_mask = 0xFF) [0..<32]"

definition e1000_hash_mc_addr :: "u16 \<Rightarrow> u32 \<Rightarrow> u8 list \<Rightarrow> u32 option" where
  "e1000_hash_mc_addr reg_count filter_type addr =
     (let hash_mask = ucast reg_count * 32 - 1 in
      case mc_shift hash_mask of
        None \<Rightarrow> None
      | Some k \<Rightarrow>
         (let bit_shift = k + (if filter_type = 1 then 1 else if filter_type = 2 then 2
                               else if filter_type = 3 then 4 else 0)
          in if bit_shift > 8 then None
             else Some (hash_mask AND (drop_bit (8 - bit_shift) (ucast (addr ! 4)) OR
                    push_bit bit_shift (ucast (addr ! 5))))))"

definition e1000_mta_set_generic :: "mmio \<Rightarrow> u32 \<Rightarrow> (e1000_hw, unit) state" where
  "e1000_mta_set_generic E hash_value = do {
     cnt \<leftarrow> gets (\<lambda>s. mta_reg_count (mac s));
     (let hash_reg = drop_bit 5 hash_value AND (ucast cnt - 1);
          hash_bit = unat (hash_value AND 0x1F) in do {
        mta \<leftarrow> er32 E (reg_array MTA hash_reg);
        ew32 (reg_array MTA hash_reg) (mta OR push_bit hash_bit 1);
        e1e_flush E }) }"

text \<open>The receive address registers from the list; the result are the addresses left.\<close>

fun mc_rars :: "mmio \<Rightarrow> nat list \<Rightarrow> u8 list list \<Rightarrow> (e1000_hw, u8 list list) state" where
  "mc_rars E [] al = ret al"
| "mc_rars E (i # is) [] = do { e1000e_rar_set E zero_addr (of_nat i); mc_rars E is [] }"
| "mc_rars E (i # is) (a # al) = do { e1000e_rar_set E a (of_nat i); mc_rars E is al }"

fun mc_hashes :: "mmio \<Rightarrow> u8 list list \<Rightarrow> (e1000_hw, unit option) state" where
  "mc_hashes E [] = ret (Some ())"
| "mc_hashes E (a # al) = do {
     h \<leftarrow> gets (\<lambda>s. e1000_hash_mc_addr (mta_reg_count (mac s)) (mc_filter_type (mac s)) a);
     (case h of
        None \<Rightarrow> ret None
      | Some v \<Rightarrow> do { e1000_mta_set_generic E v; mc_hashes E al }) }"

definition mta_clear :: "mmio \<Rightarrow> (e1000_hw, unit) state" where
  "mta_clear E = do {
     cnt \<leftarrow> gets (\<lambda>s. mta_reg_count (mac s));
     for_each [0..<unat cnt] (\<lambda>i. do { ew32 (reg_array MTA (of_nat i)) 0; e1e_flush E }) }"

definition e1000e_update_mc_addr_list_generic ::
  "mmio \<Rightarrow> u8 list list \<Rightarrow> nat \<Rightarrow> nat \<Rightarrow> (e1000_hw, unit option) state" where
  "e1000e_update_mc_addr_list_generic E mc_addr_list rar_used_count rar_count = do {
     al \<leftarrow> mc_rars E [rar_used_count..<rar_count] mc_addr_list;
     mta_clear E;
     mc_hashes E al
   }"

section \<open>VLAN filter and statistics\<close>

definition e1000e_write_vfta_generic :: "mmio \<Rightarrow> u32 \<Rightarrow> u32 \<Rightarrow> (e1000_hw, unit) state" where
  "e1000e_write_vfta_generic E offset value = do {
     ew32 (reg_array VFTA offset) value;
     e1e_flush E }"

definition e1000e_clear_vfta_generic :: "mmio \<Rightarrow> (e1000_hw, unit) state" where
  "e1000e_clear_vfta_generic E =
     for_each [0..<128] (\<lambda>i. do { ew32 (reg_array VFTA (of_nat i)) 0; e1e_flush E })"

definition hw_cntrs :: "u32 list" where
  "hw_cntrs =
    [0x04000, 0x04008, 0x04010, 0x04014, 0x04018, 0x0401C, 0x04020, 0x04028, 0x04030, 0x04038,
     0x04040, 0x04048, 0x0404C, 0x04050, 0x04054, 0x04058, 0x04074, 0x04078, 0x0407C, 0x04080,
     0x04088, 0x0408C, 0x04090, 0x04094, 0x040A0, 0x040A4, 0x040A8, 0x040AC, 0x040B0, 0x040C0,
     0x040C4, 0x040C8, 0x040CC, 0x040D0, 0x040D4, 0x040F0, 0x040F4]"

definition e1000e_clear_hw_cntrs_base :: "mmio \<Rightarrow> (e1000_hw, unit) state" where
  "e1000e_clear_hw_cntrs_base E = for_each hw_cntrs (\<lambda>r. do { v \<leftarrow> er32 E r; skip })"

section \<open>The hash\<close>

lemma mc_shift_eval: "mc_shift 4095 = Some 4" "mc_shift 1023 = Some 2"
  by code_simp+

definition mc_window :: "u32 \<Rightarrow> nat" where
  "mc_window ft = (if ft = 1 then 3 else if ft = 2 then 2 else if ft = 3 then 0 else 4)"

text \<open>
  With the 128 registers of the 82571 family the hash is the 12-bit window of the last two
  address bytes that the filter type selects: bits 47..36, 46..35, 45..34 or 43..32 of the
  address.  With the 32 registers of the ICH family it is a 10-bit window.
\<close>

lemma mc_hash_window:
  "e1000_hash_mc_addr 128 ft addr =
     Some (take_bit 12 (drop_bit (mc_window ft) (ucast (join16 (addr ! 5) (addr ! 4))))) \<and>
   e1000_hash_mc_addr 32 ft addr =
     Some (take_bit 10 (drop_bit (mc_window ft + 2) (ucast (join16 (addr ! 5) (addr ! 4)))))"
proof -
  have m: "(4095 :: u32) = mask 12" "(1023 :: u32) = mask 10" by (simp_all add: mask_eq_exp_minus_1)
  have w: "4095 AND (drop_bit (8 - n) (ucast a) OR push_bit n (ucast b)) =
      take_bit 12 (drop_bit (8 - n) (ucast (join16 b a) :: u32))"
    "1023 AND (drop_bit (8 - n) (ucast a) OR push_bit n (ucast b)) =
      take_bit 10 (drop_bit (8 - n) (ucast (join16 b a) :: u32))" if "n \<le> 8" for n and a b :: u8
    unfolding m
    by (rule bit_word_eqI; use that in \<open>auto simp: join16_def bit_simps dest: bit_imp_le_length\<close>)+
  note w1 = w(1)[of _ "addr ! 4" "addr ! 5"] and w2 = w(2)[of _ "addr ! 4" "addr ! 5"]
  have "e1000_hash_mc_addr 128 ft addr =
     Some (take_bit 12 (drop_bit (mc_window ft) (ucast (join16 (addr ! 5) (addr ! 4)))))"
    using w1[of 4] w1[of 5] w1[of 6] w1[of 8]
    by (simp add: e1000_hash_mc_addr_def mc_shift_eval mc_window_def Let_def)
  moreover have "e1000_hash_mc_addr 32 ft addr =
     Some (take_bit 10 (drop_bit (mc_window ft + 2) (ucast (join16 (addr ! 5) (addr ! 4)))))"
    using w2[of 2] w2[of 3] w2[of 4] w2[of 6]
    by (simp add: e1000_hash_mc_addr_def mc_shift_eval mc_window_def Let_def
        del: add_2_eq_Suc add_2_eq_Suc')
  ultimately show ?thesis by blast
qed

lemma mc_hash_total:
  assumes "c = 128 \<or> c = 32"
  shows "\<exists>v. e1000_hash_mc_addr c ft a = Some v \<and> unat v < unat c * 32"
proof -
  have "unat (4095 AND x :: u32) < 4096" "unat (1023 AND x :: u32) < 1024" for x
    using word_and_le1[of x 4095] word_and_le1[of x 1023] by (auto simp: word_le_nat_alt and.commute)
  then show ?thesis
    using assms by (auto simp: e1000_hash_mc_addr_def mc_shift_eval Let_def)
qed

section \<open>Which register an index names\<close>

lemma of_nat_eq32: "a < 2 ^ 32 \<Longrightarrow> b < 2 ^ 32 \<Longrightarrow> (of_nat a = (of_nat b :: u32)) = (a = b)"
  by (simp add: word_of_nat_eq_iff take_bit_nat_eq_self)

lemma reg_array_nat: "reg_array base (of_nat i) = base + of_nat (4 * i)"
  by (simp add: reg_array_def push_bit_eq_mult)

lemma mta_nat: "reg_array MTA (of_nat i) = of_nat (0x5200 + 4 * i)"
  by (simp add: reg_array_nat)

lemma rar_nat:
  assumes "i < 16"
  shows "RAL (of_nat i) = of_nat (0x5400 + 8 * i)" "RAH (of_nat i) = of_nat (0x5404 + 8 * i)"
proof -
  have "(of_nat i :: u32) \<le> 15" using assms by (simp add: word_le_nat_alt unat_of_nat take_bit_nat_eq_self)
  then show "RAL (of_nat i) = of_nat (0x5400 + 8 * i)" "RAH (of_nat i) = of_nat (0x5404 + 8 * i)"
    by (simp_all add: RAL_def RAH_def mult.commute)
qed

lemma mod_4: "0x5400 + 8 * i \<noteq> 0x5404 + 8 * (j :: nat)" "0x5404 + 8 * i \<noteq> 0x5400 + 8 * (j :: nat)"
  by presburger+

lemma rar_reg_eq:
  assumes "i < 16" "j < 16"
  shows "(RAL (of_nat i) = RAL (of_nat j)) = (i = j)" "(RAH (of_nat i) = RAH (of_nat j)) = (i = j)"
    and "RAL (of_nat i) \<noteq> RAH (of_nat j)" "RAH (of_nat i) \<noteq> RAL (of_nat j)"
  unfolding rar_nat[OF assms(1)] rar_nat[OF assms(2)]
  by (subst of_nat_eq32; use assms mod_4[of i j] in force)+

lemma mta_reg_eq:
  assumes "r < 128"
  shows "q < 128 \<Longrightarrow> (reg_array MTA (of_nat r) = reg_array MTA (of_nat q)) = (r = q)"
    and "i < 16 \<Longrightarrow> RAL (of_nat i) \<noteq> reg_array MTA (of_nat r)"
    and "i < 16 \<Longrightarrow> RAH (of_nat i) \<noteq> reg_array MTA (of_nat r)"
  by (simp only: rar_nat mta_nat; subst of_nat_eq32; use assms in force)+

section \<open>The multicast filter after an update\<close>

text \<open>Receive address register \<open>i\<close> holds \<open>a\<close>; bit \<open>x\<close> of the table.\<close>

definition rar_holds :: "reg_ev list \<Rightarrow> nat \<Rightarrow> u8 list \<Rightarrow> bool" where
  "rar_holds h i a \<longleftrightarrow> reg_last h (RAL (of_nat i)) = Some (rar_low a) \<and>
     reg_last h (RAH (of_nat i)) = Some (rar_high a)"

definition mta_bit :: "reg_ev list \<Rightarrow> nat \<Rightarrow> bool" where
  "mta_bit h x \<longleftrightarrow> (\<exists>w. reg_last h (reg_array MTA (of_nat (x div 32))) = Some w \<and> bit w (x mod 32))"

definition mta_latch :: "mmio \<Rightarrow> bool" where
  "mta_latch E \<longleftrightarrow> (\<forall>h r v. r < 128 \<longrightarrow> reg_last h (reg_array MTA (of_nat r)) = Some v \<longrightarrow>
     E h (reg_array MTA (of_nat r)) = v)"

lemma rar_set_run:
  "run_state (e1000e_rar_set E a i) s = ((), s\<lparr>rhist := rhist (exec (e1000e_rar_set E a i) s)\<rparr>)"
  by (simp add: e1000e_rar_set_def e1e_flush_def)

lemma rar_set_wp:
  assumes "\<And>h. rar_holds h i a \<Longrightarrow> (\<And>r. r \<noteq> RAL (of_nat i) \<Longrightarrow> r \<noteq> RAH (of_nat i) \<Longrightarrow>
      reg_last h r = reg_last (rhist s) r) \<Longrightarrow> Q () (s\<lparr>rhist := h\<rparr>)" and "i < 16"
  shows "wp (e1000e_rar_set E a (of_nat i)) Q s"
  unfolding e1000e_rar_set_def using rar_reg_eq[OF assms(2) assms(2)]
  by (auto intro!: wp_flush assms(1) simp: rar_holds_def)

lemma rar_holds_keep:
  assumes "rar_holds h j a" "j < 16" "i < 16" "i \<noteq> j"
    and "\<And>r. r \<noteq> RAL (of_nat i) \<Longrightarrow> r \<noteq> RAH (of_nat i) \<Longrightarrow> reg_last h' r = reg_last h r"
  shows "rar_holds h' j a"
  using assms rar_reg_eq[of i j] rar_reg_eq[of j i] by (simp add: rar_holds_def)

definition slot :: "u8 list list \<Rightarrow> nat \<Rightarrow> u8 list" where
  "slot al k = (if k < length al then al ! k else zero_addr)"

lemma mc_rars_wp:
  assumes "k + m \<le> 16"
    and "\<And>h. (\<And>i. i < m \<Longrightarrow> rar_holds h (k + i) (slot al i)) \<Longrightarrow>
      Q (drop m al) (s\<lparr>rhist := h\<rparr>)"
  shows "wp (mc_rars E [k..<k + m] al) Q s"
proof -
  have "wp (mc_rars E [k..<k + m] al) (\<lambda>r t. r = drop m al \<and> (\<exists>h. t = s\<lparr>rhist := h\<rparr> \<and>
      (\<forall>i<m. rar_holds h (k + i) (slot al i)) \<and>
      (\<forall>j<k. \<forall>a. rar_holds (rhist s) j a \<longrightarrow> rar_holds h j a))) s"
    using assms(1)
  proof (induction m arbitrary: k al s)
    case 0
    show ?case by (auto intro!: exI[of _ "rhist s"])
  next
    case (Suc m)
    have up: "[k..<k + Suc m] = k # [Suc k..<Suc k + m]" by (simp add: upt_conv_Cons)
    define a where "a = slot al 0"
    have step: "mc_rars E (k # ks) al = do { e1000e_rar_set E a (of_nat k); mc_rars E ks (drop 1 al) }" for ks
      by (cases al) (simp_all add: a_def slot_def)
    show ?case
      unfolding up step wp_bind
    proof (rule rar_set_wp)
      fix h
      assume here: "rar_holds h k a" and
        others: "\<And>r. r \<noteq> RAL (of_nat k) \<Longrightarrow> r \<noteq> RAH (of_nat k) \<Longrightarrow> reg_last h r = reg_last (rhist s) r"
      have slot: "slot (drop 1 al) i = slot al (Suc i)" for i by (auto simp: slot_def)
      show "wp (mc_rars E [Suc k..<Suc k + m] (drop 1 al)) (\<lambda>r t. r = drop (Suc m) al \<and>
         (\<exists>h. t = s\<lparr>rhist := h\<rparr> \<and> (\<forall>i<Suc m. rar_holds h (k + i) (slot al i)) \<and>
           (\<forall>j<k. \<forall>a. rar_holds (rhist s) j a \<longrightarrow> rar_holds h j a))) (s\<lparr>rhist := h\<rparr>)"
      proof (rule wp_mono[OF Suc.IH], use Suc.prems in simp, elim conjE exE)
        fix r t h'
        assume "r = drop m (drop 1 al)" "t = s\<lparr>rhist := h\<rparr>\<lparr>rhist := h'\<rparr>"
          and new: "\<forall>i<m. rar_holds h' (Suc k + i) (slot (drop 1 al) i)"
          and keep: "\<forall>j<Suc k. \<forall>a. rar_holds (rhist (s\<lparr>rhist := h\<rparr>)) j a \<longrightarrow> rar_holds h' j a"
        moreover have "rar_holds h' (k + i) (slot al i)" if "i < Suc m" for i
          using that here keep new slot by (cases i) (auto simp: a_def)
        moreover have "rar_holds h' j b" if "j < k" "rar_holds (rhist s) j b" for j b
          using keep that rar_holds_keep[OF that(2), of k h] others Suc.prems by simp
        ultimately show "r = drop (Suc m) al \<and> (\<exists>h. t = s\<lparr>rhist := h\<rparr> \<and>
           (\<forall>i<Suc m. rar_holds h (k + i) (slot al i)) \<and>
           (\<forall>j<k. \<forall>a. rar_holds (rhist s) j a \<longrightarrow> rar_holds h j a))"
          by auto
      qed
    qed (use Suc.prems in simp)
  qed
  then show ?thesis by (rule wp_mono) (use assms(2) in auto)
qed

text \<open>A register write to the table keeps the receive addresses and the other table entries.\<close>

lemma mta_write:
  assumes "r < 128"
  shows "i < 16 \<Longrightarrow> rar_holds (Wr (reg_array MTA (of_nat r)) v # h) i a = rar_holds h i a"
    and "x < 4096 \<Longrightarrow> mta_bit (Wr (reg_array MTA (of_nat r)) v # h) x =
      (if x div 32 = r then bit v (x mod 32) else mta_bit h x)"
proof -
  show "i < 16 \<Longrightarrow> rar_holds (Wr (reg_array MTA (of_nat r)) v # h) i a = rar_holds h i a"
    using mta_reg_eq(2,3)[OF assms, of i] mta_reg_eq(2,3)[OF assms, of i, THEN not_sym]
    by (auto simp: rar_holds_def)
  assume "x < 4096"
  then have "x div 32 < 128" by simp
  from mta_reg_eq(1)[OF assms this]
  show "mta_bit (Wr (reg_array MTA (of_nat r)) v # h) x =
      (if x div 32 = r then bit v (x mod 32) else mta_bit h x)"
    by (auto simp: mta_bit_def)
qed

lemma mta_read [simp]:
  "rar_holds (Rd q v # h) i a = rar_holds h i a" "mta_bit (Rd q v # h) x = mta_bit h x"
  by (simp_all add: rar_holds_def mta_bit_def)

definition mta_set_at :: "reg_ev list \<Rightarrow> nat \<Rightarrow> bool" where
  "mta_set_at h r \<longleftrightarrow> reg_last h (reg_array MTA (of_nat r)) \<noteq> None"

lemma mta_clear_loop:
  fixes s :: e1000_hw
  assumes "n \<le> 128"
  shows "wp (for_each [0..<n] (\<lambda>i. do { ew32 (reg_array MTA (of_nat i)) 0; e1e_flush E }))
    (\<lambda>_ t. (\<exists>h. t = s\<lparr>rhist := h\<rparr> \<and> (\<forall>r<n. reg_last h (reg_array MTA (of_nat r)) = Some 0) \<and>
       (\<forall>i<16. \<forall>a. rar_holds (rhist s) i a \<longrightarrow> rar_holds h i a))) s"
  using assms
proof (induction n)
  case 0
  show ?case by (auto intro!: exI[of _ "rhist s"])
next
  case (Suc n)
  have run: "wp (for_each (xs @ [x]) f) Q s = wp (for_each xs f) (\<lambda>_ t. wp (f x) Q t) s"
    for xs and x :: nat and f Q and s :: e1000_hw
    by (induction xs arbitrary: s) (simp_all cong del: wp_weak_cong)
  have "n < 128" using Suc.prems by simp
  note eq = mta_reg_eq[OF this] and wr = mta_write[OF this]
  show ?case
    unfolding upt_Suc_append[OF le0] run
  proof (rule wp_mono[OF Suc.IH], use Suc.prems in simp, elim exE conjE)
    fix u t h assume t: "t = s\<lparr>rhist := h\<rparr>"
      and c: "\<forall>r<n. reg_last h (reg_array MTA (of_nat r)) = Some 0"
      and a: "\<forall>i<16. \<forall>a. rar_holds (rhist s) i a \<longrightarrow> rar_holds h i a"
    have z: "reg_last (Rd q v # Wr (reg_array MTA (of_nat n)) 0 # h) (reg_array MTA (of_nat r)) = Some 0"
      if "r < Suc n" for r q v
      using that c eq(1)[of r] \<open>n < 128\<close> by (cases "r = n") auto
    show "wp (do { ew32 (reg_array MTA (of_nat n)) 0; e1e_flush E }) (\<lambda>_ t. \<exists>h. t = s\<lparr>rhist := h\<rparr> \<and>
       (\<forall>r<Suc n. reg_last h (reg_array MTA (of_nat r)) = Some 0) \<and>
       (\<forall>i<16. \<forall>a. rar_holds (rhist s) i a \<longrightarrow> rar_holds h i a)) t"
      unfolding t wp_bind wp_ew32
    proof (rule wp_flush)
      fix v
      let ?h = "Rd 8 v # Wr (reg_array MTA (of_nat n)) 0 # h"
      have "\<forall>r<Suc n. reg_last ?h (reg_array MTA (of_nat r)) = Some 0" using z by blast
      moreover have "\<forall>i<16. \<forall>a. rar_holds (rhist s) i a \<longrightarrow> rar_holds ?h i a" using a wr(1) by simp
      ultimately show "\<exists>h'. s\<lparr>rhist := h\<rparr>\<lparr>rhist := Wr (reg_array MTA (of_nat n)) 0 # rhist (s\<lparr>rhist := h\<rparr>)\<rparr>
          \<lparr>rhist := Rd 8 v # rhist (s\<lparr>rhist := h\<rparr>\<lparr>rhist := Wr (reg_array MTA (of_nat n)) 0 # rhist (s\<lparr>rhist := h\<rparr>)\<rparr>)\<rparr> =
          s\<lparr>rhist := h'\<rparr> \<and> (\<forall>r<Suc n. reg_last h' (reg_array MTA (of_nat r)) = Some 0) \<and>
          (\<forall>i<16. \<forall>a. rar_holds (rhist s) i a \<longrightarrow> rar_holds h' i a)"
        by (intro exI[of _ ?h]) simp
    qed
  qed
qed

end
