(* ===== verification/McFilter.thy ===== *)
theory McFilter
  imports MacAddr
begin

text \<open>
  The multicast filter that an update of the address list leaves in the device, and the round
  trip of the station address through its registers.
\<close>

definition mta_ready :: "reg_ev list \<Rightarrow> nat \<Rightarrow> bool" where
  "mta_ready h n \<longleftrightarrow> (\<forall>r<n. reg_last h (reg_array MTA (of_nat r)) \<noteq> None)"

definition mc_hw :: "e1000_hw \<Rightarrow> bool" where
  "mc_hw s \<longleftrightarrow> mta_reg_count (mac s) = 128 \<or> mta_reg_count (mac s) = 32"

lemma mc_hw_hist [simp]: "mc_hw (s\<lparr>rhist := h\<rparr>) = mc_hw s"
  by (simp add: mc_hw_def)

definition mc_hash :: "e1000_hw \<Rightarrow> u8 list \<Rightarrow> nat" where
  "mc_hash s a = unat (the (e1000_hash_mc_addr (mta_reg_count (mac s)) (mc_filter_type (mac s)) a))"

lemma mc_hash_hist [simp]: "mc_hash (s\<lparr>rhist := h\<rparr>) = mc_hash s"
  by (simp add: mc_hash_def fun_eq_iff)

lemma mta_index:
  assumes "mc_hw s" "unat v < unat (mta_reg_count (mac s)) * 32"
  shows "drop_bit 5 v AND (ucast (mta_reg_count (mac s)) - 1) = (of_nat (unat v div 32) :: u32)"
    and "unat (v AND 0x1F) = unat v mod 32" and "unat v div 32 < 128" and "unat v < 4096"
proof -
  have d: "drop_bit 5 v = v div 32" by (simp add: drop_bit_eq_div)
  have o: "(of_nat (unat v div 32) :: u32) = v div 32"
    by (simp add: word_arith_nat_div)
  have m: "(127 :: u32) = mask 7" "(31 :: u32) = mask 5" by (simp_all add: mask_eq_exp_minus_1)
  have "v div 32 AND 127 = v div 32" if "unat v < 4096"
    unfolding m by (rule and_mask_small) (use that in \<open>simp add: unat_div_distrib\<close>)
  moreover have "v div 32 AND 31 = v div 32" if "unat v < 1024"
    unfolding m by (rule and_mask_small) (use that in \<open>simp add: unat_div_distrib\<close>)
  ultimately show "drop_bit 5 v AND (ucast (mta_reg_count (mac s)) - 1) = (of_nat (unat v div 32) :: u32)"
    using assms by (auto simp: mc_hw_def d o)
  show "unat (v AND 0x1F) = unat v mod 32"
    unfolding m by (simp add: unat_mod_distrib take_bit_eq_mod flip: take_bit_eq_mask)
  show "unat v div 32 < 128" "unat v < 4096" using assms by (auto simp: mc_hw_def)
qed

lemma mta_set_wp:
  assumes "mta_latch E" "mc_hw s" "unat v < unat (mta_reg_count (mac s)) * 32"
    and rdy: "mta_ready (rhist s) (unat (mta_reg_count (mac s)))"
    and Q: "\<And>h. mta_ready h (unat (mta_reg_count (mac s))) \<Longrightarrow>
      (\<And>i a. i < 16 \<Longrightarrow> rar_holds h i a = rar_holds (rhist s) i a) \<Longrightarrow>
      (\<And>x. x < 4096 \<Longrightarrow> mta_bit h x \<longleftrightarrow> mta_bit (rhist s) x \<or> x = unat v) \<Longrightarrow> Q () (s\<lparr>rhist := h\<rparr>)"
  shows "wp (e1000_mta_set_generic E v) Q s"
proof -
  let ?r = "unat v div 32"
  let ?R = "reg_array MTA (of_nat ?r)"
  note ix = mta_index[OF assms(2,3)]
  have "?r < unat (mta_reg_count (mac s))" using assms(3) by (simp add: less_mult_imp_div_less)
  then obtain w where w: "reg_last (rhist s) ?R = Some w"
    using rdy by (auto simp: mta_ready_def)
  have e: "E (rhist s) ?R = w" using assms(1) ix(3) w by (simp add: mta_latch_def)
  show ?thesis
    unfolding e1000_mta_set_generic_def Let_def wp_bind wp_State prod.case ix(1,2)
  proof (rule wp_er32, unfold e wp_ew32, rule wp_flush)
    fix y z assume y: "y = w"
    let ?h = "Rd 8 z # Wr ?R (w OR push_bit (unat v mod 32) 1) # Rd ?R w # rhist s"
    have "mta_ready ?h (unat (mta_reg_count (mac s)))" using rdy by (simp add: mta_ready_def)
    moreover have "i < 16 \<Longrightarrow> rar_holds ?h i a = rar_holds (rhist s) i a" for i a
      using mta_write(1)[OF ix(3)] by simp
    moreover have "mta_bit ?h x \<longleftrightarrow> mta_bit (rhist s) x \<or> x = unat v" if x: "x < 4096" for x
    proof -
      have "bit (w OR push_bit (unat v mod 32) 1) (x mod 32) \<longleftrightarrow> bit w (x mod 32) \<or> x mod 32 = unat v mod 32"
        by (auto simp: bit_simps)
      moreover have "x = unat v \<longleftrightarrow> x div 32 = ?r \<and> x mod 32 = unat v mod 32"
        by (metis div_mult_mod_eq)
      moreover have "x div 32 = ?r \<Longrightarrow> mta_bit (rhist s) x = bit w (x mod 32)"
        using w by (simp add: mta_bit_def)
      ultimately show ?thesis using mta_write(2)[OF ix(3) x] by auto
    qed
    ultimately have "Q () (s\<lparr>rhist := ?h\<rparr>)" by (rule Q)
    with y show "Q () (s\<lparr>rhist := Rd ?R y # rhist s\<rparr>\<lparr>rhist := Wr ?R (y OR push_bit (unat v mod 32) 1) #
        rhist (s\<lparr>rhist := Rd ?R y # rhist s\<rparr>)\<rparr>\<lparr>rhist := Rd 8 z # rhist (s\<lparr>rhist := Rd ?R y # rhist s\<rparr>
        \<lparr>rhist := Wr ?R (y OR push_bit (unat v mod 32) 1) # rhist (s\<lparr>rhist := Rd ?R y # rhist s\<rparr>)\<rparr>)\<rparr>)"
      by simp
  qed
qed

lemma mc_hashes_wp:
  assumes "mta_latch E" "mc_hw s" "mta_ready (rhist s) (unat (mta_reg_count (mac s)))"
    and Q: "\<And>h. (\<And>i a. i < 16 \<Longrightarrow> rar_holds h i a = rar_holds (rhist s) i a) \<Longrightarrow>
      (\<And>x. x < 4096 \<Longrightarrow> mta_bit h x \<longleftrightarrow> mta_bit (rhist s) x \<or> x \<in> mc_hash s ` set al) \<Longrightarrow>
      Q (Some ()) (s\<lparr>rhist := h\<rparr>)"
  shows "wp (mc_hashes E al) Q s"
  using assms(2-)
proof (induction al arbitrary: s)
  case Nil
  from Nil(3)[of "rhist s"] show ?case by simp
next
  case (Cons a al)
  obtain v where v: "e1000_hash_mc_addr (mta_reg_count (mac s)) (mc_filter_type (mac s)) a = Some v"
      "unat v < unat (mta_reg_count (mac s)) * 32"
    using mc_hash_total[of "mta_reg_count (mac s)"] Cons.prems(1) by (auto simp: mc_hw_def)
  have h: "mc_hash s a = unat v" by (simp add: mc_hash_def v)
  show ?case
    unfolding mc_hashes.simps wp_bind wp_State prod.case v option.case
  proof (rule mta_set_wp[OF assms(1) Cons.prems(1) v(2) Cons.prems(2)])
    fix g
    assume g: "mta_ready g (unat (mta_reg_count (mac s)))"
      "\<And>i a. i < 16 \<Longrightarrow> rar_holds g i a = rar_holds (rhist s) i a"
      "\<And>x. x < 4096 \<Longrightarrow> mta_bit g x = (mta_bit (rhist s) x \<or> x = unat v)"
    show "wp (mc_hashes E al) Q (s\<lparr>rhist := g\<rparr>)"
    proof (rule Cons.IH)
      fix k
      assume k: "\<And>i a. i < 16 \<Longrightarrow> rar_holds k i a = rar_holds (rhist (s\<lparr>rhist := g\<rparr>)) i a"
        "\<And>x. x < 4096 \<Longrightarrow> mta_bit k x = (mta_bit (rhist (s\<lparr>rhist := g\<rparr>)) x \<or>
          x \<in> mc_hash (s\<lparr>rhist := g\<rparr>) ` set al)"
      have "Q (Some ()) (s\<lparr>rhist := k\<rparr>)"
        by (rule Cons.prems(3)) (use k g h in auto)
      then show "Q (Some ()) (s\<lparr>rhist := g\<rparr>\<lparr>rhist := k\<rparr>)" by simp
    qed (use Cons.prems(1) g(1) in simp_all)
  qed
qed

text \<open>
  C25: After the multicast list is set, on every device whose table registers read back as
  written and for both table sizes: the receive address registers from the first free one on
  hold the addresses of the list in order and zero behind them, and the bits of the hash
  table are exactly the hashes of the addresses that did not fit.  In particular every
  listed address passes one of the two filters and nothing of an earlier list remains.
\<close>

lemma mc_list_filter:
  assumes "mta_latch E" "mc_hw s" "used \<le> n" "n \<le> 16"
  shows "\<exists>t. run_state (e1000e_update_mc_addr_list_generic E al used n) s = (Some (), t) \<and>
     (\<forall>i \<in> {used..<n}. rar_holds (rhist t) i (slot al (i - used))) \<and>
     (\<forall>x < unat (mta_reg_count (mac s)) * 32.
        mta_bit (rhist t) x = (x \<in> mc_hash s ` set (drop (n - used) al)))"
proof -
  let ?c = "unat (mta_reg_count (mac s))"
  have c: "?c \<le> 128" using assms(2) by (auto simp: mc_hw_def)
  have up: "[used..<n] = [used..<used + (n - used)]" using assms(3) by simp
  have "wp (e1000e_update_mc_addr_list_generic E al used n) (\<lambda>r t. r = Some () \<and>
     (\<forall>i < n - used. rar_holds (rhist t) (used + i) (slot al i)) \<and>
     (\<forall>x < ?c * 32. mta_bit (rhist t) x = (x \<in> mc_hash s ` set (drop (n - used) al)))) s"
    unfolding e1000e_update_mc_addr_list_generic_def mta_clear_def up wp_bind
  proof (rule mc_rars_wp)
    fix h assume rars: "\<And>i. i < n - used \<Longrightarrow> rar_holds h (used + i) (slot al i)"
    show "wp (gets (\<lambda>s. mta_reg_count (mac s))) (\<lambda>a. wp (for_each [0..<unat a]
        (\<lambda>i. do { ew32 (reg_array MTA (of_nat i)) 0; e1e_flush E })) (\<lambda>a. wp (mc_hashes E (drop (n - used) al))
        (\<lambda>r t. r = Some () \<and> (\<forall>i < n - used. rar_holds (rhist t) (used + i) (slot al i)) \<and>
         (\<forall>x < ?c * 32. mta_bit (rhist t) x = (x \<in> mc_hash s ` set (drop (n - used) al))))))
        (s\<lparr>rhist := h\<rparr>)"
      unfolding wp_State prod.case
    proof (rule wp_mono[OF mta_clear_loop], use c in simp, elim exE conjE)
      fix u t g
      assume t: "t = s\<lparr>rhist := h\<rparr>\<lparr>rhist := g\<rparr>"
        and zero: "\<forall>r<unat (mta_reg_count (mac (s\<lparr>rhist := h\<rparr>))). reg_last g (reg_array MTA (of_nat r)) = Some 0"
        and keep: "\<forall>i<16. \<forall>a. rar_holds (rhist (s\<lparr>rhist := h\<rparr>)) i a \<longrightarrow> rar_holds g i a"
      have bits: "\<not> mta_bit g x" if "x < ?c * 32" for x
      proof -
        have "x div 32 < ?c" using that by (simp add: less_mult_imp_div_less)
        with zero have "reg_last g (reg_array MTA (of_nat (x div 32))) = Some 0" by simp
        then show ?thesis by (simp add: mta_bit_def)
      qed
      show "wp (mc_hashes E (drop (n - used) al)) (\<lambda>r t. r = Some () \<and>
         (\<forall>i < n - used. rar_holds (rhist t) (used + i) (slot al i)) \<and>
         (\<forall>x < ?c * 32. mta_bit (rhist t) x = (x \<in> mc_hash s ` set (drop (n - used) al)))) t"
        unfolding t
        by (rule mc_hashes_wp[OF assms(1)])
          (use assms(2-) c zero bits keep rars in \<open>auto simp: mta_ready_def\<close>)
    qed
  qed (use assms(3,4) in simp)
  then have "\<exists>t. run_state (e1000e_update_mc_addr_list_generic E al used n) s = (Some (), t) \<and>
     (\<forall>i < n - used. rar_holds (rhist t) (used + i) (slot al i)) \<and>
     (\<forall>x < ?c * 32. mta_bit (rhist t) x = (x \<in> mc_hash s ` set (drop (n - used) al)))"
    by (auto simp: wp_def)
  moreover have "(\<forall>i \<in> {used..<n}. rar_holds h i (slot al (i - used))) \<longleftrightarrow>
      (\<forall>i < n - used. rar_holds h (used + i) (slot al i))" for h
    by (metis (no_types, lifting) add_diff_cancel_left' atLeastLessThan_iff le_add1 le_add_diff_inverse
        less_diff_conv2 add.commute less_diff_conv)
  ultimately show ?thesis by simp
qed

definition latch_dev :: mmio where
  "latch_dev h r = (case reg_last h r of Some v \<Rightarrow> v | None \<Rightarrow> 0)"

definition mc_hw0 :: e1000_hw where
  "mc_hw0 = hw_zero\<lparr>mac := mac_zero\<lparr>mta_reg_count := 128\<rparr>\<rparr>"

lemma latch_dev_mta: "mta_latch latch_dev"
  by (simp add: mta_latch_def latch_dev_def)

lemma mc_hw0_ok: "mc_hw mc_hw0" "unat (mta_reg_count (mac mc_hw0)) = 128"
    "mc_hash mc_hw0 [0x01, 0xAA, 0x00, 0x12, 0x34, 0x56] = 0x563"
  by (simp_all add: mc_hw_def mc_hw0_def mac_zero_def mc_hash_def e1000_hash_mc_addr_def
      mc_shift_eval)

lemma mc_list_filter_witness:
  "\<exists>t. run_state (e1000e_update_mc_addr_list_generic latch_dev
       [[1, 2, 3, 4, 5, 6], [0x01, 0xAA, 0x00, 0x12, 0x34, 0x56]] 1 2) mc_hw0 = (Some (), t) \<and>
     rar_holds (rhist t) 1 [1, 2, 3, 4, 5, 6] \<and> mta_bit (rhist t) 0x563 \<and> \<not> mta_bit (rhist t) 0x564"
  using mc_list_filter[OF latch_dev_mta mc_hw0_ok(1), of 1 2
      "[[1, 2, 3, 4, 5, 6], [0x01, 0xAA, 0x00, 0x12, 0x34, 0x56]]"]
  by (auto simp: mc_hw0_ok slot_def)

section \<open>The station address\<close>

lemma rar_bytes_low_high:
  assumes "length a = 6"
  shows "rar_bytes (rar_low a) (rar_high a) = a"
proof -
  have a: "a = [a ! 0, a ! 1, a ! 2, a ! 3, a ! 4, a ! 5]"
    using assms by (auto simp: list_eq_iff_nth_eq nth_Cons' numeral_eq_Suc less_Suc_eq)
  have low: "ucast (rar_low a) = a ! 0" "ucast (drop_bit 8 (rar_low a)) = a ! 1"
    "ucast (drop_bit 16 (rar_low a)) = a ! 2" "ucast (drop_bit 24 (rar_low a)) = a ! 3"
    by (rule bit_word_eqI; auto simp: rar_low_def bit_simps dest: bit_imp_le_length)+
  define p :: u32 where "p = ucast (a ! 4) OR push_bit 8 (ucast (a ! 5))"
  define k :: nat where "k = 31"
  have "rar_high a = p \<or> rar_high a = p OR push_bit k 1" "8 + 8 \<le> k"
    by (simp_all add: rar_high_def p_def k_def Let_def)
  moreover have "\<not> bit (x :: u8) (8 + n)" for x n by (auto dest: bit_imp_le_length)
  ultimately have high: "ucast (rar_high a) = a ! 4" "ucast (drop_bit 8 (rar_high a)) = a ! 5"
    by (auto intro!: bit_word_eqI simp: p_def bit_simps dest: bit_imp_le_length)
  show ?thesis
    unfolding rar_bytes_def by (subst (3) a) (simp add: upt_rec low high)
qed

text \<open>
  Programming an address into receive address register 0 and reading the station address
  back gives the same six bytes, as current and as permanent address, whatever they are.
\<close>

lemma station_addr_roundtrip:
  assumes "length a = 6"
    and "\<And>h v. reg_last h (RAL 0) = Some v \<Longrightarrow> E h (RAL 0) = v"
    and "\<And>h v. reg_last h (RAH 0) = Some v \<Longrightarrow> E h (RAH 0) = v"
  shows "mac_addr (mac (exec (do { e1000e_rar_set E a 0; e1000e_read_mac_addr_generic E }) s)) = a \<and>
    perm_addr (mac (exec (do { e1000e_rar_set E a 0; e1000e_read_mac_addr_generic E }) s)) = a"
proof -
  have "wp (do { e1000e_rar_set E a 0; e1000e_read_mac_addr_generic E })
      (\<lambda>_ t. mac_addr (mac t) = a \<and> perm_addr (mac t) = a) s"
    using assms(2,3) rar_bytes_low_high[OF assms(1)]
    by (auto simp: e1000e_rar_set_def e1000e_read_mac_addr_generic_def RAL_def RAH_def
        intro!: wp_flush wp_er32)
  then show ?thesis by (simp add: wp_iff)
qed

lemma station_addr_roundtrip_witness:
  "mac_addr (mac (exec (do { e1000e_rar_set latch_dev [1, 2, 3, 4, 5, 6] 0;
     e1000e_read_mac_addr_generic latch_dev }) hw_zero)) = [1, 2, 3, 4, 5, 6]"
  using station_addr_roundtrip[of "[1, 2, 3, 4, 5, 6]" latch_dev hw_zero] by (simp add: latch_dev_def)

end
