(* ===== verification/PhyReg.thy ===== *)
theory PhyReg
  imports Nvm
begin

text \<open>
  Access to PHY registers, e1000_phy.c: the MDI control register, the paged access of the
  IGP and BM PHYs, the wake-up registers of the BM PHYs, the Kumeran interface, and the
  identification of the PHY.  \<open>acq\<close> and \<open>rel\<close> are the function pointers \<open>phy.ops.acquire\<close> and
  \<open>phy.ops.release\<close>, \<open>rphy\<close> and \<open>wphy\<close> the accesses \<open>phy.ops.read_reg\<close> and \<open>write_reg\<close>; all
  of them are set.
\<close>

abbreviation MDIC :: u32 where "MDIC \<equiv> 0x00020"
abbreviation KMRNCTRLSTA :: u32 where "KMRNCTRLSTA \<equiv> 0x00034"
abbreviation PHY_CONTROL :: u32 where "PHY_CONTROL \<equiv> 0x00"
abbreviation PHY_STATUS :: u32 where "PHY_STATUS \<equiv> 0x01"
abbreviation PHY_ID1 :: u32 where "PHY_ID1 \<equiv> 0x02"
abbreviation PHY_ID2 :: u32 where "PHY_ID2 \<equiv> 0x03"

type_synonym phy_rd = "u32 \<Rightarrow> (e1000_hw, int + u16) state"
type_synonym phy_wr = "u32 \<Rightarrow> u16 \<Rightarrow> (e1000_hw, int) state"

text \<open>The test of a code after a call, and after a read.\<close>

definition seq_ok :: "('s, int) state \<Rightarrow> ('s, int) state \<Rightarrow> ('s, int) state" where
  "seq_ok m n = do { r \<leftarrow> m; (if r \<noteq> 0 then ret r else n) }"

definition rd_ok :: "('s, int + 'a) state \<Rightarrow> ('a \<Rightarrow> ('s, int) state) \<Rightarrow> ('s, int) state" where
  "rd_ok m f = do { r \<leftarrow> m; ok_or_code r f }"

lemma wp_seq_ok [simp]:
  "wp (seq_ok m n) Q s = wp m (\<lambda>r t. if r \<noteq> 0 then Q r t else wp n Q t) s"
  by (simp add: seq_ok_def cong del: wp_weak_cong)

lemma wp_rd_ok [simp]:
  "wp (rd_ok m f) Q s = wp m (\<lambda>r t. case r of Inl e \<Rightarrow> Q e t | Inr a \<Rightarrow> wp (f a) Q t) s"
proof (cases "run_state m s")
  case (Pair r t)
  then show ?thesis by (cases r) (simp_all add: rd_ok_def wp_def)
qed

section \<open>The MDI control register\<close>

text \<open>The poll of at most 1920 reads; the last value read is tested again behind the loop.\<close>

definition mdic_cmd :: "u32 \<Rightarrow> u32 \<Rightarrow> u32 \<Rightarrow> u32" where
  "mdic_cmd offset addr op = push_bit 16 offset OR push_bit 21 addr OR op"

definition mdic_wait :: "mmio \<Rightarrow> (e1000_hw, int + u32) state" where
  "mdic_wait E = do {
     r \<leftarrow> poll 1920 (er32 E MDIC) (\<lambda>mdic. mdic AND 0x10000000 \<noteq> 0);
     ret (case r of
       None \<Rightarrow> Inl (- E1000_ERR_PHY)
     | Some mdic \<Rightarrow> if mdic AND 0x40000000 \<noteq> 0 then Inl (- E1000_ERR_PHY) else Inr mdic) }"

definition e1000e_read_phy_reg_mdic :: "mmio \<Rightarrow> phy_rd" where
  "e1000e_read_phy_reg_mdic E offset = do {
     addr \<leftarrow> gets (\<lambda>s. phy_addr (phy s));
     ew32 MDIC (mdic_cmd offset addr 0x08000000);
     r \<leftarrow> mdic_wait E;
     when_ok r (\<lambda>mdic. ret (Inr (ucast mdic)))
   }"

definition e1000e_write_phy_reg_mdic :: "mmio \<Rightarrow> phy_wr" where
  "e1000e_write_phy_reg_mdic E offset data = do {
     addr \<leftarrow> gets (\<lambda>s. phy_addr (phy s));
     ew32 MDIC (ucast data OR mdic_cmd offset addr 0x04000000);
     rd_ok (mdic_wait E) (\<lambda>mdic. ret 0)
   }"

section \<open>Access with ownership and pages\<close>

text \<open>
  All accesses acquire the PHY first and release it at the end, also when the access failed.
\<close>

definition owned_rd :: "(e1000_hw, int) state \<Rightarrow> (e1000_hw, unit) state \<Rightarrow>
    (e1000_hw, int + 'a) state \<Rightarrow> (e1000_hw, int + 'a) state" where
  "owned_rd acq rel m = do {
     r \<leftarrow> acq;
     (if r \<noteq> 0 then ret (Inl r) else do { v \<leftarrow> m; rel; ret v }) }"

definition owned_wr :: "(e1000_hw, int) state \<Rightarrow> (e1000_hw, unit) state \<Rightarrow>
    (e1000_hw, int) state \<Rightarrow> (e1000_hw, int) state" where
  "owned_wr acq rel m = do {
     r \<leftarrow> acq;
     (if r \<noteq> 0 then ret r else do { v \<leftarrow> m; rel; ret v }) }"

text \<open>A read behind a page selection that may fail.\<close>

definition after_ok :: "(e1000_hw, int) state \<Rightarrow> (e1000_hw, int + 'a) state \<Rightarrow>
    (e1000_hw, int + 'a) state" where
  "after_ok m n = do { r \<leftarrow> m; (if r \<noteq> 0 then ret (Inl r) else n) }"

definition e1000e_read_phy_reg_m88 ::
  "mmio \<Rightarrow> (e1000_hw, int) state \<Rightarrow> (e1000_hw, unit) state \<Rightarrow> phy_rd" where
  "e1000e_read_phy_reg_m88 E acq rel offset =
     owned_rd acq rel (e1000e_read_phy_reg_mdic E (0x1F AND offset))"

definition e1000e_write_phy_reg_m88 ::
  "mmio \<Rightarrow> (e1000_hw, int) state \<Rightarrow> (e1000_hw, unit) state \<Rightarrow> phy_wr" where
  "e1000e_write_phy_reg_m88 E acq rel offset data =
     owned_wr acq rel (e1000e_write_phy_reg_mdic E (0x1F AND offset) data)"

definition igp_page :: "mmio \<Rightarrow> u32 \<Rightarrow> (e1000_hw, int) state" where
  "igp_page E offset =
     (if offset > 0xF then e1000e_write_phy_reg_mdic E 0x1F (ucast offset) else ret 0)"

definition e1000e_read_phy_reg_igp ::
  "mmio \<Rightarrow> (e1000_hw, int) state \<Rightarrow> (e1000_hw, unit) state \<Rightarrow> phy_rd" where
  "e1000e_read_phy_reg_igp E acq rel offset = owned_rd acq rel
     (after_ok (igp_page E offset) (e1000e_read_phy_reg_mdic E (0x1F AND offset)))"

definition e1000e_write_phy_reg_igp ::
  "mmio \<Rightarrow> (e1000_hw, int) state \<Rightarrow> (e1000_hw, unit) state \<Rightarrow> phy_wr" where
  "e1000e_write_phy_reg_igp E acq rel offset data = owned_wr acq rel
     (seq_ok (igp_page E offset) (e1000e_write_phy_reg_mdic E (0x1F AND offset) data))"

definition e1000e_read_kmrn_reg ::
  "mmio \<Rightarrow> (e1000_hw, int) state \<Rightarrow> (e1000_hw, unit) state \<Rightarrow> phy_rd" where
  "e1000e_read_kmrn_reg E acq rel offset = owned_rd acq rel (do {
     ew32 KMRNCTRLSTA ((push_bit 16 offset AND 0x001F0000) OR 0x00200000);
     v \<leftarrow> er32 E KMRNCTRLSTA;
     ret (Inr (ucast v)) })"

definition e1000e_write_kmrn_reg ::
  "(e1000_hw, int) state \<Rightarrow> (e1000_hw, unit) state \<Rightarrow> phy_wr" where
  "e1000e_write_kmrn_reg acq rel offset data = owned_wr acq rel (do {
     ew32 KMRNCTRLSTA ((push_bit 16 offset AND 0x001F0000) OR ucast data);
     ret 0 })"

section \<open>The BM PHYs\<close>

definition e1000_get_phy_addr_for_bm_page :: "u32 \<Rightarrow> u32 \<Rightarrow> u32" where
  "e1000_get_phy_addr_for_bm_page page reg =
     (if page \<ge> 768 \<or> (page = 0 \<and> reg = 25) \<or> reg = 31 then 1 else 2)"

definition BM_PHY_REG_NUM :: "u32 \<Rightarrow> u16" where
  "BM_PHY_REG_NUM offset = ucast ((offset AND 0x1F) OR (drop_bit 16 offset AND NOT 0x1F))"

text \<open>
  The wake-up registers lie on page 800 behind an address and a data register; the access
  has to be enabled on page 769 and the enable register is put back afterwards.  The codes
  of the two page selections of page 769, and of the selection of page 800, are not looked at.
\<close>

definition bm_wuc_data :: "mmio \<Rightarrow> u16 option \<Rightarrow> (e1000_hw, int + u16) state" where
  "bm_wuc_data E data = (case data of
     None \<Rightarrow> e1000e_read_phy_reg_mdic E 0x12
   | Some d \<Rightarrow> do { r \<leftarrow> e1000e_write_phy_reg_mdic E 0x12 d;
                    ret (if r \<noteq> 0 then Inl r else Inr d) })"

definition e1000_access_phy_wakeup_reg_bm ::
  "mmio \<Rightarrow> (e1000_hw, int) state \<Rightarrow> (e1000_hw, unit) state \<Rightarrow> u32 \<Rightarrow> u16 option \<Rightarrow>
   (e1000_hw, int + u16) state" where
  "e1000_access_phy_wakeup_reg_bm E acq rel offset data = owned_rd acq rel (do {
     set_phy (\<lambda>p. p\<lparr>phy_addr := 1\<rparr>);
     x \<leftarrow> e1000e_write_phy_reg_mdic E 0x1F (push_bit 5 769);
     r \<leftarrow> e1000e_read_phy_reg_mdic E 17;
     when_ok r (\<lambda>v.
       let phy_reg = v AND NOT (push_bit 4 1) in
       after_ok (e1000e_write_phy_reg_mdic E 17 phy_reg)
         (after_ok (e1000e_write_phy_reg_mdic E 17 (phy_reg OR push_bit 2 1)) (do {
            x \<leftarrow> e1000e_write_phy_reg_mdic E 0x1F (push_bit 5 800);
            after_ok (e1000e_write_phy_reg_mdic E 0x11 (BM_PHY_REG_NUM offset)) (do {
              d \<leftarrow> bm_wuc_data E data;
              when_ok d (\<lambda>d. do {
                x \<leftarrow> e1000e_write_phy_reg_mdic E 0x1F (push_bit 5 769);
                after_ok (e1000e_write_phy_reg_mdic E 17 phy_reg) (ret (Inr d)) }) }) }))) })"

text \<open>The page selection of the BM PHYs; \<open>offset\<close> is compared without its page removed.\<close>

definition bm_page :: "mmio \<Rightarrow> u32 \<Rightarrow> (e1000_hw, int) state" where
  "bm_page E offset = (let page = drop_bit 5 offset in do {
     set_phy (\<lambda>p. p\<lparr>phy_addr := e1000_get_phy_addr_for_bm_page page offset\<rparr>);
     (if offset > 0xF then do {
        a \<leftarrow> gets (\<lambda>s. phy_addr (phy s));
        (if a = 1 then e1000e_write_phy_reg_mdic E 0x1F (ucast (push_bit 5 page))
         else e1000e_write_phy_reg_mdic E 22 (ucast page)) }
      else ret 0) })"

definition e1000e_write_phy_reg_bm ::
  "mmio \<Rightarrow> (e1000_hw, int) state \<Rightarrow> (e1000_hw, unit) state \<Rightarrow> phy_wr" where
  "e1000e_write_phy_reg_bm E acq rel offset data =
     (if drop_bit 5 offset = 800 then do {
        r \<leftarrow> e1000_access_phy_wakeup_reg_bm E acq rel offset (Some data);
        ok_or_code r (\<lambda>d. ret 0) }
      else owned_wr acq rel
        (seq_ok (bm_page E offset) (e1000e_write_phy_reg_mdic E (0x1F AND offset) data)))"

definition e1000e_read_phy_reg_bm ::
  "mmio \<Rightarrow> (e1000_hw, int) state \<Rightarrow> (e1000_hw, unit) state \<Rightarrow> phy_rd" where
  "e1000e_read_phy_reg_bm E acq rel offset =
     (if drop_bit 5 offset = 800 then e1000_access_phy_wakeup_reg_bm E acq rel offset None
      else owned_rd acq rel
        (after_ok (bm_page E offset) (e1000e_read_phy_reg_mdic E (0x1F AND offset))))"

definition bm2_page :: "mmio \<Rightarrow> u32 \<Rightarrow> (e1000_hw, int) state" where
  "bm2_page E offset = do {
     set_phy (\<lambda>p. p\<lparr>phy_addr := 1\<rparr>);
     (if offset > 0xF then e1000e_write_phy_reg_mdic E 22 (ucast (drop_bit 5 offset)) else ret 0) }"

definition e1000e_read_phy_reg_bm2 ::
  "mmio \<Rightarrow> (e1000_hw, int) state \<Rightarrow> (e1000_hw, unit) state \<Rightarrow> phy_rd" where
  "e1000e_read_phy_reg_bm2 E acq rel offset =
     (if (ucast (drop_bit 5 offset) :: u16) = 800
      then e1000_access_phy_wakeup_reg_bm E acq rel offset None
      else owned_rd acq rel
        (after_ok (bm2_page E offset) (e1000e_read_phy_reg_mdic E (0x1F AND offset))))"

definition e1000e_write_phy_reg_bm2 ::
  "mmio \<Rightarrow> (e1000_hw, int) state \<Rightarrow> (e1000_hw, unit) state \<Rightarrow> phy_wr" where
  "e1000e_write_phy_reg_bm2 E acq rel offset data =
     (if (ucast (drop_bit 5 offset) :: u16) = 800 then do {
        r \<leftarrow> e1000_access_phy_wakeup_reg_bm E acq rel offset (Some data);
        ok_or_code r (\<lambda>d. ret 0) }
      else owned_wr acq rel
        (seq_ok (bm2_page E offset) (e1000e_write_phy_reg_mdic E (0x1F AND offset) data)))"

section \<open>Identification\<close>

definition e1000e_get_phy_id :: "phy_rd \<Rightarrow> (e1000_hw, int) state" where
  "e1000e_get_phy_id rphy = rd_ok (rphy PHY_ID1) (\<lambda>id1. do {
     set_phy (\<lambda>p. p\<lparr>phy_id := push_bit 16 (ucast id1)\<rparr>);
     rd_ok (rphy PHY_ID2) (\<lambda>id2. do {
       set_phy (\<lambda>p. p\<lparr>phy_id := phy_id p OR (ucast id2 AND 0xFFFFFFF0),
         phy_revision := ucast id2 AND NOT 0xFFFFFFF0\<rparr>);
       ret 0 }) })"

definition e1000e_get_phy_type_from_id :: "u32 \<Rightarrow> e1000_phy_type" where
  "e1000e_get_phy_type_from_id ident =
     (if ident = 0x01410C30 \<or> ident = 0x01410C50 \<or> ident = 0x01410CC0 \<or> ident = 0x01410C20 then e1000_phy_m88
      else if ident = 0x02A80380 then e1000_phy_igp_2
      else if ident = 0x01410CA0 then e1000_phy_gg82563
      else if ident = 0x02A80390 then e1000_phy_igp_3
      else if ident = 0x02A80330 \<or> ident = 0x02A80320 \<or> ident = 0x02A80310 then e1000_phy_ife
      else if ident = 0x01410CB0 \<or> ident = 0x01410CB1 then e1000_phy_bm
      else e1000_phy_unknown)"

text \<open>Ten attempts at every address; the code of an attempt is not looked at.\<close>

fun phy_attempts :: "phy_rd \<Rightarrow> nat \<Rightarrow> (e1000_hw, bool) state" where
  "phy_attempts rphy 0 = ret False"
| "phy_attempts rphy (Suc n) = do {
     r \<leftarrow> e1000e_get_phy_id rphy;
     ty \<leftarrow> gets (\<lambda>s. e1000e_get_phy_type_from_id (phy_id (phy s)));
     (if ty \<noteq> e1000_phy_unknown then ret True else phy_attempts rphy n) }"

fun phy_addrs :: "phy_rd \<Rightarrow> u32 list \<Rightarrow> (e1000_hw, int) state" where
  "phy_addrs rphy [] = ret (- 6)"
| "phy_addrs rphy (a # as) = do {
     set_phy (\<lambda>p. p\<lparr>phy_addr := a\<rparr>);
     ok \<leftarrow> phy_attempts rphy 10;
     (if ok then ret 0 else phy_addrs rphy as) }"

definition e1000e_determine_phy_address :: "phy_rd \<Rightarrow> (e1000_hw, int) state" where
  "e1000e_determine_phy_address rphy = do {
     set_phy (\<lambda>p. p\<lparr>phy_id := 0\<rparr>);
     phy_addrs rphy [0, 1, 2, 3] }"

end
