(* ===== verification/PhyAccess.thy ===== *)
theory PhyAccess
  imports PhyReg
begin

text \<open>
  The register file behind the MDI control register, the contract of a PHY register access
  (locale \<open>phy_access\<close>), and its interpretation on the plain and on the paged access.
\<close>

section \<open>The PHY behind the register\<close>

text \<open>
  A command names a register in bits 20..16; bit 26 makes it a write of the low half.
  Register 31 selects the page (its bits 15..5) of the registers above 15.  \<open>phy_file\<close> is the
  selected page and the content, from the commands of a history; \<open>m\<close> is the content before
  the first of them.
\<close>

definition mdic_reg :: "u32 \<Rightarrow> nat" where
  "mdic_reg v = unat (drop_bit 16 v AND 0x1F)"

definition phy_page :: "u16 \<Rightarrow> nat \<Rightarrow> u16" where
  "phy_page pg r = (if r \<le> 15 then 0 else drop_bit 5 pg)"

definition phy_cmd :: "u32 \<Rightarrow> u16 \<times> (u16 \<Rightarrow> nat \<Rightarrow> u16) \<Rightarrow> u16 \<times> (u16 \<Rightarrow> nat \<Rightarrow> u16)" where
  "phy_cmd v st = (case st of (pg, f) \<Rightarrow>
     if \<not> bit v 26 then (pg, f)
     else if mdic_reg v = 31 then (ucast v, f)
     else (pg, f(phy_page pg (mdic_reg v) := (f (phy_page pg (mdic_reg v)))(mdic_reg v := ucast v))))"

fun phy_file :: "(u16 \<Rightarrow> nat \<Rightarrow> u16) \<Rightarrow> reg_ev list \<Rightarrow> u16 \<times> (u16 \<Rightarrow> nat \<Rightarrow> u16)" where
  "phy_file m [] = (0, m)"
| "phy_file m (Wr q v # h) = (if q = MDIC then phy_cmd v (phy_file m h) else phy_file m h)"
| "phy_file m (Rd q v # h) = phy_file m h"

definition phy_get :: "u16 \<times> (u16 \<Rightarrow> nat \<Rightarrow> u16) \<Rightarrow> nat \<Rightarrow> u16" where
  "phy_get st r = snd st (phy_page (fst st) r) r"

text \<open>Reads of the register since the last command.\<close>

fun mdic_reads :: "reg_ev list \<Rightarrow> nat" where
  "mdic_reads [] = 0"
| "mdic_reads (Wr q v # h) = (if q = MDIC then 0 else mdic_reads h)"
| "mdic_reads (Rd q v # h) = (if q = MDIC then Suc (mdic_reads h) else mdic_reads h)"

text \<open>
  The device reports completion (bit 28) after less than 1920 reads of its own choice, never
  an error (bit 30), and with the completion of a read command its data.
\<close>

definition mdic_dev :: "(u16 \<Rightarrow> nat \<Rightarrow> u16) \<Rightarrow> mmio \<Rightarrow> bool" where
  "mdic_dev m E \<longleftrightarrow> (\<forall>h v. reg_last h MDIC = Some v \<longrightarrow>
     (1919 \<le> mdic_reads h \<longrightarrow> bit (E h MDIC) 28) \<and> \<not> bit (E h MDIC) 30 \<and>
     (bit (E h MDIC) 28 \<longrightarrow> \<not> bit v 26 \<longrightarrow> ucast (E h MDIC) = phy_get (phy_file m h) (mdic_reg v)))"

definition mdic_chip :: "(u16 \<Rightarrow> nat \<Rightarrow> u16) \<Rightarrow> mmio" where
  "mdic_chip m h q = (case reg_last h MDIC of
      None \<Rightarrow> 0
    | Some v \<Rightarrow> if q = MDIC \<and> 3 \<le> mdic_reads h
        then ucast (phy_get (phy_file m h) (mdic_reg v)) OR 0x10000000 else 0)"

lemma mdic_chip_dev: "mdic_dev m (mdic_chip m)"
proof -
  have high: "16 \<le> k \<Longrightarrow> ucast (ucast (w :: u16) OR push_bit k 1 :: u32) = w" for w k
    by (rule bit_word_eqI) (auto simp: bit_simps)
  have low: "ucast (ucast (w :: u16) OR 0x10000000 :: u32) = w" for w
    using high[of 28 w] by simp
  have "bit (0x10000000 :: u32) 28" "\<not> bit (0x10000000 :: u32) 30"
    by (simp_all add: bit_numeral_rec)
  with low show ?thesis
    by (auto simp: mdic_dev_def mdic_chip_def bit_or_iff bit_unsigned_iff dest: bit_imp_le_length)
qed

lemma flag_mdic: "(v :: u32) AND 0x10000000 = 0 \<longleftrightarrow> \<not> bit v 28" "v AND 0x40000000 = 0 \<longleftrightarrow> \<not> bit v 30"
  using and_exp_eq_0_iff_not_bit[of v 28] and_exp_eq_0_iff_not_bit[of v 30] by simp_all

lemma mdic_poll:
  assumes "mdic_dev m E" "reg_last (rhist s) MDIC = Some v" "1920 \<le> mdic_reads (rhist s) + n"
    and "\<And>w h. phy_file m h = phy_file m (rhist s) \<Longrightarrow> \<not> bit w 30 \<Longrightarrow>
      (\<not> bit v 26 \<longrightarrow> ucast w = phy_get (phy_file m (rhist s)) (mdic_reg v)) \<Longrightarrow>
      Q (Some w) (s\<lparr>rhist := h\<rparr>)" and "0 < n"
  shows "wp (poll n (er32 E MDIC) (\<lambda>mdic. mdic AND 0x10000000 \<noteq> 0)) Q s"
  using assms(2-)
proof (induction n arbitrary: s)
  case (Suc n)
  let ?w = "E (rhist s) MDIC"
  have d: "(1919 \<le> mdic_reads (rhist s) \<longrightarrow> bit ?w 28) \<and> \<not> bit ?w 30 \<and>
     (bit ?w 28 \<longrightarrow> \<not> bit v 26 \<longrightarrow> ucast ?w = phy_get (phy_file m (rhist s)) (mdic_reg v))"
    using assms(1) Suc.prems(1) by (auto simp: mdic_dev_def)
  show ?case
    unfolding poll.simps wp_bind
  proof (rule wp_er32)
    fix w assume w: "w = ?w"
    let ?h = "Rd MDIC w # rhist s"
    show "wp (if w AND 0x10000000 \<noteq> 0 then ret (Some w)
        else poll n (er32 E MDIC) (\<lambda>mdic. mdic AND 0x10000000 \<noteq> 0)) Q (s\<lparr>rhist := ?h\<rparr>)"
    proof (cases "bit w 28")
      case True
      then have "Q (Some w) (s\<lparr>rhist := ?h\<rparr>)" by (intro Suc.prems(3)) (use d w in auto)
      with True show ?thesis using flag_mdic(1)[of w] by simp
    next
      case False
      then have few: "mdic_reads (rhist s) < 1919" using d w by (metis not_le_imp_less)
      have "wp (poll n (er32 E MDIC) (\<lambda>mdic. mdic AND 0x10000000 \<noteq> 0)) Q (s\<lparr>rhist := ?h\<rparr>)"
      proof (rule Suc.IH)
        fix w' :: u32 and h assume "phy_file m h = phy_file m (rhist (s\<lparr>rhist := ?h\<rparr>))" "\<not> bit w' 30"
          "\<not> bit v 26 \<longrightarrow> ucast w' = phy_get (phy_file m (rhist (s\<lparr>rhist := ?h\<rparr>))) (mdic_reg v)"
        with Suc.prems(3)[of h w'] show "Q (Some w') (s\<lparr>rhist := ?h\<rparr>\<lparr>rhist := h\<rparr>)" by simp
      qed (use Suc.prems(1,2) few in simp_all)
      with False show ?thesis using flag_mdic(1)[of w] by simp
    qed
  qed
qed simp

text \<open>The two accesses, as operations on the register file.\<close>

definition mdic_ok :: "(u16 \<Rightarrow> nat \<Rightarrow> u16) \<Rightarrow> mmio \<Rightarrow> e1000_hw \<Rightarrow> bool" where
  "mdic_ok m E s \<longleftrightarrow> mdic_dev m E \<and> unat (phy_addr (phy s)) < 32"

lemma mdic_ok_hist [simp]: "mdic_ok m E (s\<lparr>rhist := h\<rparr>) = mdic_ok m E s"
  by (simp add: mdic_ok_def)

lemma mdic_fields:
  assumes "unat offset < 32" "unat addr < 32" "26 \<le> k"
  shows "mdic_reg (ucast (d :: u16) OR mdic_cmd offset addr (push_bit k 1)) = unat offset"
    and "mdic_reg (mdic_cmd offset addr (push_bit k 1)) = unat offset"
    and "ucast (ucast d OR mdic_cmd offset addr (push_bit k 1)) = d"
    and "k < 32 \<Longrightarrow> bit (mdic_cmd offset addr (push_bit k 1)) 26 = (k = 26)"
    and "k < 32 \<Longrightarrow> bit (ucast d OR mdic_cmd offset addr (push_bit k 1)) 26 = (k = 26)"
proof -
  have off: "bit offset n \<Longrightarrow> n < 5" for n using bit_small[of offset 5 n] assms(1) by simp
  have adr: "bit addr n \<Longrightarrow> n < 5" for n using bit_small[of addr 5 n] assms(2) by simp
  have m: "(0x1F :: u32) = mask 5" by (simp add: mask_eq_exp_minus_1)
  have reg: "mdic_reg v = unat offset" if "\<And>n. n < 5 \<Longrightarrow> bit v (16 + n) = bit offset n" for v
  proof -
    have "drop_bit 16 v AND mask 5 = offset"
      by (rule bit_word_eqI) (use that off in \<open>auto simp: bit_simps\<close>)
    then show ?thesis unfolding mdic_reg_def m by (simp only:)
  qed
  show "mdic_reg (ucast (d :: u16) OR mdic_cmd offset addr (push_bit k 1)) = unat offset"
    by (rule reg) (use assms(3) in \<open>auto simp: mdic_cmd_def bit_simps dest: bit_imp_le_length\<close>)
  show "mdic_reg (mdic_cmd offset addr (push_bit k 1)) = unat offset"
    by (rule reg) (use assms(3) in \<open>auto simp: mdic_cmd_def bit_simps dest: bit_imp_le_length\<close>)
  show "ucast (ucast d OR mdic_cmd offset addr (push_bit k 1)) = d"
    by (rule bit_word_eqI) (use assms(3) in \<open>auto simp: mdic_cmd_def bit_simps\<close>)
  show "bit (mdic_cmd offset addr (push_bit k 1)) 26 = (k = 26)" if "k < 32"
    using that assms(3) off[of 10] adr[of 5] by (auto simp: mdic_cmd_def bit_simps)
  show "bit (ucast d OR mdic_cmd offset addr (push_bit k 1)) 26 = (k = 26)" if "k < 32"
    using that assms(3) off[of 10] adr[of 5]
    by (auto simp: mdic_cmd_def bit_simps dest: bit_imp_le_length)
qed

lemma mdic_wait_wp:
  assumes "mdic_ok m E s" "reg_last (rhist s) MDIC = Some v" "mdic_reads (rhist s) = 0"
    and "\<And>w h. phy_file m h = phy_file m (rhist s) \<Longrightarrow>
      (\<not> bit v 26 \<longrightarrow> ucast w = phy_get (phy_file m (rhist s)) (mdic_reg v)) \<Longrightarrow>
      Q (Inr w) (s\<lparr>rhist := h\<rparr>)"
  shows "wp (mdic_wait E) Q s"
  unfolding mdic_wait_def wp_bind
  by (rule mdic_poll[where m = m and v = v]) (use assms flag_mdic(2) in \<open>auto simp: mdic_ok_def\<close>)

lemma mdic_read_wp:
  assumes "mdic_ok m E s" "unat r < 32"
    and "\<And>h. phy_file m h = phy_file m (rhist s) \<Longrightarrow>
      Q (Inr (phy_get (phy_file m (rhist s)) (unat r))) (s\<lparr>rhist := h\<rparr>)"
  shows "wp (e1000e_read_phy_reg_mdic E r) Q s"
proof -
  have "unat (phy_addr (phy s)) < 32" using assms(1) by (simp add: mdic_ok_def)
  note f = mdic_fields[OF assms(2) this, where k = 27, simplified]
  let ?v = "mdic_cmd r (phy_addr (phy s)) 0x08000000"
  have nb: "\<not> bit ?v 26" and reg: "mdic_reg ?v = unat r" using f(2,4) by simp_all
  have ph: "phy_file m (Wr MDIC ?v # rhist s) = phy_file m (rhist s)"
    using nb by (simp add: phy_cmd_def split_def)
  have "wp (mdic_wait E) (\<lambda>r. wp (when_ok r (\<lambda>mdic. ret (Inr (ucast mdic)))) Q)
      (s\<lparr>rhist := Wr MDIC ?v # rhist s\<rparr>)"
    by (rule mdic_wait_wp[where m = m and v = ?v])
      (use assms(1,3) nb reg ph in \<open>simp_all del: phy_file.simps\<close>)
  then show ?thesis by (simp add: e1000e_read_phy_reg_mdic_def)
qed

lemma mdic_write_wp:
  assumes "mdic_ok m E s" "unat r < 32"
    and "\<And>h st. st = phy_file m (rhist s) \<Longrightarrow> phy_file m h =
      (if unat r = 31 then (d, snd st)
       else (fst st, (snd st)(phy_page (fst st) (unat r) :=
               (snd st (phy_page (fst st) (unat r)))(unat r := d)))) \<Longrightarrow>
      Q 0 (s\<lparr>rhist := h\<rparr>)"
  shows "wp (e1000e_write_phy_reg_mdic E r d) Q s"
proof -
  have "unat (phy_addr (phy s)) < 32" using assms(1) by (simp add: mdic_ok_def)
  note f = mdic_fields[OF assms(2) this, where k = 26, simplified]
  let ?v = "ucast d OR mdic_cmd r (phy_addr (phy s)) 0x04000000"
  have b: "bit ?v 26" and reg: "mdic_reg ?v = unat r" and dat: "ucast ?v = d" using f(1,3,5) by simp_all
  define st where "st = phy_file m (rhist s)"
  have ph: "phy_file m (Wr MDIC ?v # rhist s) =
      (if unat r = 31 then (d, snd st)
       else (fst st, (snd st)(phy_page (fst st) (unat r) :=
               (snd st (phy_page (fst st) (unat r)))(unat r := d))))"
    using b reg dat by (simp add: phy_cmd_def split_def st_def)
  have "wp (mdic_wait E) (\<lambda>r. wp (ok_or_code r (\<lambda>mdic. ret 0)) Q)
      (s\<lparr>rhist := Wr MDIC ?v # rhist s\<rparr>)"
    by (rule mdic_wait_wp[where m = m and v = ?v])
      (use assms(1) assms(3)[OF st_def] ph in \<open>simp_all del: phy_file.simps\<close>)
  then show ?thesis by (simp add: e1000e_write_phy_reg_mdic_def rd_ok_def)
qed

section \<open>The contract of a register access\<close>

text \<open>
  \<open>content s r\<close> is the value of register \<open>r\<close>; in an \<open>ok\<close> state a read of a register in \<open>regs\<close>
  returns it, a write changes that register only, and neither touches the driver structure
  outside the history.
\<close>

locale phy_access =
  fixes content :: "e1000_hw \<Rightarrow> u32 \<Rightarrow> u16"
    and ok :: "e1000_hw \<Rightarrow> bool"
    and regs :: "u32 set"
    and rd :: phy_rd
    and wr :: phy_wr
  assumes rd_wp: "ok s \<Longrightarrow> r \<in> regs \<Longrightarrow>
      (\<And>h. content (s\<lparr>rhist := h\<rparr>) = content s \<Longrightarrow> ok (s\<lparr>rhist := h\<rparr>) \<Longrightarrow>
        Q (Inr (content s r)) (s\<lparr>rhist := h\<rparr>)) \<Longrightarrow> wp (rd r) Q s"
    and wr_wp: "ok s \<Longrightarrow> r \<in> regs \<Longrightarrow>
      (\<And>h. (\<And>q. q \<in> regs \<Longrightarrow> content (s\<lparr>rhist := h\<rparr>) q = (if q = r then d else content s q)) \<Longrightarrow>
        ok (s\<lparr>rhist := h\<rparr>) \<Longrightarrow> P 0 (s\<lparr>rhist := h\<rparr>)) \<Longrightarrow> wp (wr r d) P s"
begin

text \<open>A register written and read back; another register read instead.\<close>

lemma write_read:
  assumes "ok s" "r \<in> regs" "q \<in> regs"
  shows "wp (do { x \<leftarrow> wr r d; v \<leftarrow> rd q; ret (x, v) })
    (\<lambda>x _. x = (0, Inr (if q = r then d else content s q))) s"
  unfolding wp_bind
  by (rule wr_wp[OF assms(1,2)], rule rd_wp[OF _ assms(3)]) (use assms(3) in simp_all)

end

section \<open>Plain and paged access\<close>

text \<open>
  The plain access sees the registers below 31 on the page that is selected; the paged one
  names the page in the bits above the register number.
\<close>

definition m88_content :: "(u16 \<Rightarrow> nat \<Rightarrow> u16) \<Rightarrow> e1000_hw \<Rightarrow> u32 \<Rightarrow> u16" where
  "m88_content m s r = phy_get (phy_file m (rhist s)) (unat r)"

definition igp_content :: "(u16 \<Rightarrow> nat \<Rightarrow> u16) \<Rightarrow> e1000_hw \<Rightarrow> u32 \<Rightarrow> u16" where
  "igp_content m s r = snd (phy_file m (rhist s))
     (if r \<le> 15 then 0 else drop_bit 5 (ucast r)) (unat (0x1F AND r))"

definition m88_regs :: "u32 set" where
  "m88_regs = {r. r < 31}"

definition igp_regs :: "u32 set" where
  "igp_regs = {r. r \<le> 15 \<or> r < 0x10000 \<and> 16 \<le> 0x1F AND r \<and> 0x1F AND r \<noteq> 31}"

text \<open>Ownership is granted, without touching the PHY.\<close>

definition bus_granted :: "(u16 \<Rightarrow> nat \<Rightarrow> u16) \<Rightarrow> (e1000_hw, int) state \<Rightarrow> (e1000_hw, unit) state \<Rightarrow> bool" where
  "bus_granted m acq rel \<longleftrightarrow>
     (\<forall>s. \<exists>h. run_state acq s = (0, s\<lparr>rhist := h\<rparr>) \<and> phy_file m h = phy_file m (rhist s)) \<and>
     (\<forall>s. \<exists>h. run_state rel s = ((), s\<lparr>rhist := h\<rparr>) \<and> phy_file m h = phy_file m (rhist s))"

lemma bus_free [simp]: "bus_granted m (ret 0) skip"
  by (auto simp: bus_granted_def intro!: exI[of _ "rhist (_ :: e1000_hw)"])

lemma acq_wp:
  assumes "bus_granted m acq rel"
    and "\<And>h. phy_file m h = phy_file m (rhist s) \<Longrightarrow> Q 0 (s\<lparr>rhist := h\<rparr>)"
  shows "wp acq Q s"
proof -
  obtain h where "run_state acq s = (0, s\<lparr>rhist := h\<rparr>)" "phy_file m h = phy_file m (rhist s)"
    using assms(1) unfolding bus_granted_def by blast
  then show ?thesis using assms(2)[of h] by (simp add: wp_def)
qed

lemma rel_wp:
  assumes "bus_granted m acq rel"
    and "\<And>h. phy_file m h = phy_file m (rhist s) \<Longrightarrow> Q () (s\<lparr>rhist := h\<rparr>)"
  shows "wp rel Q s"
proof -
  obtain h where "run_state rel s = ((), s\<lparr>rhist := h\<rparr>)" "phy_file m h = phy_file m (rhist s)"
    using assms(1) unfolding bus_granted_def by blast
  then show ?thesis using assms(2)[of h] by (simp add: wp_def)
qed

definition phy_ok :: "(u16 \<Rightarrow> nat \<Rightarrow> u16) \<Rightarrow> mmio \<Rightarrow> (e1000_hw, int) state \<Rightarrow>
    (e1000_hw, unit) state \<Rightarrow> e1000_hw \<Rightarrow> bool" where
  "phy_ok m E acq rel s \<longleftrightarrow> mdic_ok m E s \<and> bus_granted m acq rel"

lemma phy_ok_hist [simp]: "phy_ok m E acq rel (s\<lparr>rhist := h\<rparr>) = phy_ok m E acq rel s"
  by (simp add: phy_ok_def)

lemma owned_rd_wp:
  assumes "bus_granted m acq rel"
    and "\<And>h. phy_file m h = phy_file m (rhist s) \<Longrightarrow>
      wp n (\<lambda>v t. \<exists>h. t = s\<lparr>rhist := h\<rparr> \<and> R v (phy_file m h)) (s\<lparr>rhist := h\<rparr>)"
    and "\<And>v h. R v (phy_file m h) \<Longrightarrow> Q v (s\<lparr>rhist := h\<rparr>)"
  shows "wp (owned_rd acq rel n) Q s"
  unfolding owned_rd_def wp_bind
proof (rule acq_wp[OF assms(1)])
  fix h assume h: "phy_file m h = phy_file m (rhist s)"
  have "wp n (\<lambda>v. wp (do { rel; ret v }) Q) (s\<lparr>rhist := h\<rparr>)"
    by (rule wp_mono[OF assms(2)[OF h]]) (auto intro!: rel_wp[OF assms(1)] assms(3))
  then show "wp (if (0 :: int) \<noteq> 0 then ret (Inl 0) else do { v \<leftarrow> n; rel; ret v }) Q (s\<lparr>rhist := h\<rparr>)"
    by simp
qed

lemma owned_wr_rd: "owned_wr acq rel n = do { r \<leftarrow> owned_rd acq rel (do { x \<leftarrow> n; ret (Inr x) });
    ret (case r of Inl e \<Rightarrow> e | Inr x \<Rightarrow> x) }"
  by (rule state.expand, rule ext) (auto simp: owned_wr_def owned_rd_def split: prod.splits)

lemma low5: "r < 32 \<Longrightarrow> 0x1F AND r = (r :: u32)"
proof -
  assume "r < 32"
  then have "unat r < 2 ^ 5" by (simp add: word_less_nat_alt)
  from and_mask_small[OF this] show ?thesis by (simp add: mask_eq_exp_minus_1 and.commute)
qed

lemma low5_lt: "unat (0x1F AND q :: u32) < 32"
proof -
  have "unat (0x1F AND q) \<le> unat (0x1F :: u32)"
    unfolding word_le_nat_alt[symmetric] by (simp add: word_and_le2)
  then show ?thesis by simp
qed

section \<open>Interpretations\<close>

lemma m88_rd:
  assumes "phy_ok m E acq rel s" "r \<in> m88_regs"
    and "\<And>h. m88_content m (s\<lparr>rhist := h\<rparr>) = m88_content m s \<Longrightarrow> phy_ok m E acq rel (s\<lparr>rhist := h\<rparr>) \<Longrightarrow>
        Q (Inr (m88_content m s r)) (s\<lparr>rhist := h\<rparr>)"
  shows "wp (e1000e_read_phy_reg_m88 E acq rel r) Q s"
proof -
  have r: "0x1F AND r = r" "unat r < 32"
    using assms(2) low5[of r] by (auto simp: m88_regs_def word_less_nat_alt)
  have ok: "mdic_ok m E s" "bus_granted m acq rel" using assms(1) by (simp_all add: phy_ok_def)
  show ?thesis
    unfolding e1000e_read_phy_reg_m88_def r(1)
  proof (rule owned_rd_wp[OF ok(2), where R = "\<lambda>v st. v = Inr (m88_content m s r) \<and> st = phy_file m (rhist s)"])
    fix h assume h: "phy_file m h = phy_file m (rhist s)"
    show "wp (e1000e_read_phy_reg_mdic E r) (\<lambda>v t. \<exists>h. t = s\<lparr>rhist := h\<rparr> \<and>
        (v = Inr (m88_content m s r) \<and> phy_file m h = phy_file m (rhist s))) (s\<lparr>rhist := h\<rparr>)"
      by (rule mdic_read_wp[where m = m]) (use ok(1) r(2) h in \<open>auto simp: m88_content_def intro!: exI\<close>)
  qed (use assms(1,3) in \<open>auto simp: m88_content_def fun_eq_iff\<close>)
qed

lemma m88_wr:
  assumes "phy_ok m E acq rel s" "r \<in> m88_regs"
    and "\<And>h. (\<And>q. q \<in> m88_regs \<Longrightarrow> m88_content m (s\<lparr>rhist := h\<rparr>) q = (if q = r then d else m88_content m s q)) \<Longrightarrow>
        phy_ok m E acq rel (s\<lparr>rhist := h\<rparr>) \<Longrightarrow> P 0 (s\<lparr>rhist := h\<rparr>)"
  shows "wp (e1000e_write_phy_reg_m88 E acq rel r d) P s"
proof -
  have r: "0x1F AND r = r" "unat r < 31"
    using assms(2) low5[of r] by (auto simp: m88_regs_def word_less_nat_alt)
  have ok: "mdic_ok m E s" "bus_granted m acq rel" using assms(1) by (simp_all add: phy_ok_def)
  let ?R = "\<lambda>v st. v = Inr 0 \<and>
      (\<forall>n<31. phy_get st n = (if n = unat r then d else phy_get (phy_file m (rhist s)) n))"
  show ?thesis
    unfolding e1000e_write_phy_reg_m88_def r(1) owned_wr_rd wp_bind
  proof (rule owned_rd_wp[OF ok(2), where R = ?R])
    fix h assume h: "phy_file m h = phy_file m (rhist s)"
    show "wp (do { x \<leftarrow> e1000e_write_phy_reg_mdic E r d; ret (Inr x) }) (\<lambda>v t. \<exists>h. t = s\<lparr>rhist := h\<rparr> \<and>
        ?R v (phy_file m h)) (s\<lparr>rhist := h\<rparr>)"
      unfolding wp_bind
      by (rule mdic_write_wp[where m = m])
        (use ok(1) r(2) h in \<open>auto simp: phy_get_def intro!: exI\<close>)
  next
    fix v :: "int + int" and h assume "?R v (phy_file m h)"
    then show "wp (ret (case v of Inl e \<Rightarrow> e | Inr x \<Rightarrow> x)) P (s\<lparr>rhist := h\<rparr>)"
      using assms(1,3) by (auto simp: m88_content_def m88_regs_def word_less_nat_alt word_unat_eq_iff)
  qed
qed

interpretation phy_m88: phy_access "m88_content m" "phy_ok m E acq rel" m88_regs
    "e1000e_read_phy_reg_m88 E acq rel" "e1000e_write_phy_reg_m88 E acq rel" for m E acq rel
  by unfold_locales (fact m88_rd, fact m88_wr)

text \<open>The paged access: page and number determine the register.\<close>

definition igp_key :: "u32 \<Rightarrow> u16 \<times> nat" where
  "igp_key r = (if r \<le> 15 then 0 else drop_bit 5 (ucast r), unat (0x1F AND r))"

lemma igp_content_key: "igp_content m s r = snd (phy_file m (rhist s)) (fst (igp_key r)) (snd (igp_key r))"
  by (simp add: igp_content_def igp_key_def)

lemma igp_key_inj:
  assumes "r \<in> igp_regs" "q \<in> igp_regs"
  shows "igp_key r = igp_key q \<longleftrightarrow> r = q"
proof
  assume k: "igp_key r = igp_key q"
  have low: "0x1F AND r = 0x1F AND q" using k by (simp add: igp_key_def word_unat_eq_iff)
  have small: "x \<le> 15 \<Longrightarrow> 0x1F AND x = x" for x :: u32
    using low5[of x] by (simp add: word_le_nat_alt word_less_nat_alt)
  show "r = q"
  proof (cases "r \<le> 15")
    case True
    have "\<not> (x \<le> 15 \<and> 16 \<le> x)" for x :: u32 by (auto simp: word_le_nat_alt)
    with True low small[of r] small[of q] assms(2) show ?thesis
      by (cases "q \<le> 15") (auto simp: igp_regs_def)
  next
    case False
    have "\<not> (x \<le> 15 \<and> 16 \<le> x)" for x :: u32 by (auto simp: word_le_nat_alt)
    with False low small[of q] assms(1) have q: "\<not> q \<le> 15" by (auto simp: igp_regs_def)
    have d: "drop_bit 5 (ucast r :: u16) = drop_bit 5 (ucast q)"
      using k False q by (simp add: igp_key_def)
    have lt: "unat r < 2 ^ 16" "unat q < 2 ^ 16"
      using assms False q by (auto simp: igp_regs_def word_less_nat_alt)
    have hi: "bit r (5 + n) = bit q (5 + n)" if "n < 11" for n
      using arg_cong[OF d, of "\<lambda>w. bit w n"] that by (simp add: bit_simps)
    have lo: "bit r n = bit q n" if "n < 5" for n
      using arg_cong[OF low, of "\<lambda>w. bit w n"] that bit_mask_iff[of 5 n, where 'a = "32 word"]
      by (simp add: bit_and_iff mask_eq_exp_minus_1)
    show ?thesis
    proof (rule bit_word_eqI)
      fix n :: nat
      have "n < 5 \<or> 16 \<le> n \<or> (\<exists>k<11. n = 5 + k)" by presburger
      then show "bit r n = bit q n"
        using lo hi bit_small[OF lt(1), of n] bit_small[OF lt(2), of n] by (auto simp: not_less)
    qed
  qed
qed simp

lemma igp_page_wp:
  assumes "mdic_ok m E s"
    and "\<And>h. snd (phy_file m h) = snd (phy_file m (rhist s)) \<Longrightarrow>
      (\<not> r \<le> 15 \<longrightarrow> fst (phy_file m h) = ucast r) \<Longrightarrow> Q 0 (s\<lparr>rhist := h\<rparr>)"
  shows "wp (igp_page E r) Q s"
proof (cases "r > 0xF")
  case True
  have "wp (e1000e_write_phy_reg_mdic E 0x1F (ucast r)) Q s"
    by (rule mdic_write_wp[where m = m]) (use assms in auto)
  with True show ?thesis by (simp add: igp_page_def)
next
  case False
  then have "r \<le> 15" by (simp add: not_less)
  then show ?thesis using False assms(2)[of "rhist s"] by (simp add: igp_page_def)
qed

lemma igp_number:
  assumes "r \<in> igp_regs"
  shows "unat (0x1F AND r) < 31" and "r \<le> 15 \<Longrightarrow> unat (0x1F AND r) \<le> 15"
    and "\<not> r \<le> 15 \<Longrightarrow> \<not> unat (0x1F AND r) \<le> 15"
proof -
  have small: "r \<le> 15 \<Longrightarrow> 0x1F AND r = r"
    using low5[of r] by (simp add: word_le_nat_alt word_less_nat_alt)
  show l: "r \<le> 15 \<Longrightarrow> unat (0x1F AND r) \<le> 15" using small by (simp add: word_le_nat_alt)
  show h: "\<not> r \<le> 15 \<Longrightarrow> \<not> unat (0x1F AND r) \<le> 15"
    using assms by (auto simp: igp_regs_def word_le_nat_alt)
  have "\<not> r \<le> 15 \<Longrightarrow> unat (0x1F AND r) \<noteq> 31"
    using assms by (auto simp: igp_regs_def word_unat_eq_iff)
  then show "unat (0x1F AND r) < 31" using l low5_lt[of r] by (cases "r \<le> 15") auto
qed

lemma igp_at:
  assumes "r \<in> igp_regs" "\<not> r \<le> 15 \<longrightarrow> fst st = ucast r"
  shows "phy_page (fst st) (unat (0x1F AND r)) = fst (igp_key r)"
  using assms igp_number[OF assms(1)] by (cases "r \<le> 15") (simp_all add: phy_page_def igp_key_def)

lemma igp_rd:
  assumes "phy_ok m E acq rel s" "r \<in> igp_regs"
    and "\<And>h. igp_content m (s\<lparr>rhist := h\<rparr>) = igp_content m s \<Longrightarrow> phy_ok m E acq rel (s\<lparr>rhist := h\<rparr>) \<Longrightarrow>
        Q (Inr (igp_content m s r)) (s\<lparr>rhist := h\<rparr>)"
  shows "wp (e1000e_read_phy_reg_igp E acq rel r) Q s"
proof -
  have ok: "mdic_ok m E s" "bus_granted m acq rel" using assms(1) by (simp_all add: phy_ok_def)
  let ?R = "\<lambda>v st. v = Inr (igp_content m s r) \<and> snd st = snd (phy_file m (rhist s))"
  show ?thesis
    unfolding e1000e_read_phy_reg_igp_def
  proof (rule owned_rd_wp[OF ok(2), where R = ?R])
    fix h assume h: "phy_file m h = phy_file m (rhist s)"
    show "wp (after_ok (igp_page E r) (e1000e_read_phy_reg_mdic E (0x1F AND r)))
        (\<lambda>v t. \<exists>h. t = s\<lparr>rhist := h\<rparr> \<and> ?R v (phy_file m h)) (s\<lparr>rhist := h\<rparr>)"
      unfolding after_ok_def wp_bind
    proof (rule igp_page_wp[where m = m])
      fix g assume g: "snd (phy_file m g) = snd (phy_file m (rhist (s\<lparr>rhist := h\<rparr>)))"
        "\<not> r \<le> 15 \<longrightarrow> fst (phy_file m g) = ucast r"
      have "phy_get (phy_file m g) (unat (0x1F AND r)) = igp_content m s r"
        using igp_at[OF assms(2) g(2)] g(1) h by (simp add: phy_get_def igp_content_key) (simp add: igp_key_def)
      then have "wp (e1000e_read_phy_reg_mdic E (0x1F AND r))
          (\<lambda>v t. \<exists>h. t = s\<lparr>rhist := h\<rparr> \<and> ?R v (phy_file m h)) (s\<lparr>rhist := g\<rparr>)"
        by (intro mdic_read_wp[where m = m]) (use ok(1) g h low5_lt[of r] in \<open>auto intro!: exI\<close>)
      then show "wp (if (0 :: int) \<noteq> 0 then ret (Inl 0) else e1000e_read_phy_reg_mdic E (0x1F AND r))
          (\<lambda>v t. \<exists>h. t = s\<lparr>rhist := h\<rparr> \<and> ?R v (phy_file m h)) (s\<lparr>rhist := h\<rparr>\<lparr>rhist := g\<rparr>)"
        by simp
    qed (use ok(1) in simp)
  next
    fix v :: "int + u16" and h assume "?R v (phy_file m h)"
    then show "Q v (s\<lparr>rhist := h\<rparr>)"
      using assms(1,3) by (auto simp: igp_content_def fun_eq_iff)
  qed
qed

lemma igp_wr:
  assumes "phy_ok m E acq rel s" "r \<in> igp_regs"
    and "\<And>h. (\<And>q. q \<in> igp_regs \<Longrightarrow> igp_content m (s\<lparr>rhist := h\<rparr>) q = (if q = r then d else igp_content m s q)) \<Longrightarrow>
        phy_ok m E acq rel (s\<lparr>rhist := h\<rparr>) \<Longrightarrow> P 0 (s\<lparr>rhist := h\<rparr>)"
  shows "wp (e1000e_write_phy_reg_igp E acq rel r d) P s"
proof -
  have ok: "mdic_ok m E s" "bus_granted m acq rel" using assms(1) by (simp_all add: phy_ok_def)
  let ?k = "igp_key r" and ?f = "snd (phy_file m (rhist s))"
  let ?R = "\<lambda>v st. v = Inr 0 \<and> snd st = ?f(fst ?k := (?f (fst ?k))(snd ?k := d))"
  show ?thesis
    unfolding e1000e_write_phy_reg_igp_def owned_wr_rd wp_bind
  proof (rule owned_rd_wp[OF ok(2), where R = ?R])
    fix h assume h: "phy_file m h = phy_file m (rhist s)"
    show "wp (do { x \<leftarrow> seq_ok (igp_page E r) (e1000e_write_phy_reg_mdic E (0x1F AND r) d); ret (Inr x) })
        (\<lambda>v t. \<exists>h. t = s\<lparr>rhist := h\<rparr> \<and> ?R v (phy_file m h)) (s\<lparr>rhist := h\<rparr>)"
      unfolding wp_bind wp_seq_ok
    proof (rule igp_page_wp[where m = m])
      fix g assume g: "snd (phy_file m g) = snd (phy_file m (rhist (s\<lparr>rhist := h\<rparr>)))"
        "\<not> r \<le> 15 \<longrightarrow> fst (phy_file m g) = ucast r"
      have "wp (e1000e_write_phy_reg_mdic E (0x1F AND r) d)
          (\<lambda>x. wp (ret (Inr x)) (\<lambda>v t. \<exists>h. t = s\<lparr>rhist := h\<rparr> \<and> ?R v (phy_file m h))) (s\<lparr>rhist := g\<rparr>)"
        by (rule mdic_write_wp[where m = m])
          (use ok(1) g h low5_lt[of r] igp_number(1)[OF assms(2)] igp_at[OF assms(2) g(2)]
            in \<open>auto simp: igp_key_def intro!: exI\<close>)
      then show "if (0 :: int) \<noteq> 0
          then wp (ret (Inr 0)) (\<lambda>v t. \<exists>h. t = s\<lparr>rhist := h\<rparr> \<and> ?R v (phy_file m h)) (s\<lparr>rhist := h\<rparr>\<lparr>rhist := g\<rparr>)
          else wp (e1000e_write_phy_reg_mdic E (0x1F AND r) d)
            (\<lambda>x. wp (ret (Inr x)) (\<lambda>v t. \<exists>h. t = s\<lparr>rhist := h\<rparr> \<and> ?R v (phy_file m h))) (s\<lparr>rhist := h\<rparr>\<lparr>rhist := g\<rparr>)"
        by simp
    qed (use ok(1) in simp)
  next
    fix v :: "int + int" and h assume v: "?R v (phy_file m h)"
    have "igp_content m (s\<lparr>rhist := h\<rparr>) q = (if q = r then d else igp_content m s q)" if "q \<in> igp_regs" for q
      using v igp_key_inj[OF assms(2) that] by (auto simp: igp_content_key prod_eq_iff)
    then show "wp (ret (case v of Inl e \<Rightarrow> e | Inr x \<Rightarrow> x)) P (s\<lparr>rhist := h\<rparr>)"
      using assms(1,3) v by auto
  qed
qed

interpretation phy_igp: phy_access "igp_content m" "phy_ok m E acq rel" igp_regs
    "e1000e_read_phy_reg_igp E acq rel" "e1000e_write_phy_reg_igp E acq rel" for m E acq rel
  by unfold_locales (fact igp_rd, fact igp_wr)

text \<open>
  C14: a paged write reads back, and disturbs no other register: after
  \<open>e1000e_write_phy_reg_igp\<close> of \<open>d\<close> to register \<open>r\<close>, \<open>e1000e_read_phy_reg_igp\<close> of any
  register \<open>q\<close> (page and number packed into one offset) returns \<open>d\<close> when \<open>q = r\<close> and what
  \<open>q\<close> held before otherwise, whatever pages were selected in between; the PHY may let the
  driver poll up to 1919 times for each access.
\<close>

theorem phy_paged_access:
  assumes "phy_ok m E acq rel s" "r \<in> igp_regs" "q \<in> igp_regs"
  shows "val_of (do { x \<leftarrow> e1000e_write_phy_reg_igp E acq rel r d;
      v \<leftarrow> e1000e_read_phy_reg_igp E acq rel q; ret (x, v) }) s =
    (0, Inr (if q = r then d else igp_content m s q))"
  using phy_igp.write_read[OF assms] unfolding wp_iff .

theorem phy_paged_access_witness:
  "val_of (do { x \<leftarrow> e1000e_write_phy_reg_igp (mdic_chip (\<lambda>p r. p)) (ret 0) skip 0x4010 0xABCD;
      v \<leftarrow> e1000e_read_phy_reg_igp (mdic_chip (\<lambda>p r. p)) (ret 0) skip 0x2010; ret (x, v) }) hw_zero =
    (0, Inr 0x0100)"
proof -
  have "phy_ok (\<lambda>p r. p) (mdic_chip (\<lambda>p r. p)) (ret 0) skip hw_zero"
    using mdic_chip_dev by (simp add: phy_ok_def mdic_ok_def hw_zero_def phy_zero_def)
  moreover have "(0x4010 :: u32) \<in> igp_regs" "(0x2010 :: u32) \<in> igp_regs"
    by (simp_all add: igp_regs_def)
  ultimately show ?thesis
    using phy_paged_access[where d = "0xABCD"]
    by (simp add: igp_content_def hw_zero_def)
qed

end
