(* ===== verification/MacFc.thy ===== *)
theory MacFc
  imports PhyAccess
begin

text \<open>
  Flow control in e1000_mac.c: the default mode from the NVM, the watermarks, the
  configuration word of fiber links, forcing the mode in the MAC, and resolving it after
  auto-negotiation.  \<open>get_link_up_info\<close> is the function pointer of that name; its results are
  speed and duplex.
\<close>

abbreviation CTRL :: u32 where "CTRL \<equiv> 0x00000"
abbreviation STATUS_R :: u32 where "STATUS_R \<equiv> 0x00008"
abbreviation TXCW :: u32 where "TXCW \<equiv> 0x00178"
abbreviation TCTL :: u32 where "TCTL \<equiv> 0x00400"
abbreviation FCRTL :: u32 where "FCRTL \<equiv> 0x02160"
abbreviation FCRTH :: u32 where "FCRTH \<equiv> 0x02168"
abbreviation CTRL_FD :: u32 where "CTRL_FD \<equiv> 0x00000001"
abbreviation CTRL_SLU :: u32 where "CTRL_SLU \<equiv> 0x00000040"
abbreviation CTRL_RFCE :: u32 where "CTRL_RFCE \<equiv> 0x08000000"
abbreviation CTRL_TFCE :: u32 where "CTRL_TFCE \<equiv> 0x10000000"
abbreviation TXCW_FD :: u32 where "TXCW_FD \<equiv> 0x00000020"
abbreviation TXCW_ASM_DIR :: u32 where "TXCW_ASM_DIR \<equiv> 0x00000100"
abbreviation TXCW_PAUSE_MASK :: u32 where "TXCW_PAUSE_MASK \<equiv> 0x00000180"
abbreviation TXCW_ANE :: u32 where "TXCW_ANE \<equiv> 0x80000000"
abbreviation PHY_AUTONEG_ADV :: u32 where "PHY_AUTONEG_ADV \<equiv> 0x04"
abbreviation PHY_LP_ABILITY :: u32 where "PHY_LP_ABILITY \<equiv> 0x05"
abbreviation NWAY_PAUSE :: u16 where "NWAY_PAUSE \<equiv> 0x0400"
abbreviation NWAY_ASM_DIR :: u16 where "NWAY_ASM_DIR \<equiv> 0x0800"
abbreviation HALF_DUPLEX :: u16 where "HALF_DUPLEX \<equiv> 1"
abbreviation FULL_DUPLEX :: u16 where "FULL_DUPLEX \<equiv> 2"

definition e1000e_config_collision_dist :: "mmio \<Rightarrow> (e1000_hw, unit) state" where
  "e1000e_config_collision_dist E = do {
     tctl \<leftarrow> er32 E TCTL;
     ew32 TCTL ((tctl AND NOT 0x003FF000) OR push_bit 12 63);
     e1e_flush E }"

definition txcw_of :: "e1000_fc_mode \<Rightarrow> u32 option" where
  "txcw_of m = (case m of
     e1000_fc_none \<Rightarrow> Some (TXCW_ANE OR TXCW_FD)
   | e1000_fc_rx_pause \<Rightarrow> Some (TXCW_ANE OR TXCW_FD OR TXCW_PAUSE_MASK)
   | e1000_fc_tx_pause \<Rightarrow> Some (TXCW_ANE OR TXCW_FD OR TXCW_ASM_DIR)
   | e1000_fc_full \<Rightarrow> Some (TXCW_ANE OR TXCW_FD OR TXCW_PAUSE_MASK)
   | _ \<Rightarrow> None)"

definition e1000_commit_fc_settings_generic :: "(e1000_hw, int) state" where
  "e1000_commit_fc_settings_generic = do {
     m \<leftarrow> gets (\<lambda>s. current_mode (fc s));
     (case txcw_of m of
        None \<Rightarrow> ret (- E1000_ERR_CONFIG)
      | Some txcw \<Rightarrow> do {
          ew32 TXCW txcw;
          set_mac (\<lambda>k. k\<lparr>mac_txcw := txcw\<rparr>);
          ret 0 }) }"

text \<open>The enumeration values are tested as bit masks.\<close>

definition fc_code :: "e1000_fc_mode \<Rightarrow> u32" where
  "fc_code m = (case m of e1000_fc_none \<Rightarrow> 0 | e1000_fc_rx_pause \<Rightarrow> 1 | e1000_fc_tx_pause \<Rightarrow> 2
     | e1000_fc_full \<Rightarrow> 3 | e1000_fc_default \<Rightarrow> 0xFF)"

definition e1000e_set_fc_watermarks :: "(e1000_hw, int) state" where
  "e1000e_set_fc_watermarks = do {
     f \<leftarrow> gets fc;
     (let tx = fc_code (current_mode f) AND 2 \<noteq> 0;
          fcrtl = (if tx then (if send_xon f then low_water f OR 0x80000000 else low_water f) else 0);
          fcrth = (if tx then high_water f else 0)
      in do {
        ew32 FCRTL fcrtl;
        ew32 FCRTH fcrth;
        ret 0 }) }"

definition e1000_set_default_fc_generic ::
  "(u16 \<Rightarrow> nat \<Rightarrow> (e1000_hw, int + u16 list) state) \<Rightarrow> (e1000_hw, int) state" where
  "e1000_set_default_fc_generic rd = rd_ok (rd 0x000F 1) (\<lambda>d.
     let pause = hd d AND 0x3000 in do {
       set_fc (\<lambda>f. f\<lparr>requested_mode :=
         (if pause = 0 then e1000_fc_none
          else if pause = 0x2000 then e1000_fc_tx_pause
          else e1000_fc_full)\<rparr>);
       ret 0 })"

definition ctrl_fc :: "e1000_fc_mode \<Rightarrow> u32 \<Rightarrow> u32 option" where
  "ctrl_fc m ctrl = (case m of
     e1000_fc_none \<Rightarrow> Some (ctrl AND NOT (CTRL_TFCE OR CTRL_RFCE))
   | e1000_fc_rx_pause \<Rightarrow> Some ((ctrl AND NOT CTRL_TFCE) OR CTRL_RFCE)
   | e1000_fc_tx_pause \<Rightarrow> Some ((ctrl AND NOT CTRL_RFCE) OR CTRL_TFCE)
   | e1000_fc_full \<Rightarrow> Some (ctrl OR (CTRL_TFCE OR CTRL_RFCE))
   | _ \<Rightarrow> None)"

definition e1000e_force_mac_fc :: "mmio \<Rightarrow> (e1000_hw, int) state" where
  "e1000e_force_mac_fc E = do {
     ctrl \<leftarrow> er32 E CTRL;
     m \<leftarrow> gets (\<lambda>s. current_mode (fc s));
     (case ctrl_fc m ctrl of
        None \<Rightarrow> ret (- E1000_ERR_CONFIG)
      | Some ctrl \<Rightarrow> do { ew32 CTRL ctrl; ret 0 }) }"

definition e1000e_get_speed_and_duplex_copper :: "mmio \<Rightarrow> (e1000_hw, int + (u16 \<times> u16)) state" where
  "e1000e_get_speed_and_duplex_copper E = do {
     status \<leftarrow> er32 E STATUS_R;
     ret (Inr (if status AND 0x80 \<noteq> 0 then 1000 else if status AND 0x40 \<noteq> 0 then 100 else 10,
               if status AND 0x01 \<noteq> 0 then FULL_DUPLEX else HALF_DUPLEX)) }"

definition e1000e_get_speed_and_duplex_fiber_serdes :: "(e1000_hw, int + (u16 \<times> u16)) state" where
  "e1000e_get_speed_and_duplex_fiber_serdes = ret (Inr (1000, FULL_DUPLEX))"

text \<open>
  The pause resolution: own advertisement, ability of the link partner, requested mode.
\<close>

definition fc_resolve :: "u16 \<Rightarrow> u16 \<Rightarrow> e1000_fc_mode \<Rightarrow> e1000_fc_mode" where
  "fc_resolve adv lp req =
     (if adv AND NWAY_PAUSE \<noteq> 0 \<and> lp AND NWAY_PAUSE \<noteq> 0 then
        (if req = e1000_fc_full then e1000_fc_full else e1000_fc_rx_pause)
      else if \<not> adv AND NWAY_PAUSE \<noteq> 0 \<and> adv AND NWAY_ASM_DIR \<noteq> 0 \<and>
              lp AND NWAY_PAUSE \<noteq> 0 \<and> lp AND NWAY_ASM_DIR \<noteq> 0 then e1000_fc_tx_pause
      else if adv AND NWAY_PAUSE \<noteq> 0 \<and> adv AND NWAY_ASM_DIR \<noteq> 0 \<and>
              \<not> lp AND NWAY_PAUSE \<noteq> 0 \<and> lp AND NWAY_ASM_DIR \<noteq> 0 then e1000_fc_rx_pause
      else e1000_fc_none)"

definition fc_autoneg :: "mmio \<Rightarrow> phy_rd \<Rightarrow> (e1000_hw, int + (u16 \<times> u16)) state \<Rightarrow>
    (e1000_hw, int) state" where
  "fc_autoneg E rphy get_link_up_info =
     rd_ok (rphy PHY_STATUS) (\<lambda>st. rd_ok (rphy PHY_STATUS) (\<lambda>st.
       if st AND 0x0020 = 0 then ret 0
       else rd_ok (rphy PHY_AUTONEG_ADV) (\<lambda>adv. rd_ok (rphy PHY_LP_ABILITY) (\<lambda>lp. do {
         set_fc (\<lambda>f. f\<lparr>current_mode := fc_resolve adv lp (requested_mode f)\<rparr>);
         rd_ok get_link_up_info (\<lambda>(speed, duplex). do {
           (if duplex = HALF_DUPLEX then set_fc (\<lambda>f. f\<lparr>current_mode := e1000_fc_none\<rparr>) else skip);
           e1000e_force_mac_fc E }) }))))"

definition e1000e_config_fc_after_link_up ::
  "mmio \<Rightarrow> phy_rd \<Rightarrow> (e1000_hw, int + (u16 \<times> u16)) state \<Rightarrow> (e1000_hw, int) state" where
  "e1000e_config_fc_after_link_up E rphy get_link_up_info = do {
     failed \<leftarrow> gets (\<lambda>s. autoneg_failed (mac s));
     media \<leftarrow> gets (\<lambda>s. media_type (phy s));
     an \<leftarrow> gets (\<lambda>s. mac_autoneg (mac s));
     seq_ok
       (if failed then
          (if media = e1000_media_type_fiber \<or> media = e1000_media_type_internal_serdes
           then e1000e_force_mac_fc E else ret 0)
        else
          (if media = e1000_media_type_copper then e1000e_force_mac_fc E else ret 0))
       (if media = e1000_media_type_copper \<and> an then fc_autoneg E rphy get_link_up_info else ret 0) }"

end
