(* ===== verification/PhyLink.thy ===== *)
theory PhyLink
  imports MacFc
begin

text \<open>
  Copper links, e1000_phy.c: PHY set-up, auto-negotiation and forced modes, link and cable
  state, reset and power.  Register accesses of the PHY go through \<open>rphy\<close> and \<open>wphy\<close>; other
  function pointers are arguments under their own names.
\<close>

text \<open>Read, change, write back.\<close>

definition phy_modify :: "phy_rd \<Rightarrow> phy_wr \<Rightarrow> u32 \<Rightarrow> (u16 \<Rightarrow> u16) \<Rightarrow> (e1000_hw, int) state" where
  "phy_modify rphy wphy r f = rd_ok (rphy r) (\<lambda>v. wphy r (f v))"

section \<open>Reset and power\<close>

definition e1000e_check_reset_block_generic :: "mmio \<Rightarrow> (e1000_hw, int) state" where
  "e1000e_check_reset_block_generic E = do {
     manc \<leftarrow> er32 E 0x05820;
     ret (if manc AND 0x00040000 \<noteq> 0 then E1000_BLK_PHY_RESET else 0) }"

definition e1000e_phy_reset_dsp :: "phy_wr \<Rightarrow> (e1000_hw, int) state" where
  "e1000e_phy_reset_dsp wphy = seq_ok (wphy 0x1E 0xC1) (wphy 0x1E 0)"

definition e1000e_phy_sw_reset :: "phy_rd \<Rightarrow> phy_wr \<Rightarrow> (e1000_hw, int) state" where
  "e1000e_phy_sw_reset rphy wphy = phy_modify rphy wphy PHY_CONTROL (\<lambda>v. v OR 0x8000)"

definition e1000e_get_cfg_done :: "(e1000_hw, int) state" where
  "e1000e_get_cfg_done = ret 0"

definition e1000e_phy_hw_reset_generic ::
  "mmio \<Rightarrow> (e1000_hw, int) state \<Rightarrow> (e1000_hw, int) state \<Rightarrow> (e1000_hw, unit) state \<Rightarrow>
   (e1000_hw, int) state \<Rightarrow> (e1000_hw, int) state" where
  "e1000e_phy_hw_reset_generic E check_reset_block acq rel get_cfg_done = do {
     r \<leftarrow> check_reset_block;
     (if r \<noteq> 0 then ret 0
      else seq_ok acq (do {
        ctrl \<leftarrow> er32 E CTRL;
        ew32 CTRL (ctrl OR 0x80000000);
        e1e_flush E;
        ew32 CTRL ctrl;
        e1e_flush E;
        rel;
        get_cfg_done })) }"

definition igp3_script :: "(u32 \<times> u16) list" where
  "igp3_script =
    [(0x2F5B, 0x9018), (0x2F52, 0x0000), (0x2FB1, 0x8B24), (0x2FB2, 0xF8F0), (0x2010, 0x10B0),
     (0x2011, 0x0000), (0x20DD, 0x249A), (0x20DE, 0x00D3), (0x28B4, 0x04CE), (0x2F70, 0x29E4),
     (0x0000, 0x0140), (0x1F30, 0x1606), (0x1F31, 0xB814), (0x1F35, 0x002A), (0x1F3E, 0x0067),
     (0x1F54, 0x0065), (0x1F55, 0x002A), (0x1F56, 0x002A), (0x1F72, 0x3FB0), (0x1F76, 0xC0FF),
     (0x1F77, 0x1DEC), (0x1F78, 0xF9EF), (0x1F79, 0x0210), (0x1895, 0x0003), (0x1796, 0x0008),
     (0x1798, 0xD008), (0x1898, 0xD918), (0x187A, 0x0800), (0x0019, 0x008D), (0x001B, 0x2080),
     (0x0014, 0x0045), (0x0000, 0x1340)]"

definition e1000_phy_init_script_igp3 :: "phy_wr \<Rightarrow> (e1000_hw, int) state" where
  "e1000_phy_init_script_igp3 wphy = do {
     for_each igp3_script (\<lambda>(r, v). do { x \<leftarrow> wphy r v; skip });
     ret 0 }"

text \<open>The code of the read is not looked at: after a failed read the value is 0.\<close>

definition phy_power :: "phy_rd \<Rightarrow> phy_wr \<Rightarrow> (u16 \<Rightarrow> u16) \<Rightarrow> (e1000_hw, unit) state" where
  "phy_power rphy wphy f = do {
     r \<leftarrow> rphy PHY_CONTROL;
     x \<leftarrow> wphy PHY_CONTROL (f (case r of Inl e \<Rightarrow> 0 | Inr v \<Rightarrow> v));
     skip }"

definition e1000_power_up_phy_copper :: "phy_rd \<Rightarrow> phy_wr \<Rightarrow> (e1000_hw, unit) state" where
  "e1000_power_up_phy_copper rphy wphy = phy_power rphy wphy (\<lambda>v. v AND NOT 0x0800)"

definition e1000_power_down_phy_copper :: "phy_rd \<Rightarrow> phy_wr \<Rightarrow> (e1000_hw, unit) state" where
  "e1000_power_down_phy_copper rphy wphy = phy_power rphy wphy (\<lambda>v. v OR 0x0800)"

section \<open>Link state\<close>

text \<open>
  Up to \<open>iterations\<close> double reads of the status register; the result is the code and
  whether the loop was left early, which a failed read does too.
\<close>

fun has_link_loop :: "phy_rd \<Rightarrow> nat \<Rightarrow> (e1000_hw, int \<times> bool) state" where
  "has_link_loop rphy 0 = ret (0, False)"
| "has_link_loop rphy (Suc n) = do {
     r \<leftarrow> rphy PHY_STATUS;
     (case r of Inl e \<Rightarrow> ret (e, True) | Inr v \<Rightarrow> do {
        r \<leftarrow> rphy PHY_STATUS;
        (case r of Inl e \<Rightarrow> ret (e, True) | Inr v \<Rightarrow>
           if v AND 0x0004 \<noteq> 0 then ret (0, True) else has_link_loop rphy n) }) }"

definition e1000e_phy_has_link_generic :: "phy_rd \<Rightarrow> nat \<Rightarrow> (e1000_hw, int \<times> bool) state" where
  "e1000e_phy_has_link_generic rphy iterations = has_link_loop rphy iterations"

text \<open>A caller that leaves on a code and otherwise looks at the link.\<close>

definition if_link :: "phy_rd \<Rightarrow> nat \<Rightarrow> (bool \<Rightarrow> (e1000_hw, int) state) \<Rightarrow> (e1000_hw, int) state" where
  "if_link rphy n f = do {
     (r, link) \<leftarrow> e1000e_phy_has_link_generic rphy n;
     (if r \<noteq> 0 then ret r else f link) }"

fun wait_autoneg_loop :: "phy_rd \<Rightarrow> nat \<Rightarrow> (e1000_hw, int) state" where
  "wait_autoneg_loop rphy 0 = ret 0"
| "wait_autoneg_loop rphy (Suc n) =
     rd_ok (rphy PHY_STATUS) (\<lambda>v. rd_ok (rphy PHY_STATUS) (\<lambda>v.
       if v AND 0x0020 \<noteq> 0 then ret 0 else wait_autoneg_loop rphy n))"

definition e1000_wait_autoneg :: "phy_rd \<Rightarrow> (e1000_hw, int) state" where
  "e1000_wait_autoneg rphy = wait_autoneg_loop rphy 45"

definition e1000e_check_downshift :: "phy_rd \<Rightarrow> (e1000_hw, int) state" where
  "e1000e_check_downshift rphy = do {
     ty \<leftarrow> gets (\<lambda>s. phy_type (phy s));
     (case (if ty \<in> {e1000_phy_m88, e1000_phy_gg82563, e1000_phy_bm} then Some (0x11, 0x0020)
            else if ty \<in> {e1000_phy_igp_2, e1000_phy_igp, e1000_phy_igp_3} then Some (0x13, 0x8000)
            else None) of
        None \<Rightarrow> do { set_phy (\<lambda>p. p\<lparr>speed_downgraded := False\<rparr>); ret 0 }
      | Some (offset, bits) \<Rightarrow> rd_ok (rphy offset) (\<lambda>v. do {
          set_phy (\<lambda>p. p\<lparr>speed_downgraded := (v AND bits \<noteq> 0)\<rparr>);
          ret 0 })) }"

definition set_polarity :: "bool \<Rightarrow> (e1000_hw, int) state" where
  "set_polarity reversed = do {
     set_phy (\<lambda>p. p\<lparr>cable_polarity :=
       (if reversed then e1000_rev_polarity_reversed else e1000_rev_polarity_normal)\<rparr>);
     ret 0 }"

definition e1000_check_polarity_m88 :: "phy_rd \<Rightarrow> (e1000_hw, int) state" where
  "e1000_check_polarity_m88 rphy = rd_ok (rphy 0x11) (\<lambda>v. set_polarity (v AND 0x0002 \<noteq> 0))"

definition e1000_check_polarity_igp :: "phy_rd \<Rightarrow> (e1000_hw, int) state" where
  "e1000_check_polarity_igp rphy = rd_ok (rphy 0x11) (\<lambda>v.
     if v AND 0xC000 = 0xC000 then rd_ok (rphy 0x00B4) (\<lambda>v. set_polarity (v AND 0x0078 \<noteq> 0))
     else rd_ok (rphy 0x11) (\<lambda>v. set_polarity (v AND 0x0002 \<noteq> 0)))"

section \<open>Cable length\<close>

definition m88_length_table :: "u16 list" where
  "m88_length_table = [0, 50, 80, 110, 140, 140, 0xFF]"

text \<open>\<open>None\<close> is an access behind the end of the table.\<close>

definition m88_length :: "u16 \<Rightarrow> (int + (u16 \<times> u16 \<times> u16)) option" where
  "m88_length phy_data = (let index = unat (drop_bit 7 (phy_data AND 0x0380)) in
     if index \<ge> length m88_length_table + 1 then Some (Inl E1000_ERR_PHY)
     else if index + 1 \<ge> length m88_length_table then None
     else let mn = m88_length_table ! index; mx = m88_length_table ! (index + 1) in
       Some (Inr (mn, mx, (mn + mx) div 2)))"

definition set_lengths :: "u16 \<times> u16 \<times> u16 \<Rightarrow> (e1000_hw, unit) state" where
  "set_lengths l = (case l of (mn, mx, len) \<Rightarrow>
     set_phy (\<lambda>p. p\<lparr>min_cable_length := mn, max_cable_length := mx, cable_length := len\<rparr>))"

definition e1000e_get_cable_length_m88 :: "phy_rd \<Rightarrow> (e1000_hw, int option) state" where
  "e1000e_get_cable_length_m88 rphy = do {
     r \<leftarrow> rphy 0x11;
     (case r of
        Inl e \<Rightarrow> ret (Some e)
      | Inr v \<Rightarrow> (case m88_length v of
          None \<Rightarrow> ret None
        | Some (Inl e) \<Rightarrow> ret (Some e)
        | Some (Inr l) \<Rightarrow> do { set_lengths l; ret (Some 0) })) }"

definition igp_2_length_table :: "u16 list" where
  "igp_2_length_table =
    [0, 0, 0, 0, 0, 0, 0, 0, 3, 5, 8, 11, 13, 16, 18, 21,
     0, 0, 0, 3, 6, 10, 13, 16, 19, 23, 26, 29, 32, 35, 38, 41,
     6, 10, 14, 18, 22, 26, 30, 33, 37, 41, 44, 48, 51, 54, 58, 61,
     21, 26, 31, 35, 40, 44, 49, 53, 57, 61, 65, 68, 72, 75, 79, 82,
     40, 45, 51, 56, 61, 66, 70, 75, 79, 83, 87, 91, 94, 98, 101, 104,
     60, 66, 72, 77, 82, 87, 92, 96, 100, 104, 108, 111, 114, 117, 119, 121,
     83, 89, 95, 100, 105, 109, 113, 116, 119, 122, 124,
     104, 109, 114, 118, 121, 124]"

text \<open>The table indices of the four channels, or the first error.\<close>

fun igp_2_agc :: "phy_rd \<Rightarrow> u32 list \<Rightarrow> (e1000_hw, int + nat list) state" where
  "igp_2_agc rphy [] = ret (Inr [])"
| "igp_2_agc rphy (r # rs) = do {
     x \<leftarrow> rphy r;
     when_ok x (\<lambda>v. let cur = unat (drop_bit 9 v AND 0x7F) in
       if cur \<ge> length igp_2_length_table \<or> cur = 0 then ret (Inl (- E1000_ERR_PHY))
       else do { rest \<leftarrow> igp_2_agc rphy rs; when_ok rest (\<lambda>l. ret (Inr (cur # l))) }) }"

text \<open>Indices of the least and the greatest length seen, and the sum, channel by channel.\<close>

definition agc_step :: "nat \<Rightarrow> nat \<times> nat \<times> u16 \<Rightarrow> nat \<times> nat \<times> u16" where
  "agc_step cur st = (case st of (mn, mx, agc) \<Rightarrow>
     (if igp_2_length_table ! mn > igp_2_length_table ! cur then cur else mn,
      if igp_2_length_table ! mx < igp_2_length_table ! cur then cur else mx,
      agc + igp_2_length_table ! cur))"

definition igp_2_lengths :: "nat list \<Rightarrow> u16 \<times> u16 \<times> u16" where
  "igp_2_lengths idx =
     (case fold agc_step idx (length igp_2_length_table - 1, 0, 0) of (mn, mx, agc) \<Rightarrow>
        let agc = (agc - (igp_2_length_table ! mn + igp_2_length_table ! mx)) div 2;
            lo = (if uint agc - 15 > 0 then agc - 15 else 0);
            hi = agc + 15
        in (lo, hi, (lo + hi) div 2))"

definition e1000e_get_cable_length_igp_2 :: "phy_rd \<Rightarrow> (e1000_hw, int) state" where
  "e1000e_get_cable_length_igp_2 rphy =
     rd_ok (igp_2_agc rphy [0x11B1, 0x12B1, 0x14B1, 0x18B1])
       (\<lambda>idx. do { set_lengths (igp_2_lengths idx); ret 0 })"

section \<open>PHY information\<close>

definition set_rx_status :: "u16 \<Rightarrow> (e1000_hw, int) state" where
  "set_rx_status v = do {
     set_phy (\<lambda>p. p\<lparr>
       local_rx := (if v AND 0x2000 \<noteq> 0 then e1000_1000t_rx_status_ok else e1000_1000t_rx_status_not_ok),
       remote_rx := (if v AND 0x1000 \<noteq> 0 then e1000_1000t_rx_status_ok else e1000_1000t_rx_status_not_ok)\<rparr>);
     ret 0 }"

definition no_rx_status :: "(e1000_hw, int) state" where
  "no_rx_status = do {
     set_phy (\<lambda>p. p\<lparr>cable_length := 0xFF, local_rx := e1000_1000t_rx_status_undefined,
       remote_rx := e1000_1000t_rx_status_undefined\<rparr>);
     ret 0 }"

definition e1000e_get_phy_info_m88 ::
  "phy_rd \<Rightarrow> (e1000_hw, int) state \<Rightarrow> (e1000_hw, int) state" where
  "e1000e_get_phy_info_m88 rphy get_cable_length = do {
     media \<leftarrow> gets (\<lambda>s. media_type (phy s));
     (if media \<noteq> e1000_media_type_copper then ret (- E1000_ERR_CONFIG)
      else if_link rphy 1 (\<lambda>link.
        if \<not> link then ret (- E1000_ERR_CONFIG)
        else rd_ok (rphy 0x10) (\<lambda>v. do {
          set_phy (\<lambda>p. p\<lparr>polarity_correction := (v AND 0x0002 \<noteq> 0)\<rparr>);
          seq_ok (e1000_check_polarity_m88 rphy) (rd_ok (rphy 0x11) (\<lambda>v. do {
            set_phy (\<lambda>p. p\<lparr>is_mdix := (v AND 0x0040 \<noteq> 0)\<rparr>);
            (if v AND 0xC000 = 0x8000
             then seq_ok get_cable_length (rd_ok (rphy 0x0A) set_rx_status)
             else no_rx_status) })) }))) }"

definition e1000e_get_phy_info_igp ::
  "phy_rd \<Rightarrow> (e1000_hw, int) state \<Rightarrow> (e1000_hw, int) state" where
  "e1000e_get_phy_info_igp rphy get_cable_length = if_link rphy 1 (\<lambda>link.
     if \<not> link then ret (- E1000_ERR_CONFIG)
     else do {
       set_phy (\<lambda>p. p\<lparr>polarity_correction := True\<rparr>);
       seq_ok (e1000_check_polarity_igp rphy) (rd_ok (rphy 0x11) (\<lambda>v. do {
         set_phy (\<lambda>p. p\<lparr>is_mdix := (v AND 0x0008 \<noteq> 0)\<rparr>);
         (if v AND 0xC000 = 0xC000
          then seq_ok get_cable_length (rd_ok (rphy 0x0A) set_rx_status)
          else no_rx_status) })) })"

end
