(* ===== verification/PhySetup.thy ===== *)
theory PhySetup
  imports PhyLink
begin

text \<open>
  Setting up a copper link, e1000_phy.c: the PHY specific set-up, auto-negotiation, forced
  speed and duplex, and the low-power link-up state.
\<close>

section \<open>PHY specific set-up\<close>

text \<open>The crossover bits of the M88 control register by \<open>mdix\<close>.\<close>

definition m88_mdix_bits :: "u8 \<Rightarrow> u16" where
  "m88_mdix_bits m = (if m = 1 then 0x0000 else if m = 2 then 0x0020 else if m = 3 then 0x0040 else 0x0060)"

definition m88_spec_ctrl :: "e1000_phy_info \<Rightarrow> u16 \<Rightarrow> u16" where
  "m88_spec_ctrl p v =
     (let v = (if phy_type p \<noteq> e1000_phy_bm then v OR 0x0800 else v);
          v = (v AND NOT 0x0060) OR m88_mdix_bits (mdix p);
          v = v AND NOT 0x0002;
          v = (if disable_polarity_correction p then v OR 0x0002 else v)
      in if phy_type p = e1000_phy_bm then v OR 0x0800 else v)"

definition m88_ext_ctrl :: "e1000_phy_info \<Rightarrow> u16 \<Rightarrow> u16" where
  "m88_ext_ctrl p v = (let v = v OR 0x0070 in
     if phy_revision p = 2 \<and> phy_id p = 0x01410CC0 then (v AND NOT 0x0E00) OR 0x0800
     else (v AND NOT (0x0C00 OR 0x0300)) OR (0x0000 OR 0x0100))"

definition e1000e_copper_link_setup_m88 ::
  "phy_rd \<Rightarrow> phy_wr \<Rightarrow> (e1000_hw, int) state \<Rightarrow> (e1000_hw, int) state" where
  "e1000e_copper_link_setup_m88 rphy wphy commit = do {
     p \<leftarrow> gets phy;
     (if reset_disable p then ret 0
      else seq_ok (phy_modify rphy wphy 0x10 (m88_spec_ctrl p))
        (seq_ok
          (if phy_type p = e1000_phy_m88 \<and> phy_revision p < 4 \<and> phy_id p \<noteq> 0x01410CB1
           then phy_modify rphy wphy 0x14 (m88_ext_ctrl p) else ret 0)
          (seq_ok
            (if phy_type p = e1000_phy_bm \<and> phy_id p = 0x01410CB1
             then seq_ok (wphy 29 0x0003) (wphy 30 0x0000) else ret 0)
            commit))) }"

definition igp_mdix_ctrl :: "u8 \<Rightarrow> u16 \<Rightarrow> u16" where
  "igp_mdix_ctrl m v = (let v = v AND NOT 0x1000 in
     if m = 1 then v AND NOT 0x2000 else if m = 2 then v OR 0x2000 else v OR 0x1000)"

definition ms_of_ctrl :: "u16 \<Rightarrow> e1000_ms_type" where
  "ms_of_ctrl v = (if v AND 0x1000 \<noteq> 0
     then (if v AND 0x0800 \<noteq> 0 then e1000_ms_force_master else e1000_ms_force_slave)
     else e1000_ms_auto)"

definition ctrl_of_ms :: "e1000_ms_type \<Rightarrow> u16 \<Rightarrow> u16" where
  "ctrl_of_ms ms v = (case ms of
     e1000_ms_force_master \<Rightarrow> v OR (0x1000 OR 0x0800)
   | e1000_ms_force_slave \<Rightarrow> (v OR 0x1000) AND NOT 0x0800
   | e1000_ms_auto \<Rightarrow> v AND NOT 0x1000
   | e1000_ms_hw_default \<Rightarrow> v)"

definition e1000e_copper_link_setup_igp ::
  "phy_rd \<Rightarrow> phy_wr \<Rightarrow> (e1000_hw, int) state \<Rightarrow> (bool \<Rightarrow> (e1000_hw, int) state) \<Rightarrow>
   (bool \<Rightarrow> (e1000_hw, int) state) option \<Rightarrow> (e1000_hw, int) state" where
  "e1000e_copper_link_setup_igp rphy wphy hw_reset set_d3_lplu set_d0_lplu = do {
     rd \<leftarrow> gets (\<lambda>s. reset_disable (phy s));
     (if rd then ret 0
      else seq_ok hw_reset (do {
        ty \<leftarrow> gets (\<lambda>s. phy_type (phy s));
        seq_ok (if ty = e1000_phy_igp then set_d3_lplu False else ret 0)
        (seq_ok (case set_d0_lplu of None \<Rightarrow> ret 0 | Some f \<Rightarrow> f False)
        (do {
          m \<leftarrow> gets (\<lambda>s. mdix (phy s));
          seq_ok (phy_modify rphy wphy 0x12 (igp_mdix_ctrl m)) (do {
            an \<leftarrow> gets (\<lambda>s. mac_autoneg (mac s));
            (if \<not> an then ret 0 else do {
              adv \<leftarrow> gets (\<lambda>s. autoneg_advertised (phy s));
              seq_ok
                (if adv = 0x0020
                 then seq_ok (phy_modify rphy wphy 0x10 (\<lambda>v. v AND NOT 0x0080))
                        (phy_modify rphy wphy 0x09 (\<lambda>v. v AND NOT 0x1000))
                 else ret 0)
                (rd_ok (rphy 0x09) (\<lambda>v. do {
                  set_phy (\<lambda>p. p\<lparr>original_ms_type := ms_of_ctrl v\<rparr>);
                  ms \<leftarrow> gets (\<lambda>s. ms_type (phy s));
                  wphy 0x09 (ctrl_of_ms ms v) })) }) }) })) })) }"

section \<open>Auto-negotiation\<close>

text \<open>The advertisement register: speed and duplex from the advertised modes, then pause.\<close>

definition adv_modes :: "u16 \<Rightarrow> u16 \<Rightarrow> u16" where
  "adv_modes advertised v =
     (let v = v AND NOT (0x0100 OR 0x0080 OR 0x0040 OR 0x0020);
          v = (if advertised AND 0x0001 \<noteq> 0 then v OR 0x0020 else v);
          v = (if advertised AND 0x0002 \<noteq> 0 then v OR 0x0040 else v);
          v = (if advertised AND 0x0004 \<noteq> 0 then v OR 0x0080 else v)
      in if advertised AND 0x0008 \<noteq> 0 then v OR 0x0100 else v)"

definition adv_pause :: "e1000_fc_mode \<Rightarrow> u16 \<Rightarrow> u16 option" where
  "adv_pause m v = (case m of
     e1000_fc_none \<Rightarrow> Some (v AND NOT (NWAY_ASM_DIR OR NWAY_PAUSE))
   | e1000_fc_rx_pause \<Rightarrow> Some (v OR (NWAY_ASM_DIR OR NWAY_PAUSE))
   | e1000_fc_tx_pause \<Rightarrow> Some ((v OR NWAY_ASM_DIR) AND NOT NWAY_PAUSE)
   | e1000_fc_full \<Rightarrow> Some (v OR (NWAY_ASM_DIR OR NWAY_PAUSE))
   | e1000_fc_default \<Rightarrow> None)"

definition adv_1000t :: "u16 \<Rightarrow> u16 \<Rightarrow> u16" where
  "adv_1000t advertised v = (let v = v AND NOT (0x0100 OR 0x0200) in
     if advertised AND 0x0020 \<noteq> 0 then v OR 0x0200 else v)"

definition write_adv :: "phy_wr \<Rightarrow> bool \<Rightarrow> u16 \<Rightarrow> u16 \<Rightarrow> (e1000_hw, int) state" where
  "write_adv wphy gig adv ctrl = do {
     advertised \<leftarrow> gets (\<lambda>s. autoneg_advertised (phy s));
     m \<leftarrow> gets (\<lambda>s. current_mode (fc s));
     (case adv_pause m (adv_modes advertised adv) of
        None \<Rightarrow> ret (- E1000_ERR_CONFIG)
      | Some v \<Rightarrow> seq_ok (wphy PHY_AUTONEG_ADV v)
          (if gig then wphy 0x09 (adv_1000t advertised ctrl) else ret 0)) }"

definition e1000_phy_setup_autoneg :: "phy_rd \<Rightarrow> phy_wr \<Rightarrow> (e1000_hw, int) state" where
  "e1000_phy_setup_autoneg rphy wphy = do {
     set_phy (\<lambda>p. p\<lparr>autoneg_advertised := autoneg_advertised p AND autoneg_mask p\<rparr>);
     gig \<leftarrow> gets (\<lambda>s. autoneg_mask (phy s) AND 0x0020 \<noteq> 0);
     rd_ok (rphy PHY_AUTONEG_ADV) (\<lambda>adv.
       if gig then rd_ok (rphy 0x09) (\<lambda>ctrl. write_adv wphy True adv ctrl)
       else write_adv wphy False adv 0) }"

definition e1000_copper_link_autoneg ::
  "phy_rd \<Rightarrow> phy_wr \<Rightarrow> (e1000_hw, int) state \<Rightarrow> (e1000_hw, int) state" where
  "e1000_copper_link_autoneg rphy wphy wait_autoneg = do {
     set_phy (\<lambda>p. p\<lparr>autoneg_advertised := autoneg_advertised p AND autoneg_mask p\<rparr>);
     set_phy (\<lambda>p. if autoneg_advertised p = 0 then p\<lparr>autoneg_advertised := autoneg_mask p\<rparr> else p);
     seq_ok (e1000_phy_setup_autoneg rphy wphy)
     (seq_ok (phy_modify rphy wphy PHY_CONTROL (\<lambda>v. v OR (0x1000 OR 0x0200)))
     (do {
       w \<leftarrow> gets (\<lambda>s. autoneg_wait_to_complete (phy s));
       seq_ok (if w then wait_autoneg else ret 0)
       (do { set_mac (\<lambda>m. m\<lparr>get_link_status := True\<rparr>); ret 0 }) })) }"

definition e1000e_setup_copper_link ::
  "mmio \<Rightarrow> phy_rd \<Rightarrow> phy_wr \<Rightarrow> (e1000_hw, int) state \<Rightarrow> (e1000_hw, int) state \<Rightarrow>
   (e1000_hw, int + (u16 \<times> u16)) state \<Rightarrow> (e1000_hw, int) state" where
  "e1000e_setup_copper_link E rphy wphy wait_autoneg force_speed_duplex get_link_up_info = do {
     an \<leftarrow> gets (\<lambda>s. mac_autoneg (mac s));
     seq_ok (if an then e1000_copper_link_autoneg rphy wphy wait_autoneg else force_speed_duplex)
     (if_link rphy 10 (\<lambda>link.
        if link then do {
          e1000e_config_collision_dist E;
          e1000e_config_fc_after_link_up E rphy get_link_up_info }
        else ret 0)) }"

section \<open>Forced speed and duplex\<close>

text \<open>The control register of the MAC and of the PHY for a forced mode.\<close>

definition forced_ctrl :: "u8 \<Rightarrow> u32 \<Rightarrow> u32" where
  "forced_ctrl mode ctrl =
     (let ctrl = ctrl OR (0x0800 OR 0x1000);
          ctrl = ctrl AND NOT 0x0300;
          ctrl = ctrl AND NOT 0x0020;
          ctrl = (if mode AND (0x01 OR 0x04) \<noteq> 0 then ctrl AND NOT CTRL_FD else ctrl OR CTRL_FD)
      in if mode AND (0x04 OR 0x08) \<noteq> 0 then ctrl OR 0x0100
         else ctrl AND NOT (0x0200 OR 0x0100))"

definition forced_phy_ctrl :: "u8 \<Rightarrow> u16 \<Rightarrow> u16" where
  "forced_phy_ctrl mode v =
     (let v = v AND NOT 0x1000;
          v = (if mode AND (0x01 OR 0x04) \<noteq> 0 then v AND NOT 0x0100 else v OR 0x0100)
      in if mode AND (0x04 OR 0x08) \<noteq> 0 then (v OR 0x2000) AND NOT (0x0040 OR 0x0000)
         else (v OR 0x0000) AND NOT (0x0040 OR 0x2000))"

definition e1000e_phy_force_speed_duplex_setup :: "mmio \<Rightarrow> u16 \<Rightarrow> (e1000_hw, u16) state" where
  "e1000e_phy_force_speed_duplex_setup E phy_ctrl = do {
     set_fc (\<lambda>f. f\<lparr>current_mode := e1000_fc_none\<rparr>);
     ctrl \<leftarrow> er32 E CTRL;
     mode \<leftarrow> gets (\<lambda>s. forced_speed_duplex (mac s));
     e1000e_config_collision_dist E;
     ew32 CTRL (forced_ctrl mode ctrl);
     ret (forced_phy_ctrl mode phy_ctrl) }"

definition force_phy :: "mmio \<Rightarrow> phy_rd \<Rightarrow> phy_wr \<Rightarrow> (e1000_hw, int) state" where
  "force_phy E rphy wphy = rd_ok (rphy PHY_CONTROL) (\<lambda>v. do {
     v \<leftarrow> e1000e_phy_force_speed_duplex_setup E v;
     wphy PHY_CONTROL v })"

definition e1000e_phy_force_speed_duplex_igp ::
  "mmio \<Rightarrow> phy_rd \<Rightarrow> phy_wr \<Rightarrow> (e1000_hw, int) state" where
  "e1000e_phy_force_speed_duplex_igp E rphy wphy = seq_ok (force_phy E rphy wphy)
     (seq_ok (phy_modify rphy wphy 0x12 (\<lambda>v. (v AND NOT 0x1000) AND NOT 0x2000))
     (do {
       w \<leftarrow> gets (\<lambda>s. autoneg_wait_to_complete (phy s));
       (if w then if_link rphy 20 (\<lambda>link. if_link rphy 20 (\<lambda>link. ret 0)) else ret 0) }))"

definition e1000e_phy_force_speed_duplex_m88 ::
  "mmio \<Rightarrow> phy_rd \<Rightarrow> phy_wr \<Rightarrow> (e1000_hw, int) state \<Rightarrow> (e1000_hw, int) state" where
  "e1000e_phy_force_speed_duplex_m88 E rphy wphy commit =
     seq_ok (phy_modify rphy wphy 0x10 (\<lambda>v. v AND NOT 0x0060))
     (seq_ok (force_phy E rphy wphy)
     (seq_ok commit
     (do {
       w \<leftarrow> gets (\<lambda>s. autoneg_wait_to_complete (phy s));
       seq_ok
         (if w then if_link rphy 20 (\<lambda>link.
            seq_ok (if link then ret 0 else seq_ok (wphy 0x1D 0x001d) (e1000e_phy_reset_dsp wphy))
              (if_link rphy 20 (\<lambda>link. ret 0)))
          else ret 0)
         (seq_ok (phy_modify rphy wphy 0x14 (\<lambda>v. v OR 0x0070))
           (phy_modify rphy wphy 0x10 (\<lambda>v. v OR 0x0800))) })))"

section \<open>Low-power link-up\<close>

definition e1000e_set_d3_lplu_state :: "phy_rd \<Rightarrow> phy_wr \<Rightarrow> bool \<Rightarrow> (e1000_hw, int) state" where
  "e1000e_set_d3_lplu_state rphy wphy active = rd_ok (rphy 0x19) (\<lambda>data. do {
     p \<leftarrow> gets phy;
     (if \<not> active then seq_ok (wphy 0x19 (data AND NOT 0x0004))
        (if smart_speed p = e1000_smart_speed_on then phy_modify rphy wphy 0x10 (\<lambda>v. v OR 0x0080)
         else if smart_speed p = e1000_smart_speed_off
         then phy_modify rphy wphy 0x10 (\<lambda>v. v AND NOT 0x0080)
         else ret 0)
      else if autoneg_advertised p = 0x002F \<or> autoneg_advertised p = 0x000F \<or>
              autoneg_advertised p = 0x0003
      then seq_ok (wphy 0x19 (data OR 0x0004)) (phy_modify rphy wphy 0x10 (\<lambda>v. v AND NOT 0x0080))
      else ret 0) })"

end
