(* ===== verification/MacLink.thy ===== *)
theory MacLink
  imports PhySetup
begin

text \<open>
  Link set-up and link checks in e1000_mac.c for copper, fiber and SerDes media.
\<close>

abbreviation RXCW :: u32 where "RXCW \<equiv> 0x00180"
abbreviation STATUS_LU :: u32 where "STATUS_LU \<equiv> 0x00000002"
abbreviation RXCW_IV :: u32 where "RXCW_IV \<equiv> 0x08000000"
abbreviation RXCW_C :: u32 where "RXCW_C \<equiv> 0x20000000"
abbreviation RXCW_SYNCH :: u32 where "RXCW_SYNCH \<equiv> 0x40000000"
abbreviation CTRL_SWDPIN1 :: u32 where "CTRL_SWDPIN1 \<equiv> 0x00080000"

section \<open>Link checks\<close>

definition e1000e_check_for_copper_link ::
  "mmio \<Rightarrow> phy_rd \<Rightarrow> (e1000_hw, int + (u16 \<times> u16)) state \<Rightarrow> (e1000_hw, int) state" where
  "e1000e_check_for_copper_link E rphy get_link_up_info = do {
     chk \<leftarrow> gets (\<lambda>s. get_link_status (mac s));
     (if \<not> chk then ret 0
      else if_link rphy 1 (\<lambda>link.
        if \<not> link then ret 0
        else do {
          set_mac (\<lambda>m. m\<lparr>get_link_status := False\<rparr>);
          x \<leftarrow> e1000e_check_downshift rphy;
          an \<leftarrow> gets (\<lambda>s. mac_autoneg (mac s));
          (if \<not> an then ret (- E1000_ERR_CONFIG)
           else do {
             e1000e_config_collision_dist E;
             e1000e_config_fc_after_link_up E rphy get_link_up_info }) })) }"

text \<open>No link while auto-negotiation had its chance: force the link up.\<close>

definition force_link :: "mmio \<Rightarrow> phy_rd \<Rightarrow> (e1000_hw, int + (u16 \<times> u16)) state \<Rightarrow>
    (e1000_hw, int) state" where
  "force_link E rphy get_link_up_info = do {
     txcw \<leftarrow> gets (\<lambda>s. mac_txcw (mac s));
     ew32 TXCW (txcw AND NOT TXCW_ANE);
     ctrl \<leftarrow> er32 E CTRL;
     ew32 CTRL (ctrl OR (CTRL_SLU OR CTRL_FD));
     e1000e_config_fc_after_link_up E rphy get_link_up_info }"

text \<open>The partner sends configuration words: enable auto-negotiation again.\<close>

definition unforce_link :: "u32 \<Rightarrow> (e1000_hw, unit) state" where
  "unforce_link ctrl = do {
     txcw \<leftarrow> gets (\<lambda>s. mac_txcw (mac s));
     ew32 TXCW txcw;
     ew32 CTRL (ctrl AND NOT CTRL_SLU);
     set_mac (\<lambda>m. m\<lparr>serdes_has_link := True\<rparr>) }"

definition e1000e_check_for_fiber_link ::
  "mmio \<Rightarrow> phy_rd \<Rightarrow> (e1000_hw, int + (u16 \<times> u16)) state \<Rightarrow> (e1000_hw, int) state" where
  "e1000e_check_for_fiber_link E rphy get_link_up_info = do {
     ctrl \<leftarrow> er32 E CTRL;
     status \<leftarrow> er32 E STATUS_R;
     rxcw \<leftarrow> er32 E RXCW;
     failed \<leftarrow> gets (\<lambda>s. autoneg_failed (mac s));
     (if ctrl AND CTRL_SWDPIN1 \<noteq> 0 \<and> status AND STATUS_LU = 0 \<and> rxcw AND RXCW_C = 0 then
        (if \<not> failed then do { set_mac (\<lambda>m. m\<lparr>autoneg_failed := True\<rparr>); ret 0 }
         else force_link E rphy get_link_up_info)
      else if ctrl AND CTRL_SLU \<noteq> 0 \<and> rxcw AND RXCW_C \<noteq> 0 then
        do { unforce_link ctrl; ret 0 }
      else ret 0) }"

definition set_serdes :: "bool \<Rightarrow> (e1000_hw, unit) state" where
  "set_serdes b = set_mac (\<lambda>m. m\<lparr>serdes_has_link := b\<rparr>)"

text \<open>The forced link: without synchronisation it is down; with invalid symbols it keeps.\<close>

definition serdes_forced :: "mmio \<Rightarrow> (e1000_hw, unit) state" where
  "serdes_forced E = do {
     rxcw \<leftarrow> er32 E RXCW;
     (if rxcw AND RXCW_SYNCH \<noteq> 0
      then (if rxcw AND RXCW_IV = 0 then set_serdes True else skip)
      else set_serdes False) }"

definition serdes_autoneg :: "mmio \<Rightarrow> (e1000_hw, unit) state" where
  "serdes_autoneg E = do {
     txcw \<leftarrow> er32 E TXCW;
     (if txcw AND TXCW_ANE \<noteq> 0 then do {
        status \<leftarrow> er32 E STATUS_R;
        (if status AND STATUS_LU \<noteq> 0 then do {
           rxcw \<leftarrow> er32 E RXCW;
           set_serdes (rxcw AND RXCW_SYNCH \<noteq> 0 \<and> rxcw AND RXCW_IV = 0) }
         else set_serdes False) }
      else skip) }"

definition e1000e_check_for_serdes_link ::
  "mmio \<Rightarrow> phy_rd \<Rightarrow> (e1000_hw, int + (u16 \<times> u16)) state \<Rightarrow> (e1000_hw, int) state" where
  "e1000e_check_for_serdes_link E rphy get_link_up_info = do {
     ctrl \<leftarrow> er32 E CTRL;
     status \<leftarrow> er32 E STATUS_R;
     rxcw \<leftarrow> er32 E RXCW;
     failed \<leftarrow> gets (\<lambda>s. autoneg_failed (mac s));
     (if status AND STATUS_LU = 0 \<and> rxcw AND RXCW_C = 0 then
        (if \<not> failed then do { set_mac (\<lambda>m. m\<lparr>autoneg_failed := True\<rparr>); ret 0 }
         else seq_ok (force_link E rphy get_link_up_info) (do { serdes_autoneg E; ret 0 }))
      else if ctrl AND CTRL_SLU \<noteq> 0 \<and> rxcw AND RXCW_C \<noteq> 0 then
        do { unforce_link ctrl; serdes_autoneg E; ret 0 }
      else do {
        txcw \<leftarrow> er32 E TXCW;
        (if txcw AND TXCW_ANE = 0 then serdes_forced E else skip);
        serdes_autoneg E;
        ret 0 }) }"

section \<open>Link set-up\<close>

text \<open>
  \<open>check_reset_block\<close> is an optional function pointer; \<open>rd\<close> reads the NVM.
\<close>

definition e1000e_setup_link ::
  "(u16 \<Rightarrow> nat \<Rightarrow> (e1000_hw, int + u16 list) state) \<Rightarrow> (e1000_hw, int) state \<Rightarrow>
   (e1000_hw, int) state \<Rightarrow> (e1000_hw, int) state" where
  "e1000e_setup_link rd check_reset_block setup_physical_interface = do {
     blocked \<leftarrow> check_reset_block;
     (if blocked \<noteq> 0 then ret 0
      else do {
        req \<leftarrow> gets (\<lambda>s. requested_mode (fc s));
        seq_ok (if req = e1000_fc_default then e1000_set_default_fc_generic rd else ret 0)
          (do {
            set_fc (\<lambda>f. f\<lparr>current_mode := requested_mode f\<rparr>);
            seq_ok setup_physical_interface (do {
              ew32 0x00030 0x8808;
              ew32 0x0002C 0x00000100;
              ew32 0x00028 0x00C28001;
              f \<leftarrow> gets fc;
              ew32 0x00170 (ucast (pause_time f));
              e1000e_set_fc_watermarks }) }) }) }"

definition e1000_poll_fiber_serdes_link_generic ::
  "mmio \<Rightarrow> (e1000_hw, int) state \<Rightarrow> (e1000_hw, int) state" where
  "e1000_poll_fiber_serdes_link_generic E check_for_link = do {
     r \<leftarrow> poll 50 (er32 E STATUS_R) (\<lambda>status. status AND STATUS_LU \<noteq> 0);
     (if r = None then do {
        set_mac (\<lambda>m. m\<lparr>autoneg_failed := True\<rparr>);
        seq_ok check_for_link (do { set_mac (\<lambda>m. m\<lparr>autoneg_failed := False\<rparr>); ret 0 }) }
      else do { set_mac (\<lambda>m. m\<lparr>autoneg_failed := False\<rparr>); ret 0 }) }"

definition e1000e_setup_fiber_serdes_link ::
  "mmio \<Rightarrow> (e1000_hw, int) state \<Rightarrow> (e1000_hw, int) state" where
  "e1000e_setup_fiber_serdes_link E check_for_link = do {
     ctrl \<leftarrow> er32 E CTRL;
     e1000e_config_collision_dist E;
     seq_ok e1000_commit_fc_settings_generic (do {
       ew32 CTRL (ctrl AND NOT 0x00000008);
       e1e_flush E;
       media \<leftarrow> gets (\<lambda>s. media_type (phy s));
       (if media = e1000_media_type_internal_serdes
        then e1000_poll_fiber_serdes_link_generic E check_for_link
        else do {
          c \<leftarrow> er32 E CTRL;
          (if c AND CTRL_SWDPIN1 \<noteq> 0
           then e1000_poll_fiber_serdes_link_generic E check_for_link else ret 0) }) }) }"

section \<open>Media information\<close>

definition e1000_validate_mdi_setting_generic :: "(e1000_hw, int) state" where
  "e1000_validate_mdi_setting_generic = do {
     an \<leftarrow> gets (\<lambda>s. mac_autoneg (mac s));
     m \<leftarrow> gets (\<lambda>s. mdix (phy s));
     (if \<not> an \<and> (m = 0 \<or> m = 3) then do {
        set_phy (\<lambda>p. p\<lparr>mdix := 1\<rparr>);
        ret (- E1000_ERR_CONFIG) }
      else ret 0) }"

end
