(* ===== verification/FcProps.thy ===== *)
theory FcProps
  imports MacLink
begin

text \<open>
  Flow control from the advertisement to the MAC: what auto-negotiation advertises for the
  requested mode, and what the MAC is told after the partner has answered, against the pause
  resolution of IEEE 802.3.
\<close>

section \<open>The PHY content and the rest of the state\<close>

lemma m88_content_hist:
  "q \<noteq> MDIC \<Longrightarrow> m88_content m (s\<lparr>rhist := Wr q v # h\<rparr>) = m88_content m (s\<lparr>rhist := h\<rparr>)"
  "m88_content m (s\<lparr>rhist := Rd q v # h\<rparr>) = m88_content m (s\<lparr>rhist := h\<rparr>)"
  by (simp_all add: m88_content_def fun_eq_iff)

lemma m88_content_other [simp]:
  "m88_content m (s\<lparr>rhist := rhist s\<rparr>) = m88_content m s"
  "m88_content m (s\<lparr>fc := f\<rparr>) = m88_content m s"
  "m88_content m (s\<lparr>mac := k\<rparr>) = m88_content m s"
  "m88_content m (s\<lparr>phy := p\<rparr>) = m88_content m s"
  by (simp_all add: m88_content_def fun_eq_iff)

lemma phy_ok_other [simp]:
  "phy_ok m E acq rel (s\<lparr>fc := f\<rparr>) = phy_ok m E acq rel s"
  "phy_ok m E acq rel (s\<lparr>mac := k\<rparr>) = phy_ok m E acq rel s"
  "phy_addr p = phy_addr (phy s) \<Longrightarrow> phy_ok m E acq rel (s\<lparr>phy := p\<rparr>) = phy_ok m E acq rel s"
  by (simp_all add: phy_ok_def mdic_ok_def)

section \<open>The resolution\<close>

text \<open>
  IEEE 802.3 Annex 28B: which side may send pause frames, from the PAUSE and ASM_DIR bits of
  both.
\<close>

definition ieee_tx :: "bool \<Rightarrow> bool \<Rightarrow> bool \<Rightarrow> bool \<Rightarrow> bool" where
  "ieee_tx pause dir lp_pause lp_dir \<longleftrightarrow> lp_pause \<and> (pause \<or> dir \<and> lp_dir)"

definition ieee_rx :: "bool \<Rightarrow> bool \<Rightarrow> bool \<Rightarrow> bool \<Rightarrow> bool" where
  "ieee_rx pause dir lp_pause lp_dir \<longleftrightarrow> pause \<and> (lp_pause \<or> dir \<and> lp_dir)"

definition wants_tx :: "e1000_fc_mode \<Rightarrow> bool" where
  "wants_tx m \<longleftrightarrow> m = e1000_fc_tx_pause \<or> m = e1000_fc_full"

lemma flag_nway: "(v :: u16) AND 0x0400 = 0 \<longleftrightarrow> \<not> bit v 10" "v AND 0x0800 = 0 \<longleftrightarrow> \<not> bit v 11"
    "v AND 0x0020 = 0 \<longleftrightarrow> \<not> bit v 5"
  using and_exp_eq_0_iff_not_bit[of v 10] and_exp_eq_0_iff_not_bit[of v 11]
    and_exp_eq_0_iff_not_bit[of v 5] by simp_all

lemma adv_pause_bits:
  "adv_pause m v = Some w \<Longrightarrow> bit w 10 = (m \<noteq> e1000_fc_none \<and> m \<noteq> e1000_fc_tx_pause) \<and>
     bit w 11 = (m \<noteq> e1000_fc_none)"
  by (cases m) (auto simp: adv_pause_def bit_simps bit_numeral_rec)

lemma adv_pause_some: "m \<noteq> e1000_fc_default \<Longrightarrow> \<exists>w. adv_pause m v = Some w"
  by (cases m) (simp_all add: adv_pause_def)

text \<open>The bits of the control register that the resolved mode sets.\<close>

lemma ctrl_fc_bits:
  "ctrl_fc m c = Some d \<Longrightarrow> bit d 27 = (m = e1000_fc_rx_pause \<or> m = e1000_fc_full) \<and> bit d 28 = wants_tx m"
  by (cases m) (auto simp: ctrl_fc_def wants_tx_def bit_simps bit_numeral_rec)

lemma ctrl_fc_some: "m \<noteq> e1000_fc_default \<Longrightarrow> \<exists>d. ctrl_fc m c = Some d"
  by (cases m) (simp_all add: ctrl_fc_def)

lemma fc_resolve_ieee:
  assumes "adv_pause m v = Some adv" "m \<noteq> e1000_fc_default"
  shows "(fc_resolve adv lp m = e1000_fc_rx_pause \<or> fc_resolve adv lp m = e1000_fc_full) =
      ieee_rx (bit adv 10) (bit adv 11) (bit lp 10) (bit lp 11)"
    and "wants_tx (fc_resolve adv lp m) =
      (ieee_tx (bit adv 10) (bit adv 11) (bit lp 10) (bit lp 11) \<and> wants_tx m)"
    and "fc_resolve adv lp m \<noteq> e1000_fc_default"
proof -
  have "((fc_resolve adv lp m = e1000_fc_rx_pause \<or> fc_resolve adv lp m = e1000_fc_full) =
      ieee_rx (bit adv 10) (bit adv 11) (bit lp 10) (bit lp 11)) \<and>
    wants_tx (fc_resolve adv lp m) = (ieee_tx (bit adv 10) (bit adv 11) (bit lp 10) (bit lp 11) \<and> wants_tx m) \<and>
    fc_resolve adv lp m \<noteq> e1000_fc_default"
    using adv_pause_bits[OF assms(1)] assms(2)
    by (cases m) (simp_all add: fc_resolve_def flag_nway wants_tx_def ieee_rx_def ieee_tx_def)
  then show "(fc_resolve adv lp m = e1000_fc_rx_pause \<or> fc_resolve adv lp m = e1000_fc_full) =
      ieee_rx (bit adv 10) (bit adv 11) (bit lp 10) (bit lp 11)"
    and "wants_tx (fc_resolve adv lp m) =
      (ieee_tx (bit adv 10) (bit adv 11) (bit lp 10) (bit lp 11) \<and> wants_tx m)"
    and "fc_resolve adv lp m \<noteq> e1000_fc_default" by auto
qed

section \<open>The two functions\<close>

lemma force_mac_fc_wp:
  assumes "current_mode (fc s) \<noteq> e1000_fc_default"
    and "\<And>c d. ctrl_fc (current_mode (fc s)) c = Some d \<Longrightarrow>
      Q 0 (s\<lparr>rhist := Wr CTRL d # Rd CTRL c # rhist s\<rparr>)"
  shows "wp (e1000e_force_mac_fc E) Q s"
  unfolding e1000e_force_mac_fc_def wp_bind
proof (rule wp_er32_any)
  fix c
  obtain d where d: "ctrl_fc (current_mode (fc s)) c = Some d"
    using ctrl_fc_some[OF assms(1)] by blast
  with assms(2)[OF d] show "wp (gets (\<lambda>s. current_mode (fc s)))
     (\<lambda>m. wp (case ctrl_fc m c of None \<Rightarrow> ret (- E1000_ERR_CONFIG) | Some ctrl \<Rightarrow> do { ew32 CTRL ctrl; ret 0 }) Q)
     (s\<lparr>rhist := Rd CTRL c # rhist s\<rparr>)" by simp
qed

text \<open>What the rest of the link set-up keeps.\<close>

definition link_kept :: "(u16 \<Rightarrow> nat \<Rightarrow> u16) \<Rightarrow> e1000_hw \<Rightarrow> e1000_hw \<Rightarrow> bool" where
  "link_kept m s t \<longleftrightarrow> mac t = mac s \<and> fc t = fc s \<and> media_type (phy t) = media_type (phy s) \<and>
     m88_content m t 1 = m88_content m s 1 \<and> m88_content m t 5 = m88_content m s 5"

lemma m88_reg [simp]: "4 \<in> m88_regs" "9 \<in> m88_regs" "1 \<in> m88_regs" "5 \<in> m88_regs" "0 \<in> m88_regs"
    "0x11 \<in> m88_regs" "0x10 \<in> m88_regs" "0x14 \<in> m88_regs"
  by (simp_all add: m88_regs_def)

lemma write_adv_wp:
  assumes "phy_ok m E acq rel s" "current_mode (fc s) \<noteq> e1000_fc_default"
    and "\<And>h v w. adv_pause (current_mode (fc s)) v = Some w \<Longrightarrow> phy_ok m E acq rel (s\<lparr>rhist := h\<rparr>) \<Longrightarrow>
      m88_content m (s\<lparr>rhist := h\<rparr>) 4 = w \<Longrightarrow>
      (\<And>q. q \<in> {1, 5} \<Longrightarrow> m88_content m (s\<lparr>rhist := h\<rparr>) q = m88_content m s q) \<Longrightarrow> Q 0 (s\<lparr>rhist := h\<rparr>)"
  shows "wp (write_adv (e1000e_write_phy_reg_m88 E acq rel) gig adv ctrl) Q s"
proof -
  let ?wr = "e1000e_write_phy_reg_m88 E acq rel"
  let ?v = "adv_modes (autoneg_advertised (phy s)) adv"
  obtain w where w: "adv_pause (current_mode (fc s)) ?v = Some w" using adv_pause_some[OF assms(2)] by blast
  have "wp (seq_ok (?wr 4 w) (if gig then ?wr 9 (adv_1000t (autoneg_advertised (phy s)) ctrl) else ret 0)) Q s"
    unfolding wp_seq_ok
  proof (rule phy_m88.wr_wp[OF assms(1)])
    fix h assume h: "\<And>q. q \<in> m88_regs \<Longrightarrow> m88_content m (s\<lparr>rhist := h\<rparr>) q =
        (if q = 4 then w else m88_content m s q)" and ok: "phy_ok m E acq rel (s\<lparr>rhist := h\<rparr>)"
    have "wp (?wr 9 x) Q (s\<lparr>rhist := h\<rparr>)" for x
    proof (rule phy_m88.wr_wp[OF ok])
      fix g assume g: "\<And>q. q \<in> m88_regs \<Longrightarrow> m88_content m (s\<lparr>rhist := h\<rparr>\<lparr>rhist := g\<rparr>) q =
          (if q = 9 then x else m88_content m (s\<lparr>rhist := h\<rparr>) q)"
        and ok': "phy_ok m E acq rel (s\<lparr>rhist := h\<rparr>\<lparr>rhist := g\<rparr>)"
      have "Q 0 (s\<lparr>rhist := g\<rparr>)"
        by (rule assms(3)[OF w]) (use g h ok' in auto)
      then show "Q 0 (s\<lparr>rhist := h\<rparr>\<lparr>rhist := g\<rparr>)" by simp
    qed simp
    moreover have "Q 0 (s\<lparr>rhist := h\<rparr>)"
      by (rule assms(3)[OF w]) (use h ok in auto)
    ultimately show "if (0 :: int) \<noteq> 0 then Q 0 (s\<lparr>rhist := h\<rparr>)
      else wp (if gig then ?wr 9 (adv_1000t (autoneg_advertised (phy s)) ctrl) else ret 0) Q (s\<lparr>rhist := h\<rparr>)"
      by simp
  qed simp
  with w show ?thesis by (simp add: write_adv_def)
qed

lemma setup_autoneg_wp:
  assumes "phy_ok m E acq rel s" "current_mode (fc s) \<noteq> e1000_fc_default"
    and "\<And>t v w. adv_pause (current_mode (fc s)) v = Some w \<Longrightarrow> phy_ok m E acq rel t \<Longrightarrow>
      m88_content m t 4 = w \<Longrightarrow> link_kept m s t \<Longrightarrow> Q 0 t"
  shows "wp (e1000_phy_setup_autoneg (e1000e_read_phy_reg_m88 E acq rel)
    (e1000e_write_phy_reg_m88 E acq rel)) Q s"
proof -
  let ?rd = "e1000e_read_phy_reg_m88 E acq rel" and ?wr = "e1000e_write_phy_reg_m88 E acq rel"
  define s1 where "s1 = s\<lparr>phy := phy s\<lparr>autoneg_advertised := autoneg_advertised (phy s) AND autoneg_mask (phy s)\<rparr>\<rparr>"
  have s1: "phy_ok m E acq rel s1" "fc s1 = fc s" "mac s1 = mac s" "media_type (phy s1) = media_type (phy s)"
    "m88_content m s1 = m88_content m s"
    using assms(1) by (simp_all add: s1_def)
  have w: "wp (write_adv ?wr gig adv ctrl) Q (s1\<lparr>rhist := h\<rparr>)"
    if ok: "phy_ok m E acq rel (s1\<lparr>rhist := h\<rparr>)" and c: "m88_content m (s1\<lparr>rhist := h\<rparr>) = m88_content m s1"
    for gig adv ctrl h
  proof (rule write_adv_wp[OF ok])
    fix g v w
    assume g: "adv_pause (current_mode (fc (s1\<lparr>rhist := h\<rparr>))) v = Some w"
      "phy_ok m E acq rel (s1\<lparr>rhist := h\<rparr>\<lparr>rhist := g\<rparr>)"
      "m88_content m (s1\<lparr>rhist := h\<rparr>\<lparr>rhist := g\<rparr>) 4 = w"
      "\<And>q. q \<in> {1, 5} \<Longrightarrow> m88_content m (s1\<lparr>rhist := h\<rparr>\<lparr>rhist := g\<rparr>) q = m88_content m (s1\<lparr>rhist := h\<rparr>) q"
    show "Q 0 (s1\<lparr>rhist := h\<rparr>\<lparr>rhist := g\<rparr>)"
      by (rule assms(3)[of v w]) (use g s1 c in \<open>simp_all add: link_kept_def\<close>)
  qed (use assms(2) s1 in simp)
  have "wp (rd_ok (?rd 4) (\<lambda>adv. if b then rd_ok (?rd 9) (\<lambda>ctrl. write_adv ?wr True adv ctrl)
      else write_adv ?wr False adv 0)) Q s1" for b
    unfolding wp_rd_ok
    by (rule phy_m88.rd_wp[OF s1(1)], simp)
      (auto intro!: w phy_m88.rd_wp)
  then show ?thesis by (simp add: e1000_phy_setup_autoneg_def s1_def)
qed

lemma phy_ok_keep: "phy_ok m E acq rel s \<Longrightarrow> phy_addr (phy t) = phy_addr (phy s) \<Longrightarrow> phy_ok m E acq rel t"
  by (simp add: phy_ok_def mdic_ok_def)

lemma fc_autoneg_wp:
  assumes ok: "phy_ok m E acq rel s" and st: "bit (m88_content m s 1) 5"
    and full: "\<And>h. E h STATUS_R AND 1 \<noteq> 0"
    and k: "k = fc_resolve (m88_content m s 4) (m88_content m s 5) (requested_mode (fc s))"
      "k \<noteq> e1000_fc_default"
    and Q: "\<And>t c d. ctrl_fc k c = Some d \<Longrightarrow> reg_last (rhist t) CTRL = Some d \<Longrightarrow>
        current_mode (fc t) = k \<Longrightarrow> Q 0 t"
  shows "wp (fc_autoneg E (e1000e_read_phy_reg_m88 E acq rel) (e1000e_get_speed_and_duplex_copper E)) Q s"
proof -
  let ?C = "\<lambda>t. m88_content m t = m88_content m s \<and> phy_ok m E acq rel t \<and> fc t = fc s"
  have rd: "wp (rd_ok (e1000e_read_phy_reg_m88 E acq rel r) f) Q t"
    if "?C t" "r \<in> m88_regs" "\<And>u. ?C u \<Longrightarrow> wp (f (m88_content m s r)) Q u" for r f t
    unfolding wp_rd_ok by (rule phy_m88.rd_wp[where m = m]) (use that in auto)
  have force: "wp (e1000e_force_mac_fc E) Q (u\<lparr>fc := f, rhist := h\<rparr>)" if "current_mode f = k" for u f h
    by (rule force_mac_fc_wp) (use that k in \<open>auto intro!: Q\<close>)
  have tail: "wp (rd_ok (e1000e_get_speed_and_duplex_copper E) (\<lambda>(speed, duplex). do {
      (if duplex = HALF_DUPLEX then set_fc (\<lambda>f. f\<lparr>current_mode := e1000_fc_none\<rparr>) else skip);
      e1000e_force_mac_fc E })) Q (u\<lparr>fc := f\<rparr>)" if "current_mode f = k" for u f
    unfolding wp_rd_ok e1000e_get_speed_and_duplex_copper_def wp_bind
    by (rule wp_er32) (use full that force[of f _ u] in \<open>simp\<close>)
  have set: "wp (do { set_fc g; M }) Q u = wp M Q (u\<lparr>fc := g (fc u)\<rparr>)" for g M u
    by (simp cong del: wp_weak_cong)
  show ?thesis
    unfolding fc_autoneg_def
    apply (rule rd, use ok in simp, simp)
    apply (rule rd, simp, simp)
    apply (simp add: flag_nway st del: wp_rd_ok)
    apply (rule rd, simp, simp)
    apply (rule rd, simp, simp)
    apply (simp only: set)
    apply (rule tail)
    apply (simp add: k(1))
    done
qed

lemma config_fc_wp:
  assumes ok: "phy_ok m E acq rel s" and link: "media_type (phy s) = e1000_media_type_copper"
      "mac_autoneg (mac s)" "\<not> autoneg_failed (mac s)"
    and fcm: "current_mode (fc s) \<noteq> e1000_fc_default"
    and st: "bit (m88_content m s 1) 5"
    and full: "\<And>h. E h STATUS_R AND 1 \<noteq> 0"
    and k: "k = fc_resolve (m88_content m s 4) (m88_content m s 5) (requested_mode (fc s))"
      "k \<noteq> e1000_fc_default"
    and Q: "\<And>t c d. ctrl_fc k c = Some d \<Longrightarrow> reg_last (rhist t) CTRL = Some d \<Longrightarrow>
        current_mode (fc t) = k \<Longrightarrow> Q 0 t"
  shows "wp (e1000e_config_fc_after_link_up E (e1000e_read_phy_reg_m88 E acq rel)
    (e1000e_get_speed_and_duplex_copper E)) Q s"
proof -
  have c: "m88_content m (s\<lparr>rhist := Wr CTRL d # Rd CTRL c # rhist s\<rparr>) = m88_content m s" for c d
    by (simp add: m88_content_hist)
  have "wp (fc_autoneg E (e1000e_read_phy_reg_m88 E acq rel) (e1000e_get_speed_and_duplex_copper E)) Q
      (s\<lparr>rhist := Wr CTRL d # Rd CTRL c # rhist s\<rparr>)" for c d
    by (rule fc_autoneg_wp[where m = m and k = k]) (use ok st full k Q c in auto)
  then show ?thesis
    unfolding e1000e_config_fc_after_link_up_def
    using link by (simp add: force_mac_fc_wp[OF fcm])
qed

section \<open>From the advertisement to the MAC\<close>

text \<open>
  C13: with auto-negotiation and flow control set to a mode \<open>f\<close>, what the advertisement of
  the driver says and what the link partner answers decide the pause frames of the MAC: after
  \<open>e1000_phy_setup_autoneg\<close> and, the link being up in full duplex,
  \<open>e1000e_config_fc_after_link_up\<close>, the receive-pause bit (27) of the last control value
  written is the resolution of IEEE 802.3 for the two advertisements, the transmit-pause bit
  (28) is that resolution when \<open>f\<close> includes transmission, and both functions return zero.
\<close>

theorem fc_negotiation:
  assumes "phy_ok m E acq rel s" "media_type (phy s) = e1000_media_type_copper"
    and "mac_autoneg (mac s)" "\<not> autoneg_failed (mac s)"
    and "current_mode (fc s) = f" "requested_mode (fc s) = f" "f \<noteq> e1000_fc_default"
    and "bit (m88_content m s PHY_STATUS) 5" "\<And>h. E h STATUS_R AND 1 \<noteq> 0"
  shows "let rphy = e1000e_read_phy_reg_m88 E acq rel; wphy = e1000e_write_phy_reg_m88 E acq rel;
      (r1, t) = run_state (e1000_phy_setup_autoneg rphy wphy) s;
      (r2, u) = run_state (e1000e_config_fc_after_link_up E rphy (e1000e_get_speed_and_duplex_copper E)) t;
      adv = m88_content m t PHY_AUTONEG_ADV; lp = m88_content m s PHY_LP_ABILITY
    in r1 = 0 \<and> r2 = 0 \<and>
       bit adv 10 = (f = e1000_fc_rx_pause \<or> f = e1000_fc_full) \<and> bit adv 11 = (f \<noteq> e1000_fc_none) \<and>
       (\<exists>ctrl. reg_last (rhist u) CTRL = Some ctrl \<and>
         bit ctrl 27 = ieee_rx (bit adv 10) (bit adv 11) (bit lp 10) (bit lp 11) \<and>
         bit ctrl 28 = (ieee_tx (bit adv 10) (bit adv 11) (bit lp 10) (bit lp 11) \<and> wants_tx f))"
proof -
  let ?rd = "e1000e_read_phy_reg_m88 E acq rel" and ?wr = "e1000e_write_phy_reg_m88 E acq rel"
  let ?cfg = "e1000e_config_fc_after_link_up E ?rd (e1000e_get_speed_and_duplex_copper E)"
  let ?P = "\<lambda>t r2 u. let adv = m88_content m t PHY_AUTONEG_ADV; lp = m88_content m s PHY_LP_ABILITY in
     r2 = 0 \<and> bit adv 10 = (f = e1000_fc_rx_pause \<or> f = e1000_fc_full) \<and> bit adv 11 = (f \<noteq> e1000_fc_none) \<and>
       (\<exists>ctrl. reg_last (rhist u) CTRL = Some ctrl \<and>
         bit ctrl 27 = ieee_rx (bit adv 10) (bit adv 11) (bit lp 10) (bit lp 11) \<and>
         bit ctrl 28 = (ieee_tx (bit adv 10) (bit adv 11) (bit lp 10) (bit lp 11) \<and> wants_tx f))"
  have "wp (e1000_phy_setup_autoneg ?rd ?wr) (\<lambda>r1 t. r1 = 0 \<and> wp ?cfg (?P t) t) s"
  proof (rule setup_autoneg_wp[OF assms(1)])
    fix t v w
    assume w: "adv_pause (current_mode (fc s)) v = Some w" and ok: "phy_ok m E acq rel t"
      and a: "m88_content m t 4 = w" and k: "link_kept m s t"
    let ?k = "fc_resolve w (m88_content m s 5) f"
    note w = w[unfolded assms(5)]
    note r = fc_resolve_ieee[OF w assms(7), of "m88_content m s 5"]
    have adv: "bit w 10 = (f = e1000_fc_rx_pause \<or> f = e1000_fc_full)" "bit w 11 = (f \<noteq> e1000_fc_none)"
      using adv_pause_bits[OF w] assms(7) by (cases f; simp)+
    have "wp ?cfg (?P t) t"
    proof (rule config_fc_wp[OF ok, where k = ?k])
      fix u c d
      assume "ctrl_fc ?k c = Some d" "reg_last (rhist u) CTRL = Some d"
      then show "?P t 0 u"
        using r(1,2) ctrl_fc_bits[of ?k c d] a by (simp add: Let_def flip: adv)
    qed (use k assms a r in \<open>simp_all add: link_kept_def\<close>)
    then show "(0 :: int) = 0 \<and> wp ?cfg (?P t) t" by simp
  qed (use assms in simp)
  then show ?thesis unfolding wp_iff Let_def split_def by (elim conjE) (intro conjI; assumption)
qed

text \<open>A partner with symmetric pause (0x0400), full flow control requested: both bits are set.\<close>

theorem fc_negotiation_witness:
  "let m = (\<lambda>p r. if r = 1 then 0x0020 else if r = 5 then 0x0400 else 0 :: u16);
      E = (\<lambda>h q. if q = STATUS_R then 1 else mdic_chip m h q);
      s = hw_zero\<lparr>mac := mac_zero\<lparr>mac_autoneg := True\<rparr>,
        phy := phy_zero\<lparr>media_type := e1000_media_type_copper\<rparr>,
        fc := (fc hw_zero)\<lparr>current_mode := e1000_fc_full, requested_mode := e1000_fc_full\<rparr>\<rparr>;
      rphy = e1000e_read_phy_reg_m88 E (ret 0) skip; wphy = e1000e_write_phy_reg_m88 E (ret 0) skip;
      (r1, t) = run_state (e1000_phy_setup_autoneg rphy wphy) s;
      (r2, u) = run_state (e1000e_config_fc_after_link_up E rphy (e1000e_get_speed_and_duplex_copper E)) t
    in r1 = 0 \<and> r2 = 0 \<and> (\<exists>ctrl. reg_last (rhist u) CTRL = Some ctrl \<and> bit ctrl 27 \<and> bit ctrl 28)"
proof -
  define m :: "u16 \<Rightarrow> nat \<Rightarrow> u16" where "m = (\<lambda>p r. if r = 1 then 0x0020 else if r = 5 then 0x0400 else 0)"
  define E :: mmio where "E = (\<lambda>h q. if q = STATUS_R then 1 else mdic_chip m h q)"
  define s where "s = hw_zero\<lparr>mac := mac_zero\<lparr>mac_autoneg := True\<rparr>,
        phy := phy_zero\<lparr>media_type := e1000_media_type_copper\<rparr>,
        fc := (fc hw_zero)\<lparr>current_mode := e1000_fc_full, requested_mode := e1000_fc_full\<rparr>\<rparr>"
  have "mdic_dev m E" using mdic_chip_dev[of m] by (simp add: mdic_dev_def E_def)
  then have ok: "phy_ok m E (ret 0) skip s"
    by (simp add: phy_ok_def mdic_ok_def s_def hw_zero_def phy_zero_def)
  have c: "m88_content m s 1 = 0x0020" "m88_content m s 5 = 0x0400"
    by (simp_all add: m88_content_def s_def hw_zero_def phy_get_def m_def)
  have b: "bit (0x0020 :: u16) 5" "bit (0x0400 :: u16) 10" "\<not> bit (0x0400 :: u16) 11"
    by (simp_all add: bit_numeral_rec)
  have st: "media_type (phy s) = e1000_media_type_copper" "mac_autoneg (mac s)" "\<not> autoneg_failed (mac s)"
      "current_mode (fc s) = e1000_fc_full" "requested_mode (fc s) = e1000_fc_full"
    by (simp_all add: s_def hw_zero_def mac_zero_def)
  have "bit (m88_content m s PHY_STATUS) 5" "E h STATUS_R AND 1 \<noteq> 0" for h
    using b c by (simp_all add: E_def)
  from fc_negotiation[OF ok st _ this] show ?thesis
    unfolding Let_def m_def[symmetric] E_def[symmetric] s_def[symmetric]
    by (auto simp: c b Let_def split_def ieee_rx_def ieee_tx_def wants_tx_def)
qed

end
