(* ===== verification/Manage.thy ===== *)
theory Manage
  imports Nvm
begin

text \<open>
  The management interface, e1000_manage.c: the host interface RAM through which a command is
  handed to the management firmware, and the decisions about management traffic.  Buffers and
  structures that the code accesses as bytes are bytes here; the host is little-endian, as the
  32-bit accesses to them assume.
\<close>

abbreviation MANC :: u32 where "MANC \<equiv> 0x05820"
abbreviation FACTPS :: u32 where "FACTPS \<equiv> 0x05B30"
abbreviation FWSM :: u32 where "FWSM \<equiv> 0x05B54"
abbreviation HOST_IF :: u32 where "HOST_IF \<equiv> 0x08800"
abbreviation HICR :: u32 where "HICR \<equiv> 0x08F00"
abbreviation HICR_C :: u32 where "HICR_C \<equiv> 0x02"

section \<open>Bytes of a double word\<close>

definition put_byte :: "nat \<Rightarrow> u8 \<Rightarrow> u32 \<Rightarrow> u32" where
  "put_byte j b data = (data AND NOT (push_bit (8 * j) 0xFF)) OR push_bit (8 * j) (ucast b)"

definition byte_of :: "nat \<Rightarrow> u32 \<Rightarrow> u8" where
  "byte_of j data = ucast (drop_bit (8 * j) data)"

definition bytes32 :: "u32 \<Rightarrow> u8 list" where
  "bytes32 v = map (\<lambda>j. byte_of j v) [0..<4]"

definition word32 :: "u8 list \<Rightarrow> u32" where
  "word32 bs = fold (\<lambda>j v. put_byte j (bs ! j) v) [0..<4] 0"

section \<open>Checksum and host interface\<close>

text \<open>\<open>e1000_calculate_checksum\<close> over the first \<open>length\<close> bytes.\<close>

definition e1000_calculate_checksum :: "u8 list \<Rightarrow> nat \<Rightarrow> u8" where
  "e1000_calculate_checksum buffer n = 0 - fold (\<lambda>i v. v + buffer ! i) [0..<n] 0"

definition e1000_mng_enable_host_if_generic :: "mmio \<Rightarrow> (e1000_hw, int) state" where
  "e1000_mng_enable_host_if_generic E = do {
     hicr \<leftarrow> er32 E HICR;
     (if hicr AND 0x01 = 0 then ret (- E1000_ERR_HOST_INTERFACE_COMMAND)
      else do {
        r \<leftarrow> poll 10 (er32 E HICR) (\<lambda>hicr. hicr AND HICR_C = 0);
        ret (if r = None then - E1000_ERR_HOST_INTERFACE_COMMAND else 0) }) }"

definition e1000_check_mng_mode_generic :: "mmio \<Rightarrow> (e1000_hw, bool) state" where
  "e1000_check_mng_mode_generic E = do {
     fwsm \<leftarrow> er32 E FWSM;
     ret (fwsm AND 0xE = push_bit 1 0x3) }"

section \<open>Writing a command\<close>

text \<open>
  \<open>buf i\<close> is the byte \<open>i\<close> of the memory from the buffer pointer on.  One run of the inner loop:
  the bytes \<open>js\<close> of the double word come from the buffer as long as \<open>j < lim\<close> and are zero
  after that; the state is the double word, the running sum, and the buffer position.
\<close>

definition put_step :: "(nat \<Rightarrow> u8) \<Rightarrow> nat \<Rightarrow> nat \<Rightarrow> u32 \<times> u8 \<times> nat \<Rightarrow> u32 \<times> u8 \<times> nat" where
  "put_step buf lim j st = (case st of (data, csum, p) \<Rightarrow>
     if j < lim then (put_byte j (buf p) data, csum + buf p, p + 1)
     else (put_byte j 0 data, csum, p))"

definition put_bytes :: "(nat \<Rightarrow> u8) \<Rightarrow> nat \<Rightarrow> nat list \<Rightarrow> u32 \<times> u8 \<times> nat \<Rightarrow> u32 \<times> u8 \<times> nat" where
  "put_bytes buf lim js st = fold (put_step buf lim) js st"

fun put_dwords :: "(nat \<Rightarrow> u8) \<Rightarrow> u32 \<Rightarrow> nat \<Rightarrow> nat \<Rightarrow> u32 \<times> u8 \<times> nat \<Rightarrow>
    (e1000_hw, u32 \<times> u8 \<times> nat) state" where
  "put_dwords buf off i 0 st = ret st"
| "put_dwords buf off i (Suc n) st = (case put_bytes buf 4 [0..<4] st of (data, csum, p) \<Rightarrow> do {
     ew32 (reg_array HOST_IF (off + of_nat i)) data;
     put_dwords buf off (Suc i) n (data, csum, p) })"

text \<open>
  The unaligned start: the double word at the offset is read and its upper bytes replaced;
  \<open>length\<close> is reduced modulo \<open>2^16\<close>.
\<close>

definition put_head :: "mmio \<Rightarrow> (nat \<Rightarrow> u8) \<Rightarrow> u16 \<Rightarrow> u16 \<Rightarrow> u8 \<Rightarrow>
    (e1000_hw, u16 \<times> u16 \<times> (u32 \<times> u8 \<times> nat)) state" where
  "put_head E buf len offset csum = (let prev = unat (offset AND 3); off = drop_bit 2 offset in
     if prev \<noteq> 0 then do {
       data \<leftarrow> er32 E (reg_array HOST_IF (ucast off));
       (case put_bytes buf 4 [prev..<4] (data, csum, 0) of (data, csum, p) \<Rightarrow> do {
          ew32 (reg_array HOST_IF (ucast off)) data;
          ret (len - of_nat (4 - prev), off + 1, (data, csum, p)) }) }
     else ret (len, off, (0, csum, 0)))"

text \<open>The code, and the sum the caller finds behind its pointer.\<close>

definition e1000_mng_host_if_write_generic ::
  "mmio \<Rightarrow> (nat \<Rightarrow> u8) \<Rightarrow> u16 \<Rightarrow> u16 \<Rightarrow> u8 \<Rightarrow> (e1000_hw, int \<times> u8) state" where
  "e1000_mng_host_if_write_generic E buf len offset csum =
     (if len = 0 \<or> uint offset + uint len > 0x6F8 then ret (- E1000_ERR_PARAM, csum)
      else do {
        (len, off, st) \<leftarrow> put_head E buf len offset csum;
        (let remaining = len AND 3; n = unat (drop_bit 2 (len - remaining)) in do {
          st \<leftarrow> put_dwords buf (ucast off) 0 n st;
          (if remaining \<noteq> 0 then
             (case put_bytes buf (unat remaining) [0..<4] st of (data, csum, p) \<Rightarrow> do {
                ew32 (reg_array HOST_IF (ucast off + of_nat n)) data;
                ret (0, csum) })
           else ret (0, fst (snd st))) }) })"

record e1000_host_mng_command_header =
  command_id :: u8
  hdr_checksum :: u8
  reserved1 :: u16
  reserved2 :: u16
  command_length :: u16

text \<open>The eight bytes of the structure.\<close>

definition hdr_bytes :: "e1000_host_mng_command_header \<Rightarrow> u8 list" where
  "hdr_bytes h = [command_id h, hdr_checksum h, lo8 (reserved1 h), hi8 (reserved1 h),
     lo8 (reserved2 h), hi8 (reserved2 h), lo8 (command_length h), hi8 (command_length h)]"

text \<open>The checksum stored in the caller's structure is the second result.\<close>

definition e1000_mng_write_cmd_header_generic ::
  "mmio \<Rightarrow> e1000_host_mng_command_header \<Rightarrow> (e1000_hw, int \<times> e1000_host_mng_command_header) state" where
  "e1000_mng_write_cmd_header_generic E hdr =
     (let hdr = hdr\<lparr>hdr_checksum := e1000_calculate_checksum (hdr_bytes hdr) 8\<rparr> in do {
       for_each [0..<2] (\<lambda>i. do {
         ew32 (reg_array HOST_IF (of_nat i)) (word32 (take 4 (drop (4 * i) (hdr_bytes hdr))));
         e1e_flush E });
       ret (0, hdr) })"

definition e1000e_mng_write_dhcp_info ::
  "mmio \<Rightarrow> (e1000_hw, int) state \<Rightarrow>
   ((nat \<Rightarrow> u8) \<Rightarrow> u16 \<Rightarrow> u16 \<Rightarrow> u8 \<Rightarrow> (e1000_hw, int \<times> u8) state) \<Rightarrow>
   (e1000_host_mng_command_header \<Rightarrow> (e1000_hw, int \<times> e1000_host_mng_command_header) state) \<Rightarrow>
   (nat \<Rightarrow> u8) \<Rightarrow> u16 \<Rightarrow> (e1000_hw, int) state" where
  "e1000e_mng_write_dhcp_info E mng_enable_host_if mng_host_if_write mng_write_cmd_header buffer len =
     (let hdr = \<lparr>command_id = 64, hdr_checksum = 0, reserved1 = 0, reserved2 = 0, command_length = len\<rparr>
      in do {
        r \<leftarrow> mng_enable_host_if;
        (if r \<noteq> 0 then ret r else do {
          (r, csum) \<leftarrow> mng_host_if_write buffer len 8 (hdr_checksum hdr);
          (if r \<noteq> 0 then ret r else do {
            (r, hdr) \<leftarrow> mng_write_cmd_header (hdr\<lparr>hdr_checksum := csum\<rparr>);
            (if r \<noteq> 0 then ret r else do {
              hicr \<leftarrow> er32 E HICR;
              ew32 HICR (hicr OR HICR_C);
              ret 0 }) }) }) })"

section \<open>Decisions about management traffic\<close>

text \<open>
  The cookie: signature (4 bytes), status, reserved, VLAN (2), reserved (7), checksum in byte 15.
  \<open>check_mng_mode\<close> and \<open>mng_enable_host_if\<close> are the function pointers.
\<close>

definition cookie_parsing :: "u8 list \<Rightarrow> bool" where
  "cookie_parsing c =
     (let c' = c[15 := 0] in
      if c ! 15 \<noteq> e1000_calculate_checksum c' 16 then True
      else if word32 (take 4 c') \<noteq> 0x544D4149 then True
      else c' ! 4 AND 0x1 \<noteq> 0)"

fun read_cookie :: "mmio \<Rightarrow> nat list \<Rightarrow> (e1000_hw, u8 list) state" where
  "read_cookie E [] = ret []"
| "read_cookie E (i # is) = do {
     v \<leftarrow> er32 E (reg_array HOST_IF (0x1BC + of_nat i));
     rest \<leftarrow> read_cookie E is;
     ret (bytes32 v @ rest) }"

definition set_tx_filter :: "bool \<Rightarrow> (e1000_hw, bool) state" where
  "set_tx_filter b = do { set_mac (\<lambda>m. m\<lparr>tx_pkt_filtering := b\<rparr>); ret b }"

definition e1000e_enable_tx_pkt_filtering ::
  "mmio \<Rightarrow> (e1000_hw, bool) state \<Rightarrow> (e1000_hw, int) state \<Rightarrow> (e1000_hw, bool) state" where
  "e1000e_enable_tx_pkt_filtering E check_mng_mode mng_enable_host_if = do {
     on \<leftarrow> check_mng_mode;
     (if \<not> on then set_tx_filter False
      else do {
        r \<leftarrow> mng_enable_host_if;
        (if r \<noteq> 0 then set_tx_filter False
         else do {
           c \<leftarrow> read_cookie E [0..<4];
           modify (\<lambda>s. s\<lparr>mng_cookie := c[15 := 0]\<rparr>);
           set_tx_filter (cookie_parsing c) }) }) }"

definition e1000e_enable_mng_pass_thru :: "mmio \<Rightarrow> (e1000_hw, bool) state" where
  "e1000e_enable_mng_pass_thru E = do {
     m \<leftarrow> gets mac;
     (if \<not> asf_firmware_present m then ret False
      else do {
        manc \<leftarrow> er32 E MANC;
        (if manc AND 0x00020000 = 0 \<or> manc AND 0x00100000 = 0 then ret False
         else if arc_subsystem_valid m then do {
           fwsm \<leftarrow> er32 E FWSM;
           factps \<leftarrow> er32 E FACTPS;
           ret (factps AND 0x20000000 = 0 \<and> fwsm AND 0xE = push_bit 1 2) }
         else ret (manc AND 0x00000001 \<noteq> 0 \<and> manc AND 0x00000002 = 0)) }) }"

end
