(* ===== verification/ManageProps.thy ===== *)
theory ManageProps
  imports Manage
begin

text \<open>
  The command the firmware finds in the host interface RAM: bytes of double words, the loops of
  the write as lists of events, and the whole command.
\<close>

section \<open>Bytes and double words\<close>

lemma bit_put_byte:
  "j < 4 \<Longrightarrow> bit (put_byte j b d) n = (if 8 * j \<le> n \<and> n < 8 * j + 8 then bit b (n - 8 * j) else bit d n)"
  unfolding put_byte_def word_FF_mask
  by (auto simp: bit_simps dest: bit_imp_le_length)

lemma byte_of_put_byte: "j < 4 \<Longrightarrow> k < 4 \<Longrightarrow> byte_of k (put_byte j b d) = (if k = j then b else byte_of k d)"
  by (rule bit_word_eqI) (auto simp: byte_of_def bit_unsigned_iff bit_drop_bit_eq bit_put_byte)

lemma bytes32_put_byte: "j < 4 \<Longrightarrow> bytes32 (put_byte j b d) = (bytes32 d)[j := b]"
  by (rule nth_equalityI) (auto simp: bytes32_def byte_of_put_byte nth_list_update simp del: upt_Suc)

lemma bytes32_length [simp]: "length (bytes32 d) = 4"
  by (simp add: bytes32_def)

lemma upt4: "[0..<4] = [0, 1, 2, 3 :: nat]"
  by (simp add: upt_conv_Cons)

lemma update_all4: "length xs = 4 \<Longrightarrow> xs[0 := a, 1 := b, 2 := c, 3 := d] = [a, b, c, d]"
  by (auto simp: length_Suc_conv numeral_eq_Suc)

lemma bytes32_word32: "length bs = 4 \<Longrightarrow> bytes32 (word32 bs) = bs"
  using update_all4[of "bytes32 0" "bs ! 0" "bs ! 1" "bs ! 2" "bs ! 3"]
  by (auto simp: word32_def upt4 bytes32_put_byte length_Suc_conv numeral_eq_Suc)

lemma put_bytes4:
  assumes "r \<le> 4"
  obtains d' where "put_bytes buf r [0..<4] (d, c, p) =
      (d', c + sum_list (map buf [p..<p + r]), p + r)"
    "bytes32 d' = map (\<lambda>j. if j < r then buf (p + j) else 0) [0..<4]"
proof -
  have s: "buf (Suc (Suc (Suc p))) = buf (p + 3)" by (simp add: numeral_3_eq_3)
  have "r = 0 \<or> r = 1 \<or> r = 2 \<or> r = 3 \<or> r = 4" using assms by linarith
  moreover have "\<exists>d'. put_bytes buf r [0..<4] (d, c, p) = (d', c + sum_list (map buf [p..<p + r]), p + r) \<and>
      bytes32 d' = map (\<lambda>j. if j < r then buf (p + j) else 0) [0..<4]"
    if "r = 0 \<or> r = 1 \<or> r = 2 \<or> r = 3 \<or> r = 4"
    using that update_all4[OF bytes32_length, of d]
    by (elim disjE)
      (simp_all add: put_bytes_def put_step_def upt4 bytes32_put_byte upt_conv_Cons add.assoc s)
  ultimately show ?thesis using that by blast
qed

section \<open>The host interface RAM\<close>

text \<open>The byte \<open>k\<close> of the RAM after the writes of a history.\<close>

definition ram_byte :: "reg_ev list \<Rightarrow> nat \<Rightarrow> u8" where
  "ram_byte h k = byte_of (k mod 4) (the (reg_last h (reg_array HOST_IF (of_nat (k div 4)))))"

definition ram_dword :: "reg_ev list \<Rightarrow> nat \<Rightarrow> u8 list" where
  "ram_dword h k = bytes32 (the (reg_last h (reg_array HOST_IF (of_nat k))))"

lemma ram_addr: "k < 0x1C0 \<Longrightarrow> unat (reg_array HOST_IF (of_nat k)) = 0x8800 + 4 * k"
proof -
  assume k: "k < 0x1C0"
  have "push_bit 2 (of_nat k :: u32) = of_nat (4 * k)"
    by (simp add: push_bit_eq_mult mult.commute)
  then have "reg_array HOST_IF (of_nat k) = of_nat (0x8800 + 4 * k)"
    by (simp add: reg_array_def)
  moreover have "unat (of_nat (0x8800 + 4 * k) :: u32) = 0x8800 + 4 * k"
    using k by (simp add: unat_of_nat take_bit_nat_eq_self del: of_nat_add of_nat_mult)
  ultimately show ?thesis by (simp only:)
qed

lemma ram_addr_inj:
  assumes "j < 0x1C0" "k < 0x1C0"
  shows "reg_array HOST_IF (of_nat j) = reg_array HOST_IF (of_nat k) \<longleftrightarrow> j = k"
proof
  assume "reg_array HOST_IF (of_nat j) = reg_array HOST_IF (of_nat k)"
  from arg_cong[OF this, of unat] show "j = k" unfolding ram_addr[OF assms(1)] ram_addr[OF assms(2)] by simp
qed simp

lemma ram_addr_HICR:
  assumes "k < 0x1C0"
  shows "reg_array HOST_IF (of_nat k) \<noteq> HICR"
proof
  assume "reg_array HOST_IF (of_nat k) = HICR"
  from arg_cong[OF this, of unat] show False unfolding ram_addr[OF assms] using assms by simp
qed

lemma ram_dword_write [simp]:
  "j < 0x1C0 \<Longrightarrow> k < 0x1C0 \<Longrightarrow> ram_dword (Wr (reg_array HOST_IF (of_nat j)) d # h) k =
    (if k = j then bytes32 d else ram_dword h k)"
  "ram_dword (Rd q d # h) k = ram_dword h k"
  "k < 0x1C0 \<Longrightarrow> ram_dword (Wr HICR d # h) k = ram_dword h k"
  using ram_addr_inj[of j k] ram_addr_HICR[of k] by (auto simp: ram_dword_def)

lemma ram_dword_write01 [simp]:
  "k < 0x1C0 \<Longrightarrow> ram_dword (Wr (reg_array HOST_IF 0) d # h) k = (if k = 0 then bytes32 d else ram_dword h k)"
  "k < 0x1C0 \<Longrightarrow> ram_dword (Wr (reg_array HOST_IF 1) d # h) k = (if k = 1 then bytes32 d else ram_dword h k)"
  using ram_dword_write(1)[of 0 k d h] ram_dword_write(1)[of 1 k d h] by simp_all

lemma ram_bytes: "map (ram_byte h) [0..<4 * n] = concat (map (ram_dword h) [0..<n])"
proof (induction n)
  case (Suc n)
  have "[0..<4 * Suc n] = [0..<4 * n] @ map (\<lambda>j. 4 * n + j) [0..<4]"
    by (simp add: upt_conv_Cons upt_add_eq_append[of 0 "4 * n" 4, simplified] numeral_eq_Suc)
  moreover have "map (\<lambda>j. ram_byte h (4 * n + j)) [0..<4] = ram_dword h n"
    by (auto simp: ram_byte_def ram_dword_def bytes32_def simp del: upt_Suc)
  ultimately show ?case using Suc by (simp add: comp_def)
qed simp

section \<open>The loops\<close>

text \<open>After the loop the double words hold the bytes of the buffer, all others are unchanged.\<close>

lemma put_dwords_wp:
  assumes "off + i + n \<le> 0x1C0"
    and "\<And>d h. (\<And>k. k < 0x1C0 \<Longrightarrow> ram_dword h k =
        (if off + i \<le> k \<and> k < off + i + n
         then map (\<lambda>j. buf (p + 4 * (k - off - i) + j)) [0..<4] else ram_dword (rhist s) k)) \<Longrightarrow>
      Q (d, c + sum_list (map buf [p..<p + 4 * n]), p + 4 * n) (s\<lparr>rhist := h\<rparr>)"
  shows "wp (put_dwords buf (of_nat off) i n (d, c, p)) Q s"
  using assms
proof (induction n arbitrary: i d c p s)
  case 0
  have "Q (d, c + sum_list (map buf [p..<p + 4 * 0]), p + 4 * 0) (s\<lparr>rhist := rhist s\<rparr>)"
    by (rule "0.prems"(2)) auto
  then show ?case by simp
next
  case (Suc n)
  obtain d' where d: "put_bytes buf 4 [0..<4] (d, c, p) = (d', c + sum_list (map buf [p..<p + 4]), p + 4)"
    "bytes32 d' = map (\<lambda>j. if j < 4 then buf (p + j) else 0) [0..<4]"
    by (rule put_bytes4[of 4]) auto
  have b: "bytes32 d' = map (\<lambda>j. buf (p + j)) [0..<4]" unfolding d(2) by (simp del: upt_Suc)
  let ?c = "c + sum_list (map buf [p..<p + 4])"
  let ?h = "Wr (reg_array HOST_IF (of_nat (off + i))) d' # rhist s"
  have split: "[p..<p + 4 * Suc n] = [p..<p + 4] @ [p + 4..<p + 4 + 4 * n]"
    using upt_add_eq_append[of p "p + 4" "4 * n"] by (simp add: add.assoc)
  have "wp (put_dwords buf (of_nat off) (Suc i) n (d', ?c, p + 4)) Q (s\<lparr>rhist := ?h\<rparr>)"
  proof (rule Suc.IH)
    fix d'' h
    assume h: "\<And>k. k < 0x1C0 \<Longrightarrow> ram_dword h k = (if off + Suc i \<le> k \<and> k < off + Suc i + n
         then map (\<lambda>j. buf (p + 4 + 4 * (k - off - Suc i) + j)) [0..<4]
         else ram_dword (rhist (s\<lparr>rhist := ?h\<rparr>)) k)"
    have "Q (d'', c + sum_list (map buf [p..<p + 4 * Suc n]), p + 4 * Suc n) (s\<lparr>rhist := h\<rparr>)"
    proof (rule Suc.prems(2))
      fix k :: nat assume k: "k < 0x1C0"
      have e: "4 + 4 * (k - off - Suc i) = 4 * (k - off - i)" if "off + Suc i \<le> k" using that by simp
      show "ram_dword h k = (if off + i \<le> k \<and> k < off + i + Suc n
          then map (\<lambda>j. buf (p + 4 * (k - off - i) + j)) [0..<4] else ram_dword (rhist s) k)"
      proof (cases "k = off + i")
        case True
        have "ram_dword ?h k = bytes32 d'" using k True by (simp del: of_nat_add)
        then show ?thesis using h[OF k] b True by (simp del: upt_Suc)
      next
        case False
        have "ram_dword ?h k = ram_dword (rhist s) k" using k False Suc.prems(1) by (simp del: of_nat_add)
        then show ?thesis using h[OF k] False e by (auto simp: add.assoc simp del: upt_Suc)
      qed
    qed
    then show "Q (d'', ?c + sum_list (map buf [p + 4..<p + 4 + 4 * n]), p + 4 + 4 * n)
        (s\<lparr>rhist := ?h\<rparr>\<lparr>rhist := h\<rparr>)"
      unfolding split by (simp add: add.assoc)
  qed (use Suc.prems(1) in simp)
  then show ?case using d(1) by (simp add: add.commute)
qed

text \<open>The lengths the code computes.\<close>

lemma len_parts:
  "unat (len AND 3) = unat (len :: u16) mod 4" "unat (drop_bit 2 (len - (len AND 3))) = unat len div 4"
proof -
  have m: "(3 :: u16) = mask 2" by (simp add: mask_eq_exp_minus_1)
  show a: "unat (len AND 3) = unat len mod 4"
    unfolding m by (simp add: unsigned_take_bit_eq take_bit_eq_mod unat_mod flip: take_bit_eq_mask)
  have "len AND 3 \<le> len" using a by (simp add: word_le_nat_alt)
  then have "unat (len - (len AND 3)) = unat len - unat len mod 4" using a by (simp add: unat_sub)
  then show "unat (drop_bit 2 (len - (len AND 3))) = unat len div 4"
    by (simp add: unsigned_drop_bit_eq drop_bit_eq_div unat_div minus_mod_eq_mult_div[of _ 4])
qed

text \<open>The double word \<open>k\<close> of a payload of \<open>l\<close> bytes that starts at double word 2.\<close>

definition payload :: "(nat \<Rightarrow> u8) \<Rightarrow> nat \<Rightarrow> nat \<Rightarrow> u8 list" where
  "payload buf l k = map (\<lambda>j. if 4 * (k - 2) + j < l then buf (4 * (k - 2) + j) else 0) [0..<4]"

lemma host_if_write_wp:
  assumes "len \<noteq> 0" "unat len + 8 \<le> 0x6F8"
    and "\<And>h. (\<And>k. k < 0x1C0 \<Longrightarrow> ram_dword h k =
        (if 2 \<le> k \<and> k < 2 + (unat len + 3) div 4 then payload buf (unat len) k else ram_dword (rhist s) k)) \<Longrightarrow>
      Q (0, c + sum_list (map buf [0..<unat len])) (s\<lparr>rhist := h\<rparr>)"
  shows "wp (e1000_mng_host_if_write_generic E buf len 8 c) Q s"
proof -
  let ?n = "unat len div 4" and ?r = "unat len mod 4"
  have "int (unat len) + 8 \<le> 0x6F8" using assms(2) by linarith
  then have le: "uint len + 8 \<le> 0x6F8" by simp
  have len: "unat len = 4 * ?n + ?r" by simp
  have loop: "wp (put_dwords buf (of_nat 2) 0 ?n (0, c, 0))
     (\<lambda>st. wp (if len AND 3 \<noteq> 0 then
             (case put_bytes buf (unat (len AND 3)) [0..<4] st of (data, csum, p) \<Rightarrow> do {
                ew32 (reg_array HOST_IF (2 + of_nat ?n)) data;
                ret (0, csum) })
           else ret (0, fst (snd st))) Q) s"
  proof (rule put_dwords_wp)
    show "2 + 0 + ?n \<le> 0x1C0" using assms(2) by simp
  next
    fix d h
    assume h: "\<And>k. k < 0x1C0 \<Longrightarrow> ram_dword h k = (if 2 + 0 \<le> k \<and> k < 2 + 0 + ?n
         then map (\<lambda>j. buf (0 + 4 * (k - 2 - 0) + j)) [0..<4] else ram_dword (rhist s) k)"
    show "wp (if len AND 3 \<noteq> 0 then
             (case put_bytes buf (unat (len AND 3)) [0..<4] (d, c + sum_list (map buf [0..<0 + 4 * ?n]), 0 + 4 * ?n) of
               (data, csum, p) \<Rightarrow> do {
                ew32 (reg_array HOST_IF (2 + of_nat ?n)) data;
                ret (0, csum) })
           else ret (0, fst (snd (d, c + sum_list (map buf [0..<0 + 4 * ?n]), 0 + 4 * ?n)))) Q (s\<lparr>rhist := h\<rparr>)"
    proof (cases "?r = 0")
      case True
      then have z: "len AND 3 = 0" using len_parts(1)[of len] by (simp add: unat_eq_0)
      have q: "(unat len + 3) div 4 = ?n" using len True by presburger
      have l: "4 * ?n = unat len" using True len by presburger
      have "Q (0, c + sum_list (map buf [0..<unat len])) (s\<lparr>rhist := h\<rparr>)"
      proof (rule assms(3))
        fix k :: nat assume k: "k < 0x1C0"
        have "4 * (k - 2) + j < unat len" if "2 \<le> k" "k < 2 + ?n" "j < 4" for j
          using that l by linarith
        then show "ram_dword h k = (if 2 \<le> k \<and> k < 2 + (unat len + 3) div 4 then payload buf (unat len) k
            else ram_dword (rhist s) k)"
          using h[OF k] unfolding q by (auto simp: payload_def simp del: upt_Suc)
      qed
      then show ?thesis using z l by simp
    next
      case False
      then have z: "len AND 3 \<noteq> 0" using len_parts(1)[of len] by (auto simp: unat_eq_0)
      have q: "(unat len + 3) div 4 = Suc ?n" using len False by presburger
      obtain d' where d': "put_bytes buf ?r [0..<4] (d, c + sum_list (map buf [0..<4 * ?n]), 4 * ?n) =
          (d', c + sum_list (map buf [0..<4 * ?n]) + sum_list (map buf [4 * ?n..<4 * ?n + ?r]), 4 * ?n + ?r)"
        "bytes32 d' = map (\<lambda>j. if j < ?r then buf (4 * ?n + j) else 0) [0..<4]"
      proof (rule put_bytes4)
        show "?r \<le> 4" by simp
      qed
      have sum: "c + sum_list (map buf [0..<4 * ?n]) + sum_list (map buf [4 * ?n..<4 * ?n + ?r]) =
          c + sum_list (map buf [0..<unat len])"
        using upt_add_eq_append[of 0 "4 * ?n" ?r] len by (simp add: add.assoc)
      have a: "(2 + of_nat ?n :: u32) = of_nat (2 + ?n)" by simp
      have "Q (0, c + sum_list (map buf [0..<unat len]))
          (s\<lparr>rhist := Wr (reg_array HOST_IF (of_nat (2 + ?n))) d' # h\<rparr>)"
      proof (rule assms(3))
        fix k :: nat assume k: "k < 0x1C0"
        have lt: "2 + ?n < 0x1C0" using assms(2) by simp
        have "4 * (k - 2) + j < unat len" if "2 \<le> k" "k < 2 + ?n" "j < 4" for j
          using that len by linarith
        moreover have "4 * ?n + j < unat len \<longleftrightarrow> j < ?r" for j using len by linarith
        ultimately show "ram_dword (Wr (reg_array HOST_IF (of_nat (2 + ?n))) d' # h) k =
            (if 2 \<le> k \<and> k < 2 + (unat len + 3) div 4 then payload buf (unat len) k else ram_dword (rhist s) k)"
          using h[OF k] ram_dword_write(1)[OF lt k, of d' h] d'(2) unfolding q
          by (auto simp: payload_def less_Suc_eq simp del: upt_Suc of_nat_add)
      qed
      then show ?thesis using z d'(1)[unfolded sum] unfolding len_parts(1) a by simp
    qed
  qed
  have "\<not> (len = 0 \<or> uint (8 :: u16) + uint len > 0x6F8)" using le assms(1) by simp
  moreover have "ucast (drop_bit 2 (len - (len AND 3))) = (of_nat ?n :: u32)"
    by (simp flip: len_parts(2))
  ultimately show ?thesis
    using loop by (simp add: e1000_mng_host_if_write_generic_def put_head_def len_parts(2) Let_def
      cong del: wp_weak_cong cong: if_cong del: wp_if split del: if_split)
qed

section \<open>The header\<close>

lemma calculate_checksum: "n \<le> length b \<Longrightarrow> e1000_calculate_checksum b n = - sum_list (take n b)"
proof -
  have "n \<le> length b \<Longrightarrow> fold (\<lambda>i v. v + b ! i) [0..<n] 0 = sum_list (take n b)" for n
    by (induction n) (simp_all add: take_Suc_conv_app_nth)
  moreover assume "n \<le> length b"
  ultimately show ?thesis by (simp add: e1000_calculate_checksum_def)
qed

lemma write_cmd_header_wp:
  assumes "\<And>h hdr'. hdr' = hdr\<lparr>hdr_checksum := - sum_list (hdr_bytes hdr)\<rparr> \<Longrightarrow>
      (\<And>k. k < 0x1C0 \<Longrightarrow> ram_dword h k = (if k = 0 then take 4 (hdr_bytes hdr')
        else if k = 1 then drop 4 (hdr_bytes hdr') else ram_dword (rhist s) k)) \<Longrightarrow>
      Q (0, hdr') (s\<lparr>rhist := h\<rparr>)"
  shows "wp (e1000_mng_write_cmd_header_generic E hdr) Q s"
proof -
  let ?hdr = "hdr\<lparr>hdr_checksum := - sum_list (hdr_bytes hdr)\<rparr>"
  have l [simp]: "length (hdr_bytes x) = 8" for x by (simp add: hdr_bytes_def)
  have c: "e1000_calculate_checksum (hdr_bytes hdr) 8 = - sum_list (hdr_bytes hdr)"
    by (simp add: calculate_checksum)
  let ?w = "\<lambda>i. word32 (take 4 (drop (4 * i) (hdr_bytes ?hdr)))"
  have "Q (0, ?hdr) (s\<lparr>rhist := Rd 8 v # Wr (reg_array HOST_IF (of_nat 1)) (?w 1) #
      Rd 8 u # Wr (reg_array HOST_IF (of_nat 0)) (?w 0) # rhist s\<rparr>)" for u v
    by (rule assms) (auto simp: bytes32_word32)
  then show ?thesis
    by (auto simp: e1000_mng_write_cmd_header_generic_def c upt_conv_Cons numeral_2_eq_2 Let_def intro!: wp_flush)
qed

lemma hdr_bytes_checksum: "sum_list (hdr_bytes (h\<lparr>hdr_checksum := x\<rparr>)) =
    sum_list (hdr_bytes (h\<lparr>hdr_checksum := 0\<rparr>)) + x"
  by (simp add: hdr_bytes_def algebra_simps)

lemma payload_concat:
  "concat (map (payload buf l) [2..<2 + n]) = map (\<lambda>i. if i < l then buf i else 0) [0..<4 * n]"
proof (induction n)
  case (Suc n)
  have "[0..<4 * Suc n] = [0..<4 * n] @ map (\<lambda>j. 4 * n + j) [0..<4]"
    by (simp add: upt_conv_Cons upt_add_eq_append[of 0 "4 * n" 4, simplified] numeral_eq_Suc)
  moreover have "payload buf l (2 + n) = map (\<lambda>j. if 4 * n + j < l then buf (4 * n + j) else 0) [0..<4]"
    by (simp add: payload_def)
  ultimately show ?case using Suc by (simp add: comp_def)
qed simp

lemma concat_head2: "concat (map f [0..<2 + n]) = f 0 @ f 1 @ concat (map f [2..<2 + n])"
proof -
  have "[0..<2 + n] = 0 # 1 # [2..<2 + n]" by (simp add: upt_conv_Cons numeral_2_eq_2)
  then show ?thesis by (simp del: upt_Suc)
qed

lemma payload_all:
  "concat (map (payload buf l) [2..<2 + (l + 3) div 4]) =
    map buf [0..<l] @ replicate (4 * ((l + 3) div 4) - l) 0"
  unfolding payload_concat
  by (rule nth_equalityI) (auto simp: nth_append)

section \<open>The whole command\<close>

definition dhcp_header :: "u16 \<Rightarrow> u8 \<Rightarrow> e1000_host_mng_command_header" where
  "dhcp_header len c =
     \<lparr>command_id = 64, hdr_checksum = c, reserved1 = 0, reserved2 = 0, command_length = len\<rparr>"

lemma dhcp_header_checksum: "sum_list (hdr_bytes (dhcp_header len (- sum_list (hdr_bytes (dhcp_header len x))))) + x = 0"
  using hdr_bytes_checksum[where h = "dhcp_header len 0" and x = x]
    hdr_bytes_checksum[where h = "dhcp_header len 0" and x = "- sum_list (hdr_bytes (dhcp_header len x))"]
  by (simp add: dhcp_header_def)

lemma ram_image:
  assumes "2 + (l + 3) div 4 \<le> 0x1C0"
    and h: "\<And>k. k < 0x1C0 \<Longrightarrow> ram_dword h k =
        (if 2 \<le> k \<and> k < 2 + (l + 3) div 4 then payload buf l k else old k)"
    and g: "\<And>k. k < 0x1C0 \<Longrightarrow> ram_dword g k =
        (if k = 0 then take 4 (hdr_bytes hdr) else if k = 1 then drop 4 (hdr_bytes hdr) else ram_dword h k)"
  shows "concat (map (ram_dword g) [0..<2 + (l + 3) div 4]) =
    hdr_bytes hdr @ map buf [0..<l] @ replicate (4 * ((l + 3) div 4) - l) 0"
proof -
  have "map (ram_dword g) [2..<2 + (l + 3) div 4] = map (payload buf l) [2..<2 + (l + 3) div 4]"
    using g h assms(1) by (intro map_cong) auto
  moreover have "ram_dword g 0 @ ram_dword g 1 = hdr_bytes hdr" using g[of 0] g[of 1] by simp
  ultimately show ?thesis unfolding concat_head2 payload_all[symmetric] by (metis append.assoc)
qed

definition dhcp_sent :: "(nat \<Rightarrow> u8) \<Rightarrow> u16 \<Rightarrow> u8 \<Rightarrow> reg_ev list \<Rightarrow> bool" where
  "dhcp_sent buf len c h \<longleftrightarrow>
     concat (map (ram_dword h) [0..<2 + (unat len + 3) div 4]) = hdr_bytes (dhcp_header len c) @
       map buf [0..<unat len] @ replicate (4 * ((unat len + 3) div 4) - unat len) 0 \<and>
     sum_list (hdr_bytes (dhcp_header len c)) + sum_list (map buf [0..<unat len]) = 0"

lemma write_dhcp_wp:
  assumes "0 < len" "unat len \<le> 0x6F0" "val_of (e1000_mng_enable_host_if_generic E) s = 0"
    and Q: "\<And>c v h t. dhcp_sent buf len c h \<Longrightarrow> rhist t = Wr HICR (v OR HICR_C) # h \<Longrightarrow> Q 0 t"
  shows "wp (e1000e_mng_write_dhcp_info E (e1000_mng_enable_host_if_generic E)
    (e1000_mng_host_if_write_generic E) (e1000_mng_write_cmd_header_generic E) buf len) Q s"
proof -
  let ?l = "unat len"
  define send where "send = (\<lambda>(r :: int, hdr :: e1000_host_mng_command_header). (if r \<noteq> 0 then ret r else do {
      hicr \<leftarrow> er32 E HICR;
      ew32 HICR (hicr OR HICR_C);
      ret 0 }) :: (e1000_hw, int) state)"
  define head where "head = (\<lambda>(r :: int, csum). if r \<noteq> 0 then ret r
      else e1000_mng_write_cmd_header_generic E ((dhcp_header len 0)\<lparr>hdr_checksum := csum\<rparr>) \<bind> send)"
  define t0 where "t0 = exec (e1000_mng_enable_host_if_generic E) s"
  have n: "2 + (?l + 3) div 4 \<le> 0x1C0" using assms(2) by simp
  have "wp (e1000_mng_host_if_write_generic E buf len 8 0) (\<lambda>x. wp (head x) Q) t0"
  proof (rule host_if_write_wp)
    fix h assume h: "\<And>k. k < 0x1C0 \<Longrightarrow> ram_dword h k =
        (if 2 \<le> k \<and> k < 2 + (?l + 3) div 4 then payload buf ?l k else ram_dword (rhist t0) k)"
    let ?x = "0 + sum_list (map buf [0..<?l])"
    have "wp (e1000_mng_write_cmd_header_generic E (dhcp_header len ?x)) (\<lambda>x. wp (send x) Q) (t0\<lparr>rhist := h\<rparr>)"
    proof (rule write_cmd_header_wp)
      fix g hdr'
      let ?c = "- sum_list (hdr_bytes (dhcp_header len ?x))"
      assume "hdr' = (dhcp_header len ?x)\<lparr>hdr_checksum := ?c\<rparr>"
        and g: "\<And>k. k < 0x1C0 \<Longrightarrow> ram_dword g k = (if k = 0 then take 4 (hdr_bytes hdr')
          else if k = 1 then drop 4 (hdr_bytes hdr') else ram_dword (rhist (t0\<lparr>rhist := h\<rparr>)) k)"
      then have hdr': "hdr' = dhcp_header len ?c" by (simp add: dhcp_header_def)
      have "ram_dword (Rd HICR v # g) = ram_dword g" for v by (rule ext) simp
      then have sent: "dhcp_sent buf len ?c (Rd HICR v # g)" for v
        using ram_image[OF n h, where g = g and hdr = hdr'] g dhcp_header_checksum[of len ?x] by (simp add: dhcp_sent_def hdr')
      then show "wp (send (0, hdr')) Q (t0\<lparr>rhist := h\<rparr>\<lparr>rhist := g\<rparr>)"
        by (auto simp: send_def intro!: wp_er32_any Q[OF sent])
    qed
    then show "wp (head (0, ?x)) Q (t0\<lparr>rhist := h\<rparr>)" by (simp add: head_def dhcp_header_def)
  qed (use assms in auto)
  then show ?thesis
    using assms(3) unfolding head_def send_def dhcp_header_def
    by (simp add: e1000e_mng_write_dhcp_info_def Let_def wp_iff[of "e1000_mng_enable_host_if_generic E"] t0_def)
qed

lemma dhcp_sent_bytes:
  assumes "dhcp_sent buf len c h"
  shows "map (ram_byte h) [0..<8 + 4 * ((unat len + 3) div 4)] = hdr_bytes (dhcp_header len (ram_byte h 1)) @
      map buf [0..<unat len] @ replicate (4 * ((unat len + 3) div 4) - unat len) 0"
    and "sum_list (map (ram_byte h) [0..<8 + 4 * ((unat len + 3) div 4)]) = 0"
proof -
  let ?n = "(unat len + 3) div 4"
  have b: "map (ram_byte h) [0..<8 + 4 * ?n] = hdr_bytes (dhcp_header len c) @
      map buf [0..<unat len] @ replicate (4 * ?n - unat len) 0"
    using ram_bytes[of h "2 + ?n"] assms by (simp only: distrib_left dhcp_sent_def) simp
  moreover have "ram_byte h 1 = c"
    using arg_cong[OF b, of "\<lambda>x. x ! 1"] by (simp add: hdr_bytes_def dhcp_header_def del: upt_Suc)
  ultimately show "map (ram_byte h) [0..<8 + 4 * ?n] = hdr_bytes (dhcp_header len (ram_byte h 1)) @
      map buf [0..<unat len] @ replicate (4 * ?n - unat len) 0" by simp
  show "sum_list (map (ram_byte h) [0..<8 + 4 * ?n]) = 0"
    using assms unfolding b dhcp_sent_def by (simp add: sum_list_replicate)
qed

text \<open>
  C24: what the firmware finds when the command bit is set.  For a payload of 1 to 1776 bytes
  and a host interface that is enabled and idle, \<open>e1000e_mng_write_dhcp_info\<close> (with the generic
  operations) returns zero; the RAM then starts with the eight bytes of the command header
  (identifier 64, the payload length), followed by the payload, padded with zeros to a double
  word; all bytes together sum to zero; and the last event of the driver sets the command bit.
\<close>

theorem mng_command_written:
  assumes "0 < len" "unat len \<le> 0x6F0" "val_of (e1000_mng_enable_host_if_generic E) s = 0"
  shows "let (r, t) = run_state (e1000e_mng_write_dhcp_info E (e1000_mng_enable_host_if_generic E)
        (e1000_mng_host_if_write_generic E) (e1000_mng_write_cmd_header_generic E) buf len) s;
      n = (unat len + 3) div 4; h = tl (rhist t);
      hdr = \<lparr>command_id = 64, hdr_checksum = ram_byte h 1, reserved1 = 0, reserved2 = 0, command_length = len\<rparr>
    in r = 0 \<and>
       map (ram_byte h) [0..<8 + 4 * n] =
         hdr_bytes hdr @ map buf [0..<unat len] @ replicate (4 * n - unat len) 0 \<and>
       sum_list (map (ram_byte h) [0..<8 + 4 * n]) = 0 \<and>
       (\<exists>v. hd (rhist t) = Wr HICR (v OR HICR_C))"
proof -
  let ?m = "e1000e_mng_write_dhcp_info E (e1000_mng_enable_host_if_generic E)
    (e1000_mng_host_if_write_generic E) (e1000_mng_write_cmd_header_generic E) buf len"
  have "wp ?m (\<lambda>r t. r = 0 \<and> (\<exists>c v h. dhcp_sent buf len c h \<and> rhist t = Wr HICR (v OR HICR_C) # h)) s"
    using assms by (rule write_dhcp_wp) blast
  then obtain c v h where "val_of ?m s = 0" "rhist (exec ?m s) = Wr HICR (v OR HICR_C) # h"
    and h: "dhcp_sent buf len c h" unfolding wp_iff by blast
  then show ?thesis
    using dhcp_sent_bytes[OF h] by (auto simp: Let_def split_def dhcp_header_def simp del: upt_Suc)
qed

theorem mng_command_written_witness:
  "let E = (\<lambda>h q. if q = HICR then 1 else 0);
      (r, t) = run_state (e1000e_mng_write_dhcp_info E (e1000_mng_enable_host_if_generic E)
        (e1000_mng_host_if_write_generic E) (e1000_mng_write_cmd_header_generic E) (\<lambda>i. of_nat i + 1) 5) hw_zero;
      h = tl (rhist t)
    in r = 0 \<and> map (ram_byte h) [0..<16] =
        [64, ram_byte h 1, 0, 0, 0, 0, 5, 0, 1, 2, 3, 4, 5, 0, 0, 0] \<and>
      sum_list (map (ram_byte h) [0..<16]) = 0"
proof -
  let ?E = "\<lambda>h q :: u32. if q = HICR then 1 else (0 :: u32)"
  have ready: "val_of (e1000_mng_enable_host_if_generic ?E) hw_zero = 0"
    by (simp add: e1000_mng_enable_host_if_generic_def numeral_eq_Suc)
  have h: "0 < (5 :: u16)" "unat (5 :: u16) \<le> 0x6F0" by simp_all
  note w = mng_command_written[OF h ready, of "\<lambda>i. of_nat i + 1"]
  have e: "(5 + 3) div 4 = (2 :: nat)" "unat (5 :: u16) = 5" "(8 :: nat) + 4 * 2 = 16"
    by simp_all
  have p: "hdr_bytes \<lparr>command_id = 64, hdr_checksum = c, reserved1 = 0, reserved2 = 0, command_length = 5\<rparr> @
      map (\<lambda>i. of_nat i + 1) [0..<5] @ replicate (4 * 2 - 5) 0 =
      [64, c, 0, 0, 0, 0, 5, 0, 1, 2, 3, 4, 5, 0, 0, 0]" for c
  proof -
    have "[0..<5] = [0, 1, 2, 3, 4 :: nat]" by (simp add: upt_conv_Cons)
    moreover have "replicate (4 * 2 - 5) (0 :: u8) = [0, 0, 0]" by (simp add: numeral_3_eq_3)
    moreover have "lo8 5 = 5" "hi8 5 = 0" "lo8 0 = 0" "hi8 0 = 0" by (simp_all add: lo8_def hi8_def)
    ultimately show ?thesis by (simp add: hdr_bytes_def)
  qed
  show ?thesis
    using w unfolding Let_def split_def e p by blast
qed

end
