(* ===== verification/MacMisc.thy ===== *)
theory MacMisc
  imports MacFc
begin

text \<open>
  The rest of e1000_mac.c: hardware semaphore, NVM auto-read, LEDs, PCI Express, adaptive
  inter-frame spacing.
\<close>

abbreviation SWSM :: u32 where "SWSM \<equiv> 0x05B50"
abbreviation LEDCTL :: u32 where "LEDCTL \<equiv> 0x00E00"
abbreviation GCR :: u32 where "GCR \<equiv> 0x05B00"
abbreviation AIT :: u32 where "AIT \<equiv> 0x00458"

section \<open>Semaphore\<close>

definition e1000e_put_hw_semaphore :: "mmio \<Rightarrow> (e1000_hw, unit) state" where
  "e1000e_put_hw_semaphore E = do {
     swsm \<leftarrow> er32 E SWSM;
     ew32 SWSM (swsm AND NOT (0x01 OR 0x02)) }"

text \<open>One attempt to take the firmware half: set the bit and see whether it stays.\<close>

definition try_swesmbi :: "mmio \<Rightarrow> (e1000_hw, u32) state" where
  "try_swesmbi E = do {
     swsm \<leftarrow> er32 E SWSM;
     ew32 SWSM (swsm OR 0x02);
     er32 E SWSM }"

definition e1000e_get_hw_semaphore :: "mmio \<Rightarrow> (e1000_hw, int) state" where
  "e1000e_get_hw_semaphore E = do {
     timeout \<leftarrow> gets (\<lambda>s. unat (word_size (nvm s)) + 1);
     r \<leftarrow> poll timeout (er32 E SWSM) (\<lambda>swsm. swsm AND 0x01 = 0);
     (if r = None then ret (- E1000_ERR_NVM)
      else do {
        r \<leftarrow> poll timeout (try_swesmbi E) (\<lambda>swsm. swsm AND 0x02 \<noteq> 0);
        (if r = None then do { e1000e_put_hw_semaphore E; ret (- E1000_ERR_NVM) }
         else ret 0) }) }"

definition e1000e_get_auto_rd_done :: "mmio \<Rightarrow> (e1000_hw, int) state" where
  "e1000e_get_auto_rd_done E = do {
     r \<leftarrow> poll 10 (er32 E EECD) (\<lambda>v. v AND 0x00000200 \<noteq> 0);
     ret (if r = None then - E1000_ERR_RESET else 0) }"

section \<open>LEDs\<close>

definition e1000e_valid_led_default ::
  "(u16 \<Rightarrow> nat \<Rightarrow> (e1000_hw, int + u16 list) state) \<Rightarrow> (e1000_hw, int + u16) state" where
  "e1000e_valid_led_default rd = do {
     r \<leftarrow> rd 0x0004 1;
     when_ok r (\<lambda>d. ret (Inr (if hd d = 0x0000 \<or> hd d = 0xFFFF then 0x8911 else hd d))) }"

text \<open>The mode fields of LED \<open>i\<close> in the two registers, from its four bits of the NVM word.\<close>

definition led_field :: "nat \<Rightarrow> u32 \<Rightarrow> u32 \<Rightarrow> u32" where
  "led_field i mode v = (v AND NOT (push_bit (8 * i) 0xFF)) OR push_bit (8 * i) mode"

definition led_mode1 :: "nat \<Rightarrow> u16 \<Rightarrow> u32 \<Rightarrow> u32" where
  "led_mode1 i temp v =
     (if temp = 4 \<or> temp = 5 \<or> temp = 6 then led_field i 0xE v
      else if temp = 7 \<or> temp = 8 \<or> temp = 9 then led_field i 0xF v else v)"

definition led_mode2 :: "nat \<Rightarrow> u16 \<Rightarrow> u32 \<Rightarrow> u32" where
  "led_mode2 i temp v =
     (if temp = 2 \<or> temp = 5 \<or> temp = 8 then led_field i 0xE v
      else if temp = 3 \<or> temp = 6 \<or> temp = 9 then led_field i 0xF v else v)"

definition e1000e_id_led_init :: "mmio \<Rightarrow> (e1000_hw, int + u16) state \<Rightarrow> (e1000_hw, int) state" where
  "e1000e_id_led_init E valid_led_default = rd_ok valid_led_default (\<lambda>data. do {
     v \<leftarrow> er32 E LEDCTL;
     set_mac (\<lambda>m. m\<lparr>ledctl_default := v, ledctl_mode1 := v, ledctl_mode2 := v\<rparr>);
     for_each [0..<4] (\<lambda>i. let temp = drop_bit (4 * i) data AND 0x0F in
       set_mac (\<lambda>m. m\<lparr>ledctl_mode1 := led_mode1 i temp (ledctl_mode1 m),
                       ledctl_mode2 := led_mode2 i temp (ledctl_mode2 m)\<rparr>));
     ret 0 })"

text \<open>
  The two functions below refuse to run when the function pointer in the structure is another
  one: \<open>own\<close> says that it is this one.
\<close>

definition e1000_setup_led_generic :: "mmio \<Rightarrow> bool \<Rightarrow> (e1000_hw, int) state" where
  "e1000_setup_led_generic E own =
     (if \<not> own then ret (- E1000_ERR_CONFIG)
      else do {
        media \<leftarrow> gets (\<lambda>s. media_type (phy s));
        (if media = e1000_media_type_fiber then do {
           ledctl \<leftarrow> er32 E LEDCTL;
           set_mac (\<lambda>m. m\<lparr>ledctl_default := ledctl\<rparr>);
           ew32 LEDCTL ((ledctl AND NOT (0x40 OR 0x80 OR 0x0F)) OR 0xF) }
         else if media = e1000_media_type_copper then do {
           v \<leftarrow> gets (\<lambda>s. ledctl_mode1 (mac s));
           ew32 LEDCTL v }
         else skip);
        ret 0 })"

definition e1000e_cleanup_led_generic :: "bool \<Rightarrow> (e1000_hw, int) state" where
  "e1000e_cleanup_led_generic own =
     (if \<not> own then ret (- E1000_ERR_CONFIG)
      else do {
        v \<leftarrow> gets (\<lambda>s. ledctl_default (mac s));
        ew32 LEDCTL v;
        ret 0 })"

definition blink_bits :: "u32 \<Rightarrow> u32" where
  "blink_bits mode2 = fold (\<lambda>i v. if drop_bit (i * 8) mode2 AND 0xFF = 0xE
     then v OR push_bit (i * 8) 0x80 else v) [0..<4] mode2"

definition e1000e_blink_led :: "(e1000_hw, int) state" where
  "e1000e_blink_led = do {
     media \<leftarrow> gets (\<lambda>s. media_type (phy s));
     mode2 \<leftarrow> gets (\<lambda>s. ledctl_mode2 (mac s));
     ew32 LEDCTL (if media = e1000_media_type_fiber then 0x80 OR 0xE else blink_bits mode2);
     ret 0 }"

definition led_switch :: "mmio \<Rightarrow> (u32 \<Rightarrow> u32) \<Rightarrow> (e1000_mac_info \<Rightarrow> u32) \<Rightarrow> (e1000_hw, int) state" where
  "led_switch E pin mode = do {
     media \<leftarrow> gets (\<lambda>s. media_type (phy s));
     (case media of
        e1000_media_type_fiber \<Rightarrow> do { ctrl \<leftarrow> er32 E CTRL; ew32 CTRL (pin ctrl OR 0x00400000) }
      | e1000_media_type_copper \<Rightarrow> do { v \<leftarrow> gets (\<lambda>s. mode (mac s)); ew32 LEDCTL v }
      | _ \<Rightarrow> skip);
     ret 0 }"

definition e1000e_led_on_generic :: "mmio \<Rightarrow> (e1000_hw, int) state" where
  "e1000e_led_on_generic E = led_switch E (\<lambda>c. c AND NOT 0x00040000) ledctl_mode2"

definition e1000e_led_off_generic :: "mmio \<Rightarrow> (e1000_hw, int) state" where
  "e1000e_led_off_generic E = led_switch E (\<lambda>c. c OR 0x00040000) ledctl_mode1"

section \<open>PCI Express\<close>

definition e1000e_set_pcie_no_snoop :: "mmio \<Rightarrow> u32 \<Rightarrow> (e1000_hw, unit) state" where
  "e1000e_set_pcie_no_snoop E no_snoop = do {
     b \<leftarrow> gets (\<lambda>s. bus_type (bus s));
     (if b \<noteq> e1000_bus_type_pci_express then skip
      else if no_snoop \<noteq> 0 then do {
        gcr \<leftarrow> er32 E GCR;
        ew32 GCR ((gcr AND NOT 0x3F) OR no_snoop) }
      else skip) }"

definition e1000e_disable_pcie_master :: "mmio \<Rightarrow> (e1000_hw, int) state" where
  "e1000e_disable_pcie_master E = do {
     b \<leftarrow> gets (\<lambda>s. bus_type (bus s));
     (if b \<noteq> e1000_bus_type_pci_express then ret 0
      else do {
        ctrl \<leftarrow> er32 E CTRL;
        ew32 CTRL (ctrl OR 0x00000004);
        r \<leftarrow> poll 800 (er32 E STATUS_R) (\<lambda>v. v AND 0x00080000 = 0);
        ret (if r = None then - E1000_ERR_MASTER_REQUESTS_PENDING else 0) }) }"

section \<open>Adaptive inter-frame spacing\<close>

definition e1000e_reset_adaptive :: "(e1000_hw, unit) state" where
  "e1000e_reset_adaptive = do {
     on \<leftarrow> gets (\<lambda>s. adaptive_ifs (mac s));
     (if \<not> on then skip
      else do {
        set_mac (\<lambda>m. m\<lparr>current_ifs_val := 0, ifs_min_val := 40, ifs_max_val := 80,
          ifs_step_size := 10, ifs_ratio := 4, in_ifs_mode := False\<rparr>);
        ew32 AIT 0 }) }"

definition e1000e_update_adaptive :: "(e1000_hw, unit) state" where
  "e1000e_update_adaptive = do {
     m \<leftarrow> gets mac;
     (if \<not> adaptive_ifs m then skip
      else if collision_delta m * ucast (ifs_ratio m) > tx_packet_delta m then
        (if tx_packet_delta m > 1000 then do {
           set_mac (\<lambda>m. m\<lparr>in_ifs_mode := True\<rparr>);
           (if current_ifs_val m < ifs_max_val m then do {
              set_mac (\<lambda>m. m\<lparr>current_ifs_val := (if current_ifs_val m = 0 then ifs_min_val m
                else current_ifs_val m + ifs_step_size m)\<rparr>);
              v \<leftarrow> gets (\<lambda>s. current_ifs_val (mac s));
              ew32 AIT (ucast v) }
            else skip) }
         else skip)
      else if in_ifs_mode m \<and> tx_packet_delta m \<le> 1000 then do {
        set_mac (\<lambda>m. m\<lparr>current_ifs_val := 0, in_ifs_mode := False\<rparr>);
        ew32 AIT 0 }
      else skip) }"

end
