(* ===== verification/Hw82571.thy ===== *)
theory Hw82571
  imports MacLink MacMisc Manage Spi MacAddr
begin

text \<open>
  The 82571 family, e1000_82571.c: where the function pointers of the hardware structure are
  set, and the functions they are set to.  A pointer that this file sets is replaced by a
  definition named after it (suffix \<open>_op\<close>) that chooses, by MAC type or by medium, as the
  initialisation does; both never change after it.
\<close>

abbreviation TXDCTL0 :: u32 where "TXDCTL0 \<equiv> 0x03828"
abbreviation TXDCTL1 :: u32 where "TXDCTL1 \<equiv> 0x03928"
abbreviation TARC0 :: u32 where "TARC0 \<equiv> 0x03840"
abbreviation TARC1 :: u32 where "TARC1 \<equiv> 0x03940"
abbreviation EXTCNF_CTRL :: u32 where "EXTCNF_CTRL \<equiv> 0x00F00"
abbreviation MDIO_SW_OWNERSHIP :: u32 where "MDIO_SW_OWNERSHIP \<equiv> 0x00000020"

text \<open>The branch of the 82573, 82574 and 82583, and of the 82571 and 82572.\<close>

definition is_82573_up :: "e1000_hw \<Rightarrow> bool" where
  "is_82573_up s \<longleftrightarrow> mac_type (mac s) \<in> {e1000_82573, e1000_82574, e1000_82583}"

definition is_82571_2 :: "e1000_hw \<Rightarrow> bool" where
  "is_82571_2 s \<longleftrightarrow> mac_type (mac s) \<in> {e1000_82571, e1000_82572}"

section \<open>Semaphore\<close>

definition e1000_get_hw_semaphore_82571 :: "mmio \<Rightarrow> (e1000_hw, int) state" where
  "e1000_get_hw_semaphore_82571 E = do {
     timeout \<leftarrow> gets (\<lambda>s. unat (word_size (nvm s)) + 1);
     r \<leftarrow> poll timeout (try_swesmbi E) (\<lambda>swsm. swsm AND 0x02 \<noteq> 0);
     (if r = None then do { e1000e_put_hw_semaphore E; ret (- E1000_ERR_NVM) }
      else ret 0) }"

definition e1000_put_hw_semaphore_82571 :: "mmio \<Rightarrow> (e1000_hw, unit) state" where
  "e1000_put_hw_semaphore_82571 E = do {
     swsm \<leftarrow> er32 E SWSM;
     ew32 SWSM (swsm AND NOT 0x02) }"

section \<open>NVM\<close>

datatype e1000_nvm_override = e1000_nvm_override_none | e1000_nvm_override_spi_small
  | e1000_nvm_override_spi_large

text \<open>\<open>override\<close> is the field of \<open>e1000_nvm_info\<close>.\<close>

definition nvm_word_size :: "u32 \<Rightarrow> u16" where
  "nvm_word_size eecd = (let size = ucast (drop_bit 11 (eecd AND 0x7800)) + 6;
     size = (if size > 14 then 14 else size) in push_bit (unat (size :: u16)) 1)"

definition e1000_init_nvm_params_82571 :: "mmio \<Rightarrow> e1000_nvm_override \<Rightarrow> (e1000_hw, int) state" where
  "e1000_init_nvm_params_82571 E override = do {
     eecd \<leftarrow> er32 E EECD;
     (let large = (case override of
        e1000_nvm_override_spi_large \<Rightarrow> True
      | e1000_nvm_override_spi_small \<Rightarrow> False
      | e1000_nvm_override_none \<Rightarrow> eecd AND 0x00000400 \<noteq> 0) in
      modify (\<lambda>s. s\<lparr>nvm := (nvm s)\<lparr>opcode_bits := 8,
        page_size := (if large then 32 else 8), address_bits := (if large then 16 else 8)\<rparr>\<rparr>));
     up \<leftarrow> gets is_82573_up;
     (if up \<and> drop_bit 15 eecd AND 0x3 = 0x3 then do {
        modify (\<lambda>s. s\<lparr>nvm := (nvm s)\<lparr>nvm_type := e1000_nvm_flash_hw, word_size := 2048\<rparr>\<rparr>);
        ew32 EECD (eecd AND NOT 0x00100000) }
      else modify (\<lambda>s. s\<lparr>nvm := (nvm s)\<lparr>nvm_type := e1000_nvm_eeprom_spi,
        word_size := nvm_word_size eecd\<rparr>\<rparr>));
     ret 0 }"

definition e1000_acquire_nvm_82571 :: "mmio \<Rightarrow> (e1000_hw, int) state" where
  "e1000_acquire_nvm_82571 E = seq_ok (e1000_get_hw_semaphore_82571 E) (do {
     up \<leftarrow> gets is_82573_up;
     r \<leftarrow> (if up then ret 0 else e1000e_acquire_nvm E);
     (if r \<noteq> 0 then e1000_put_hw_semaphore_82571 E else skip);
     ret r })"

definition e1000_release_nvm_82571 :: "mmio \<Rightarrow> (e1000_hw, unit) state" where
  "e1000_release_nvm_82571 E = do {
     e1000e_release_nvm E;
     e1000_put_hw_semaphore_82571 E }"

definition e1000_write_nvm_82571 :: "mmio \<Rightarrow> u16 \<Rightarrow> u16 list \<Rightarrow> (e1000_hw, int) state" where
  "e1000_write_nvm_82571 E offset data = do {
     s \<leftarrow> gets id;
     (if is_82573_up s then e1000_write_nvm_eewr_82571 E offset data
      else if is_82571_2 s then
        e1000e_write_nvm_spi E (e1000_acquire_nvm_82571 E) (e1000_release_nvm_82571 E) offset data
      else ret (- E1000_ERR_NVM)) }"

text \<open>Waiting for the flash: up to 2000 reads of EECD until the update bit is clear.\<close>

definition flash_wait :: "mmio \<Rightarrow> (e1000_hw, int) state" where
  "flash_wait E = do {
     r \<leftarrow> poll 2000 (er32 E EECD) (\<lambda>v. v AND 0x00080000 = 0);
     ret (if r = None then - E1000_ERR_NVM else 0) }"

definition e1000_update_nvm_checksum_82571 :: "mmio \<Rightarrow> (e1000_hw, int) state" where
  "e1000_update_nvm_checksum_82571 E =
     seq_ok (e1000e_update_nvm_checksum_generic (e1000e_read_nvm_eerd E) (e1000_write_nvm_82571 E)) (do {
       flash \<leftarrow> gets (\<lambda>s. nvm_type (nvm s) = e1000_nvm_flash_hw);
       (if \<not> flash then ret 0
        else seq_ok (flash_wait E) (do {
          flop \<leftarrow> er32 E 0x0103C;
          (if flop AND 0xFF00 = 0xDB00 then do {
             ew32 HICR 0x40;
             e1e_flush E;
             ew32 HICR 0x80 }
           else skip);
          eecd \<leftarrow> er32 E EECD;
          ew32 EECD (eecd OR 0x00080000);
          flash_wait E })) })"

definition e1000_fix_nvm_checksum_82571 :: "mmio \<Rightarrow> (e1000_hw, int) state" where
  "e1000_fix_nvm_checksum_82571 E = do {
     flash \<leftarrow> gets (\<lambda>s. nvm_type (nvm s) = e1000_nvm_flash_hw);
     (if \<not> flash then ret 0
      else rd_ok (e1000e_read_nvm_eerd E 0x10 1) (\<lambda>d.
        if hd d AND 0x10 \<noteq> 0 then ret 0
        else rd_ok (e1000e_read_nvm_eerd E 0x23 1) (\<lambda>d.
          if hd d AND 0x8000 \<noteq> 0 then ret 0
          else seq_ok (e1000_write_nvm_82571 E 0x23 [hd d OR 0x8000])
            (e1000_update_nvm_checksum_82571 E)))) }"

definition e1000_validate_nvm_checksum_82571 :: "mmio \<Rightarrow> (e1000_hw, int) state" where
  "e1000_validate_nvm_checksum_82571 E = do {
     flash \<leftarrow> gets (\<lambda>s. nvm_type (nvm s) = e1000_nvm_flash_hw);
     (if flash then do { x \<leftarrow> e1000_fix_nvm_checksum_82571 E; skip } else skip);
     e1000e_validate_nvm_checksum_generic (e1000e_read_nvm_eerd E) }"

definition e1000_valid_led_default_82571 :: "mmio \<Rightarrow> (e1000_hw, int + u16) state" where
  "e1000_valid_led_default_82571 E = do {
     r \<leftarrow> e1000e_read_nvm_eerd E 0x0004 1;
     up \<leftarrow> gets is_82573_up;
     when_ok r (\<lambda>d. ret (Inr
       (if up then (if hd d = 0xF746 then 0x1811 else hd d)
        else if hd d = 0x0000 \<or> hd d = 0xFFFF then 0x8911 else hd d))) }"

section \<open>PHY access and identification\<close>

definition read_reg_op :: "mmio \<Rightarrow> phy_rd" where
  "read_reg_op E offset = do {
     t \<leftarrow> gets (\<lambda>s. mac_type (mac s));
     (let acq = e1000_get_hw_semaphore_82571 E; rel = e1000_put_hw_semaphore_82571 E in
      if t = e1000_82571 \<or> t = e1000_82572 then e1000e_read_phy_reg_igp E acq rel offset
      else if t = e1000_82573 then e1000e_read_phy_reg_m88 E acq rel offset
      else e1000e_read_phy_reg_bm2 E acq rel offset) }"

definition write_reg_op :: "mmio \<Rightarrow> phy_wr" where
  "write_reg_op E offset data = do {
     t \<leftarrow> gets (\<lambda>s. mac_type (mac s));
     (let acq = e1000_get_hw_semaphore_82571 E; rel = e1000_put_hw_semaphore_82571 E in
      if t = e1000_82571 \<or> t = e1000_82572 then e1000e_write_phy_reg_igp E acq rel offset data
      else if t = e1000_82573 then e1000e_write_phy_reg_m88 E acq rel offset data
      else e1000e_write_phy_reg_bm2 E acq rel offset data) }"

definition e1000_get_phy_id_82571 :: "mmio \<Rightarrow> (e1000_hw, int) state" where
  "e1000_get_phy_id_82571 E = do {
     t \<leftarrow> gets (\<lambda>s. mac_type (mac s));
     (if t = e1000_82571 \<or> t = e1000_82572 then do {
        set_phy (\<lambda>p. p\<lparr>phy_id := 0x02A80380\<rparr>); ret 0 }
      else if t = e1000_82573 then e1000e_get_phy_id (read_reg_op E)
      else if t = e1000_82574 \<or> t = e1000_82583 then
        rd_ok (read_reg_op E PHY_ID1) (\<lambda>id1. do {
          set_phy (\<lambda>p. p\<lparr>phy_id := push_bit 16 (ucast id1)\<rparr>);
          rd_ok (read_reg_op E PHY_ID2) (\<lambda>id2. do {
            set_phy (\<lambda>p. p\<lparr>phy_id := phy_id p OR ucast id2,
              phy_revision := ucast id2 AND NOT 0xFFFFFFF0\<rparr>);
            ret 0 }) })
      else ret (- E1000_ERR_PHY)) }"

text \<open>The type and the identifier the three branches expect.\<close>

definition phy_expected :: "e1000_mac_type \<Rightarrow> (e1000_phy_type \<times> u32) option" where
  "phy_expected t =
     (if t = e1000_82571 \<or> t = e1000_82572 then Some (e1000_phy_igp_2, 0x02A80380)
      else if t = e1000_82573 then Some (e1000_phy_m88, 0x01410CC0)
      else if t = e1000_82574 \<or> t = e1000_82583 then Some (e1000_phy_bm, 0x01410CB1)
      else None)"

definition e1000_init_phy_params_82571 :: "mmio \<Rightarrow> (e1000_hw, int) state" where
  "e1000_init_phy_params_82571 E = do {
     media \<leftarrow> gets (\<lambda>s. media_type (phy s));
     (if media \<noteq> e1000_media_type_copper then do {
        set_phy (\<lambda>p. p\<lparr>phy_type := e1000_phy_none\<rparr>); ret 0 }
      else do {
        set_phy (\<lambda>p. p\<lparr>phy_addr := 1, autoneg_mask := 0x002F\<rparr>);
        t \<leftarrow> gets (\<lambda>s. mac_type (mac s));
        (case phy_expected t of
           None \<Rightarrow> ret (- E1000_ERR_PHY)
         | Some (ty, ident) \<Rightarrow> do {
             set_phy (\<lambda>p. p\<lparr>phy_type := ty\<rparr>);
             r \<leftarrow> e1000_get_phy_id_82571 E;
             found \<leftarrow> gets (\<lambda>s. phy_id (phy s));
             ret (if found \<noteq> ident then - E1000_ERR_PHY else r) }) }) }"

definition e1000_get_cfg_done_82571 :: "mmio \<Rightarrow> (e1000_hw, int) state" where
  "e1000_get_cfg_done_82571 E = do {
     r \<leftarrow> poll 100 (er32 E 0x01010) (\<lambda>v. v AND 0x40000 \<noteq> 0);
     ret (if r = None then - E1000_ERR_RESET else 0) }"

text \<open>
  In the active branch the second read may fail and its code is overwritten; the value written
  is then the one of the power register.
\<close>

definition e1000_set_d0_lplu_state_82571 :: "phy_rd \<Rightarrow> phy_wr \<Rightarrow> bool \<Rightarrow> (e1000_hw, int) state" where
  "e1000_set_d0_lplu_state_82571 rphy wphy active = rd_ok (rphy 0x19) (\<lambda>data.
     if active then
       (let data = data OR 0x0002 in
        seq_ok (wphy 0x19 data) (do {
          r \<leftarrow> rphy 0x10;
          wphy 0x10 ((case r of Inl e \<Rightarrow> data | Inr v \<Rightarrow> v) AND NOT 0x0080) }))
     else do {
       r \<leftarrow> wphy 0x19 (data AND NOT 0x0002);
       sp \<leftarrow> gets (\<lambda>s. smart_speed (phy s));
       (if sp = e1000_smart_speed_on then phy_modify rphy wphy 0x10 (\<lambda>v. v OR 0x0080)
        else if sp = e1000_smart_speed_off then phy_modify rphy wphy 0x10 (\<lambda>v. v AND NOT 0x0080)
        else ret r) })"

end
