(* ===== verification/Mac82571.thy ===== *)
theory Mac82571
  imports Hw82571
begin

text \<open>
  The 82571 family, e1000_82571.c: parameters, locally administered address, reset and
  initialisation, link set-up, the SerDes link state machine, filters, LEDs and counters.
\<close>

section \<open>Management mode\<close>

text \<open>
  The read code is not looked at: \<open>junk\<close> is the indeterminate value of the local variable
  after a failed read.
\<close>

definition e1000_check_mng_mode_82574 :: "mmio \<Rightarrow> u16 \<Rightarrow> (e1000_hw, bool) state" where
  "e1000_check_mng_mode_82574 E junk = do {
     r \<leftarrow> e1000e_read_nvm_eerd E 0x000F 1;
     ret ((case r of Inl e \<Rightarrow> junk | Inr d \<Rightarrow> hd d) AND 0x6000 \<noteq> 0) }"

definition check_mng_mode_op :: "mmio \<Rightarrow> u16 \<Rightarrow> (e1000_hw, bool) state" where
  "check_mng_mode_op E junk = do {
     t \<leftarrow> gets (\<lambda>s. mac_type (mac s));
     (if t = e1000_82574 \<or> t = e1000_82583 then e1000_check_mng_mode_82574 E junk
      else e1000_check_mng_mode_generic E) }"

section \<open>MAC parameters\<close>

text \<open>\<open>device_id\<close> is the PCI device identifier.\<close>

definition media_of_device :: "u16 \<Rightarrow> e1000_media_type" where
  "media_of_device device_id =
     (if device_id \<in> {0x105F, 0x107E, 0x10A5} then e1000_media_type_fiber
      else if device_id \<in> {0x1060, 0x10D9, 0x10DA, 0x107F} then e1000_media_type_internal_serdes
      else e1000_media_type_copper)"

definition e1000_init_mac_params_82571 :: "mmio \<Rightarrow> u16 \<Rightarrow> (e1000_hw, int) state" where
  "e1000_init_mac_params_82571 E device_id = do {
     set_phy (\<lambda>p. p\<lparr>media_type := media_of_device device_id\<rparr>);
     set_mac (\<lambda>m. m\<lparr>mta_reg_count := 128, rar_entry_count := 15, asf_firmware_present := True\<rparr>);
     fwsm \<leftarrow> er32 E FWSM;
     set_mac (\<lambda>m. m\<lparr>arc_subsystem_valid := (fwsm AND 0xE \<noteq> 0)\<rparr>);
     ret 0 }"

section \<open>Locally administered address\<close>

definition e1000e_get_laa_state_82571 :: "e1000_hw \<Rightarrow> bool" where
  "e1000e_get_laa_state_82571 s \<longleftrightarrow> mac_type (mac s) = e1000_82571 \<and> laa_is_present s"

definition e1000e_set_laa_state_82571 :: "mmio \<Rightarrow> bool \<Rightarrow> (e1000_hw, unit) state" where
  "e1000e_set_laa_state_82571 E st = do {
     m \<leftarrow> gets mac;
     (if mac_type m \<noteq> e1000_82571 then skip
      else do {
        modify (\<lambda>s. s\<lparr>laa_is_present := st\<rparr>);
        (if st then e1000e_rar_set E (mac_addr m) (ucast (rar_entry_count m) - 1) else skip) }) }"

text \<open>\<open>rar_count\<close> is a 32-bit counter.\<close>

definition e1000_update_mc_addr_list_82571 ::
  "mmio \<Rightarrow> u8 list list \<Rightarrow> nat \<Rightarrow> u32 \<Rightarrow> (e1000_hw, unit option) state" where
  "e1000_update_mc_addr_list_82571 E mc_addr_list rar_used_count rar_count = do {
     laa \<leftarrow> gets e1000e_get_laa_state_82571;
     e1000e_update_mc_addr_list_generic E mc_addr_list rar_used_count
       (unat (if laa then rar_count - 1 else rar_count)) }"

definition e1000_read_mac_addr_82571 :: "mmio \<Rightarrow> (e1000_hw, int) state" where
  "e1000_read_mac_addr_82571 E = do {
     r \<leftarrow> e1000_check_alt_mac_addr_generic E (e1000e_read_nvm_eerd E);
     (if r \<noteq> 0 then e1000e_read_mac_addr_generic E else ret 0) }"

section \<open>Reset\<close>

text \<open>At most ten attempts to take the MDIO from the firmware.\<close>

fun mdio_own :: "mmio \<Rightarrow> nat \<Rightarrow> u32 \<Rightarrow> (e1000_hw, unit) state" where
  "mdio_own E 0 v = skip"
| "mdio_own E (Suc n) v = do {
     ew32 EXTCNF_CTRL v;
     x \<leftarrow> er32 E EXTCNF_CTRL;
     (if x AND MDIO_SW_OWNERSHIP \<noteq> 0 then skip else mdio_own E n (x OR MDIO_SW_OWNERSHIP)) }"

definition e1000_reset_hw_82571 :: "mmio \<Rightarrow> (e1000_hw, int) state" where
  "e1000_reset_hw_82571 E = do {
     x \<leftarrow> e1000e_disable_pcie_master E;
     ew32 0x000D8 0xFFFFFFFF;
     ew32 0x00100 0;
     ew32 TCTL 0x00000008;
     e1e_flush E;
     up \<leftarrow> gets is_82573_up;
     (if up then do { v \<leftarrow> er32 E EXTCNF_CTRL; mdio_own E 10 (v OR MDIO_SW_OWNERSHIP) } else skip);
     ctrl \<leftarrow> er32 E CTRL;
     ew32 CTRL (ctrl OR 0x04000000);
     flash \<leftarrow> gets (\<lambda>s. nvm_type (nvm s) = e1000_nvm_flash_hw);
     (if flash then do {
        v \<leftarrow> er32 E CTRL_EXT;
        ew32 CTRL_EXT (v OR 0x00002000);
        e1e_flush E }
      else skip);
     seq_ok (e1000e_get_auto_rd_done E) (do {
       ew32 0x000D8 0xFFFFFFFF;
       icr \<leftarrow> er32 E 0x000C0;
       r \<leftarrow> e1000_check_alt_mac_addr_generic E (e1000e_read_nvm_eerd E);
       (if r = 0 then e1000e_set_laa_state_82571 E True else skip);
       media \<leftarrow> gets (\<lambda>s. media_type (phy s));
       (if media = e1000_media_type_internal_serdes
        then set_mac (\<lambda>m. m\<lparr>serdes_link_state := e1000_serdes_link_down\<rparr>) else skip);
       ret 0 }) }"

section \<open>Initialisation\<close>

definition reg_update :: "mmio \<Rightarrow> u32 \<Rightarrow> (u32 \<Rightarrow> u32) \<Rightarrow> (e1000_hw, unit) state" where
  "reg_update E r f = do { v \<leftarrow> er32 E r; ew32 r (f v) }"

definition e1000_initialize_hw_bits_82571 :: "mmio \<Rightarrow> (e1000_hw, unit) state" where
  "e1000_initialize_hw_bits_82571 E = do {
     t \<leftarrow> gets (\<lambda>s. mac_type (mac s));
     (let old = t = e1000_82571 \<or> t = e1000_82572;
          up = t = e1000_82573 \<or> t = e1000_82574 \<or> t = e1000_82583 in do {
        reg_update E TXDCTL0 (\<lambda>v. v OR push_bit 22 1);
        reg_update E TXDCTL1 (\<lambda>v. v OR push_bit 22 1);
        reg_update E TARC0 (\<lambda>v. let v = v AND NOT (push_bit 27 0xF) in
          if old then v OR (push_bit 23 1 OR push_bit 24 1 OR push_bit 25 1 OR push_bit 26 1) else v);
        v \<leftarrow> er32 E TARC1;
        (if old then do {
           tctl \<leftarrow> er32 E TCTL;
           (let v = (v AND NOT (push_bit 29 1 OR push_bit 30 1)) OR
                  (push_bit 22 1 OR push_bit 24 1 OR push_bit 25 1 OR push_bit 26 1) in
            ew32 TARC1 (if tctl AND 0x10000000 \<noteq> 0 then v AND NOT (push_bit 28 1) else v OR push_bit 28 1)) }
         else skip);
        (if up then reg_update E CTRL (\<lambda>v. v AND NOT (push_bit 29 1)) else skip);
        (if up then reg_update E CTRL_EXT (\<lambda>v. (v AND NOT (push_bit 23 1)) OR push_bit 22 1) else skip);
        (if t = e1000_82571 then reg_update E 0x01100 (\<lambda>v. v OR 0x00000001) else skip);
        (if old then reg_update E CTRL_EXT (\<lambda>v. v AND NOT 0x00080000) else skip);
        (if t = e1000_82574 \<or> t = e1000_82583 then do {
           reg_update E GCR (\<lambda>v. v OR push_bit 22 1);
           reg_update E 0x05B64 (\<lambda>v. v OR 1) }
         else skip) }) }"

text \<open>The VLAN identifier of the management unit is bytes 6 and 7 of the cookie.\<close>

definition cookie_vlan :: "u8 list \<Rightarrow> u16" where
  "cookie_vlan c = join16 (c ! 7) (c ! 6)"

definition e1000_clear_vfta_82571 :: "mmio \<Rightarrow> (e1000_hw, unit) state" where
  "e1000_clear_vfta_82571 E = do {
     up \<leftarrow> gets is_82573_up;
     vlan \<leftarrow> gets (\<lambda>s. cookie_vlan (mng_cookie s));
     (if \<not> up then skip
      else let offset = (if vlan \<noteq> 0 then unat (drop_bit 5 vlan AND 0x7F) else 0);
               bits = (if vlan \<noteq> 0 then push_bit (unat (vlan AND 0x1F)) 1 else 0) in
        for_each [0..<128] (\<lambda>i. do {
          ew32 (reg_array VFTA (of_nat i)) (if i = offset then bits else 0);
          e1e_flush E })) }"

definition cntrs_82571 :: "u32 list" where
  "cntrs_82571 =
    [0x0405C, 0x04060, 0x04064, 0x04068, 0x0406C, 0x04070,
     0x040D8, 0x040DC, 0x040E0, 0x040E4, 0x040E8, 0x040EC,
     0x04004, 0x0400C, 0x04034, 0x0403C, 0x040F8, 0x040FC,
     0x040B4, 0x040B8, 0x040BC, 0x04100, 0x04124,
     0x04104, 0x04108, 0x0410C, 0x04110, 0x04118, 0x0411C, 0x04120]"

definition e1000_clear_hw_cntrs_82571 :: "mmio \<Rightarrow> (e1000_hw, unit) state" where
  "e1000_clear_hw_cntrs_82571 E = do {
     e1000e_clear_hw_cntrs_base E;
     for_each cntrs_82571 (\<lambda>r. do { v \<leftarrow> er32 E r; skip }) }"

definition txdctl_policy :: "u32 \<Rightarrow> u32" where
  "txdctl_policy v = (v AND NOT 0x003F0000) OR 0x01010000 OR 0x00400000"

text \<open>\<open>setup_link\<close> is the function pointer.\<close>

definition e1000_init_hw_82571 :: "mmio \<Rightarrow> u16 \<Rightarrow> (e1000_hw, int) state \<Rightarrow> (e1000_hw, int) state" where
  "e1000_init_hw_82571 E junk setup_link = do {
     rar_count \<leftarrow> gets (\<lambda>s. rar_entry_count (mac s));
     e1000_initialize_hw_bits_82571 E;
     x \<leftarrow> e1000e_id_led_init E (e1000_valid_led_default_82571 E);
     e1000_clear_vfta_82571 E;
     laa \<leftarrow> gets e1000e_get_laa_state_82571;
     e1000e_init_rx_addrs E (if laa then rar_count - 1 else rar_count);
     cnt \<leftarrow> gets (\<lambda>s. mta_reg_count (mac s));
     for_each [0..<unat cnt] (\<lambda>i. ew32 (reg_array MTA (of_nat i)) 0);
     r \<leftarrow> setup_link;
     reg_update E TXDCTL0 txdctl_policy;
     up \<leftarrow> gets is_82573_up;
     (if up then do {
        b \<leftarrow> e1000e_enable_tx_pkt_filtering E (check_mng_mode_op E junk) (e1000_mng_enable_host_if_generic E);
        reg_update E GCR (\<lambda>v. v OR 0x08000000) }
      else reg_update E TXDCTL1 txdctl_policy);
     e1000_clear_hw_cntrs_82571 E;
     ret r }"

section \<open>LED and power\<close>

definition e1000_led_on_82574 :: "mmio \<Rightarrow> (e1000_hw, int) state" where
  "e1000_led_on_82574 E = do {
     mode2 \<leftarrow> gets (\<lambda>s. ledctl_mode2 (mac s));
     status \<leftarrow> er32 E STATUS_R;
     ew32 LEDCTL (if status AND 0x00000002 \<noteq> 0 then mode2
       else fold (\<lambda>i v. if drop_bit (i * 8) mode2 AND 0xFF = 0xE then v OR push_bit (i * 8) 0x40 else v)
         [0..<4] mode2);
     ret 0 }"

definition e1000_power_down_phy_copper_82571 :: "mmio \<Rightarrow> u16 \<Rightarrow> (e1000_hw, unit) state" where
  "e1000_power_down_phy_copper_82571 E junk = do {
     on \<leftarrow> check_mng_mode_op E junk;
     (if on then skip
      else do {
        blocked \<leftarrow> e1000e_check_reset_block_generic E;
        (if blocked \<noteq> 0 then skip
         else e1000_power_down_phy_copper (read_reg_op E) (write_reg_op E)) }) }"

section \<open>Link set-up\<close>

definition get_link_up_info_op :: "mmio \<Rightarrow> (e1000_hw, int + (u16 \<times> u16)) state" where
  "get_link_up_info_op E = do {
     media \<leftarrow> gets (\<lambda>s. media_type (phy s));
     (if media = e1000_media_type_copper then e1000e_get_speed_and_duplex_copper E
      else e1000e_get_speed_and_duplex_fiber_serdes) }"

text \<open>Set for copper only.\<close>

definition check_reset_block_op :: "mmio \<Rightarrow> (e1000_hw, int) state" where
  "check_reset_block_op E = do {
     media \<leftarrow> gets (\<lambda>s. media_type (phy s));
     (if media = e1000_media_type_copper then e1000e_check_reset_block_generic E else ret 0) }"

definition get_cfg_done_op :: "mmio \<Rightarrow> (e1000_hw, int) state" where
  "get_cfg_done_op E = do {
     old \<leftarrow> gets is_82571_2;
     (if old then e1000_get_cfg_done_82571 E else e1000e_get_cfg_done) }"

definition phy_reset_op :: "mmio \<Rightarrow> (e1000_hw, int) state" where
  "phy_reset_op E = e1000e_phy_hw_reset_generic E (check_reset_block_op E)
     (e1000_get_hw_semaphore_82571 E) (e1000_put_hw_semaphore_82571 E) (get_cfg_done_op E)"

definition force_speed_duplex_op :: "mmio \<Rightarrow> (e1000_hw, int) state" where
  "force_speed_duplex_op E = do {
     old \<leftarrow> gets is_82571_2;
     (if old then e1000e_phy_force_speed_duplex_igp E (read_reg_op E) (write_reg_op E)
      else e1000e_phy_force_speed_duplex_m88 E (read_reg_op E) (write_reg_op E)
        (e1000e_phy_sw_reset (read_reg_op E) (write_reg_op E))) }"

definition e1000_setup_copper_link_82571 :: "mmio \<Rightarrow> (e1000_hw, int) state" where
  "e1000_setup_copper_link_82571 E = (let rphy = read_reg_op E; wphy = write_reg_op E in do {
     reg_update E CTRL (\<lambda>v. (v OR CTRL_SLU) AND NOT (0x00000800 OR 0x00001000));
     ty \<leftarrow> gets (\<lambda>s. phy_type (phy s));
     seq_ok
       (if ty = e1000_phy_m88 \<or> ty = e1000_phy_bm then
          e1000e_copper_link_setup_m88 rphy wphy (e1000e_phy_sw_reset rphy wphy)
        else if ty = e1000_phy_igp_2 then do {
          r \<leftarrow> e1000e_copper_link_setup_igp rphy wphy (phy_reset_op E)
            (e1000e_set_d3_lplu_state rphy wphy) (Some (e1000_set_d0_lplu_state_82571 rphy wphy));
          reg_update E LEDCTL (\<lambda>v. (v AND 0xFFFFF0FF) OR (0x0300 OR 0x07000000));
          ret r }
        else ret (- E1000_ERR_PHY))
       (e1000e_setup_copper_link E rphy wphy (e1000_wait_autoneg rphy) (force_speed_duplex_op E)
         (get_link_up_info_op E)) })"

section \<open>The SerDes link state machine\<close>

text \<open>
  The transitions of the four states while the receiver is synchronised; the result is the
  code of the flow control configuration.
\<close>

definition set_link_state :: "e1000_serdes_link_state \<Rightarrow> (e1000_hw, unit) state" where
  "set_link_state l = set_mac (\<lambda>m. m\<lparr>serdes_link_state := l\<rparr>)"

definition restart_autoneg :: "u32 \<Rightarrow> (e1000_hw, unit) state" where
  "restart_autoneg ctrl = do {
     txcw \<leftarrow> gets (\<lambda>s. mac_txcw (mac s));
     ew32 TXCW txcw;
     ew32 CTRL (ctrl AND NOT CTRL_SLU);
     set_link_state e1000_serdes_link_autoneg_progress }"

definition serdes_synced :: "mmio \<Rightarrow> (e1000_hw, int) state \<Rightarrow> u32 \<Rightarrow> u32 \<Rightarrow> u32 \<Rightarrow> (e1000_hw, int) state" where
  "serdes_synced E config_fc ctrl status rxcw = do {
     l \<leftarrow> gets (\<lambda>s. serdes_link_state (mac s));
     (case l of
        e1000_serdes_link_autoneg_complete \<Rightarrow> do {
          (if status AND STATUS_LU = 0 then set_link_state e1000_serdes_link_autoneg_progress else skip);
          ret 0 }
      | e1000_serdes_link_forced_up \<Rightarrow> do {
          (if rxcw AND RXCW_C \<noteq> 0 then restart_autoneg ctrl else skip);
          ret 0 }
      | e1000_serdes_link_autoneg_progress \<Rightarrow> do {
          r \<leftarrow> (if status AND STATUS_LU \<noteq> 0 then do {
                  set_link_state e1000_serdes_link_autoneg_complete; ret 0 }
                else do {
                  txcw \<leftarrow> gets (\<lambda>s. mac_txcw (mac s));
                  ew32 TXCW (txcw AND NOT TXCW_ANE);
                  ew32 CTRL (ctrl OR (CTRL_SLU OR CTRL_FD));
                  r \<leftarrow> config_fc;
                  (if r \<noteq> 0 then ret r else do {
                     set_link_state e1000_serdes_link_forced_up; ret 0 }) });
          (if r \<noteq> 0 then skip else set_serdes True);
          ret r }
      | e1000_serdes_link_down \<Rightarrow> do { restart_autoneg ctrl; ret 0 }) }"

definition e1000_check_for_serdes_link_82571 :: "mmio \<Rightarrow> (e1000_hw, int) state" where
  "e1000_check_for_serdes_link_82571 E = do {
     ctrl \<leftarrow> er32 E CTRL;
     status \<leftarrow> er32 E STATUS_R;
     rxcw \<leftarrow> er32 E RXCW;
     (if rxcw AND RXCW_SYNCH \<noteq> 0 \<and> rxcw AND RXCW_IV = 0 then
        serdes_synced E (e1000e_config_fc_after_link_up E (read_reg_op E) (get_link_up_info_op E))
          ctrl status rxcw
      else if rxcw AND RXCW_SYNCH = 0 then do {
        set_serdes False;
        set_link_state e1000_serdes_link_down;
        ret 0 }
      else do {
        rxcw \<leftarrow> er32 E RXCW;
        (if rxcw AND RXCW_IV \<noteq> 0 then do {
           set_link_state e1000_serdes_link_down;
           set_serdes False }
         else skip);
        ret 0 }) }"

definition check_for_link_op :: "mmio \<Rightarrow> (e1000_hw, int) state" where
  "check_for_link_op E = do {
     media \<leftarrow> gets (\<lambda>s. media_type (phy s));
     (case media of
        e1000_media_type_copper \<Rightarrow> e1000e_check_for_copper_link E (read_reg_op E) (get_link_up_info_op E)
      | e1000_media_type_fiber \<Rightarrow> e1000e_check_for_fiber_link E (read_reg_op E) (get_link_up_info_op E)
      | e1000_media_type_internal_serdes \<Rightarrow> e1000_check_for_serdes_link_82571 E
      | e1000_media_type_unknown \<Rightarrow> ret 0) }"

definition e1000_setup_fiber_serdes_link_82571 :: "mmio \<Rightarrow> (e1000_hw, int) state" where
  "e1000_setup_fiber_serdes_link_82571 E = do {
     old \<leftarrow> gets is_82571_2;
     (if old then ew32 0x00024 0x0400 else skip);
     e1000e_setup_fiber_serdes_link E (check_for_link_op E) }"

definition e1000_setup_link_82571 :: "mmio \<Rightarrow> (e1000_hw, int) state" where
  "e1000_setup_link_82571 E = do {
     up \<leftarrow> gets is_82573_up;
     (if up then set_fc (\<lambda>f. if requested_mode f = e1000_fc_default
        then f\<lparr>requested_mode := e1000_fc_full\<rparr> else f) else skip);
     media \<leftarrow> gets (\<lambda>s. media_type (phy s));
     e1000e_setup_link (e1000e_read_nvm_eerd E) (check_reset_block_op E)
       (if media = e1000_media_type_copper then e1000_setup_copper_link_82571 E
        else e1000_setup_fiber_serdes_link_82571 E) }"

end
