(* ===== verification/Props82571.thy ===== *)
theory Props82571
  imports Mac82571
begin

text \<open>
  The SerDes link state machine as a step relation, its invariant and its progress, and the
  receive address that is kept for a locally administered address.
\<close>

section \<open>What a check preserves\<close>

text \<open>The part of the state the machine depends on.\<close>

definition link_of :: "e1000_hw \<Rightarrow> e1000_serdes_link_state \<times> bool" where
  "link_of s = (serdes_link_state (mac s), serdes_has_link (mac s))"

definition serdes_hw :: "e1000_hw \<Rightarrow> bool" where
  "serdes_hw s \<longleftrightarrow> media_type (phy s) = e1000_media_type_internal_serdes"

lemma link_of_hist [simp]: "link_of (s\<lparr>rhist := h\<rparr>) = link_of s" "serdes_hw (s\<lparr>rhist := h\<rparr>) = serdes_hw s"
  by (simp_all add: link_of_def serdes_hw_def)

lemma serdes_hw_mac [simp]: "serdes_hw (s\<lparr>mac := m\<rparr>) = serdes_hw s"
  by (simp add: serdes_hw_def)

lemma config_fc_serdes_wp:
  assumes "serdes_hw s" "\<And>r h. Q r (s\<lparr>rhist := h\<rparr>)"
  shows "wp (e1000e_config_fc_after_link_up E rphy info) Q s"
proof -
  have [simp]: "Q r s" for r using assms(2)[of r "rhist s"] by simp
  show ?thesis
    using assms
    by (auto simp: e1000e_config_fc_after_link_up_def e1000e_force_mac_fc_def serdes_hw_def
      intro!: wp_er32_any split: option.splits)
qed

section \<open>The machine\<close>

text \<open>What the three registers say.\<close>

datatype serdes_input = Synced bool bool | Unsynced | Invalid bool

definition serdes_next :: "serdes_input \<Rightarrow> bool \<Rightarrow> e1000_serdes_link_state \<times> bool \<Rightarrow>
    e1000_serdes_link_state \<times> bool" where
  "serdes_next i fc_ok x = (case i of
     Unsynced \<Rightarrow> (e1000_serdes_link_down, False)
   | Invalid again \<Rightarrow> if again then (e1000_serdes_link_down, False) else x
   | Synced lu c \<Rightarrow> (case fst x of
       e1000_serdes_link_autoneg_complete \<Rightarrow>
         if lu then x else (e1000_serdes_link_autoneg_progress, snd x)
     | e1000_serdes_link_forced_up \<Rightarrow>
         if c then (e1000_serdes_link_autoneg_progress, snd x) else x
     | e1000_serdes_link_autoneg_progress \<Rightarrow>
         if lu then (e1000_serdes_link_autoneg_complete, True)
         else if fc_ok then (e1000_serdes_link_forced_up, True) else x
     | e1000_serdes_link_down \<Rightarrow> (e1000_serdes_link_autoneg_progress, snd x)))"

definition serdes_input_of :: "mmio \<Rightarrow> reg_ev list \<Rightarrow> serdes_input" where
  "serdes_input_of E h =
     (let h1 = Rd CTRL (E h CTRL) # h; status = E h1 STATUS_R;
          h2 = Rd STATUS_R status # h1; rxcw = E h2 RXCW; h3 = Rd RXCW rxcw # h2
      in if rxcw AND RXCW_SYNCH = 0 then Unsynced
         else if rxcw AND RXCW_IV \<noteq> 0 then Invalid (E h3 RXCW AND RXCW_IV \<noteq> 0)
         else Synced (status AND STATUS_LU \<noteq> 0) (rxcw AND RXCW_C \<noteq> 0))"

text \<open>Forcing the pause mode fails only for the mode that stands for the NVM setting.\<close>

definition fc_forcible :: "e1000_hw \<Rightarrow> bool" where
  "fc_forcible s \<longleftrightarrow> \<not> (autoneg_failed (mac s) \<and> current_mode (fc s) = e1000_fc_default)"

lemma config_fc_forcible_wp:
  assumes "serdes_hw s" "\<And>r h. r = 0 \<longleftrightarrow> fc_forcible s \<Longrightarrow> Q r (s\<lparr>rhist := h\<rparr>)"
  shows "wp (e1000e_config_fc_after_link_up E rphy info) Q s"
proof -
  have [simp]: "(r = 0 \<longleftrightarrow> fc_forcible s) \<Longrightarrow> Q r s" for r using assms(2)[of r "rhist s"] by simp
  have d: "current_mode (fc s) = e1000_fc_default \<longleftrightarrow> ctrl_fc (current_mode (fc s)) c = None" for c
    by (cases "current_mode (fc s)") (simp_all add: ctrl_fc_def)
  show ?thesis
    using assms d[of 0]
    by (auto simp: e1000e_config_fc_after_link_up_def e1000e_force_mac_fc_def serdes_hw_def
      fc_forcible_def e1000_err_defs ctrl_fc_def
      intro!: wp_er32_any split: option.splits e1000_fc_mode.splits)
qed

lemma serdes_check_wp:
  assumes "serdes_hw s"
    and "\<And>r t. link_of t = serdes_next (serdes_input_of E (rhist s)) (fc_forcible s) (link_of s) \<Longrightarrow>
      serdes_hw t \<Longrightarrow> autoneg_failed (mac t) = autoneg_failed (mac s) \<Longrightarrow> fc t = fc s \<Longrightarrow> Q r t"
  shows "wp (e1000_check_for_serdes_link_82571 E) Q s"
  unfolding e1000_check_for_serdes_link_82571_def wp_bind
  apply (rule wp_er32)+
  subgoal for ctrl status rxcw
    using assms
    by (auto simp: serdes_input_of_def Let_def serdes_synced_def restart_autoneg_def set_link_state_def
        set_serdes_def link_of_def serdes_next_def fc_forcible_def
      intro!: wp_er32 config_fc_forcible_wp split: e1000_serdes_link_state.splits)
  done

section \<open>Reachable states\<close>

text \<open>
  \<open>preserves I m\<close>: \<open>m\<close> preserves \<open>I\<close>.  Register accesses keep every property that does not look
  at the history.
\<close>

definition preserves :: "(e1000_hw \<Rightarrow> bool) \<Rightarrow> (e1000_hw, 'a) state \<Rightarrow> bool" where
  "preserves I m \<longleftrightarrow> (\<forall>s. I s \<longrightarrow> wp m (\<lambda>_ t. I t) s)"

lemma preservesD: "preserves I m \<Longrightarrow> I s \<Longrightarrow> I (exec m s)"
  by (simp add: preserves_def wp_iff)

lemma preserves_bind: "preserves I m \<Longrightarrow> (\<And>a. preserves I (f a)) \<Longrightarrow> preserves I (State_Monad.bind m f)"
  unfolding preserves_def wp_bind by (blast intro: wp_mono)

lemma preserves_basic [simp]:
  "preserves I (ret x)" "preserves I (gets g)"
  "(\<And>s h. I (s\<lparr>rhist := h\<rparr>) = I s) \<Longrightarrow> preserves I (er32 E r)"
  "(\<And>s h. I (s\<lparr>rhist := h\<rparr>) = I s) \<Longrightarrow> preserves I (ew32 r v)"
  "(\<And>s h. I (s\<lparr>rhist := h\<rparr>) = I s) \<Longrightarrow> preserves I (e1e_flush E)"
  by (auto simp: preserves_def intro!: wp_er32_any wp_flush)

lemma preserves_set_mac: "(\<And>s. I s \<Longrightarrow> I (s\<lparr>mac := f (mac s)\<rparr>)) \<Longrightarrow> preserves I (set_mac f)"
  by (simp add: preserves_def)

lemma preserves_set_fc: "(\<And>s. I s \<Longrightarrow> I (s\<lparr>fc := f (fc s)\<rparr>)) \<Longrightarrow> preserves I (set_fc f)"
  by (simp add: preserves_def)

lemma preserves_seq_ok: "preserves I m \<Longrightarrow> preserves I n \<Longrightarrow> preserves I (seq_ok m n)"
  unfolding seq_ok_def by (rule preserves_bind) simp_all

lemma preserves_ok: "(\<And>a. preserves I (f a)) \<Longrightarrow> preserves I (ok_or_code r f)" "(\<And>a. preserves I (g a)) \<Longrightarrow> preserves I (when_ok r g)"
  by (cases r; simp)+

lemma preserves_rd_ok: "preserves I m \<Longrightarrow> (\<And>a. preserves I (f a)) \<Longrightarrow> preserves I (rd_ok m f)"
  unfolding rd_ok_def by (intro preserves_bind preserves_ok)

lemma preserves_poll: "preserves I m \<Longrightarrow> preserves I (poll n m p)"
  by (induction n) (auto intro!: preserves_bind)

lemma preserves_for_each: "(\<And>x. preserves I (f x)) \<Longrightarrow> preserves I (for_each xs f)"
  by (induction xs) (auto intro!: preserves_bind)

lemmas preserves_rules = preserves_bind preserves_seq_ok preserves_ok preserves_rd_ok preserves_poll preserves_for_each

text \<open>A state of the SerDes machine that counts as up has its link reported.\<close>

definition serdes_inv :: "e1000_hw \<Rightarrow> bool" where
  "serdes_inv s \<longleftrightarrow> serdes_hw s \<and>
     (serdes_link_state (mac s) \<in> {e1000_serdes_link_autoneg_complete, e1000_serdes_link_forced_up} \<longrightarrow>
      serdes_has_link (mac s))"

lemma serdes_inv_other [simp]:
  "serdes_inv (s\<lparr>rhist := h\<rparr>) = serdes_inv s" "serdes_inv (s\<lparr>fc := f\<rparr>) = serdes_inv s"
  "serdes_inv (s\<lparr>laa_is_present := b\<rparr>) = serdes_inv s"
  by (simp_all add: serdes_inv_def serdes_hw_def)

lemma serdes_inv_mac: "serdes_inv s \<Longrightarrow> serdes_link_state m = serdes_link_state (mac s) \<Longrightarrow>
    serdes_has_link m = serdes_has_link (mac s) \<Longrightarrow> serdes_inv (s\<lparr>mac := m\<rparr>)"
  by (simp add: serdes_inv_def)

lemma preserves_eerd: "preserves serdes_inv (e1000e_read_nvm_eerd E off n)"
proof -
  have "preserves serdes_inv (eerd_loop E off is)" for "is"
    by (induction "is") (auto simp: e1000e_poll_eerd_eewr_done_def intro!: preserves_rules)
  then show ?thesis by (auto simp: e1000e_read_nvm_eerd_def intro!: preserves_rules)
qed

lemma preserves_check: "preserves serdes_inv (e1000_check_for_serdes_link_82571 E)"
  unfolding preserves_def
proof (intro allI impI)
  fix s assume s: "serdes_inv s"
  show "wp (e1000_check_for_serdes_link_82571 E) (\<lambda>_. serdes_inv) s"
    by (rule serdes_check_wp)
      (use s in \<open>auto simp: serdes_inv_def link_of_def serdes_next_def
        split: serdes_input.splits if_splits e1000_serdes_link_state.splits\<close>)
qed

text \<open>A read of the structure whose value the invariant fixes.\<close>

lemma preserves_gets: "(\<And>s. I s \<Longrightarrow> g s = v) \<Longrightarrow> preserves I (f v) \<Longrightarrow> preserves I (State_Monad.bind (gets g) f)"
  by (simp add: preserves_def)

lemma serdes_inv_media: "serdes_inv s \<Longrightarrow> media_type (phy s) = e1000_media_type_internal_serdes"
  by (simp add: serdes_inv_def serdes_hw_def)

lemma preserves_alt_mac: "preserves serdes_inv (e1000_check_alt_mac_addr_generic E (e1000e_read_nvm_eerd E))"
proof -
  have "preserves serdes_inv (alt_addr_words (e1000e_read_nvm_eerd E) off is)" for off "is"
    by (induction "is") (auto intro!: preserves_rules preserves_eerd)
  then show ?thesis
    by (auto simp: e1000_check_alt_mac_addr_generic_def e1000e_rar_set_def
      intro!: preserves_rules preserves_eerd preserves_set_mac serdes_inv_mac)
qed

lemma preserves_reset: "preserves serdes_inv (e1000_reset_hw_82571 E)"
proof -
  have own: "preserves serdes_inv (mdio_own E n v)" for n v
    by (induction n arbitrary: v) (auto intro!: preserves_rules)
  have down: "preserves serdes_inv (set_mac (\<lambda>m. m\<lparr>serdes_link_state := e1000_serdes_link_down\<rparr>))"
    by (rule preserves_set_mac) (simp add: serdes_inv_def)
  have laa: "preserves serdes_inv (e1000e_set_laa_state_82571 E b)" for b
    by (auto simp: e1000e_set_laa_state_82571_def e1000e_rar_set_def preserves_def intro!: wp_flush)
  show ?thesis
    by (auto simp: e1000_reset_hw_82571_def e1000e_disable_pcie_master_def e1000e_get_auto_rd_done_def
      intro!: preserves_rules preserves_alt_mac own down laa)
qed

lemma preserves_setup: "preserves serdes_inv (e1000_setup_link_82571 E)"
proof -
  have chk: "preserves serdes_inv (check_for_link_op E)"
    unfolding check_for_link_op_def by (rule preserves_gets[OF serdes_inv_media]) (simp_all add: preserves_check)
  have polled: "preserves serdes_inv (e1000_poll_fiber_serdes_link_generic E (check_for_link_op E))"
    by (auto simp: e1000_poll_fiber_serdes_link_generic_def
      intro!: preserves_rules chk preserves_set_mac serdes_inv_mac)
  have fc: "preserves serdes_inv e1000_commit_fc_settings_generic"
    by (auto simp: e1000_commit_fc_settings_generic_def split: option.splits
      intro!: preserves_rules preserves_set_mac serdes_inv_mac)
  have fiber: "preserves serdes_inv (e1000_setup_fiber_serdes_link_82571 E)"
    by (auto simp: e1000_setup_fiber_serdes_link_82571_def e1000e_setup_fiber_serdes_link_def
      e1000e_config_collision_dist_def intro!: preserves_rules polled fc)
  have "preserves serdes_inv (e1000e_setup_link (e1000e_read_nvm_eerd E) (check_reset_block_op E)
      (e1000_setup_fiber_serdes_link_82571 E))"
    by (auto simp: e1000e_setup_link_def check_reset_block_op_def e1000e_check_reset_block_generic_def
      e1000_set_default_fc_generic_def e1000e_set_fc_watermarks_def Let_def
      intro!: preserves_rules preserves_eerd preserves_set_fc fiber)
  then have "preserves serdes_inv (do { media \<leftarrow> gets (\<lambda>s. media_type (phy s));
     e1000e_setup_link (e1000e_read_nvm_eerd E) (check_reset_block_op E)
       (if media = e1000_media_type_copper then e1000_setup_copper_link_82571 E
        else e1000_setup_fiber_serdes_link_82571 E) })"
    by (intro preserves_gets[OF serdes_inv_media]) simp_all
  then show ?thesis
    unfolding e1000_setup_link_82571_def by (auto intro!: preserves_bind preserves_set_fc)
qed

text \<open>
  The states a SerDes port goes through: it starts with no link; reset, link set-up and link
  check happen in any order, each on whatever the hardware reports at that time.
\<close>

inductive serdes_reach :: "e1000_hw \<Rightarrow> bool" where
  at_start: "serdes_hw s \<Longrightarrow> link_of s = (e1000_serdes_link_down, False) \<Longrightarrow> serdes_reach s"
| link_check: "serdes_reach s \<Longrightarrow> serdes_reach (exec (e1000_check_for_serdes_link_82571 E) s)"
| hw_reset: "serdes_reach s \<Longrightarrow> serdes_reach (exec (e1000_reset_hw_82571 E) s)"
| link_setup: "serdes_reach s \<Longrightarrow> serdes_reach (exec (e1000_setup_link_82571 E) s)"

lemma serdes_reach_inv: "serdes_reach s \<Longrightarrow> serdes_inv s"
proof (induction rule: serdes_reach.induct)
  case (at_start s)
  then show ?case by (simp add: serdes_inv_def link_of_def)
qed (auto intro: preservesD preserves_check preserves_reset preserves_setup)

lemma serdes_two_checks:
  assumes "serdes_inv s" "fc_forcible s"
    and "serdes_input_of E (rhist s) = Synced lu c"
    and "t = exec (e1000_check_for_serdes_link_82571 E) s"
    and "serdes_input_of F (rhist t) = Synced lu' c'"
  shows "serdes_has_link (mac (exec (e1000_check_for_serdes_link_82571 F) t))"
proof -
  have s: "serdes_hw s" using assms(1) by (simp add: serdes_inv_def)
  have t: "link_of t = serdes_next (Synced lu c) True (link_of s) \<and> serdes_hw t \<and> fc_forcible t"
    using serdes_check_wp[OF s, of E "\<lambda>_ t. link_of t = serdes_next (Synced lu c) True (link_of s) \<and>
      serdes_hw t \<and> fc_forcible t"] assms(2-4) by (auto simp: wp_iff fc_forcible_def)
  then have u: "link_of (exec (e1000_check_for_serdes_link_82571 F) t) =
      serdes_next (Synced lu' c') True (link_of t)"
    using serdes_check_wp[of t F "\<lambda>_ u. link_of u = serdes_next (Synced lu' c') True (link_of t)"]
      assms(5) by (auto simp: wp_iff)
  obtain l b where "link_of s = (l, b)" by (cases "link_of s")
  moreover have "l \<in> {e1000_serdes_link_autoneg_complete, e1000_serdes_link_forced_up} \<longrightarrow> b"
    using assms(1) calculation by (auto simp: serdes_inv_def link_of_def)
  ultimately have "snd (serdes_next (Synced lu' c') True (link_of t))"
    using t by (cases l) (auto simp: serdes_next_def)
  then show ?thesis unfolding u[symmetric] by (simp add: link_of_def)
qed

section \<open>The reserved receive address\<close>

definition rar_is :: "nat \<Rightarrow> u8 list \<Rightarrow> e1000_hw \<Rightarrow> bool" where
  "rar_is j a s \<longleftrightarrow> reg_last (rhist s) (RAL (of_nat j)) = Some (rar_low a) \<and>
     reg_last (rhist s) (RAH (of_nat j)) = Some (rar_high a)"

lemma rar_regs:
  "j \<le> 15 \<Longrightarrow> unat (RAL (of_nat j)) = 0x5400 + 8 * j" "j \<le> 15 \<Longrightarrow> unat (RAH (of_nat j)) = 0x5404 + 8 * j"
proof -
  assume j: "j \<le> 15"
  then have le: "(of_nat j :: u32) \<le> 15"
    by (simp add: word_le_nat_alt unat_of_nat take_bit_nat_eq_self)
  have "unat (of_nat (0x5400 + 8 * j) :: u32) = 0x5400 + 8 * j" "unat (of_nat (0x5404 + 8 * j) :: u32) = 0x5404 + 8 * j"
    using j by (simp_all add: unat_of_nat take_bit_nat_eq_self del: of_nat_add of_nat_mult)
  with le show "unat (RAL (of_nat j)) = 0x5400 + 8 * j" "unat (RAH (of_nat j)) = 0x5404 + 8 * j"
    by (simp_all add: RAL_def RAH_def mult.commute)
qed

lemma rar_is_reads [simp]: "rar_is j a (s\<lparr>rhist := Rd q v # h\<rparr>) = rar_is j a (s\<lparr>rhist := h\<rparr>)"
  "rar_is j a (s\<lparr>rhist := rhist s\<rparr>) = rar_is j a s" "rar_is j a (s\<lparr>mac := m\<rparr>) = rar_is j a s"
  "rar_is j a (s\<lparr>laa_is_present := b\<rparr>) = rar_is j a s"
  by (simp_all add: rar_is_def)

lemma rar_is_write: "j \<le> 15 \<Longrightarrow> unat q \<noteq> 0x5400 + 8 * j \<Longrightarrow> unat q \<noteq> 0x5404 + 8 * j \<Longrightarrow>
    rar_is j a (s\<lparr>rhist := Wr q v # h\<rparr>) = rar_is j a (s\<lparr>rhist := h\<rparr>)"
  using rar_regs[of j] by (auto simp: rar_is_def)

lemma rar_set_own: "j \<le> 15 \<Longrightarrow> wp (e1000e_rar_set E a (of_nat j)) (\<lambda>_. rar_is j a) s"
proof -
  assume j: "j \<le> 15"
  then have "RAL (of_nat j) \<noteq> RAH (of_nat j)" using rar_regs[of j] by auto
  then show ?thesis by (auto simp: e1000e_rar_set_def rar_is_def intro!: wp_flush)
qed

text \<open>The multicast update stays away from the entries outside its range.\<close>

definition mta128 :: "nat \<Rightarrow> u8 list \<Rightarrow> e1000_hw \<Rightarrow> bool" where
  "mta128 j a s \<longleftrightarrow> rar_is j a s \<and> mta_reg_count (mac s) = 128"

lemma mta128_reads [simp]: "mta128 j a (s\<lparr>rhist := Rd q v # h\<rparr>) = mta128 j a (s\<lparr>rhist := h\<rparr>)"
  "mta128 j a (s\<lparr>rhist := rhist s\<rparr>) = mta128 j a s"
  by (simp_all add: mta128_def)

lemma rar_set_other:
  assumes "j \<le> 15" "i \<le> 15" "i \<noteq> j" "mta128 j a s"
  shows "wp (e1000e_rar_set E b (of_nat i)) (\<lambda>_. mta128 j a) s"
proof -
  have "unat (RAL (of_nat i)) \<noteq> 0x5400 + 8 * j \<and> unat (RAL (of_nat i)) \<noteq> 0x5404 + 8 * j"
    "unat (RAH (of_nat i)) \<noteq> 0x5400 + 8 * j \<and> unat (RAH (of_nat i)) \<noteq> 0x5404 + 8 * j"
    using rar_regs[of i] assms(2,3) by presburger+
  then show ?thesis
    using assms(1,4) by (auto simp: e1000e_rar_set_def mta128_def rar_is_write intro!: wp_flush)
qed

lemma mta_addr: "unat x < 128 \<Longrightarrow> unat (reg_array MTA x) < 0x5400"
proof -
  assume x: "unat x < 128"
  have "reg_array MTA x = of_nat (0x5200 + 4 * unat x)" by (simp add: reg_array_def push_bit_eq_mult)
  moreover have "unat (of_nat (0x5200 + 4 * unat x) :: u32) = 0x5200 + 4 * unat x"
    using x by (simp add: unat_of_nat take_bit_nat_eq_self del: of_nat_add of_nat_mult)
  ultimately show ?thesis using x by simp
qed

lemma mta_write_other: "j \<le> 15 \<Longrightarrow> unat x < 128 \<Longrightarrow>
    mta128 j a (s\<lparr>rhist := Wr (reg_array MTA x) v # h\<rparr>) = mta128 j a (s\<lparr>rhist := h\<rparr>)"
  using mta_addr[of x] by (simp add: mta128_def rar_is_write)

lemma rar_init_wp:
  assumes "j \<le> 15" "j \<notin> set is" "set is \<subseteq> {..15}" "mta128 j a s"
  shows "wp (for_each is (\<lambda>i. e1000e_rar_set E b (of_nat i))) (\<lambda>_. mta128 j a) s"
  using assms(2-)
  by (induction "is" arbitrary: s) (auto intro!: wp_mono[OF rar_set_other[OF assms(1)]])

lemma mc_rars_other:
  assumes "j \<le> 15" "j \<notin> set is" "set is \<subseteq> {..15}" "mta128 j a s"
  shows "wp (mc_rars E is al) (\<lambda>_. mta128 j a) s"
  using assms(2-)
proof (induction E "is" al arbitrary: s rule: mc_rars.induct)
  case (2 E i "is")
  then show ?case by (auto intro!: wp_mono[OF rar_set_other[OF assms(1)]])
next
  case (3 E i "is" b al)
  then show ?case by (auto intro!: wp_mono[OF rar_set_other[OF assms(1)]])
qed simp

lemma mta_clear_other: "j \<le> 15 \<Longrightarrow> mta128 j a s \<Longrightarrow> wp (mta_clear E) (\<lambda>_. mta128 j a) s"
proof -
  assume j: "j \<le> 15" and s: "mta128 j a s"
  have w: "set is \<subseteq> {..<128} \<Longrightarrow> mta128 j a s \<Longrightarrow>
      wp (for_each is (\<lambda>i. do { ew32 (reg_array MTA (of_nat i)) 0; e1e_flush E })) (\<lambda>_. mta128 j a) s" for "is" s
    by (induction "is" arbitrary: s)
      (auto intro!: wp_flush simp: mta_write_other[OF j] unat_of_nat take_bit_nat_eq_self)
  have "mta_reg_count (mac s) = 128" using s by (simp add: mta128_def)
  moreover have "set [0..<128] \<subseteq> {..<128 :: nat}" by auto
  ultimately show ?thesis using w[OF _ s, of "[0..<128]"] by (simp add: mta_clear_def)
qed

lemma mta_set_other:
  assumes "j \<le> 15" "mta128 j a s"
  shows "wp (e1000_mta_set_generic E v) (\<lambda>_. mta128 j a) s"
proof -
  have "unat (drop_bit 5 v AND (ucast (mta_reg_count (mac s)) - 1)) < 128"
  proof -
    have m: "(127 :: u32) = mask 7" by (simp add: mask_eq_exp_minus_1)
    have "drop_bit 5 v AND 127 \<le> 127" by (simp add: word_and_le1)
    then show ?thesis using assms(2) by (simp add: mta128_def word_le_nat_alt)
  qed
  then show ?thesis
    using assms by (auto simp: e1000_mta_set_generic_def mta_write_other Let_def intro!: wp_flush wp_er32_any)
qed

lemma mc_hashes_other:
  assumes "j \<le> 15"
  shows "mta128 j a s \<Longrightarrow> wp (mc_hashes E al) (\<lambda>_. mta128 j a) s"
proof (induction E al arbitrary: s rule: mc_hashes.induct)
  case (2 E b al)
  show ?case
    using 2 by (auto intro!: wp_mono[OF mta_set_other[OF assms]] split: option.splits)
qed simp

text \<open>The two places of a locally administered address.\<close>

lemma laa_update_wp:
  assumes "mac_type (mac s) = e1000_82571" "laa_is_present s" "j = 0 \<or> j = 14" "mta128 j a s"
  shows "wp (e1000_update_mc_addr_list_82571 E al 1 15) (\<lambda>_. mta128 j a) s"
proof -
  have laa: "e1000e_get_laa_state_82571 s" using assms(1,2) by (simp add: e1000e_get_laa_state_82571_def)
  have j: "j \<le> 15" "j \<notin> set [1..<14]" using assms(3) by auto
  have clear: "wp (mta_clear E) (\<lambda>_. wp (mc_hashes E al') (\<lambda>_. mta128 j a)) t" if "mta128 j a t" for al' t
    by (rule wp_mono[OF mta_clear_other[OF j(1) that]]) (rule mc_hashes_other[OF j(1)])
  have "wp (e1000e_update_mc_addr_list_generic E al 1 14) (\<lambda>_. mta128 j a) s"
    unfolding e1000e_update_mc_addr_list_generic_def wp_bind
    by (rule wp_mono[OF mc_rars_other[OF j _ assms(4)]]) (auto intro: clear)
  then show ?thesis by (simp add: e1000_update_mc_addr_list_82571_def laa)
qed

lemma preserves_frame_82571: "(\<And>s h. I (s\<lparr>rhist := h\<rparr>) = I s) \<Longrightarrow> preserves I (e1000e_rar_set E a i)"
  by (auto simp: e1000e_rar_set_def intro!: preserves_bind)

lemma init_rx_wp:
  assumes "mta128 14 a s" "mac_addr (mac s) = a"
  shows "wp (e1000e_init_rx_addrs E 14) (\<lambda>_ t. mta128 14 a t \<and> mta128 0 a t) s"
proof -
  have zeros: "wp (for_each [1..<14] (\<lambda>i. e1000e_rar_set E zero_addr (of_nat i)))
      (\<lambda>_ t. mta128 14 a t \<and> mta128 0 a t) t" if "mta128 14 a t" "mta128 0 a t" for t
    by (rule wp_conj; rule rar_init_wp) (use that in auto)
  have "preserves (\<lambda>s. mta_reg_count (mac s) = 128) (e1000e_rar_set E a 0)"
    by (rule preserves_frame_82571) simp
  then have "wp (e1000e_rar_set E a 0) (\<lambda>_ t. mta128 14 a t \<and> mta128 0 a t) s"
    using rar_set_own[of 0 E a s] rar_set_other[of 14 0 a s E a] assms(1)
    by (auto simp: wp_iff preserves_def mta128_def)
  then show ?thesis
    using assms(2) zeros unfolding e1000e_init_rx_addrs_def
    by (auto intro: wp_mono)
qed

section \<open>Properties\<close>

text \<open>
  C15: the link check of a SerDes port (\<open>e1000_check_for_serdes_link_82571\<close>) is the state
  machine of \<open>serdes_next\<close>: with a synchronised receiver the link state moves from down to
  negotiation, from there to complete when the hardware reports link and to forced otherwise
  (if the pause mode can be forced), and back to negotiation when the link is lost or the
  partner starts to negotiate; without synchronisation, or with an invalid symbol seen twice,
  it is down.
\<close>

theorem serdes_check_refines:
  assumes "media_type (phy s) = e1000_media_type_internal_serdes"
  shows "link_of (exec (e1000_check_for_serdes_link_82571 E) s) =
    serdes_next (serdes_input_of E (rhist s)) (fc_forcible s) (link_of s)"
  using serdes_check_wp[of s E "\<lambda>_ t. link_of t = serdes_next (serdes_input_of E (rhist s)) (fc_forcible s) (link_of s)"]
    assms by (simp add: wp_iff serdes_hw_def)

definition serdes_hw0 :: e1000_hw where
  "serdes_hw0 = hw_zero\<lparr>phy := phy_zero\<lparr>media_type := e1000_media_type_internal_serdes\<rparr>\<rparr>"

theorem serdes_check_refines_witness:
  "link_of (exec (e1000_check_for_serdes_link_82571 (\<lambda>h q. 0x40000002)) serdes_hw0) =
    (e1000_serdes_link_autoneg_progress, False)"
  using serdes_check_refines[of serdes_hw0 "\<lambda>h q. 0x40000002"]
  by (simp add: serdes_hw0_def serdes_input_of_def serdes_next_def link_of_def hw_zero_def mac_zero_def)


definition serdes_hw2 :: e1000_hw where
  "serdes_hw2 = exec (e1000_check_for_serdes_link_82571 (\<lambda>h q. 0x40000002))
     (exec (e1000_check_for_serdes_link_82571 (\<lambda>h q. 0x40000002)) serdes_hw0)"

lemma serdes_hw2_reach: "serdes_reach serdes_hw2"
  unfolding serdes_hw2_def
  by (intro serdes_reach.intros)
    (simp_all add: serdes_hw0_def serdes_hw_def link_of_def hw_zero_def mac_zero_def)


text \<open>
  A SerDes port whose receiver is synchronised comes up: from every reachable state, when
  the pause mode can be forced, two link checks that both see a synchronised receiver without
  invalid symbols end with the link reported, whether the partner negotiates or not.
\<close>

theorem serdes_link_up:
  assumes "serdes_reach s" "fc_forcible s"
    and "serdes_input_of E (rhist s) = Synced lu c"
    and "serdes_input_of F (rhist (exec (e1000_check_for_serdes_link_82571 E) s)) = Synced lu' c'"
  shows "serdes_has_link (mac (exec (e1000_check_for_serdes_link_82571 F)
    (exec (e1000_check_for_serdes_link_82571 E) s)))"
  using serdes_two_checks[OF serdes_reach_inv[OF assms(1)] assms(2,3) refl assms(4)] .

theorem serdes_link_up_witness:
  "serdes_has_link (mac (exec (e1000_check_for_serdes_link_82571 (\<lambda>h q. 0x40000000))
    (exec (e1000_check_for_serdes_link_82571 (\<lambda>h q. 0x40000000)) serdes_hw0)))"
proof (rule serdes_link_up[where lu=False and c=False and lu'=False and c'=False])
  show "serdes_reach serdes_hw0"
    by (rule serdes_reach.intros) (simp_all add: serdes_hw0_def serdes_hw_def link_of_def hw_zero_def mac_zero_def)
  show "fc_forcible serdes_hw0" by (simp add: fc_forcible_def serdes_hw0_def hw_zero_def mac_zero_def)
qed (simp_all add: serdes_input_of_def)

text \<open>
  C17: on the 82571 a locally administered address survives the programming of the filters:
  after \<open>e1000e_set_laa_state_82571\<close>, the address initialisation of \<open>e1000_init_hw_82571\<close> and a
  multicast update with any list, entry 0 and the reserved entry 14 of the receive address
  registers both hold the address of the port.
\<close>

theorem laa_addresses_kept:
  assumes "mac_type (mac s) = e1000_82571" "rar_entry_count (mac s) = 15" "mta_reg_count (mac s) = 128"
  shows "let t = exec (do {
      e1000e_set_laa_state_82571 E True;
      laa \<leftarrow> gets e1000e_get_laa_state_82571;
      e1000e_init_rx_addrs E (if laa then rar_entry_count (mac s) - 1 else rar_entry_count (mac s));
      e1000_update_mc_addr_list_82571 E al 1 15 }) s
    in rar_is 0 (mac_addr (mac s)) t \<and> rar_is 14 (mac_addr (mac s)) t"
proof -
  let ?a = "mac_addr (mac s)"
  let ?I = "\<lambda>t. mac t = mac s \<and> laa_is_present t"
  let ?J = "\<lambda>t. mta128 14 ?a t \<and> mta128 0 ?a t"
  have frame: "preserves ?I (e1000e_rar_set E b i)" for b i by (rule preserves_frame_82571) simp
  have "wp (e1000e_rar_set E ?a 14) (\<lambda>_ t. ?I t \<and> rar_is 14 ?a t) (s\<lparr>laa_is_present := True\<rparr>)"
    using frame rar_set_own[of 14 E ?a "s\<lparr>laa_is_present := True\<rparr>"] by (auto simp: preserves_def intro: wp_conj)
  then have laa: "wp (e1000e_set_laa_state_82571 E True) (\<lambda>_ t. ?I t \<and> mta128 14 ?a t) s"
    using assms by (auto simp: e1000e_set_laa_state_82571_def mta128_def elim!: wp_mono)
  have init: "wp (e1000e_init_rx_addrs E 14) (\<lambda>_ t. ?I t \<and> ?J t) t" if "?I t" "mta128 14 ?a t" for t
  proof (rule wp_conj)
    have "preserves ?I (e1000e_init_rx_addrs E 14)"
      unfolding e1000e_init_rx_addrs_def by (intro preserves_bind preserves_for_each frame) simp
    with that(1) show "wp (e1000e_init_rx_addrs E 14) (\<lambda>_. ?I) t" by (simp add: preserves_def)
    show "wp (e1000e_init_rx_addrs E 14) (\<lambda>_. ?J) t" by (rule init_rx_wp) (use that in auto)
  qed
  have upd: "wp (e1000_update_mc_addr_list_82571 E al 1 15) (\<lambda>_. ?J) t" if "?I t" "?J t" for t
    by (rule wp_conj; rule laa_update_wp) (use that assms(1) in auto)
  have state: "e1000e_get_laa_state_82571 t" if "?I t" for t
    using that assms(1) by (simp add: e1000e_get_laa_state_82571_def)
  have rest: "wp (e1000e_init_rx_addrs E 14 \<bind> (\<lambda>_. e1000_update_mc_addr_list_82571 E al 1 15)) (\<lambda>_. ?J) t"
    if "?I t" "mta128 14 ?a t" for t
    unfolding wp_bind by (rule wp_mono[OF init[OF that]]) (rule upd; blast)
  have "wp (do { e1000e_set_laa_state_82571 E True;
      laa \<leftarrow> gets e1000e_get_laa_state_82571;
      e1000e_init_rx_addrs E (if laa then rar_entry_count (mac s) - 1 else rar_entry_count (mac s));
      e1000_update_mc_addr_list_82571 E al 1 15 }) (\<lambda>_. ?J) s"
    unfolding wp_bind
  proof (rule wp_mono[OF laa], goal_cases)
    case (1 r t)
    then have t: "?I t" "mta128 14 ?a t" by simp_all
    show ?case using rest[OF t] by (simp add: wp_bind state[OF t(1)] assms(2) del: One_nat_def)
  qed
  then show ?thesis by (simp add: wp_iff Let_def mta128_def)
qed

theorem laa_addresses_kept_witness:
  "let s = hw_zero\<lparr>mac := mac_zero\<lparr>mac_type := e1000_82571, rar_entry_count := 15, mta_reg_count := 128,
        mac_addr := [2, 0, 0, 0, 0, 1]\<rparr>\<rparr>;
      t = exec (do {
        e1000e_set_laa_state_82571 (\<lambda>h q. 0) True;
        laa \<leftarrow> gets e1000e_get_laa_state_82571;
        e1000e_init_rx_addrs (\<lambda>h q. 0) (if laa then rar_entry_count (mac s) - 1 else rar_entry_count (mac s));
        e1000_update_mc_addr_list_82571 (\<lambda>h q. 0) [[1, 0, 0x5E, 0, 0, 1]] 1 15 }) s
    in rar_is 0 [2, 0, 0, 0, 0, 1] t \<and> rar_is 14 [2, 0, 0, 0, 0, 1] t"
  using laa_addresses_kept[of "hw_zero\<lparr>mac := mac_zero\<lparr>mac_type := e1000_82571, rar_entry_count := 15,
    mta_reg_count := 128, mac_addr := [2, 0, 0, 0, 0, 1]\<rparr>\<rparr>" "\<lambda>h q. 0" "[[1, 0, 0x5E, 0, 0, 1]]"]
  unfolding Let_def by simp

end
