(* ===== verification/NetBase.thy ===== *)
theory NetBase
  imports Mac82571
begin

text \<open>
  The network interface, netdev.c, and its data (e1000.h): the rings, the parts of
  \<open>struct e1000_adapter\<close> the modelled functions use, socket buffers, and the kernel.

  The kernel is a parameter: \<open>kernel\<close> is a record of functions that give the result of a call
  from the history of earlier calls, \<open>klog\<close> (newest first).  Indices, counts and lengths of
  buffers are natural numbers (a ring has at most 4096 descriptors, a frame less than 2 ^ 17
  bytes); descriptors and everything the chip sees are words.
\<close>

section \<open>Socket buffers\<close>

datatype ip_summed = CHECKSUM_NONE | CHECKSUM_PARTIAL | CHECKSUM_UNNECESSARY | CHECKSUM_COMPLETE

text \<open>
  \<open>linear\<close> are the bytes from \<open>data\<close> to \<open>tail\<close>, \<open>frags\<close> the page, offset and size of each
  fragment; the offsets of the headers are relative to \<open>data\<close>.  \<open>skb_id\<close> tells buffers with the
  same content apart, as their addresses do.
\<close>

record sk_buff =
  skb_id :: nat
  linear :: "u8 list"
  frags :: "(nat \<times> nat \<times> nat) list"
  gso_size :: u16
  gso_segs :: nat
  gso_tcpv6 :: bool
  protocol :: u16
  summed :: ip_summed
  skb_csum :: u32
  csum_offset :: nat
  network_offset :: nat
  transport_offset :: nat
  header_cloned :: bool
  vlan_tag :: "u16 option"

definition skb_headlen :: "sk_buff \<Rightarrow> nat" where
  "skb_headlen s = length (linear s)"

definition skb_data_len :: "sk_buff \<Rightarrow> nat" where
  "skb_data_len s = sum_list (map (\<lambda>(page, offset, n). n) (frags s))"

definition skb_len :: "sk_buff \<Rightarrow> nat" where
  "skb_len s = skb_headlen s + skb_data_len s"

text \<open>The data offset of the TCP header, in bytes.\<close>

definition tcp_hdrlen :: "sk_buff \<Rightarrow> nat" where
  "tcp_hdrlen s = 4 * unat (drop_bit 4 (linear s ! (transport_offset s + 12)))"

text \<open>Two bytes of a header are overwritten.\<close>

definition poke16 :: "nat \<Rightarrow> u16 \<Rightarrow> sk_buff \<Rightarrow> sk_buff" where
  "poke16 off v s = s\<lparr>linear := (linear s)[off := hi8 v, off + 1 := lo8 v]\<rparr>"

section \<open>Events of the kernel\<close>

datatype dma_src = Linear nat | Frag nat nat | Rx_buffer nat | Page_buffer nat

datatype irq_handler = Intr_legacy | Intr_msi | Intr_msix_rx | Msix_other | Intr_msi_test

datatype mem_block = Tx_info | Tx_desc | Rx_info | Rx_desc | Ps_block nat

text \<open>
  What the driver holds of the system, the calls of the PCI layer that return a code, and what
  happens there.
\<close>

datatype resource = Device_enabled | Regions | Net_device | Bar nat | Tx_struct | Rx_struct | Registered

datatype pci_call = Enable_device | Dma_mask nat | Consistent_mask nat | Request_regions | Save_state
  | Register_netdev | Error_reporting

datatype pci_ev =
    Called pci_call int
  | Acquire resource
  | Release resource
  | Set_master
  | Restore_state
  | Enable_wake bool bool
  | Power_state nat
  | Link_control u16
  | Upstream_control u16
  | Wakeup_enable bool
  | Detach
  | Attach
  | Flush_work
  | No_error_reporting
  | Clear_errors
  | Disable_irq
  | Enable_irq

datatype kev =
    Map dma_src nat u64
  | Unmap u64 nat
  | Alloc_skb nat
  | Free_skb sk_buff
  | Alloc_page nat
  | Put_page nat
  | Receive sk_buff "u16 option"
  | Stop_queue
  | Start_queue
  | Wake_queue
  | Napi_schedule
  | Napi_complete
  | Watchdog_timer
  | Downshift_task
  | Enable_msix
  | Disable_msix
  | Enable_msi
  | Disable_msi
  | Request_irq irq_handler
  | Free_irq nat
  | Mem_alloc mem_block
  | Mem_free mem_block
  | Pci_command u16
  | Napi_enable
  | Napi_disable
  | Phy_info_timer
  | Stop_timers
  | Update_phy_task
  | Watchdog_task
  | Reset_task
  | Pci pci_ev

section \<open>Descriptors and rings\<close>

text \<open>The members for pages, used by reception only, are lists of the ring below.\<close>

record e1000_buffer =
  buf_dma :: u64
  buf_skb :: "sk_buff option"
  time_stamp :: u32
  buf_length :: u16
  next_to_watch :: nat

definition buffer_zero :: e1000_buffer where
  "buffer_zero = \<lparr>buf_dma = 0, buf_skb = None, time_stamp = 0, buf_length = 0, next_to_watch = 0\<rparr>"

text \<open>
  A transmit descriptor; a context descriptor is the same 16 bytes: its two set-up words are
  the address, \<open>cmd_and_length\<close> is the lower and \<open>tcp_seg_setup\<close> the upper word.
\<close>

record e1000_tx_desc =
  tx_addr :: u64
  tx_lower :: u32
  tx_upper :: u32

definition tx_desc_zero :: e1000_tx_desc where
  "tx_desc_zero = \<lparr>tx_addr = 0, tx_lower = 0, tx_upper = 0\<rparr>"

record e1000_rx_desc =
  rx_addr :: u64
  rx_length :: u16
  rx_csum :: u16
  rx_status :: u8
  rx_errors :: u8
  rx_special :: u16

definition rx_desc_zero :: e1000_rx_desc where
  "rx_desc_zero = \<lparr>rx_addr = 0, rx_length = 0, rx_csum = 0, rx_status = 0, rx_errors = 0, rx_special = 0\<rparr>"

text \<open>
  \<open>struct e1000_ring\<close>, with the type of its descriptors as a parameter.  The memory of a receive ring
  is used in one of two views: \<open>ring_desc\<close> of 16 bytes for each descriptor, or \<open>ps_desc\<close> of four 64-bit
  words, which are the addresses the driver writes and the fields the chip writes back over them.
  The view changes only between two clearings of the memory.  \<open>buf_page\<close> is the page of each buffer,
  \<open>ps_pages\<close> are the pages of each packet-split buffer with their addresses for the device.
\<close>

record 'd e1000_ring =
  ring_desc :: "'d list"
  ring_dma :: u64
  ring_count :: nat
  next_to_use :: nat
  next_to_clean :: nat
  ring_head :: u32
  ring_tail :: u32
  buffer_info :: "e1000_buffer list"
  ims_val :: u32
  itr_val :: u32
  itr_register :: u32
  set_itr :: bool
  buf_page :: "nat option list"
  ps_pages :: "(nat option \<times> u64) list list"
  rx_skb_top :: "sk_buff option"
  ps_desc :: "u64 list list"

definition ring_zero :: "'d e1000_ring" where
  "ring_zero = \<lparr>ring_desc = [], ring_dma = 0, ring_count = 0, next_to_use = 0, next_to_clean = 0,
     ring_head = 0, ring_tail = 0, buffer_info = [], ims_val = 0, itr_val = 0, itr_register = 0,
     set_itr = False, buf_page = [], ps_pages = [], rx_skb_top = None, ps_desc = []\<rparr>"

definition ring_next :: "'d e1000_ring \<Rightarrow> nat \<Rightarrow> nat" where
  "ring_next r i = (if i + 1 = ring_count r then 0 else i + 1)"

definition e1000_desc_unused :: "'d e1000_ring \<Rightarrow> int" where
  "e1000_desc_unused r =
     (if next_to_clean r > next_to_use r then int (next_to_clean r) - int (next_to_use r) - 1
      else int (ring_count r) + int (next_to_clean r) - int (next_to_use r) - 1)"

section \<open>What the kernel returns\<close>

text \<open>
  \<open>dma_map\<close> is the address a mapping returns, \<open>dma_error\<close> the test of that address,
  \<open>alloc_ok\<close> and \<open>page_ok\<close> whether the next buffer or page can be allocated, \<open>tailroom\<close> the room
  in an empty buffer of a size, \<open>expand_head\<close> the code of
  \<open>pskb_expand_head\<close>, \<open>pull_tail\<close> the buffer after \<open>__pskb_pull_tail\<close>, \<open>pseudo\<close> the folded
  sum of the TCP pseudo header of two addresses, \<open>rx_data\<close> the bytes the chip has stored at an
  address, \<open>eth_type_trans\<close> the protocol of a frame (the header it takes off is left in place);
  \<open>HZ\<close> is the frequency of the timer.  \<open>alloc_entries\<close> and \<open>enable_msix\<close> are whether these
  calls succeed, \<open>enable_msi\<close> and \<open>request_irq\<close> are the codes of theirs;
  \<open>mem_ok\<close> is whether a block of memory can be allocated, \<open>ring_addr\<close> the address of a descriptor
  ring of a size for the device if there is memory, \<open>tx_mem\<close>, \<open>rx_mem\<close> and \<open>ps_mem\<close> the
  descriptors that memory then holds; \<open>pci_command\<close> is the command register of the PCI configuration space.
\<close>

record kernel =
  dma_map :: "kev list \<Rightarrow> dma_src \<Rightarrow> nat \<Rightarrow> u64"
  dma_error :: "u64 \<Rightarrow> bool"
  alloc_ok :: "kev list \<Rightarrow> nat \<Rightarrow> bool"
  page_ok :: "kev list \<Rightarrow> bool"
  tailroom :: "nat \<Rightarrow> nat"
  expand_head :: "kev list \<Rightarrow> sk_buff \<Rightarrow> int"
  pull_tail :: "sk_buff \<Rightarrow> nat \<Rightarrow> sk_buff option"
  pseudo :: "u8 list \<Rightarrow> u8 list \<Rightarrow> u16"
  rx_data :: "u64 \<Rightarrow> nat \<Rightarrow> u8 list"
  eth_type_trans :: "u8 list \<Rightarrow> u16"
  HZ :: u32
  alloc_entries :: "kev list \<Rightarrow> bool"
  enable_msix :: "kev list \<Rightarrow> bool"
  enable_msi :: "kev list \<Rightarrow> int"
  request_irq :: "kev list \<Rightarrow> irq_handler \<Rightarrow> int"
  mem_ok :: "kev list \<Rightarrow> mem_block \<Rightarrow> bool"
  ring_addr :: "kev list \<Rightarrow> nat \<Rightarrow> u64 option"
  tx_mem :: "kev list \<Rightarrow> nat \<Rightarrow> e1000_tx_desc"
  rx_mem :: "kev list \<Rightarrow> nat \<Rightarrow> e1000_rx_desc"
  ps_mem :: "kev list \<Rightarrow> nat \<Rightarrow> u64 list"
  pci_command :: "kev list \<Rightarrow> u16"

section \<open>The adapter\<close>

text \<open>
  The statistics the driver keeps of the chip (the counters it reads), those it reports to the
  kernel apart from the packets and bytes of the adapter below, and a copy of PHY registers.
\<close>

record e1000_hw_stats =
  st_crcerrs :: u64
  st_algnerrc :: u64
  st_rxerrc :: u64
  st_mpc :: u64
  st_scc :: u64
  st_ecol :: u64
  st_mcc :: u64
  st_latecol :: u64
  st_colc :: u64
  st_dc :: u64
  st_tncrs :: u64
  st_cexterr :: u64
  st_xonrxc :: u64
  st_xontxc :: u64
  st_xoffrxc :: u64
  st_xofftxc :: u64
  st_gprc :: u64
  st_bprc :: u64
  st_mprc :: u64
  st_gptc :: u64
  st_gorc :: u64
  st_gotc :: u64
  st_rnbc :: u64
  st_ruc :: u64
  st_roc :: u64
  st_mgprc :: u64
  st_mgpdc :: u64
  st_mgptc :: u64
  st_tpt :: u64
  st_mptc :: u64
  st_bptc :: u64
  st_tsctc :: u64
  st_tsctfc :: u64

record net_device_stats =
  ns_multicast :: u64
  ns_collisions :: u64
  ns_rx_errors :: u64
  ns_rx_length_errors :: u64
  ns_rx_crc_errors :: u64
  ns_rx_frame_errors :: u64
  ns_rx_missed_errors :: u64
  ns_tx_errors :: u64
  ns_tx_aborted_errors :: u64
  ns_tx_window_errors :: u64
  ns_tx_carrier_errors :: u64

record e1000_phy_regs =
  pr_bmcr :: u16
  pr_bmsr :: u16
  pr_advertise :: u16
  pr_lpa :: u16
  pr_expansion :: u16
  pr_ctrl1000 :: u16
  pr_stat1000 :: u16
  pr_estatus :: u16

definition stats_zero :: e1000_hw_stats where
  "stats_zero = \<lparr>st_crcerrs = 0, st_algnerrc = 0, st_rxerrc = 0, st_mpc = 0, st_scc = 0, st_ecol = 0,
     st_mcc = 0, st_latecol = 0, st_colc = 0, st_dc = 0, st_tncrs = 0, st_cexterr = 0,
     st_xonrxc = 0, st_xontxc = 0, st_xoffrxc = 0, st_xofftxc = 0, st_gprc = 0,
     st_bprc = 0, st_mprc = 0, st_gptc = 0, st_gorc = 0, st_gotc = 0, st_rnbc = 0,
     st_ruc = 0, st_roc = 0, st_mgprc = 0, st_mgpdc = 0, st_mgptc = 0, st_tpt = 0,
     st_mptc = 0, st_bptc = 0, st_tsctc = 0, st_tsctfc = 0\<rparr>"

definition net_stats_zero :: net_device_stats where
  "net_stats_zero = \<lparr>ns_multicast = 0, ns_collisions = 0, ns_rx_errors = 0, ns_rx_length_errors = 0,
     ns_rx_crc_errors = 0, ns_rx_frame_errors = 0, ns_rx_missed_errors = 0,
     ns_tx_errors = 0, ns_tx_aborted_errors = 0, ns_tx_window_errors = 0,
     ns_tx_carrier_errors = 0\<rparr>"

definition phy_regs_zero :: e1000_phy_regs where
  "phy_regs_zero = \<lparr>pr_bmcr = 0, pr_bmsr = 0, pr_advertise = 0, pr_lpa = 0, pr_expansion = 0,
     pr_ctrl1000 = 0, pr_stat1000 = 0, pr_estatus = 0\<rparr>"

text \<open>
  \<open>clean_rx\<close> names the receive routine; \<open>napi_scheduled\<close> is the bit of the kernel that a poll is
  scheduled or that polling is disabled, \<open>features\<close> and \<open>mtu\<close> belong to the network device, and
  a VLAN group maps the numbers of its devices to their features.  \<open>copybreak\<close> is the variable of
  the module.
\<close>

datatype rx_routine = Rx_legacy | Rx_jumbo | Rx_ps

record e1000_adapter =
  hw :: e1000_hw
  klog :: "kev list"
  tx_ring :: "e1000_tx_desc e1000_ring"
  rx_ring :: "e1000_rx_desc e1000_ring"
  clean_rx :: rx_routine
  is_down :: bool
  testing :: bool
  resetting :: bool
  running :: bool
  queue_stopped :: bool
  carrier_ok :: bool
  napi_scheduled :: bool
  vlgrp :: "(u16 \<rightharpoonup> u32) option"
  mng_vlan_id :: u16
  features :: u32
  mtu :: u32
  net_flags :: u32
  dev_addr :: "u8 list"
  mc_list :: "u8 list list"
  queue_len :: u32
  tx_queue_len :: u32
  msix :: bool
  int_mode :: u32
  eiac_mask :: u32
  detect_tx_hung :: bool
  tx_timeout_factor :: u8
  txd_cmd :: u32
  tx_int_delay :: u32
  tx_abs_int_delay :: u32
  rx_int_delay :: u32
  rx_abs_int_delay :: u32
  restart_queue :: u32
  itr :: u32
  itr_setting :: u32
  tx_itr :: u16
  rx_itr :: u16
  link_speed :: u16
  link_duplex :: u16
  total_tx_bytes :: u32
  total_tx_packets :: u32
  total_rx_bytes :: u32
  total_rx_packets :: u32
  net_tx_bytes :: u32
  net_tx_packets :: u32
  net_rx_bytes :: u32
  net_rx_packets :: u32
  tx_dma_failed :: u32
  rx_dma_failed :: u32
  alloc_rx_buff_failed :: u32
  rx_hdr_split :: u64
  hw_csum_err :: u64
  hw_csum_good :: u64
  rx_buffer_len :: nat
  rx_ps_bsize0 :: u16
  rx_ps_pages :: u32
  copybreak :: nat
  max_frame_size :: u32
  min_frame_size :: u32
  pba :: u32
  wol :: u32
  flags :: u32
  flags2 :: u32
  tx_timeout_count :: u32
  stats :: e1000_hw_stats
  net_stats :: net_device_stats
  phy_regs :: e1000_phy_regs
  tpt_old :: u64
  colc_old :: u64
  gorc_now :: u32
  gorc_old :: u64
  gotc_now :: u32
  gotc_old :: u64

text \<open>The adapter as \<open>alloc_etherdev\<close> clears it, with the default of the device and the module.\<close>

definition adapter_zero :: e1000_adapter where
  "adapter_zero = \<lparr>hw = hw_zero, klog = [], tx_ring = ring_zero, rx_ring = ring_zero,
     clean_rx = Rx_legacy, is_down = False, testing = False, resetting = False,
     running = False, queue_stopped = False, carrier_ok = False,
     napi_scheduled = False, vlgrp = None, mng_vlan_id = 0, features = 0, mtu = 1500, net_flags = 0,
     dev_addr = replicate 6 0, mc_list = [], queue_len = 1000, tx_queue_len = 0,
     msix = False, int_mode = 0, eiac_mask = 0, detect_tx_hung = False,
     tx_timeout_factor = 0, txd_cmd = 0, tx_int_delay = 0, tx_abs_int_delay = 0,
     rx_int_delay = 0, rx_abs_int_delay = 0, restart_queue = 0, itr = 0, itr_setting = 0,
     tx_itr = 0, rx_itr = 0, link_speed = 0, link_duplex = 0, total_tx_bytes = 0,
     total_tx_packets = 0, total_rx_bytes = 0, total_rx_packets = 0, net_tx_bytes = 0,
     net_tx_packets = 0, net_rx_bytes = 0, net_rx_packets = 0, tx_dma_failed = 0,
     rx_dma_failed = 0, alloc_rx_buff_failed = 0, rx_hdr_split = 0, hw_csum_err = 0, hw_csum_good = 0,
     rx_buffer_len = 0, rx_ps_bsize0 = 0, rx_ps_pages = 0, copybreak = 256,
     max_frame_size = 0, min_frame_size = 0, pba = 0, wol = 0, flags = 0, flags2 = 0,
     tx_timeout_count = 0, stats = stats_zero, net_stats = net_stats_zero, phy_regs = phy_regs_zero,
     tpt_old = 0, colc_old = 0, gorc_now = 0, gorc_old = 0, gotc_now = 0, gotc_old = 0\<rparr>"

text \<open>Register access and the functions of the hardware layer, on the hardware structure.\<close>

definition hw_op :: "(e1000_hw, 'a) state \<Rightarrow> (e1000_adapter, 'a) state" where
  "hw_op m = State (\<lambda>a. let (r, h) = run_state m (hw a) in (r, a\<lparr>hw := h\<rparr>))"

abbreviation log_ev :: "kev \<Rightarrow> (e1000_adapter, unit) state" where
  "log_ev e \<equiv> modify (\<lambda>a. a\<lparr>klog := e # klog a\<rparr>)"

abbreviation set_rx :: "(e1000_rx_desc e1000_ring \<Rightarrow> e1000_rx_desc e1000_ring) \<Rightarrow>
    (e1000_adapter, unit) state" where
  "set_rx f \<equiv> modify (\<lambda>a. a\<lparr>rx_ring := f (rx_ring a)\<rparr>)"

abbreviation set_tx :: "(e1000_tx_desc e1000_ring \<Rightarrow> e1000_tx_desc e1000_ring) \<Rightarrow>
    (e1000_adapter, unit) state" where
  "set_tx f \<equiv> modify (\<lambda>a. a\<lparr>tx_ring := f (tx_ring a)\<rparr>)"

definition upd_buffer :: "nat \<Rightarrow> (e1000_buffer \<Rightarrow> e1000_buffer) \<Rightarrow> 'd e1000_ring \<Rightarrow> 'd e1000_ring" where
  "upd_buffer i f r = r\<lparr>buffer_info := (buffer_info r)[i := f (buffer_info r ! i)]\<rparr>"

definition upd_desc :: "nat \<Rightarrow> ('d \<Rightarrow> 'd) \<Rightarrow> 'd e1000_ring \<Rightarrow> 'd e1000_ring" where
  "upd_desc i f r = r\<lparr>ring_desc := (ring_desc r)[i := f (ring_desc r ! i)]\<rparr>"

lemma wp_hw_op: "wp (hw_op m) Q a = wp m (\<lambda>r h. Q r (a\<lparr>hw := h\<rparr>)) (hw a)"
  by (simp add: hw_op_def wp_def split: prod.splits)

lemma upd_ring_simps [simp]:
  "ring_count (upd_buffer i f r) = ring_count r" "ring_count (upd_desc i g r) = ring_count r"
  "next_to_use (upd_buffer i f r) = next_to_use r" "next_to_use (upd_desc i g r) = next_to_use r"
  "next_to_clean (upd_buffer i f r) = next_to_clean r" "next_to_clean (upd_desc i g r) = next_to_clean r"
  "ring_desc (upd_buffer i f r) = ring_desc r" "buffer_info (upd_desc i g r) = buffer_info r"
  "ring_tail (upd_buffer i f r) = ring_tail r" "ring_tail (upd_desc i g r) = ring_tail r"
  "buffer_info (upd_buffer i f r) = (buffer_info r)[i := f (buffer_info r ! i)]"
  "ring_desc (upd_desc i g r) = (ring_desc r)[i := g (ring_desc r ! i)]"
  by (simp_all add: upd_buffer_def upd_desc_def)

definition upd_page :: "nat \<Rightarrow> nat option \<Rightarrow> 'd e1000_ring \<Rightarrow> 'd e1000_ring" where
  "upd_page i p r = r\<lparr>buf_page := (buf_page r)[i := p]\<rparr>"

definition upd_ps :: "nat \<Rightarrow> (nat option \<times> u64) list \<Rightarrow> 'd e1000_ring \<Rightarrow> 'd e1000_ring" where
  "upd_ps i ps r = r\<lparr>ps_pages := (ps_pages r)[i := ps]\<rparr>"

lemma upd_page_simps [simp]:
  "ring_count (upd_page i p r) = ring_count r" "ring_count (upd_ps i ps r) = ring_count r"
  "ring_desc (upd_page i p r) = ring_desc r" "ring_desc (upd_ps i ps r) = ring_desc r"
  "buffer_info (upd_page i p r) = buffer_info r" "buffer_info (upd_ps i ps r) = buffer_info r"
  by (simp_all add: upd_page_def upd_ps_def)

text \<open>A part of the state that an operation leaves alone.\<close>

definition keeps :: "('s \<Rightarrow> 'v) \<Rightarrow> ('s, 'a) state \<Rightarrow> bool" where
  "keeps v m \<longleftrightarrow> (\<forall>a. v (exec m a) = v a)"

named_theorems keeps_intros

lemma keeps_basic [keeps_intros]:
  "keeps v (ret x)" "keeps v (gets f)"
  "(\<And>a. v (g a) = v a) \<Longrightarrow> keeps v (modify g)"
  by (simp_all add: keeps_def)

lemma keeps_bind [keeps_intros]: "keeps v m \<Longrightarrow> (\<And>x. keeps v (f x)) \<Longrightarrow> keeps v (State_Monad.bind m f)"
  by (simp add: keeps_def split: prod.splits) (metis snd_conv)

lemma keeps_split [keeps_intros]:
  "(b \<Longrightarrow> keeps v m) \<Longrightarrow> (\<not> b \<Longrightarrow> keeps v n) \<Longrightarrow> keeps v (if b then m else n)"
  "(\<And>x. keeps v (f x)) \<Longrightarrow> keeps v (let x = e in f x)"
  "keeps v m \<Longrightarrow> (\<And>x. keeps v (f x)) \<Longrightarrow> keeps v (case z of None \<Rightarrow> m | Some x \<Rightarrow> f x)"
  "(\<And>x y. keeps v (g x y)) \<Longrightarrow> keeps v (case p of (x, y) \<Rightarrow> g x y)"
  "keeps v m \<Longrightarrow> keeps v n \<Longrightarrow> keeps v (case q of True \<Rightarrow> m | False \<Rightarrow> n)"
  by (auto split: option.splits prod.splits bool.splits)

lemma keeps_hw_op [keeps_intros]: "(\<And>a h. v (a\<lparr>hw := h\<rparr>) = v a) \<Longrightarrow> keeps v (hw_op m)"
  by (simp add: keeps_def hw_op_def split_def Let_def)

lemma keeps_for_each [keeps_intros]: "(\<And>x. keeps v (f x)) \<Longrightarrow> keeps v (for_each xs f)"
  by (induction xs) (auto intro!: keeps_intros)

lemma keeps_wp: "keeps v m \<Longrightarrow> wp m (\<lambda>_ b. v b = v a) a"
  by (simp add: keeps_def wp_iff)

text \<open>A kernel for concrete runs: nothing fails, every buffer is mapped to the same address.\<close>

definition kernel0 :: kernel where
  "kernel0 = \<lparr>dma_map = (\<lambda>h s n. 0x1000), dma_error = (\<lambda>d. False), alloc_ok = (\<lambda>h n. True), page_ok = (\<lambda>h. True), tailroom = (\<lambda>n. n),
     expand_head = (\<lambda>h s. 0), pull_tail = (\<lambda>s n. None), pseudo = (\<lambda>x y. 0),
     rx_data = (\<lambda>d n. replicate n 0), eth_type_trans = (\<lambda>b. 0x0800), HZ = 100,
     alloc_entries = (\<lambda>h. True), enable_msix = (\<lambda>h. True), enable_msi = (\<lambda>h. 0),
     request_irq = (\<lambda>h f. 0), mem_ok = (\<lambda>h b. True), ring_addr = (\<lambda>h n. Some 0x100000),
     tx_mem = (\<lambda>h i. tx_desc_zero), rx_mem = (\<lambda>h i. rx_desc_zero), ps_mem = (\<lambda>h i. replicate 4 0),
     pci_command = (\<lambda>h. 0x0107)\<rparr>"

end
