(* ===== verification/NetTx.thy ===== *)
theory NetTx
  imports NetBase
begin

text \<open>
  Transmission, netdev.c: offload context descriptors, the mapping of a frame to descriptors,
  the hand-over to the chip, the stop and wake-up of the queue, and the reclaim of sent frames.

  Another processor may work between the stop of the queue and the second look at the ring:
  that work is the argument \<open>race\<close>.  \<open>now\<close> is the value of \<open>jiffies\<close> during the call.
\<close>

section \<open>Queue control\<close>

definition stop_queue :: "(e1000_adapter, unit) state" where
  "stop_queue = modify (\<lambda>a. a\<lparr>queue_stopped := True, klog := Stop_queue # klog a\<rparr>)"

definition start_queue :: "kev \<Rightarrow> (e1000_adapter, unit) state" where
  "start_queue e = modify (\<lambda>a. a\<lparr>queue_stopped := False, klog := e # klog a,
     restart_queue := restart_queue a + 1\<rparr>)"

definition maybe_stop_tx_slow :: "(e1000_adapter, unit) state \<Rightarrow> nat \<Rightarrow> (e1000_adapter, bool) state" where
  "maybe_stop_tx_slow race n = do {
     stop_queue;
     race;
     unused \<leftarrow> gets (\<lambda>a. e1000_desc_unused (tx_ring a));
     (if unused < int n then ret True
      else do { start_queue Start_queue; ret False }) }"

text \<open>The result is whether the caller has to give up (\<open>-EBUSY\<close>).\<close>

definition e1000_maybe_stop_tx :: "(e1000_adapter, unit) state \<Rightarrow> nat \<Rightarrow> (e1000_adapter, bool) state" where
  "e1000_maybe_stop_tx race n = do {
     unused \<leftarrow> gets (\<lambda>a. e1000_desc_unused (tx_ring a));
     (if unused \<ge> int n then ret False else maybe_stop_tx_slow race n) }"

section \<open>Offload context\<close>

definition setup_word :: "u8 \<Rightarrow> u8 \<Rightarrow> u16 \<Rightarrow> u32" where
  "setup_word a b c = ucast a OR push_bit 8 (ucast b) OR push_bit 16 (ucast c)"

text \<open>The bookkeeping of a context descriptor at the end of both functions.\<close>

definition put_context :: "u32 \<Rightarrow> nat \<Rightarrow> (e1000_tx_desc \<Rightarrow> e1000_tx_desc) \<Rightarrow> (e1000_adapter, unit) state" where
  "put_context now i f = set_tx (\<lambda>r.
     (upd_buffer i (\<lambda>b. b\<lparr>time_stamp := now, next_to_watch := i\<rparr>) (upd_desc i f r))
       \<lparr>next_to_use := ring_next r i\<rparr>)"

definition E1000_TXD_CMD_DEXT :: u32 where "E1000_TXD_CMD_DEXT = 0x20000000"
definition E1000_TXD_CMD_TSE :: u32 where "E1000_TXD_CMD_TSE = 0x04000000"
definition E1000_TXD_CMD_TCP :: u32 where "E1000_TXD_CMD_TCP = 0x01000000"

text \<open>The headers as \<open>e1000_tso\<close> prepares them for the segmentation by the chip.\<close>

definition tso_headers :: "kernel \<Rightarrow> sk_buff \<Rightarrow> sk_buff" where
  "tso_headers K skb = (let n = network_offset skb; t = transport_offset skb;
       bytes = (\<lambda>s off k. take k (drop off (linear s)));
       put_check = (\<lambda>s sum. poke16 (t + 16) (NOT sum) s) in
     if protocol skb = 0x0800 then
       (let s = poke16 (n + 10) 0 (poke16 (n + 2) 0 skb) in
        put_check s (pseudo K (bytes s (n + 12) 4) (bytes s (n + 16) 4)))
     else if gso_tcpv6 skb then
       (let s = poke16 (n + 4) 0 skb in
        put_check s (pseudo K (bytes s (n + 8) 16) (bytes s (n + 24) 16)))
     else skb)"

text \<open>The context descriptor of a segmented frame; its status byte is not written.\<close>

definition tso_context :: "sk_buff \<Rightarrow> e1000_tx_desc \<Rightarrow> e1000_tx_desc" where
  "tso_context skb d = (let n = network_offset skb; t = transport_offset skb;
       hdr_len = of_nat (t + tcp_hdrlen skb) :: u8;
       ipv4 = protocol skb = 0x0800;
       ipcse = (if ipv4 then of_nat t - 1 else 0) :: u16 in
     d\<lparr>tx_addr := ucast (setup_word (of_nat n) (of_nat (n + 10)) ipcse) OR
         push_bit 32 (ucast (setup_word (of_nat t) (of_nat (t + 16)) 0)),
       tx_lower := (if ipv4 then 0x02000000 else 0) OR (E1000_TXD_CMD_DEXT OR E1000_TXD_CMD_TSE OR
         E1000_TXD_CMD_TCP OR (of_nat (skb_len skb) - ucast hdr_len)),
       tx_upper := (tx_upper d AND 0xFF) OR push_bit 8 (ucast hdr_len) OR
         push_bit 16 (ucast (gso_size skb))\<rparr>)"

text \<open>The result is the return code and the buffer with its prepared headers.\<close>

definition e1000_tso :: "kernel \<Rightarrow> u32 \<Rightarrow> sk_buff \<Rightarrow> (e1000_adapter, int \<times> sk_buff) state" where
  "e1000_tso K now skb =
     (if gso_size skb = 0 then ret (0, skb)
      else do {
        h \<leftarrow> gets klog;
        (let err = (if header_cloned skb then expand_head K h skb else 0) in
         if err \<noteq> 0 then ret (err, skb)
         else do {
           i \<leftarrow> gets (\<lambda>a. next_to_use (tx_ring a));
           put_context now i (tso_context skb);
           ret (1, tso_headers K skb) }) })"

text \<open>The protocol number is in byte 9 of an IPv4 and in byte 6 of an IPv6 header.\<close>

definition csum_context :: "sk_buff \<Rightarrow> e1000_tx_desc \<Rightarrow> e1000_tx_desc" where
  "csum_context skb d = (let n = network_offset skb; css = of_nat (transport_offset skb) :: u8;
       tcp = (if protocol skb = 0x0800 then linear skb ! (n + 9) = 6
         else if protocol skb = 0x86DD then linear skb ! (n + 6) = 6 else False) in
     d\<lparr>tx_addr := push_bit 32 (ucast (setup_word css (css + of_nat (csum_offset skb)) 0)),
       tx_lower := (if tcp then E1000_TXD_CMD_DEXT OR E1000_TXD_CMD_TCP else E1000_TXD_CMD_DEXT),
       tx_upper := 0\<rparr>)"

definition e1000_tx_csum :: "u32 \<Rightarrow> sk_buff \<Rightarrow> (e1000_adapter, bool) state" where
  "e1000_tx_csum now skb =
     (if summed skb \<noteq> CHECKSUM_PARTIAL then ret False
      else do {
        i \<leftarrow> gets (\<lambda>a. next_to_use (tx_ring a));
        put_context now i (csum_context skb);
        ret True })"

section \<open>Mapping\<close>

text \<open>
  The loop over one contiguous piece, from \<open>offset\<close>, with \<open>i\<close> the next slot and \<open>count\<close> the
  slots used so far.  The step is at most \<open>max_per_txd\<close>, which the caller never makes zero.
  \<open>None\<close> is the failed mapping.
\<close>

function map_piece :: "kernel \<Rightarrow> u32 \<Rightarrow> nat \<Rightarrow> (nat \<Rightarrow> dma_src) \<Rightarrow> nat \<Rightarrow> nat \<Rightarrow> nat \<Rightarrow> nat \<Rightarrow>
    (e1000_adapter, (nat \<times> nat) option) state" where
  "map_piece K now max_per_txd src len offset i count =
     (if len = 0 \<or> max_per_txd = 0 then ret (Some (i, count))
      else (let n = min len max_per_txd in do {
        h \<leftarrow> gets klog;
        (let dma = dma_map K h (src offset) n in do {
           log_ev (Map (src offset) n dma);
           set_tx (upd_buffer i (\<lambda>b. b\<lparr>buf_length := of_nat n, time_stamp := now, buf_dma := dma\<rparr>));
           (if dma_error K dma then do {
              modify (\<lambda>a. a\<lparr>tx_dma_failed := tx_dma_failed a + 1\<rparr>);
              ret None }
            else do {
              set_tx (upd_buffer i (\<lambda>b. b\<lparr>next_to_watch := i\<rparr>));
              next \<leftarrow> gets (\<lambda>a. ring_next (tx_ring a) i);
              map_piece K now max_per_txd src (len - n) (offset + n) next (count + 1) }) }) }))"
  by pat_completeness auto
termination by (relation "measure (\<lambda>(K, now, m, src, len, offset, i, count). len)") auto

fun map_frags :: "kernel \<Rightarrow> u32 \<Rightarrow> nat \<Rightarrow> (nat \<times> nat \<times> nat) list \<Rightarrow> nat \<Rightarrow> nat \<Rightarrow>
    (e1000_adapter, (nat \<times> nat) option) state" where
  "map_frags K now m [] i count = ret (Some (i, count))"
| "map_frags K now m ((page, offset, n) # fs) i count = do {
     r \<leftarrow> map_piece K now m (Frag page) n offset i count;
     (case r of None \<Rightarrow> ret None | Some (i, count) \<Rightarrow> map_frags K now m fs i count) }"

definition e1000_tx_map :: "kernel \<Rightarrow> u32 \<Rightarrow> sk_buff \<Rightarrow> nat \<Rightarrow> nat \<Rightarrow> (e1000_adapter, nat option) state" where
  "e1000_tx_map K now skb first max_per_txd = do {
     i \<leftarrow> gets (\<lambda>a. next_to_use (tx_ring a));
     r \<leftarrow> map_piece K now max_per_txd Linear (skb_headlen skb) 0 i 0;
     r \<leftarrow> (case r of None \<Rightarrow> ret None
           | Some (i, count) \<Rightarrow> map_frags K now max_per_txd (frags skb) i count);
     (case r of None \<Rightarrow> ret None
      | Some (i, count) \<Rightarrow> do {
          set_tx (\<lambda>r. let e = (if i = 0 then ring_count r - 1 else i - 1) in
            upd_buffer first (\<lambda>b. b\<lparr>next_to_watch := e\<rparr>)
              (upd_buffer e (\<lambda>b. b\<lparr>buf_skb := Some skb\<rparr>) r));
          ret (Some count) }) }"

section \<open>Hand-over\<close>

definition E1000_TX_FLAGS_CSUM :: u32 where "E1000_TX_FLAGS_CSUM = 1"
definition E1000_TX_FLAGS_VLAN :: u32 where "E1000_TX_FLAGS_VLAN = 2"
definition E1000_TX_FLAGS_TSO :: u32 where "E1000_TX_FLAGS_TSO = 4"
definition E1000_TX_FLAGS_IPV4 :: u32 where "E1000_TX_FLAGS_IPV4 = 8"

definition txd_lower_of :: "u32 \<Rightarrow> u32" where
  "txd_lower_of tx_flags = 0x02000000
     OR (if tx_flags AND E1000_TX_FLAGS_TSO \<noteq> 0 then E1000_TXD_CMD_DEXT OR 0x00100000 OR E1000_TXD_CMD_TSE else 0)
     OR (if tx_flags AND E1000_TX_FLAGS_CSUM \<noteq> 0 then E1000_TXD_CMD_DEXT OR 0x00100000 else 0)
     OR (if tx_flags AND E1000_TX_FLAGS_VLAN \<noteq> 0 then 0x40000000 else 0)"

definition txd_upper_of :: "u32 \<Rightarrow> u32" where
  "txd_upper_of tx_flags =
     (if tx_flags AND E1000_TX_FLAGS_TSO \<noteq> 0 then
        0x0200 OR (if tx_flags AND E1000_TX_FLAGS_IPV4 \<noteq> 0 then 0x0100 else 0) else 0)
     OR (if tx_flags AND E1000_TX_FLAGS_CSUM \<noteq> 0 then 0x0200 else 0)
     OR (if tx_flags AND E1000_TX_FLAGS_VLAN \<noteq> 0 then tx_flags AND 0xFFFF0000 else 0)"

text \<open>The loop returns the slot behind the last descriptor and the last one written.\<close>

fun queue_descs :: "u32 \<Rightarrow> u32 \<Rightarrow> nat \<Rightarrow> nat \<Rightarrow> nat option \<Rightarrow> (e1000_adapter, nat \<times> nat option) state" where
  "queue_descs lower upper 0 i prev = ret (i, prev)"
| "queue_descs lower upper (Suc n) i prev = do {
     set_tx (\<lambda>r. let b = buffer_info r ! i in upd_desc i (\<lambda>d. d\<lparr>tx_addr := buf_dma b,
       tx_lower := lower OR ucast (buf_length b), tx_upper := upper\<rparr>) r);
     next \<leftarrow> gets (\<lambda>a. ring_next (tx_ring a) i);
     queue_descs lower upper n next (Some i) }"

text \<open>\<open>count\<close> is positive, a frame is not empty: there is a last descriptor.\<close>

definition e1000_tx_queue :: "u32 \<Rightarrow> nat \<Rightarrow> (e1000_adapter, unit) state" where
  "e1000_tx_queue tx_flags count = do {
     i \<leftarrow> gets (\<lambda>a. next_to_use (tx_ring a));
     (i, prev) \<leftarrow> queue_descs (txd_lower_of tx_flags) (txd_upper_of tx_flags) count i None;
     cmd \<leftarrow> gets txd_cmd;
     (case prev of None \<Rightarrow> skip
      | Some l \<Rightarrow> set_tx (upd_desc l (\<lambda>d. d\<lparr>tx_lower := tx_lower d OR cmd\<rparr>)));
     set_tx (\<lambda>r. r\<lparr>next_to_use := i\<rparr>);
     tl \<leftarrow> gets (\<lambda>a. ring_tail (tx_ring a));
     hw_op (ew32 tl (of_nat i)) }"

section \<open>DHCP frames for the management firmware\<close>

text \<open>
  The payload is read from the linear part; what lies behind it when the frame is fragmented
  is not known.
\<close>

definition e1000_transfer_dhcp_info :: "mmio \<Rightarrow> sk_buff \<Rightarrow> (e1000_adapter, int) state" where
  "e1000_transfer_dhcp_info E skb = do {
     cookie \<leftarrow> gets (\<lambda>a. mng_cookie (hw a));
     (let b = (\<lambda>i. linear skb ! i); udp = 14 + 4 * unat (b 14 AND 0x0F) in
      if (case vlan_tag skb of None \<Rightarrow> False
          | Some tag \<Rightarrow> \<not> (tag = cookie_vlan cookie \<and> cookie ! 4 AND 0x02 \<noteq> 0)) then ret 0
      else if skb_len skb \<le> 282 then ret 0
      else if join16 (b 12) (b 13) \<noteq> 0x0800 then ret 0
      else if b (14 + 9) \<noteq> 17 then ret 0
      else if join16 (b (udp + 2)) (b (udp + 3)) \<noteq> 67 then ret 0
      else hw_op (e1000e_mng_write_dhcp_info E (e1000_mng_enable_host_if_generic E)
        (e1000_mng_host_if_write_generic E) (e1000_mng_write_cmd_header_generic E)
        (\<lambda>i. b (udp + 8 + i)) (of_nat (skb_len skb) - of_nat (udp + 8)))) }"

section \<open>The transmit entry point\<close>

text \<open>\<open>fls\<close>: the number of the highest bit set, from one.\<close>

fun fls :: "nat \<Rightarrow> nat" where
  "fls n = (if n = 0 then 0 else Suc (fls (n div 2)))"

declare fls.simps [simp del]

definition TXD_USE_COUNT :: "nat \<Rightarrow> nat \<Rightarrow> nat" where
  "TXD_USE_COUNT S X = S div 2 ^ X + 1"

text \<open>The limit of a descriptor and its rounded logarithm.\<close>

definition max_per_txd_of :: "sk_buff \<Rightarrow> nat" where
  "max_per_txd_of skb = (if gso_size skb \<noteq> 0 then min (4 * unat (gso_size skb)) 8192 else 8192)"

definition max_txd_pwr_of :: "sk_buff \<Rightarrow> nat" where
  "max_txd_pwr_of skb = (if gso_size skb \<noteq> 0 then fls (max_per_txd_of skb) - 1 else 12)"

definition tx_count :: "sk_buff \<Rightarrow> nat" where
  "tx_count skb = (let pwr = max_txd_pwr_of skb in
     (if gso_size skb \<noteq> 0 \<or> summed skb = CHECKSUM_PARTIAL then 1 else 0) + 1 +
     TXD_USE_COUNT (skb_headlen skb) pwr +
     sum_list (map (\<lambda>(page, offset, n). TXD_USE_COUNT n pwr) (frags skb)))"

text \<open>The work-around that pulls payload into a linear part that holds headers only.\<close>

definition tx_pull :: "kernel \<Rightarrow> sk_buff \<Rightarrow> sk_buff option" where
  "tx_pull K skb =
     (if gso_size skb \<noteq> 0 \<and> skb_data_len skb \<noteq> 0 \<and>
         unat (of_nat (transport_offset skb + tcp_hdrlen skb) :: u8) = skb_headlen skb
      then pull_tail K skb (min 4 (skb_data_len skb)) else Some skb)"

definition NETDEV_TX_OK :: int where "NETDEV_TX_OK = 0"
definition NETDEV_TX_BUSY :: int where "NETDEV_TX_BUSY = 1"

definition MAX_SKB_FRAGS :: nat where "MAX_SKB_FRAGS = 18"

definition drop_skb :: "sk_buff \<Rightarrow> (e1000_adapter, int) state" where
  "drop_skb skb = do { log_ev (Free_skb skb); ret NETDEV_TX_OK }"

definition tx_flags_of :: "bool \<Rightarrow> bool \<Rightarrow> bool \<Rightarrow> sk_buff \<Rightarrow> u32" where
  "tx_flags_of grp tso csum skb =
     (case vlan_tag skb of None \<Rightarrow> 0
      | Some tag \<Rightarrow> if grp then E1000_TX_FLAGS_VLAN OR push_bit 16 (ucast tag) else 0) OR
     (if tso then E1000_TX_FLAGS_TSO else if csum then E1000_TX_FLAGS_CSUM else 0) OR
     (if protocol skb = 0x0800 then E1000_TX_FLAGS_IPV4 else 0)"

definition xmit_mapped :: "kernel \<Rightarrow> (e1000_adapter, unit) state \<Rightarrow> u32 \<Rightarrow> sk_buff \<Rightarrow> nat \<Rightarrow> u32 \<Rightarrow>
    (e1000_adapter, int) state" where
  "xmit_mapped K race now skb first tx_flags = do {
     count \<leftarrow> e1000_tx_map K now skb first (max_per_txd_of skb);
     (case count of None \<Rightarrow> drop_skb skb
      | Some count \<Rightarrow> do {
          e1000_tx_queue tx_flags count;
          busy \<leftarrow> e1000_maybe_stop_tx race (MAX_SKB_FRAGS + 2);
          ret NETDEV_TX_OK }) }"

text \<open>From the point where the room in the ring is known.\<close>

definition xmit_reserved :: "kernel \<Rightarrow> (e1000_adapter, unit) state \<Rightarrow> u32 \<Rightarrow> sk_buff \<Rightarrow>
    (e1000_adapter, int) state" where
  "xmit_reserved K race now skb = do {
     grp \<leftarrow> gets (\<lambda>a. vlgrp a \<noteq> None);
     first \<leftarrow> gets (\<lambda>a. next_to_use (tx_ring a));
     (tso, skb) \<leftarrow> e1000_tso K now skb;
     (if tso < 0 then drop_skb skb
      else do {
        csum \<leftarrow> (if tso \<noteq> 0 then ret False else e1000_tx_csum now skb);
        xmit_mapped K race now skb first (tx_flags_of grp (tso \<noteq> 0) csum skb) }) }"

definition e1000_xmit_frame :: "mmio \<Rightarrow> kernel \<Rightarrow> (e1000_adapter, unit) state \<Rightarrow> u32 \<Rightarrow> sk_buff \<Rightarrow>
    (e1000_adapter, int) state" where
  "e1000_xmit_frame E K race now skb = do {
     down \<leftarrow> gets is_down;
     (if down \<or> skb_len skb = 0 then drop_skb skb
      else (case tx_pull K skb of None \<Rightarrow> drop_skb skb
      | Some skb \<Rightarrow> do {
          filtering \<leftarrow> gets (\<lambda>a. tx_pkt_filtering (mac (hw a)));
          (if filtering then do { r \<leftarrow> e1000_transfer_dhcp_info E skb; skip } else skip);
          busy \<leftarrow> e1000_maybe_stop_tx race (tx_count skb + 2);
          (if busy then ret NETDEV_TX_BUSY else xmit_reserved K race now skb) })) }"

section \<open>Reclaim\<close>

definition e1000_put_txbuf :: "nat \<Rightarrow> (e1000_adapter, unit) state" where
  "e1000_put_txbuf i = do {
     b \<leftarrow> gets (\<lambda>a. buffer_info (tx_ring a) ! i);
     (if buf_dma b \<noteq> 0 then do {
        log_ev (Unmap (buf_dma b) (unat (buf_length b)));
        set_tx (upd_buffer i (\<lambda>b. b\<lparr>buf_dma := 0\<rparr>)) } else skip);
     (case buf_skb b of None \<Rightarrow> skip
      | Some skb \<Rightarrow> do {
          log_ev (Free_skb skb);
          set_tx (upd_buffer i (\<lambda>b. b\<lparr>buf_skb := None\<rparr>)) }) }"

text \<open>The packets and bytes on the wire of one frame, segmentation included.\<close>

definition wire_segs :: "sk_buff \<Rightarrow> nat" where
  "wire_segs skb = (if gso_segs skb = 0 then 1 else gso_segs skb)"

definition wire_bytes :: "sk_buff \<Rightarrow> nat" where
  "wire_bytes skb = (wire_segs skb - 1) * skb_headlen skb + skb_len skb"

text \<open>
  The loop over the descriptors of one frame.  The result is the next slot, the packets and
  bytes so far and whether the limit of a poll is reached; it is \<open>None\<close> when the last slot has
  no socket buffer, which the code dereferences, or when the end is not met within the ring.
\<close>

fun clean_frame :: "nat \<Rightarrow> nat \<Rightarrow> nat \<Rightarrow> nat \<Rightarrow> nat \<Rightarrow>
    (e1000_adapter, (nat \<times> nat \<times> nat \<times> bool) option) state" where
  "clean_frame 0 i eop packets bytes = ret None"
| "clean_frame (Suc fuel) i eop packets bytes = do {
     r \<leftarrow> gets tx_ring;
     (case (if i = eop then map_option (\<lambda>s. (packets + wire_segs s, bytes + wire_bytes s)) (buf_skb (buffer_info r ! i))
            else Some (packets, bytes)) of
        None \<Rightarrow> ret None
      | Some (packets, bytes) \<Rightarrow> do {
          e1000_put_txbuf i;
          set_tx (upd_desc i (\<lambda>d. d\<lparr>tx_upper := 0\<rparr>));
          (if packets \<ge> ring_count r then ret (Some (ring_next r i, packets, bytes, True))
           else if i = eop then ret (Some (ring_next r i, packets, bytes, False))
           else clean_frame fuel (ring_next r i) eop packets bytes) }) }"

text \<open>
  The loop over the frames.  The result is the next slot, the end last looked at, the totals,
  whether a frame was reclaimed and whether the limit was reached.
\<close>

fun clean_tx_loop :: "nat \<Rightarrow> nat \<Rightarrow> nat \<Rightarrow> nat \<Rightarrow> bool \<Rightarrow>
    (e1000_adapter, (nat \<times> nat \<times> nat \<times> nat \<times> bool \<times> bool) option) state" where
  "clean_tx_loop 0 i packets bytes cleaned = ret None"
| "clean_tx_loop (Suc fuel) i packets bytes cleaned = do {
     r \<leftarrow> gets tx_ring;
     (let eop = next_to_watch (buffer_info r ! i) in
      if tx_upper (ring_desc r ! eop) AND 1 = 0 then ret (Some (i, eop, packets, bytes, cleaned, False))
      else do {
        f \<leftarrow> clean_frame (ring_count r) i eop packets bytes;
        (case f of None \<Rightarrow> ret None
         | Some (i, packets, bytes, limit) \<Rightarrow>
             if limit then ret (Some (i, eop, packets, bytes, True, True))
             else clean_tx_loop fuel i packets bytes True) }) }"

definition TX_WAKE_THRESHOLD :: int where "TX_WAKE_THRESHOLD = 32"

definition wake_tx :: "bool \<Rightarrow> (e1000_adapter, unit) state" where
  "wake_tx cleaned = do {
     a \<leftarrow> gets (\<lambda>a. a);
     (if cleaned \<and> carrier_ok a \<and> e1000_desc_unused (tx_ring a) \<ge> TX_WAKE_THRESHOLD \<and>
         queue_stopped a \<and> \<not> is_down a
      then start_queue Wake_queue else skip) }"

definition e1000_print_tx_hang :: "mmio \<Rightarrow> (e1000_adapter, unit) state" where
  "e1000_print_tx_hang E = do {
     h \<leftarrow> gets (\<lambda>a. ring_head (tx_ring a));
     t \<leftarrow> gets (\<lambda>a. ring_tail (tx_ring a));
     tdh \<leftarrow> hw_op (er32 E h);
     tdt \<leftarrow> hw_op (er32 E t);
     skip }"

definition check_tx_hang :: "mmio \<Rightarrow> kernel \<Rightarrow> u32 \<Rightarrow> nat \<Rightarrow> (e1000_adapter, unit) state" where
  "check_tx_hang E K now eop = do {
     detect \<leftarrow> gets detect_tx_hung;
     (if \<not> detect then skip
      else do {
        modify (\<lambda>a. a\<lparr>detect_tx_hung := False\<rparr>);
        b \<leftarrow> gets (\<lambda>a. buffer_info (tx_ring a) ! eop);
        factor \<leftarrow> gets tx_timeout_factor;
        (if buf_dma b \<noteq> 0 \<and> sint (time_stamp b + ucast factor * HZ K - now) < 0 then do {
           status \<leftarrow> hw_op (er32 E STATUS);
           (if status AND 0x00000010 = 0 then do { e1000_print_tx_hang E; stop_queue } else skip) }
         else skip) }) }"

text \<open>The result is whether all work was done; \<open>None\<close> as in the loops.\<close>

definition e1000_clean_tx_irq :: "mmio \<Rightarrow> kernel \<Rightarrow> u32 \<Rightarrow> (e1000_adapter, bool option) state" where
  "e1000_clean_tx_irq E K now = do {
     r \<leftarrow> gets tx_ring;
     l \<leftarrow> clean_tx_loop (ring_count r) (next_to_clean r) 0 0 False;
     (case l of None \<Rightarrow> ret None
      | Some (i, eop, packets, bytes, cleaned, limit) \<Rightarrow> do {
          set_tx (\<lambda>r. r\<lparr>next_to_clean := i\<rparr>);
          wake_tx cleaned;
          check_tx_hang E K now eop;
          modify (\<lambda>a. a\<lparr>total_tx_bytes := total_tx_bytes a + of_nat bytes,
            total_tx_packets := total_tx_packets a + of_nat packets,
            net_tx_bytes := net_tx_bytes a + of_nat bytes,
            net_tx_packets := net_tx_packets a + of_nat packets\<rparr>);
          ret (Some (\<not> limit)) }) }"

text \<open>The ring is emptied and cleared when the interface goes down.\<close>

definition e1000_clean_tx_ring :: "(e1000_adapter, unit) state" where
  "e1000_clean_tx_ring = do {
     n \<leftarrow> gets (\<lambda>a. ring_count (tx_ring a));
     for_each [0..<n] e1000_put_txbuf;
     set_tx (\<lambda>r. r\<lparr>buffer_info := replicate n buffer_zero, ring_desc := replicate n tx_desc_zero,
       next_to_use := 0, next_to_clean := 0\<rparr>);
     h \<leftarrow> gets (\<lambda>a. ring_head (tx_ring a));
     t \<leftarrow> gets (\<lambda>a. ring_tail (tx_ring a));
     hw_op (ew32 h 0);
     hw_op (ew32 t 0) }"

section \<open>Configuration\<close>

text \<open>
  The control register is read before the collision distance is set and written after it:
  the last write restores the old distance.
\<close>

definition e1000_configure_tx :: "mmio \<Rightarrow> (e1000_adapter, unit) state" where
  "e1000_configure_tx E = do {
     r \<leftarrow> gets tx_ring;
     hw_op (ew32 0x03800 (ucast (ring_dma r)));
     hw_op (ew32 0x03804 (ucast (drop_bit 32 (ring_dma r))));
     hw_op (ew32 0x03808 (of_nat (16 * ring_count r)));
     hw_op (ew32 0x03810 0);
     hw_op (ew32 0x03818 0);
     set_tx (\<lambda>r. r\<lparr>ring_head := 0x03810, ring_tail := 0x03818\<rparr>);
     fl \<leftarrow> gets flags;
     hw_op (ew32 0x00410 (8 OR push_bit 10 8 OR push_bit 20 (if bit fl 14 then 7 else 6)));
     delay \<leftarrow> gets tx_int_delay;
     hw_op (ew32 0x03820 delay);
     abs \<leftarrow> gets tx_abs_int_delay;
     hw_op (ew32 0x0382C abs);
     tctl \<leftarrow> hw_op (er32 E TCTL);
     (if bit fl 22 then hw_op (do { v \<leftarrow> er32 E TARC0; ew32 TARC0 (v OR push_bit 21 1) }) else skip);
     (if bit fl 23 then hw_op (do {
        v \<leftarrow> er32 E TARC0; ew32 TARC0 (v OR 1); v \<leftarrow> er32 E TARC1; ew32 TARC1 (v OR 1) }) else skip);
     hw_op (e1000e_config_collision_dist E);
     modify (\<lambda>a. a\<lparr>txd_cmd := 0x01000000 OR 0x02000000 OR (if delay \<noteq> 0 then 0x80000000 else 0) OR 0x08000000\<rparr>);
     hw_op (ew32 TCTL ((tctl AND NOT 0x00000FF0) OR 0x00000008 OR 0x01000000 OR push_bit 4 15));
     modify (\<lambda>a. a\<lparr>tx_queue_len := queue_len a\<rparr>) }"

end
