(* ===== verification/TxRing.thy ===== *)
theory TxRing
  imports NetTx "HOL-Library.Sublist"
begin

text \<open>
  The transmit ring as a queue of frames.  Positions are natural numbers counted from the slot
  to be cleaned next without wrapping; the slot of a position is its remainder.
\<close>

section \<open>Positions\<close>

definition ring_wf :: "'d e1000_ring \<Rightarrow> bool" where
  "ring_wf r \<longleftrightarrow> 0 < ring_count r \<and> length (buffer_info r) = ring_count r \<and>
     length (ring_desc r) = ring_count r \<and> next_to_use r < ring_count r \<and> next_to_clean r < ring_count r"

abbreviation buf_at :: "'d e1000_ring \<Rightarrow> nat \<Rightarrow> e1000_buffer" where
  "buf_at r k \<equiv> buffer_info r ! (k mod ring_count r)"

abbreviation desc_at :: "'d e1000_ring \<Rightarrow> nat \<Rightarrow> 'd" where
  "desc_at r k \<equiv> ring_desc r ! (k mod ring_count r)"

lemma ring_next_mod: "ring_next r (k mod ring_count r) = Suc k mod ring_count r"
  by (simp add: ring_next_def mod_Suc)

lemma mod_eq_window: "j mod n = k mod n \<Longrightarrow> j < k + n \<Longrightarrow> k < j + n \<Longrightarrow> j = (k :: nat)"
  by (metis (no_types) add.commute linorder_le_cases mod_eq_dvd_iff_nat nat_dvd_not_less
    diff_is_0_eq' le_add_diff_inverse less_diff_conv2 neq0_conv add_0)

section \<open>Frames in the ring\<close>

text \<open>
  A frame is the list of its buffers: the first one names the last slot, only the last one
  carries the socket buffer.  A free slot is unmapped, carries nothing and is not marked done.
\<close>

type_synonym tx_frame = "e1000_buffer list"

definition frame_ok :: "nat \<Rightarrow> nat \<Rightarrow> tx_frame \<Rightarrow> bool" where
  "frame_ok c k f \<longleftrightarrow> f \<noteq> [] \<and> next_to_watch (hd f) = (k + length f - 1) mod c \<and>
     (\<forall>b\<in>set (butlast f). buf_skb b = None) \<and> buf_skb (last f) \<noteq> None \<and>
     (\<forall>b\<in>set f. next_to_watch b < c)"

fun frames_at :: "'d e1000_ring \<Rightarrow> nat \<Rightarrow> tx_frame list \<Rightarrow> bool" where
  "frames_at r k [] = True"
| "frames_at r k (f # fs) = (frame_ok (ring_count r) k f \<and> map (buf_at r) [k..<k + length f] = f \<and>
     frames_at r (k + length f) fs)"

definition free_slot :: "e1000_tx_desc e1000_ring \<Rightarrow> nat \<Rightarrow> bool" where
  "free_slot r k \<longleftrightarrow> buf_dma (buf_at r k) = 0 \<and> buf_skb (buf_at r k) = None \<and>
     next_to_watch (buf_at r k) < ring_count r \<and> tx_upper (desc_at r k) AND 1 = 0"

definition frames_size :: "tx_frame list \<Rightarrow> nat" where
  "frames_size fs = sum_list (map length fs)"

definition ring_from :: "e1000_tx_desc e1000_ring \<Rightarrow> nat \<Rightarrow> tx_frame list \<Rightarrow> bool" where
  "ring_from r k fs \<longleftrightarrow> ring_wf r \<and> frames_at r k fs \<and> frames_size fs < ring_count r \<and>
     next_to_use r = (k + frames_size fs) mod ring_count r \<and>
     (\<forall>j. frames_size fs \<le> j \<and> j < ring_count r \<longrightarrow> free_slot r (k + j))"

text \<open>The abstraction relation: the ring holds the frames \<open>fs\<close>, oldest first.\<close>

definition tx_rel :: "e1000_tx_desc e1000_ring \<Rightarrow> tx_frame list \<Rightarrow> bool" where
  "tx_rel r fs = ring_from r (next_to_clean r) fs"

definition frame_skb :: "tx_frame \<Rightarrow> sk_buff" where
  "frame_skb f = the (buf_skb (last f))"

text \<open>The chip has marked the last descriptor of the frame at position \<open>k\<close>.\<close>

definition frame_done :: "e1000_tx_desc e1000_ring \<Rightarrow> nat \<Rightarrow> tx_frame \<Rightarrow> bool" where
  "frame_done r k f \<longleftrightarrow> tx_upper (desc_at r (k + length f - 1)) AND 1 \<noteq> 0"

fun done_prefix :: "e1000_tx_desc e1000_ring \<Rightarrow> nat \<Rightarrow> tx_frame list \<Rightarrow> tx_frame list" where
  "done_prefix r k [] = []"
| "done_prefix r k (f # fs) = (if frame_done r k f then f # done_prefix r (k + length f) fs else [])"

lemma frames_size_simps [simp]:
  "frames_size [] = 0" "frames_size (f # fs) = length f + frames_size fs"
  "frames_size (fs @ gs) = frames_size fs + frames_size gs"
  by (simp_all add: frames_size_def)

lemma tx_rel_unused:
  assumes "tx_rel r fs"
  shows "e1000_desc_unused r = int (ring_count r) - 1 - int (frames_size fs)"
proof -
  have c: "next_to_clean r < ring_count r" "frames_size fs < ring_count r"
      "next_to_use r = (next_to_clean r + frames_size fs) mod ring_count r"
    using assms by (auto simp: tx_rel_def ring_from_def ring_wf_def)
  show ?thesis
  proof (cases "next_to_clean r + frames_size fs < ring_count r")
    case True
    with c show ?thesis by (auto simp: e1000_desc_unused_def)
  next
    case False
    then have "next_to_use r = next_to_clean r + frames_size fs - ring_count r"
      using c by (simp add: le_mod_geq)
    with c False show ?thesis by (auto simp: e1000_desc_unused_def)
  qed
qed

section \<open>Reclaim\<close>

text \<open>What is logged, newest first, when a slot and when a frame is reclaimed.\<close>

definition put_evs :: "e1000_buffer \<Rightarrow> kev list" where
  "put_evs b = (case buf_skb b of None \<Rightarrow> [] | Some s \<Rightarrow> [Free_skb s]) @
     (if buf_dma b \<noteq> 0 then [Unmap (buf_dma b) (unat (buf_length b))] else [])"

definition frame_evs :: "tx_frame \<Rightarrow> kev list" where
  "frame_evs f = concat (map put_evs (rev f))"

definition wipe :: "nat \<Rightarrow> e1000_tx_desc e1000_ring \<Rightarrow> e1000_tx_desc e1000_ring" where
  "wipe i r = upd_desc i (\<lambda>d. d\<lparr>tx_upper := 0\<rparr>) (upd_buffer i (\<lambda>b. b\<lparr>buf_dma := 0, buf_skb := None\<rparr>) r)"

lemma buffer_same:
  "buf_skb b = None \<Longrightarrow> b\<lparr>buf_skb := None\<rparr> = b" "buf_dma b = 0 \<Longrightarrow> b\<lparr>buf_dma := 0\<rparr> = (b :: e1000_buffer)"
  by (cases b; simp)+

lemma ring_same: "r\<lparr>buffer_info := buffer_info r\<rparr> = (r :: 'd e1000_ring)"
    "a\<lparr>tx_ring := tx_ring a\<rparr> = (a :: e1000_adapter)"
  by simp_all

lemma put_run:
  assumes "i < length (buffer_info (tx_ring a))"
  shows "run_state (do { e1000_put_txbuf i; set_tx (upd_desc i (\<lambda>d. d\<lparr>tx_upper := 0\<rparr>)) }) a =
    ((), a\<lparr>klog := put_evs (buffer_info (tx_ring a) ! i) @ klog a, tx_ring := wipe i (tx_ring a)\<rparr>)"
  using assms
  by (cases "buf_skb (buffer_info (tx_ring a) ! i)"; cases "buf_dma (buffer_info (tx_ring a) ! i) = 0")
    (simp_all add: e1000_put_txbuf_def put_evs_def wipe_def upd_buffer_def upd_desc_def buffer_same ring_same)

lemma wipe_simps [simp]:
  "ring_count (wipe i r) = ring_count r" "next_to_use (wipe i r) = next_to_use r"
  "next_to_clean (wipe i r) = next_to_clean r" "ring_tail (wipe i r) = ring_tail r"
  by (simp_all add: wipe_def)

lemma wipe_wf [simp]: "ring_wf (wipe i r) = ring_wf r"
  by (simp add: ring_wf_def wipe_def)

definition wipes :: "nat \<Rightarrow> nat \<Rightarrow> e1000_tx_desc e1000_ring \<Rightarrow> e1000_tx_desc e1000_ring" where
  "wipes k n r = fold (\<lambda>j. wipe (j mod ring_count r)) [k..<k + n] r"

lemma wipes_0 [simp]: "wipes k 0 r = r"
  by (simp add: wipes_def)

lemma wipes_Suc: "wipes k (Suc n) r = wipes (Suc k) n (wipe (k mod ring_count r) r)"
  by (simp add: wipes_def upt_conv_Cons del: upt_Suc)

lemma wipes_simps [simp]:
  "ring_count (wipes k n r) = ring_count r" "next_to_use (wipes k n r) = next_to_use r"
  "next_to_clean (wipes k n r) = next_to_clean r" "ring_wf (wipes k n r) = ring_wf r"
  by (induction n arbitrary: k r) (simp_all add: wipes_Suc)

lemma wipe_at:
  assumes "ring_wf r"
  shows "buffer_info (wipe (j mod ring_count r) r) ! (k mod ring_count r) = (if k mod ring_count r = j mod ring_count r
      then (buf_at r k)\<lparr>buf_dma := 0, buf_skb := None\<rparr> else buf_at r k)"
    and "tx_upper (ring_desc (wipe (j mod ring_count r) r) ! (k mod ring_count r)) =
      (if k mod ring_count r = j mod ring_count r then 0 else tx_upper (desc_at r k))"
  using assms by (simp_all add: wipe_def nth_list_update ring_wf_def)

lemma wipes_at:
  assumes "ring_wf r"
  shows "buffer_info (wipes j n r) ! (k mod ring_count r) = (if \<exists>i\<in>{j..<j + n}. k mod ring_count r = i mod ring_count r
      then (buf_at r k)\<lparr>buf_dma := 0, buf_skb := None\<rparr> else buf_at r k)"
    and "tx_upper (ring_desc (wipes j n r) ! (k mod ring_count r)) =
      (if \<exists>i\<in>{j..<j + n}. k mod ring_count r = i mod ring_count r then 0 else tx_upper (desc_at r k))"
proof -
  have "buffer_info (wipes j n r) ! (k mod ring_count r) = (if \<exists>i\<in>{j..<j + n}. k mod ring_count r = i mod ring_count r
      then (buf_at r k)\<lparr>buf_dma := 0, buf_skb := None\<rparr> else buf_at r k) \<and>
    tx_upper (ring_desc (wipes j n r) ! (k mod ring_count r)) =
      (if \<exists>i\<in>{j..<j + n}. k mod ring_count r = i mod ring_count r then 0 else tx_upper (desc_at r k))"
    using assms
  proof (induction n arbitrary: j r)
    case (Suc n)
    let ?w = "wipe (j mod ring_count r) r"
    have "{j..<j + Suc n} = insert j {Suc j..<Suc j + n}" by auto
    then have split: "(\<exists>i\<in>{j..<j + Suc n}. P i) \<longleftrightarrow> P j \<or> (\<exists>i\<in>{Suc j..<Suc j + n}. P i)" for P by simp
    show ?case
      using Suc.IH[of ?w "Suc j"] Suc.prems unfolding split
      by (simp add: wipes_Suc wipe_at del: add_Suc)
  qed simp
  then show "buffer_info (wipes j n r) ! (k mod ring_count r) = (if \<exists>i\<in>{j..<j + n}. k mod ring_count r = i mod ring_count r
      then (buf_at r k)\<lparr>buf_dma := 0, buf_skb := None\<rparr> else buf_at r k)"
    and "tx_upper (ring_desc (wipes j n r) ! (k mod ring_count r)) =
      (if \<exists>i\<in>{j..<j + n}. k mod ring_count r = i mod ring_count r then 0 else tx_upper (desc_at r k))"
    by auto
qed

lemma wipes_out:
  assumes "ring_wf r" "j + n \<le> k" "k < j + ring_count r"
  shows "buffer_info (wipes j n r) ! (k mod ring_count r) = buf_at r k"
    "tx_upper (ring_desc (wipes j n r) ! (k mod ring_count r)) = tx_upper (desc_at r k)"
proof -
  have "\<not> (\<exists>i\<in>{j..<j + n}. k mod ring_count r = i mod ring_count r)"
    using assms mod_eq_window[of k "ring_count r"] by (auto, fastforce)
  then show "buffer_info (wipes j n r) ! (k mod ring_count r) = buf_at r k"
    "tx_upper (ring_desc (wipes j n r) ! (k mod ring_count r)) = tx_upper (desc_at r k)"
    by (simp_all add: wipes_at[OF assms(1)])
qed

text \<open>The loop over one frame reclaims it, whatever the fuel beyond its length.\<close>

lemma clean_frame_run:
  assumes "ring_wf (tx_ring a)" "map (buf_at (tx_ring a)) [k..<k + length bs] = bs" "bs \<noteq> []"
    and "\<forall>b\<in>set (butlast bs). buf_skb b = None" "buf_skb (last bs) = Some skb"
    and "length bs \<le> fuel" "length bs < ring_count (tx_ring a)" "packets < ring_count (tx_ring a)"
    and "eop = (k + length bs - 1) mod ring_count (tx_ring a)"
  shows "run_state (clean_frame fuel (k mod ring_count (tx_ring a)) eop packets bytes) a =
    (Some ((k + length bs) mod ring_count (tx_ring a), packets + wire_segs skb, bytes + wire_bytes skb,
       packets + wire_segs skb \<ge> ring_count (tx_ring a)),
     a\<lparr>klog := frame_evs bs @ klog a, tx_ring := wipes k (length bs) (tx_ring a)\<rparr>)"
  using assms
proof (induction bs arbitrary: k a fuel)
  case (Cons b bs)
  let ?r = "tx_ring a" and ?c = "ring_count (tx_ring a)"
  obtain m where m: "fuel = Suc m" using Cons.prems(6) by (cases fuel) auto
  have upt: "[k..<k + length (b # bs)] = k # [Suc k..<Suc k + length bs]" by (simp add: upt_conv_Cons del: upt_Suc)
  have b: "buf_at ?r k = b" and bs: "map (buf_at ?r) [Suc k..<Suc k + length bs] = bs"
    using Cons.prems(2) unfolding upt by simp_all
  have i: "k mod ?c < length (buffer_info ?r)" using Cons.prems(1) by (simp add: ring_wf_def)
  note put = put_run[OF i]
  show ?case
  proof (cases "bs = []")
    case True
    then show ?thesis
      using Cons.prems put b
      by (simp add: m frame_evs_def wipes_Suc ring_next_mod split: prod.splits)
  next
    case False
    let ?a = "a\<lparr>klog := put_evs b @ klog a, tx_ring := wipe (k mod ?c) ?r\<rparr>"
    have ne: "k mod ?c \<noteq> (k + length bs) mod ?c"
      using mod_eq_window[of k ?c "k + length bs"] False Cons.prems(7) by auto
    have "run_state (clean_frame m (Suc k mod ring_count (tx_ring ?a)) eop packets bytes) ?a =
      (Some ((Suc k + length bs) mod ring_count (tx_ring ?a), packets + wire_segs skb, bytes + wire_bytes skb,
         packets + wire_segs skb \<ge> ring_count (tx_ring ?a)),
       ?a\<lparr>klog := frame_evs bs @ klog ?a, tx_ring := wipes (Suc k) (length bs) (tx_ring ?a)\<rparr>)"
    proof (rule Cons.IH)
      have "buffer_info (wipe (k mod ?c) ?r) ! (j mod ?c) = buf_at ?r j" if "j \<in> set [Suc k..<Suc k + length bs]" for j
        using that mod_eq_window[of j ?c k] Cons.prems(1,7) by (auto simp: wipe_at)
      then have e: "map (buf_at (tx_ring ?a)) [Suc k..<Suc k + length bs] = map (buf_at ?r) [Suc k..<Suc k + length bs]"
        by (intro map_cong) (simp_all del: upt_Suc)
      from trans[OF e bs] show "map (buf_at (tx_ring ?a)) [Suc k..<Suc k + length bs] = bs" .
    qed (use Cons.prems False m in \<open>auto\<close>)
    then show ?thesis
      using Cons.prems put b ne False
      by (simp add: m frame_evs_def wipes_Suc ring_next_mod split: prod.splits)
  qed
qed simp

section \<open>The loop over the frames\<close>

lemma frames_at_out:
  assumes "ring_wf r" "j + n \<le> k" "k + frames_size fs \<le> j + ring_count r"
  shows "frames_at (wipes j n r) k fs = frames_at r k fs"
  using assms(2,3)
proof (induction fs arbitrary: k)
  case (Cons f fs)
  have "map (buf_at (wipes j n r)) [k..<k + length f] = map (buf_at r) [k..<k + length f]"
    using Cons.prems by (intro map_cong) (auto simp: wipes_out[OF assms(1)])
  then show ?case using Cons by (simp del: map_eq_conv)
qed simp

lemma done_prefix_out:
  assumes "ring_wf r" "j + n \<le> k" "k + frames_size fs \<le> j + ring_count r" "\<forall>f\<in>set fs. f \<noteq> []"
  shows "done_prefix (wipes j n r) k fs = done_prefix r k fs"
  using assms(2-)
proof (induction fs arbitrary: k)
  case (Cons f fs)
  have "frame_done (wipes j n r) k f = frame_done r k f"
    using Cons.prems by (cases f) (auto simp: frame_done_def wipes_out[OF assms(1)])
  then show ?case using Cons by simp
qed simp

lemma frames_at_ne: "frames_at r k fs \<Longrightarrow> f \<in> set fs \<Longrightarrow> f \<noteq> []"
  by (induction fs arbitrary: k) (auto simp: frame_ok_def)

lemma frames_size_ge: "(\<forall>f\<in>set fs. f \<noteq> []) \<Longrightarrow> length fs \<le> frames_size fs"
proof (induction fs)
  case (Cons f fs)
  then show ?case by (cases f) auto
qed simp

lemma frame_buf: "map (buf_at r) [k..<k + length f] = f \<Longrightarrow> j < length f \<Longrightarrow> buf_at r (k + j) = f ! j"
  by (metis (no_types, lifting) add_diff_cancel_left' length_upt nth_map nth_upt nat_add_left_cancel_less)

lemma ring_from_wipe:
  assumes "ring_from r k (f # fs)"
  shows "ring_from (wipes k (length f) r) (k + length f) fs"
proof -
  let ?w = "wipes k (length f) r" and ?c = "ring_count r" and ?n = "length f"
  have wf: "ring_wf r" and fr: "frames_at r (k + ?n) fs" and len: "?n + frames_size fs < ?c"
    and f: "frame_ok ?c k f" "map (buf_at r) [k..<k + ?n] = f"
    and use: "next_to_use r = (k + (?n + frames_size fs)) mod ?c"
    and free: "\<And>j. ?n + frames_size fs \<le> j \<Longrightarrow> j < ?c \<Longrightarrow> free_slot r (k + j)"
    using assms by (auto simp: ring_from_def)
  have "free_slot ?w (k + ?n + j)" if j: "frames_size fs \<le> j" "j < ?c" for j
  proof (cases "?n + j < ?c")
    case True
    then show ?thesis
      using free[of "?n + j"] j by (simp add: free_slot_def wipes_out[OF wf] add.assoc)
  next
    case False
    define m where "m = ?n + j - ?c"
    then have m: "k + ?n + j = (k + m) + ?c" "m < ?n" using False j by simp_all
    have e: "(k + ?n + j) mod ?c = (k + m) mod ?c" unfolding m(1) by (rule mod_add_self2)
    have "next_to_watch (buf_at r (k + m)) < ?c"
      using f m by (auto simp: frame_buf frame_ok_def)
    moreover have "\<exists>i\<in>{k..<k + ?n}. (k + m) mod ?c = i mod ?c" using m by auto
    ultimately show ?thesis
      using wipes_at[OF wf, of k ?n "k + m"] by (simp add: free_slot_def e)
  qed
  moreover have "frames_at ?w (k + ?n) fs" using frames_at_out[OF wf, of k ?n "k + ?n" fs] fr len by simp
  ultimately show ?thesis using wf len use by (simp add: ring_from_def add.assoc)
qed

text \<open>The first descriptor tells the end of the first frame; in an empty ring no descriptor is done.\<close>

lemma first_eop:
  assumes "ring_from r k fs"
  shows "tx_upper (ring_desc r ! next_to_watch (buf_at r k)) AND 1 \<noteq> 0 \<longleftrightarrow>
      (case fs of [] \<Rightarrow> False | f # _ \<Rightarrow> frame_done r k f)"
proof (cases fs)
  case Nil
  let ?e = "next_to_watch (buf_at r k)" and ?c = "ring_count r"
  have c: "0 < ?c" using assms by (simp add: ring_from_def ring_wf_def)
  have free: "free_slot r (k + j)" if "j < ?c" for j using assms that by (simp add: ring_from_def Nil)
  have e: "?e < ?c" using free[of 0] c by (simp add: free_slot_def)
  have "k mod ?c + (?e + (?c - k mod ?c)) = ?e + ?c" using mod_less_divisor[OF c, of k] by simp
  then have "(k + (?e + (?c - k mod ?c)) mod ?c) mod ?c = (?e + ?c) mod ?c" by (metis mod_add_left_eq mod_add_right_eq)
  then have "desc_at r (k + (?e + (?c - k mod ?c)) mod ?c) = ring_desc r ! ?e" using e by simp
  with free[of "(?e + (?c - k mod ?c)) mod ?c"] c show ?thesis by (simp add: free_slot_def Nil)
next
  case (Cons f fs')
  then have "buf_at r k = hd f" "next_to_watch (hd f) = (k + length f - 1) mod ring_count r" "f \<noteq> []"
    using assms frame_buf[of r k f 0] by (auto simp: ring_from_def frame_ok_def hd_conv_nth)
  then show ?thesis by (simp add: Cons frame_done_def)
qed

definition frames_segs :: "tx_frame list \<Rightarrow> nat" where
  "frames_segs fs = sum_list (map (wire_segs \<circ> frame_skb) fs)"

definition frames_bytes :: "tx_frame list \<Rightarrow> nat" where
  "frames_bytes fs = sum_list (map (wire_bytes \<circ> frame_skb) fs)"

definition frames_evs :: "tx_frame list \<Rightarrow> kev list" where
  "frames_evs fs = concat (map frame_evs (rev fs))"

lemma frames_sums [simp]:
  "frames_segs [] = 0" "frames_segs (f # fs) = wire_segs (frame_skb f) + frames_segs fs"
  "frames_bytes [] = 0" "frames_bytes (f # fs) = wire_bytes (frame_skb f) + frames_bytes fs"
  "frames_evs [] = []" "frames_evs (f # fs) = frames_evs fs @ frame_evs f"
  by (simp_all add: frames_segs_def frames_bytes_def frames_evs_def)

lemma wipes_add: "wipes (k + m) n (wipes k m r) = wipes k (m + n) r"
proof (induction m arbitrary: k r)
  case (Suc m)
  from Suc.IH[of "Suc k"] show ?case by (simp add: wipes_Suc)
qed simp

text \<open>
  The frames that the loop takes are the longest prefix that is done, or, when the limit
  of a poll is reached, a prefix of it.
\<close>

lemma clean_loop_run:
  assumes "ring_from (tx_ring a) k fs" "length fs < fuel" "packets < ring_count (tx_ring a)"
  shows "\<exists>p q eop limit. fs = p @ q \<and>
    run_state (clean_tx_loop fuel (k mod ring_count (tx_ring a)) packets bytes cleaned) a =
      (Some ((k + frames_size p) mod ring_count (tx_ring a), eop, packets + frames_segs p,
         bytes + frames_bytes p, cleaned \<or> p \<noteq> [], limit),
       a\<lparr>klog := frames_evs p @ klog a, tx_ring := wipes k (frames_size p) (tx_ring a)\<rparr>) \<and>
    ring_from (wipes k (frames_size p) (tx_ring a)) (k + frames_size p) q \<and>
    (if limit then ring_count (tx_ring a) \<le> packets + frames_segs p \<and> prefix p (done_prefix (tx_ring a) k fs)
     else p = done_prefix (tx_ring a) k fs)"
  using assms
proof (induction fs arbitrary: a k fuel packets bytes cleaned)
  case Nil
  then obtain m where "fuel = Suc m" by (cases fuel) auto
  with Nil first_eop[OF Nil(1)] show ?case by (intro exI[of _ "[]"]) auto
next
  case (Cons f fs)
  let ?r = "tx_ring a" and ?c = "ring_count (tx_ring a)"
  let ?eop = "next_to_watch (buf_at ?r k)"
  obtain m where m: "fuel = Suc m" using Cons.prems(2) by (cases fuel) auto
  have wf: "ring_wf ?r" and f: "frame_ok ?c k f" "map (buf_at ?r) [k..<k + length f] = f"
    and fs: "frames_at ?r (k + length f) fs" and len: "length f + frames_size fs < ?c"
    using Cons.prems(1) by (auto simp: ring_from_def)
  note next_ring = ring_from_wipe[OF Cons.prems(1)]
  show ?case
  proof (cases "frame_done ?r k f")
    case False
    with first_eop[OF Cons.prems(1)] Cons.prems(1)
    show ?thesis by (intro exI[of _ "[]"] exI[of _ "f # fs"] exI[of _ ?eop] exI[of _ False]) (simp add: m)
  next
    case True
    obtain skb where skb: "buf_skb (last f) = Some skb" using f(1) by (auto simp: frame_ok_def)
    then have fskb: "frame_skb f = skb" by (simp add: frame_skb_def)
    have eop: "?eop = (k + length f - 1) mod ?c"
      using f frame_buf[OF f(2), of 0] by (auto simp: frame_ok_def hd_conv_nth)
    let ?w = "wipes k (length f) ?r" and ?pk = "packets + wire_segs skb"
    let ?a = "a\<lparr>klog := frame_evs f @ klog a, tx_ring := ?w\<rparr>"
    have frame: "run_state (clean_frame ?c (k mod ?c) ?eop packets bytes) a =
      (Some ((k + length f) mod ?c, ?pk, bytes + wire_bytes skb, ?c \<le> ?pk), ?a)"
      by (rule clean_frame_run[OF wf f(2) _ _ skb _ _ Cons.prems(3) eop])
        (use f(1) len in \<open>auto simp: frame_ok_def\<close>)
    have dd: "tx_upper (ring_desc ?r ! ?eop) AND 1 \<noteq> 0" using first_eop[OF Cons.prems(1)] True by simp
    have dp: "done_prefix ?w (k + length f) fs = done_prefix ?r (k + length f) fs"
      by (rule done_prefix_out[OF wf]) (use len fs frames_at_ne in auto)
    show ?thesis
    proof (cases "?c \<le> ?pk")
      case limit: True
      with dd frame next_ring show ?thesis
        by (intro exI[of _ "[f]"] exI[of _ fs] exI[of _ ?eop] exI[of _ True])
          (simp add: m fskb True split: prod.splits)
    next
      case False
      have "ring_from (tx_ring ?a) (k + length f) fs" using next_ring by simp
      moreover have "length fs < m" "?pk < ring_count (tx_ring ?a)" using Cons.prems(2) False by (simp_all add: m)
      ultimately obtain p q e l where pq: "fs = p @ q"
        and run: "run_state (clean_tx_loop m ((k + length f) mod ring_count (tx_ring ?a)) ?pk (bytes + wire_bytes skb) True) ?a =
          (Some ((k + length f + frames_size p) mod ring_count (tx_ring ?a), e, ?pk + frames_segs p,
             bytes + wire_bytes skb + frames_bytes p, True \<or> p \<noteq> [], l),
           ?a\<lparr>klog := frames_evs p @ klog ?a, tx_ring := wipes (k + length f) (frames_size p) (tx_ring ?a)\<rparr>)"
        and rest: "ring_from (wipes (k + length f) (frames_size p) (tx_ring ?a)) (k + length f + frames_size p) q"
          "if l then ring_count (tx_ring ?a) \<le> ?pk + frames_segs p \<and>
             prefix p (done_prefix (tx_ring ?a) (k + length f) fs)
           else p = done_prefix (tx_ring ?a) (k + length f) fs"
        using Cons.IH[of ?a "k + length f" m ?pk "bytes + wire_bytes skb" True] by blast
      have "run_state (clean_tx_loop fuel (k mod ?c) packets bytes cleaned) a =
        (Some ((k + frames_size (f # p)) mod ?c, e, packets + frames_segs (f # p), bytes + frames_bytes (f # p),
           cleaned \<or> f # p \<noteq> [], l),
         a\<lparr>klog := frames_evs (f # p) @ klog a, tx_ring := wipes k (frames_size (f # p)) ?r\<rparr>)"
        using dd frame run False by (simp add: m fskb wipes_add add.assoc split: prod.splits)
      moreover have "ring_from (wipes k (frames_size (f # p)) ?r) (k + frames_size (f # p)) q"
        using rest(1) by (simp add: wipes_add add.assoc)
      moreover have "if l then ?c \<le> packets + frames_segs (f # p) \<and> prefix (f # p) (done_prefix ?r k (f # fs))
          else f # p = done_prefix ?r k (f # fs)"
        using rest(2) True dp fskb by (cases l) (simp_all add: add.assoc)
      moreover have "f # fs = (f # p) @ q" using pq by simp
      ultimately show ?thesis by blast
    qed
  qed
qed

end
