(* ===== verification/TxMap.thy ===== *)
theory TxMap
  imports TxRing
begin

text \<open>
  A frame on its way into the ring: the pieces it is cut into, the slots they are placed in,
  and the number of descriptors against the estimate of the entry point.
\<close>

section \<open>Pieces\<close>

text \<open>The reference: the pieces of one contiguous buffer, each with its source and size.\<close>

function pieces :: "nat \<Rightarrow> (nat \<Rightarrow> dma_src) \<Rightarrow> nat \<Rightarrow> nat \<Rightarrow> (dma_src \<times> nat) list" where
  "pieces m src len offset = (if len = 0 \<or> m = 0 then []
     else (src offset, min len m) # pieces m src (len - min len m) (offset + min len m))"
  by pat_completeness auto
termination by (relation "measure (\<lambda>(m, src, len, offset). len)") auto

declare pieces.simps [simp del] map_piece.simps [simp del]

definition frame_pieces :: "nat \<Rightarrow> sk_buff \<Rightarrow> (dma_src \<times> nat) list" where
  "frame_pieces m s = pieces m Linear (skb_headlen s) 0 @
     concat (map (\<lambda>(page, offset, n). pieces m (Frag page) n offset) (frags s))"

lemma pieces_0 [simp]: "pieces m src 0 offset = []"
  by (simp add: pieces.simps)

lemma pieces_sum: "0 < m \<Longrightarrow> sum_list (map snd (pieces m src len offset)) = len"
  by (induction m src len offset rule: pieces.induct) (subst pieces.simps, auto)

lemma pieces_size: "p \<in> set (pieces m src len offset) \<Longrightarrow> 0 < snd p \<and> snd p \<le> m"
  by (induction m src len offset rule: pieces.induct) (subst (asm) (2) pieces.simps, auto split: if_splits)

lemma pieces_length: "0 < m \<Longrightarrow> length (pieces m src len offset) = (len + m - 1) div m"
proof (induction m src len offset rule: pieces.induct)
  case (1 m src len offset)
  show ?case
  proof (cases "len \<le> m")
    case True
    moreover have "0 < len \<Longrightarrow> (len + m - 1) div m = 1" using True 1(2) by (intro div_nat_eqI) auto
    ultimately show ?thesis using 1(2) by (subst pieces.simps) auto
  next
    case False
    then have "len + m - 1 = (len - 1) + m" by simp
    then have "(len + m - 1) div m = Suc ((len - 1) div m)" using 1(2) by (simp only: div_add_self2)
    with False 1 show ?thesis by (subst pieces.simps) simp
  qed
qed

lemma pieces_count:
  assumes "2 ^ pwr \<le> m"
  shows "length (pieces m src len offset) \<le> TXD_USE_COUNT len pwr"
proof -
  have m: "0 < m" using assms by (metis gr0I not_one_le_zero one_le_numeral one_le_power order_trans)
  have "(len + m - 1) div m \<le> (len div m) + 1"
    using m by (metis add.commute add_diff_assoc2 add_le_cancel_left diff_le_self div_add_self2 div_le_mono
      less_iff_Suc_add Suc_leI le_add_diff_inverse neq0_conv plus_1_eq_Suc add_diff_cancel_left')
  also have "\<dots> \<le> len div 2 ^ pwr + 1" using assms by (simp add: div_le_mono2)
  finally show ?thesis using pieces_length[OF m] by (simp add: TXD_USE_COUNT_def)
qed

lemma fls_le: "0 < n \<Longrightarrow> 2 ^ (fls n - 1) \<le> n"
proof (induction n rule: fls.induct)
  case (1 n)
  show ?case
  proof (cases "n div 2 = 0")
    case True
    then show ?thesis using 1(2) by (simp add: fls.simps[of n] fls.simps[of 0])
  next
    case False
    then obtain k where k: "fls (n div 2) = Suc k" by (metis fls.simps)
    with 1 False have "2 ^ k \<le> n div 2" by simp
    then show ?thesis using 1(2) k by (subst fls.simps) auto
  qed
qed

lemma max_txd: "2 ^ max_txd_pwr_of s \<le> max_per_txd_of s" "0 < max_per_txd_of s" "max_per_txd_of s \<le> 8192"
proof -
  show pos: "0 < max_per_txd_of s" by (auto simp: max_per_txd_of_def unat_gt_0)
  show "2 ^ max_txd_pwr_of s \<le> max_per_txd_of s"
    using fls_le[OF pos] by (simp add: max_txd_pwr_of_def) (simp add: max_per_txd_of_def)
  show "max_per_txd_of s \<le> 8192" by (simp add: max_per_txd_of_def)
qed

text \<open>The estimate of the entry point covers the pieces and the offload context.\<close>

lemma tx_count_covers:
  "length (frame_pieces (max_per_txd_of s) s) +
     (if gso_size s \<noteq> 0 \<or> summed s = CHECKSUM_PARTIAL then 1 else 0) < tx_count s"
proof -
  let ?m = "max_per_txd_of s" and ?p = "max_txd_pwr_of s"
  have "length (concat (map (\<lambda>(page, offset, n). pieces ?m (Frag page) n offset) fs)) \<le>
      sum_list (map (\<lambda>(page, offset, n). TXD_USE_COUNT n ?p) fs)" for fs
    using pieces_count[OF max_txd(1)] by (induction fs) (auto intro: add_mono)
  with pieces_count[OF max_txd(1), of s Linear "skb_headlen s" 0] show ?thesis
    by (auto simp: tx_count_def frame_pieces_def Let_def less_Suc_eq_le intro: add_mono)
qed

lemma frame_pieces_sum: "0 < m \<Longrightarrow> sum_list (map snd (frame_pieces m s)) = skb_len s"
proof -
  assume m: "0 < m"
  have "sum_list (map snd (concat (map (\<lambda>(page, offset, n). pieces m (Frag page) n offset) fs))) =
      sum_list (map (\<lambda>(page, offset, n). n) fs)" for fs
    using pieces_sum[OF m] by (induction fs) auto
  then show ?thesis using pieces_sum[OF m] by (simp add: frame_pieces_def skb_len_def skb_data_len_def)
qed

section \<open>Placing buffers\<close>

fun place :: "nat \<Rightarrow> e1000_buffer list \<Rightarrow> 'd e1000_ring \<Rightarrow> 'd e1000_ring" where
  "place k [] r = r"
| "place k (b # bs) r = place (Suc k) bs (upd_buffer (k mod ring_count r) (\<lambda>_. b) r)"

lemma place_simps [simp]:
  "ring_count (place k bs r) = ring_count r" "next_to_use (place k bs r) = next_to_use r"
  "next_to_clean (place k bs r) = next_to_clean r" "ring_desc (place k bs r) = ring_desc r"
  "ring_tail (place k bs r) = ring_tail r" "length (buffer_info (place k bs r)) = length (buffer_info r)"
  by (induction k bs r rule: place.induct) simp_all

lemma place_wf [simp]: "ring_wf (place k bs r) = ring_wf r"
  by (simp add: ring_wf_def)

lemma place_append: "place k (xs @ ys) r = place (k + length xs) ys (place k xs r)"
  by (induction k xs r rule: place.induct) simp_all

lemma place_out:
  assumes "ring_wf r" "\<forall>i\<in>{k..<k + length bs}. j mod ring_count r \<noteq> i mod ring_count r"
  shows "buffer_info (place k bs r) ! (j mod ring_count r) = buf_at r j"
  using assms
proof (induction k bs r rule: place.induct)
  case (2 k b bs r)
  have "k \<in> {k..<k + length (b # bs)}" by simp
  then have "k mod ring_count r \<noteq> j mod ring_count r" using 2(3) by metis
  moreover have "ring_wf (upd_buffer (k mod ring_count r) (\<lambda>_. b) r)" using 2(2) by (simp add: ring_wf_def)
  ultimately show ?case using 2 by simp
qed simp

lemma place_at:
  assumes "ring_wf r" "j < length bs" "length bs \<le> ring_count r"
  shows "buffer_info (place k bs r) ! ((k + j) mod ring_count r) = bs ! j"
  using assms
proof (induction k bs r arbitrary: j rule: place.induct)
  case (2 k b bs r)
  let ?u = "upd_buffer (k mod ring_count r) (\<lambda>_. b) r"
  have wf: "ring_wf ?u" using 2(2) by (simp add: ring_wf_def)
  show ?case
  proof (cases j)
    case 0
    have "\<forall>i\<in>{Suc k..<Suc k + length bs}. k mod ring_count r \<noteq> i mod ring_count r"
      using mod_eq_window[of k "ring_count r"] 2(4) by fastforce
    then have "buffer_info (place (Suc k) bs ?u) ! (k mod ring_count r) = buffer_info ?u ! (k mod ring_count r)"
      using place_out[OF wf, of "Suc k" bs k] by simp
    then show ?thesis using 2(2) 0 by (simp add: ring_wf_def)
  next
    case (Suc i)
    with 2 wf show ?thesis using "2.IH"[of i] by simp
  qed
qed simp

lemma place_map:
  assumes "ring_wf r" "length bs \<le> ring_count r"
  shows "map (buf_at (place k bs r)) [k..<k + length bs] = bs"
  by (rule nth_equalityI) (simp_all add: place_at[OF assms(1) _ assms(2)])

section \<open>The mapping loops\<close>

definition tx_buf :: "u32 \<Rightarrow> nat \<Rightarrow> nat \<Rightarrow> u64 \<Rightarrow> nat \<Rightarrow> e1000_buffer" where
  "tx_buf now c k d n = \<lparr>buf_dma = d, buf_skb = None, time_stamp = now, buf_length = of_nat n,
     next_to_watch = k mod c\<rparr>"

fun tx_bufs :: "u32 \<Rightarrow> nat \<Rightarrow> nat \<Rightarrow> (dma_src \<times> nat) list \<Rightarrow> u64 list \<Rightarrow> e1000_buffer list" where
  "tx_bufs now c k ((src, n) # ps) (d # ds) = tx_buf now c k d n # tx_bufs now c (Suc k) ps ds"
| "tx_bufs now c k ps ds = []"

definition map_evs :: "(dma_src \<times> nat) list \<Rightarrow> u64 list \<Rightarrow> kev list" where
  "map_evs ps ds = rev (map2 (\<lambda>(src, n) d. Map src n d) ps ds)"

lemma tx_bufs_length [simp]: "length (tx_bufs now c k ps ds) = min (length ps) (length ds)"
  by (induction now c k ps ds rule: tx_bufs.induct) simp_all

lemma tx_bufs_append:
  "length ps = length ds \<Longrightarrow>
    tx_bufs now c k (ps @ qs) (ds @ es) = tx_bufs now c k ps ds @ tx_bufs now c (k + length ps) qs es"
  by (induction now c k ps ds rule: tx_bufs.induct) simp_all

lemma map_evs_append: "length ps = length ds \<Longrightarrow> map_evs (ps @ qs) (ds @ es) = map_evs qs es @ map_evs ps ds"
  by (simp add: map_evs_def)

lemma tx_bufs_nth:
  "length ps = length ds \<Longrightarrow> j < length ps \<Longrightarrow> tx_bufs now c k ps ds ! j = tx_buf now c (k + j) (ds ! j) (snd (ps ! j))"
  by (induction now c k ps ds arbitrary: j rule: tx_bufs.induct) (auto simp: nth_Cons split: nat.splits)

text \<open>
  \<open>M\<close> maps the pieces \<open>ps\<close> into the slots from position \<open>k\<close>: the addresses are those the
  kernel returned, nothing but the log and the slots changes.
\<close>

definition after_maps :: "u32 \<Rightarrow> nat \<Rightarrow> (dma_src \<times> nat) list \<Rightarrow> u64 list \<Rightarrow> e1000_adapter \<Rightarrow> e1000_adapter" where
  "after_maps now k ps ds a = a\<lparr>klog := map_evs ps ds @ klog a,
     tx_ring := place k (tx_bufs now (ring_count (tx_ring a)) k ps ds) (tx_ring a)\<rparr>"

definition maps_pieces :: "(e1000_adapter, (nat \<times> nat) option) state \<Rightarrow> e1000_adapter \<Rightarrow> u32 \<Rightarrow>
    nat \<Rightarrow> nat \<Rightarrow> (dma_src \<times> nat) list \<Rightarrow> bool" where
  "maps_pieces M a now k count ps \<longleftrightarrow> (\<exists>ds. length ds = length ps \<and>
     run_state M a = (Some ((k + length ps) mod ring_count (tx_ring a), count + length ps), after_maps now k ps ds a))"

text \<open>The slots from position \<open>k\<close> are there and free.\<close>

definition room :: "e1000_tx_desc e1000_ring \<Rightarrow> nat \<Rightarrow> nat \<Rightarrow> bool" where
  "room r k n \<longleftrightarrow> ring_wf r \<and> n \<le> ring_count r \<and> (\<forall>i\<in>{k..<k + n}. buf_skb (buf_at r i) = None)"

lemma room_place:
  assumes "room r k (length bs + n)"
  shows "room (place k bs r) (k + length bs) n"
proof -
  have "buffer_info (place k bs r) ! (i mod ring_count r) = buf_at r i"
    if "i \<in> {k + length bs..<k + length bs + n}" for i
    using that assms mod_eq_window[of i "ring_count r"] by (intro place_out) (fastforce simp: room_def)+
  then show ?thesis using assms by (simp add: room_def)
qed

lemma maps_pieces_seq:
  assumes "maps_pieces M a now k count ps"
    and "\<And>ds. length ds = length ps \<Longrightarrow>
      maps_pieces (F ((k + length ps) mod ring_count (tx_ring a)) (count + length ps)) (after_maps now k ps ds a) now
        (k + length ps) (count + length ps) qs"
  shows "maps_pieces (do { r \<leftarrow> M; (case r of None \<Rightarrow> ret None | Some (i, n) \<Rightarrow> F i n) }) a now k count (ps @ qs)"
proof -
  obtain ds where ds: "length ds = length ps" "run_state M a =
      (Some ((k + length ps) mod ring_count (tx_ring a), count + length ps), after_maps now k ps ds a)"
    using assms(1) by (auto simp: maps_pieces_def)
  obtain es where es: "length es = length qs"
    "run_state (F ((k + length ps) mod ring_count (tx_ring a)) (count + length ps)) (after_maps now k ps ds a) =
      (Some ((k + length ps + length qs) mod ring_count (tx_ring a), count + length ps + length qs),
       after_maps now (k + length ps) qs es (after_maps now k ps ds a))"
    using assms(2)[OF ds(1)] by (auto simp: maps_pieces_def after_maps_def)
  have "after_maps now (k + length ps) qs es (after_maps now k ps ds a) = after_maps now k (ps @ qs) (ds @ es) a"
    using ds(1) by (simp add: after_maps_def tx_bufs_append map_evs_append place_append)
  with ds es show ?thesis
    unfolding maps_pieces_def by (intro exI[of _ "ds @ es"]) (simp add: add.assoc)
qed

lemma map_piece_run:
  assumes "\<And>d. \<not> dma_error K d" "0 < m" "room (tx_ring a) k (length (pieces m src len offset))"
  shows "maps_pieces (map_piece K now m src len offset (k mod ring_count (tx_ring a)) count) a now k count
    (pieces m src len offset)"
  using assms(2-)
proof (induction m src len offset arbitrary: k count a rule: pieces.induct)
  case (1 m src len offset)
  let ?r = "tx_ring a" and ?c = "ring_count (tx_ring a)"
  show ?case
  proof (cases "len = 0")
    case True
    then show ?thesis by (simp add: map_piece.simps maps_pieces_def after_maps_def map_evs_def)
  next
    case False
    let ?n = "min len m" and ?d = "dma_map K (klog a) (src offset) (min len m)"
    let ?b = "tx_buf now ?c k ?d ?n"
    let ?ps = "pieces m src (len - ?n) (offset + ?n)"
    let ?a = "a\<lparr>klog := Map (src offset) ?n ?d # klog a, tx_ring := upd_buffer (k mod ?c) (\<lambda>_. ?b) ?r\<rparr>"
    have ps: "pieces m src len offset = (src offset, ?n) # ?ps" using False 1(2) by (subst pieces.simps) simp
    have free: "room ?r k (length (?b # []) + length ?ps)" using 1(3) unfolding ps by simp
    have wf: "ring_wf ?r" and none: "buf_skb (buf_at ?r k) = None" using free by (auto simp: room_def)
    have "room (tx_ring ?a) (Suc k) (length ?ps)" using room_place[OF free] by simp
    then obtain ds where ds: "length ds = length ?ps"
        "run_state (map_piece K now m src (len - ?n) (offset + ?n) (Suc k mod ring_count (tx_ring ?a)) (Suc count)) ?a =
      (Some ((Suc k + length ?ps) mod ring_count (tx_ring ?a), Suc count + length ?ps), after_maps now (Suc k) ?ps ds ?a)"
      using "1.IH"[where k = "Suc k" and a = ?a and count = "Suc count"] False 1(2)
      unfolding maps_pieces_def by auto
    have upd: "upd_buffer i (\<lambda>b. b\<lparr>next_to_watch := i\<rparr>) (upd_buffer i (\<lambda>b. b\<lparr>buf_length := of_nat ?n,
        time_stamp := now, buf_dma := ?d\<rparr>) ?r) = upd_buffer i (\<lambda>_. ?b) ?r" if "i = k mod ?c" for i
      using none that wf by (cases "buf_at ?r k") (simp add: upd_buffer_def tx_buf_def ring_wf_def)
    have ring: "ring_next (upd_buffer (k mod ?c) (\<lambda>_. ?b) ?r) (k mod ?c) = Suc k mod ?c"
      using ring_next_mod[of ?r k] by (simp add: ring_next_def)
    show ?thesis
      unfolding ps maps_pieces_def using ds False 1(2) assms(1)
      by (intro exI[of _ "?d # ds"], subst map_piece.simps)
        (simp add: upd ring map_evs_def after_maps_def Let_def)
  qed
qed

lemma map_frags_run:
  assumes "\<And>d. \<not> dma_error K d" "0 < m"
    and "room (tx_ring a) k (length (concat (map (\<lambda>(page, offset, n). pieces m (Frag page) n offset) fs)))"
  shows "maps_pieces (map_frags K now m fs (k mod ring_count (tx_ring a)) count) a now k count
    (concat (map (\<lambda>(page, offset, n). pieces m (Frag page) n offset) fs))"
  using assms(3)
proof (induction fs arbitrary: a k count)
  case Nil
  show ?case unfolding maps_pieces_def by (intro exI[of _ "[]"]) (simp add: after_maps_def map_evs_def)
next
  case (Cons f fs)
  obtain page offset n where f: "f = (page, offset, n)" by (cases f)
  let ?ps = "pieces m (Frag page) n offset"
  have first: "maps_pieces (map_piece K now m (Frag page) n offset (k mod ring_count (tx_ring a)) count) a now k count ?ps"
    using Cons.prems by (intro map_piece_run assms) (auto simp: f room_def)
  have next_room: "room (tx_ring (after_maps now k ?ps ds a)) (k + length ?ps)
      (length (concat (map (\<lambda>(page, offset, n). pieces m (Frag page) n offset) fs)))"
    if "length ds = length ?ps" for ds :: "u64 list"
    using room_place[of "tx_ring a" k "tx_bufs now (ring_count (tx_ring a)) k ?ps ds"] Cons.prems that
    by (simp add: f after_maps_def)
  have "maps_pieces (map_frags K now m fs ((k + length ?ps) mod ring_count (tx_ring a)) (count + length ?ps))
      (after_maps now k ?ps ds a) now (k + length ?ps) (count + length ?ps)
      (concat (map (\<lambda>(page, offset, n). pieces m (Frag page) n offset) fs))"
    if "length ds = length ?ps" for ds
    using Cons.IH[OF next_room[OF that], of "count + length ?ps"] by (simp add: after_maps_def)
  from maps_pieces_seq[OF first, where F = "map_frags K now m fs", OF this] show ?case by (simp add: f)
qed

text \<open>Both loops of \<open>e1000_tx_map\<close>.\<close>

lemma map_frame_run:
  assumes "\<And>d. \<not> dma_error K d" "0 < m" "room (tx_ring a) k (length (frame_pieces m s))"
  shows "maps_pieces (do {
      r \<leftarrow> map_piece K now m Linear (skb_headlen s) 0 (k mod ring_count (tx_ring a)) 0;
      (case r of None \<Rightarrow> ret None | Some (i, n) \<Rightarrow> map_frags K now m (frags s) i n) }) a now k 0 (frame_pieces m s)"
  unfolding frame_pieces_def
proof (rule maps_pieces_seq)
  let ?ps = "pieces m Linear (skb_headlen s) 0"
  show "maps_pieces (map_piece K now m Linear (skb_headlen s) 0 (k mod ring_count (tx_ring a)) 0) a now k 0 ?ps"
    using assms(3) by (intro map_piece_run assms) (auto simp: frame_pieces_def room_def)
  fix ds :: "u64 list" assume ds: "length ds = length ?ps"
  have "room (tx_ring (after_maps now k ?ps ds a)) (k + length ?ps)
      (length (concat (map (\<lambda>(page, offset, n). pieces m (Frag page) n offset) (frags s))))"
    using room_place[of "tx_ring a" k "tx_bufs now (ring_count (tx_ring a)) k ?ps ds"] assms(3) ds
    by (simp add: frame_pieces_def after_maps_def)
  from map_frags_run[OF assms(1,2) this, of now "0 + length ?ps"]
  show "maps_pieces (map_frags K now m (frags s) ((k + length ?ps) mod ring_count (tx_ring a)) (0 + length ?ps))
      (after_maps now k ?ps ds a) now (k + length ?ps) (0 + length ?ps)
      (concat (map (\<lambda>(page, offset, n). pieces m (Frag page) n offset) (frags s)))"
    by (simp add: after_maps_def)
qed

end
