(* ===== verification/TxSend.thy ===== *)
theory TxSend
  imports TxMap
begin

text \<open>
  The hand-over of a mapped frame: the slots it fills, the descriptors the chip reads, and the
  ring after it, with and without an offload context.
\<close>

section \<open>The frame that is placed\<close>

fun bplace :: "nat \<Rightarrow> nat \<Rightarrow> e1000_buffer list \<Rightarrow> e1000_buffer list \<Rightarrow> e1000_buffer list" where
  "bplace c k [] xs = xs"
| "bplace c k (b # bs) xs = bplace c (Suc k) bs (xs[k mod c := b])"

lemma place_bplace: "place k bs r = r\<lparr>buffer_info := bplace (ring_count r) k bs (buffer_info r)\<rparr>"
  by (induction k bs r rule: place.induct) (simp_all add: upd_buffer_def ring_same)

lemma bplace_append: "bplace c k (xs @ ys) zs = bplace c (k + length xs) ys (bplace c k xs zs)"
  by (induction xs arbitrary: k zs) simp_all

lemma bplace_length [simp]: "length (bplace c k bs xs) = length xs"
  by (induction c k bs xs rule: bplace.induct) simp_all

lemma bplace_out:
  "length xs = c \<Longrightarrow> \<forall>i\<in>{k..<k + length bs}. j mod c \<noteq> i mod c \<Longrightarrow> bplace c k bs xs ! (j mod c) = xs ! (j mod c)"
proof (induction c k bs xs rule: bplace.induct)
  case (2 c k b bs xs)
  have "k \<in> {k..<k + length (b # bs)}" by simp
  then have "k mod c \<noteq> j mod c" using 2(3) by metis
  then show ?case using 2 by simp
qed simp

lemma bplace_at:
  "length xs = c \<Longrightarrow> j < length bs \<Longrightarrow> length bs \<le> c \<Longrightarrow> bplace c k bs xs ! ((k + j) mod c) = bs ! j"
proof (induction c k bs xs arbitrary: j rule: bplace.induct)
  case (2 c k b bs xs)
  show ?case
  proof (cases j)
    case 0
    have "\<forall>i\<in>{Suc k..<Suc k + length bs}. k mod c \<noteq> i mod c"
      using mod_eq_window[of k c] 2(4) by fastforce
    then have "bplace c (Suc k) bs (xs[k mod c := b]) ! (k mod c) = xs[k mod c := b] ! (k mod c)"
      using 2(2) by (intro bplace_out) auto
    moreover have "k mod c < length xs" using 2(2,4) by (cases c) auto
    ultimately show ?thesis using 0 by simp
  next
    case (Suc i)
    with 2 show ?thesis using "2.IH"[of i] by simp
  qed
qed simp

lemma bplace_update:
  assumes "length xs = c" "j < length bs" "length bs \<le> c"
  shows "(bplace c k bs xs)[(k + j) mod c := b] = bplace c k (bs[j := b]) xs"
proof (rule nth_equalityI)
  fix m assume "m < length ((bplace c k bs xs)[(k + j) mod c := b])"
  then have m: "m < c" using assms by simp
  show "(bplace c k bs xs)[(k + j) mod c := b] ! m = bplace c k (bs[j := b]) xs ! m"
  proof (cases "\<exists>i<length bs. m = (k + i) mod c")
    case True
    then obtain i where i: "i < length bs" "m = (k + i) mod c" by blast
    have "(k + j) mod c = (k + i) mod c \<Longrightarrow> j = i"
      using mod_eq_window[of "k + j" c "k + i"] i assms by simp
    then show ?thesis
      using i assms m bplace_at[OF assms(1) i(1) assms(3), of k] bplace_at[OF assms(1), of i "bs[j := b]" k]
      by (cases "j = i") (auto simp: nth_list_update)
  next
    case False
    then have "\<forall>i\<in>{k..<k + length bs}. m mod c \<noteq> i mod c"
      using m by (metis atLeastLessThan_iff le_Suc_ex mod_less nat_add_left_cancel_less)
    moreover have "(k + j) mod c \<noteq> m" using False assms(2) by metis
    ultimately show ?thesis
      using m assms(1) bplace_out[of xs c k bs m] bplace_out[of xs c k "bs[j := b]" m] by simp
  qed
qed simp

definition mk_frame :: "nat \<Rightarrow> nat \<Rightarrow> sk_buff \<Rightarrow> e1000_buffer list \<Rightarrow> tx_frame" where
  "mk_frame c k s bs = (let e = length bs - 1; bs = bs[e := (bs ! e)\<lparr>buf_skb := Some s\<rparr>] in
     bs[0 := (bs ! 0)\<lparr>next_to_watch := (k + e) mod c\<rparr>])"

lemma mk_frame_length [simp]: "length (mk_frame c k s bs) = length bs"
  by (simp add: mk_frame_def Let_def)

lemma mk_frame_skb: "bs \<noteq> [] \<Longrightarrow> buf_skb (last (mk_frame c k s bs)) = Some s"
  by (cases "length bs = 1") (auto simp: mk_frame_def Let_def last_conv_nth nth_list_update)

lemma mk_frame_ok:
  assumes "bs \<noteq> []" "0 < c" "\<forall>b\<in>set bs. buf_skb b = None \<and> next_to_watch b < c"
  shows "frame_ok c k (mk_frame c k s bs)"
proof -
  let ?f = "mk_frame c k s bs"
  have ne: "?f \<noteq> []" using assms(1) by (metis length_0_conv mk_frame_length)
  have nth: "buf_skb (?f ! j) = (if j = length bs - 1 then Some s else None)" "next_to_watch (?f ! j) < c"
    if "j < length bs" for j
    using assms that by (auto simp: mk_frame_def Let_def nth_list_update)
  have "next_to_watch (hd ?f) = (k + length ?f - 1) mod c"
    using assms(1) ne by (simp add: hd_conv_nth mk_frame_def Let_def Suc_leI)
  moreover have "\<forall>b\<in>set (butlast ?f). buf_skb b = None"
    using nth(1) by (auto simp: in_set_conv_nth nth_butlast)
  moreover have "\<forall>b\<in>set ?f. next_to_watch b < c" using nth(2) by (auto simp: in_set_conv_nth)
  ultimately show ?thesis using ne mk_frame_skb[OF assms(1)] by (simp add: frame_ok_def)
qed

text \<open>Addresses and lengths of the buffers are not touched by it.\<close>

lemma mk_frame_data:
  "map buf_dma (mk_frame c k s bs) = map buf_dma bs" "map buf_length (mk_frame c k s bs) = map buf_length bs"
  by (cases "bs = []"; rule nth_equalityI; auto simp: mk_frame_def Let_def nth_list_update)+

lemma mk_frame_nth:
  "i < length bs \<Longrightarrow> buf_dma (mk_frame c k s bs ! i) = buf_dma (bs ! i)"
  "i < length bs \<Longrightarrow> buf_length (mk_frame c k s bs ! i) = buf_length (bs ! i)"
  by (metis mk_frame_data(1) mk_frame_length nth_map, metis mk_frame_data(2) mk_frame_length nth_map)

section \<open>Mapping a frame\<close>

lemma slot_before: "0 < c \<Longrightarrow> 0 < n \<Longrightarrow> (if n mod c = 0 then c - 1 else n mod c - 1) = (n - 1) mod (c :: nat)"
  using mod_Suc[of "n - 1" c] by (auto split: if_splits)

lemma tx_map_run:
  assumes "\<And>d. \<not> dma_error K d" "0 < m"
    and c: "ring_count (tx_ring a) = c" and bi: "buffer_info (tx_ring a) = bplace c k cs xs" and xs: "length xs = c"
    and "next_to_use (tx_ring a) = (k + length cs) mod c" "first = k mod c"
    and room: "room (tx_ring a) (k + length cs) (length ps)"
    and ps: "ps = frame_pieces m s" "ps \<noteq> []" "length cs + length ps \<le> c"
  shows "\<exists>ds. length ds = length ps \<and> run_state (e1000_tx_map K now s first m) a =
    (Some (length ps), a\<lparr>klog := map_evs ps ds @ klog a, tx_ring := (tx_ring a)\<lparr>buffer_info :=
       bplace c k (mk_frame c k s (cs @ tx_bufs now c (k + length cs) ps ds)) xs\<rparr>\<rparr>)"
proof -
  let ?k = "k + length cs" and ?r = "tx_ring a"
  let ?M = "do {
      r \<leftarrow> map_piece K now m Linear (skb_headlen s) 0 (?k mod ring_count ?r) 0;
      (case r of None \<Rightarrow> ret None | Some (i, n) \<Rightarrow> map_frags K now m (frags s) i n) }"
  have "maps_pieces ?M a now ?k 0 ps"
    unfolding ps(1) by (rule map_frame_run[OF assms(1,2)]) (use room ps(1) in simp)
  then obtain ds where ds: "length ds = length ps"
      "run_state ?M a = (Some ((?k + length ps) mod c, length ps), after_maps now ?k ps ds a)"
    by (auto simp: maps_pieces_def c)
  let ?bs = "cs @ tx_bufs now c ?k ps ds"
  have place: "buffer_info (place ?k (tx_bufs now c ?k ps ds) ?r) = bplace c k ?bs xs"
    by (simp add: place_bplace c bi bplace_append)
  have len: "length ?bs = length cs + length ps" using ds(1) by simp
  then have "0 < length ?bs" using ps(2) by simp
  then have bs: "?bs \<noteq> []" and c0: "0 < c" and "length ?bs \<le> c" using ps(3) len by (blast, linarith+)
  have e: "(if (?k + length ps) mod c = 0 then c - 1 else (?k + length ps) mod c - 1) = (k + (length ?bs - 1)) mod c"
    using slot_before[OF c0, of "?k + length ps"] ps(2) unfolding len by (simp add: Suc_leI add.assoc)
  define last_slot where "last_slot = (k + (length ?bs - 1)) mod c"
  define W where "W = bplace c k ?bs xs"
  let ?b2 = "?bs[length ?bs - 1 := (?bs ! (length ?bs - 1))\<lparr>buf_skb := Some s\<rparr>]"
  define V where "V = bplace c k ?b2 xs"
  have upd1: "W[last_slot := (W ! last_slot)\<lparr>buf_skb := Some s\<rparr>] = V"
    using bs \<open>length ?bs \<le> c\<close> bplace_at[OF xs, of "length ?bs - 1" ?bs k]
    unfolding W_def V_def last_slot_def by (simp add: bplace_update[OF xs] del: length_append)
  have upd2: "V[k mod c := (V ! (k mod c))\<lparr>next_to_watch := last_slot\<rparr>] = bplace c k (mk_frame c k s ?bs) xs"
    using bs \<open>length ?bs \<le> c\<close> bplace_at[OF xs, of 0 ?b2 k] bplace_update[OF xs, of 0 ?b2 k]
    unfolding V_def last_slot_def by (simp add: mk_frame_def Let_def del: length_append)
  have placed: "place ?k (tx_bufs now c ?k ps ds) ?r = ?r\<lparr>buffer_info := W\<rparr>"
    using place by (simp add: place_bplace c W_def)
  have ring: "upd_buffer first (\<lambda>b. b\<lparr>next_to_watch := last_slot\<rparr>) (upd_buffer last_slot (\<lambda>b. b\<lparr>buf_skb := Some s\<rparr>)
      (?r\<lparr>buffer_info := W\<rparr>)) = ?r\<lparr>buffer_info := bplace c k (mk_frame c k s ?bs) xs\<rparr>"
    by (simp add: upd_buffer_def upd1 upd2 assms(7))
  define F where "F = (\<lambda>r :: (nat \<times> nat) option. (case r of None \<Rightarrow> ret None
        | Some (i, count) \<Rightarrow> do {
            set_tx (\<lambda>r. let e = (if i = 0 then ring_count r - 1 else i - 1) in
              upd_buffer first (\<lambda>b. b\<lparr>next_to_watch := e\<rparr>) (upd_buffer e (\<lambda>b. b\<lparr>buf_skb := Some s\<rparr>) r));
            ret (Some count) }) :: (e1000_adapter, nat option) state)"
  have runF: "run_state (F (Some (i, n))) t = (Some n, t\<lparr>tx_ring :=
      upd_buffer first (\<lambda>b. b\<lparr>next_to_watch := e\<rparr>) (upd_buffer e (\<lambda>b. b\<lparr>buf_skb := Some s\<rparr>) (tx_ring t))\<rparr>)"
    if "e = (if i = 0 then ring_count (tx_ring t) - 1 else i - 1)" for i n t e
    by (simp add: F_def that Let_def)
  have e': "last_slot = (if (?k + length ps) mod c = 0
      then ring_count (tx_ring (a\<lparr>klog := map_evs ps ds @ klog a, tx_ring := ?r\<lparr>buffer_info := W\<rparr>\<rparr>)) - 1
      else (?k + length ps) mod c - 1)"
  proof -
    have "ring_count (tx_ring (a\<lparr>klog := map_evs ps ds @ klog a, tx_ring := ?r\<lparr>buffer_info := W\<rparr>\<rparr>)) = c"
      by (simp add: c)
    then show ?thesis using e[folded last_slot_def, symmetric] by metis
  qed
  have "run_state (e1000_tx_map K now s first m) a = run_state (?M \<bind> F) a"
    using assms(6) c by (simp add: e1000_tx_map_def F_def)
  also have "\<dots> = run_state (F (Some ((?k + length ps) mod c, length ps))) (after_maps now ?k ps ds a)"
    by (subst run_state_bind, subst ds(2)) (simp only: prod.case)
  also have "\<dots> = (Some (length ps), a\<lparr>klog := map_evs ps ds @ klog a, tx_ring := ?r\<lparr>buffer_info :=
       bplace c k (mk_frame c k s ?bs) xs\<rparr>\<rparr>)"
    using runF[OF e', of "length ps"] ring by (simp add: after_maps_def c placed)
  finally show ?thesis using ds(1) by blast
qed

section \<open>Handing over a frame\<close>

definition data_desc :: "u32 \<Rightarrow> u32 \<Rightarrow> e1000_buffer \<Rightarrow> e1000_tx_desc \<Rightarrow> e1000_tx_desc" where
  "data_desc lower upper b d = d\<lparr>tx_addr := buf_dma b, tx_lower := lower OR ucast (buf_length b), tx_upper := upper\<rparr>"

fun dfill :: "nat \<Rightarrow> u32 \<Rightarrow> u32 \<Rightarrow> e1000_buffer list \<Rightarrow> nat \<Rightarrow> nat \<Rightarrow> e1000_tx_desc list \<Rightarrow> e1000_tx_desc list" where
  "dfill c lower upper bi 0 k ds = ds"
| "dfill c lower upper bi (Suc n) k ds = dfill c lower upper bi n (Suc k)
     (ds[k mod c := data_desc lower upper (bi ! (k mod c)) (ds ! (k mod c))])"

lemma dfill_length [simp]: "length (dfill c lower upper bi n k ds) = length ds"
  by (induction c lower upper bi n k ds rule: dfill.induct) simp_all

lemma dfill_out:
  "\<forall>i\<in>{k..<k + n}. j mod c \<noteq> i mod c \<Longrightarrow> dfill c lower upper bi n k ds ! (j mod c) = ds ! (j mod c)"
proof (induction c lower upper bi n k ds rule: dfill.induct)
  case (2 c lower upper bi n k ds)
  have "k \<in> {k..<k + Suc n}" by simp
  then have "k mod c \<noteq> j mod c" using 2(2) by metis
  then show ?case using 2 by simp
qed simp

lemma dfill_at:
  "length ds = c \<Longrightarrow> j < n \<Longrightarrow> n \<le> c \<Longrightarrow> dfill c lower upper bi n k ds ! ((k + j) mod c) =
     data_desc lower upper (bi ! ((k + j) mod c)) (ds ! ((k + j) mod c))"
proof (induction c lower upper bi n k ds arbitrary: j rule: dfill.induct)
  case (2 c lower upper bi n k ds)
  let ?d = "data_desc lower upper (bi ! (k mod c)) (ds ! (k mod c))"
  show ?case
  proof (cases j)
    case 0
    have "\<forall>i\<in>{Suc k..<Suc k + n}. k mod c \<noteq> i mod c" using mod_eq_window[of k c] 2(4) by fastforce
    then have "dfill c lower upper bi n (Suc k) (ds[k mod c := ?d]) ! (k mod c) = ds[k mod c := ?d] ! (k mod c)"
      by (rule dfill_out)
    moreover have "k mod c < length ds" using 2(2,4) by (cases c) auto
    ultimately show ?thesis using 0 by simp
  next
    case (Suc i)
    then have "(Suc k + i) mod c \<noteq> k mod c" using mod_eq_window[of "Suc k + i" c k] 2(3,4) by auto
    with 2 Suc show ?thesis using "2.IH"[of i] by simp
  qed
qed simp

lemma queue_descs_run:
  "ring_count (tx_ring a) = c \<Longrightarrow> run_state (queue_descs lower upper n (k mod c) prev) a =
    (((k + n) mod c, if n = 0 then prev else Some ((k + n - 1) mod c)),
     a\<lparr>tx_ring := (tx_ring a)\<lparr>ring_desc := dfill c lower upper (buffer_info (tx_ring a)) n k (ring_desc (tx_ring a))\<rparr>\<rparr>)"
proof (induction n arbitrary: k prev a)
  case 0
  then show ?case by simp
next
  case (Suc n)
  have same: "r\<lparr>ring_desc := ring_desc r\<rparr> = r" for r :: "e1000_tx_desc e1000_ring" by simp
  let ?r = "upd_desc (k mod c) (data_desc lower upper (buffer_info (tx_ring a) ! (k mod c))) (tx_ring a)"
  have next_slot: "ring_next ?r (k mod c) = Suc k mod c" using Suc.prems ring_next_mod[of ?r k] by simp
  have "run_state (queue_descs lower upper (Suc n) (k mod c) prev) a =
      run_state (queue_descs lower upper n (Suc k mod c) (Some (k mod c))) (a\<lparr>tx_ring := ?r\<rparr>)"
    using next_slot by (simp add: Let_def data_desc_def[abs_def])
  then show ?case
    using Suc.IH[of "a\<lparr>tx_ring := ?r\<rparr>" "Suc k" "Some (k mod c)"] Suc.prems
    by (simp add: upd_desc_def)
qed

definition queued :: "u32 \<Rightarrow> u32 \<Rightarrow> nat \<Rightarrow> nat \<Rightarrow> e1000_tx_desc e1000_ring \<Rightarrow> e1000_tx_desc e1000_ring" where
  "queued tx_flags cmd n k r = (let c = ring_count r; e = (k + n - 1) mod c;
       ds = dfill c (txd_lower_of tx_flags) (txd_upper_of tx_flags) (buffer_info r) n k (ring_desc r) in
     r\<lparr>ring_desc := ds[e := (ds ! e)\<lparr>tx_lower := tx_lower (ds ! e) OR cmd\<rparr>], next_to_use := (k + n) mod c\<rparr>)"

lemma tx_queue_run:
  assumes "next_to_use (tx_ring a) = k mod ring_count (tx_ring a)" "0 < n"
  shows "run_state (e1000_tx_queue tx_flags n) a = ((), a\<lparr>tx_ring := queued tx_flags (txd_cmd a) n k (tx_ring a),
    hw := (hw a)\<lparr>rhist := Wr (ring_tail (tx_ring a)) (of_nat ((k + n) mod ring_count (tx_ring a))) # rhist (hw a)\<rparr>\<rparr>)"
  using assms(1)
    queue_descs_run[OF refl, where a = a and lower = "txd_lower_of tx_flags" and
      upper = "txd_upper_of tx_flags" and n = n and k = k and prev = None] assms(2)
  by (simp add: e1000_tx_queue_def queued_def Let_def upd_desc_def hw_op_def)

section \<open>Appending to the queue\<close>

lemma frames_at_append: "frames_at r k (fs @ gs) \<longleftrightarrow> frames_at r k fs \<and> frames_at r (k + frames_size fs) gs"
  by (induction fs arbitrary: k) (auto simp: add.assoc)

lemma frames_at_cong:
  assumes "ring_count r' = ring_count r" "\<And>j. k \<le> j \<Longrightarrow> j < k + frames_size fs \<Longrightarrow> buf_at r' j = buf_at r j"
  shows "frames_at r' k fs = frames_at r k fs"
  using assms(2)
proof (induction fs arbitrary: k)
  case (Cons f fs)
  have "map (buf_at r') [k..<k + length f] = map (buf_at r) [k..<k + length f]"
    using Cons.prems by (intro map_cong) auto
  then show ?case using Cons assms(1) by (simp del: map_eq_conv)
qed simp

lemma ring_from_append:
  assumes "ring_from r k fs" "ring_wf r'" "ring_count r' = ring_count r"
    and n: "n = length f" "frames_size fs + n < ring_count r"
    and "next_to_use r' = (k + frames_size fs + n) mod ring_count r"
    and same: "\<And>j. j < frames_size fs \<or> frames_size fs + n \<le> j \<Longrightarrow> j < ring_count r \<Longrightarrow>
      buf_at r' (k + j) = buf_at r (k + j) \<and> tx_upper (desc_at r' (k + j)) = tx_upper (desc_at r (k + j))"
    and f: "frame_ok (ring_count r) (k + frames_size fs) f"
      "map (buf_at r') [k + frames_size fs..<k + frames_size fs + n] = f"
  shows "ring_from r' k (fs @ [f])"
proof -
  have "frames_at r' k fs"
  proof (subst frames_at_cong[OF assms(3)])
    fix j assume j: "k \<le> j" "j < k + frames_size fs"
    then have "j - k < frames_size fs" "j - k < ring_count r" using n(2) by linarith+
    with j show "buf_at r' j = buf_at r j" using same[of "j - k"] by simp
  qed (use assms(1) in \<open>simp add: ring_from_def\<close>)
  moreover have "free_slot r' (k + j)" if "frames_size fs + n \<le> j" "j < ring_count r" for j
    using assms(1,3) same[of j] that by (simp add: ring_from_def free_slot_def)
  ultimately show ?thesis using assms by (simp add: ring_from_def frames_at_append add.assoc)
qed

text \<open>The offload context: no slot or one, before the data.\<close>

definition ctx_step :: "e1000_tx_desc e1000_ring \<Rightarrow> nat \<Rightarrow> e1000_buffer list \<Rightarrow> e1000_tx_desc e1000_ring \<Rightarrow> bool" where
  "ctx_step r k cs r1 \<longleftrightarrow> ring_count r1 = ring_count r \<and> next_to_clean r1 = next_to_clean r \<and>
     ring_tail r1 = ring_tail r \<and> buffer_info r1 = bplace (ring_count r) k cs (buffer_info r) \<and>
     length (ring_desc r1) = length (ring_desc r) \<and> next_to_use r1 = (k + length cs) mod ring_count r \<and>
     (\<forall>j. (\<forall>i\<in>{k..<k + length cs}. j mod ring_count r \<noteq> i mod ring_count r) \<longrightarrow>
        ring_desc r1 ! (j mod ring_count r) = desc_at r j) \<and>
     (\<forall>b\<in>set cs. buf_skb b = None \<and> next_to_watch b < ring_count r)"

definition with_context :: "u32 \<Rightarrow> nat \<Rightarrow> (e1000_tx_desc \<Rightarrow> e1000_tx_desc) \<Rightarrow> e1000_tx_desc e1000_ring \<Rightarrow> e1000_tx_desc e1000_ring" where
  "with_context now k g r = (let i = k mod ring_count r in
     (upd_buffer i (\<lambda>b. b\<lparr>time_stamp := now, next_to_watch := i\<rparr>) (upd_desc i g r))
       \<lparr>next_to_use := Suc k mod ring_count r\<rparr>)"

lemma put_context_run:
  "run_state (put_context now (k mod ring_count (tx_ring a)) g) a = ((), a\<lparr>tx_ring := with_context now k g (tx_ring a)\<rparr>)"
  by (simp add: put_context_def with_context_def ring_next_mod Let_def)

lemma ctx_step_none: "next_to_use r = k mod ring_count r \<Longrightarrow> ctx_step r k [] r"
  by (simp add: ctx_step_def)

lemma ctx_step_one:
  assumes "ring_wf r" "buf_skb (buf_at r k) = None"
  shows "ctx_step r k [(buf_at r k)\<lparr>time_stamp := now, next_to_watch := k mod ring_count r\<rparr>] (with_context now k g r)"
  using assms by (auto simp: ctx_step_def with_context_def ring_wf_def Let_def upd_desc_def upd_buffer_def nth_list_update)

text \<open>What the ring holds after the hand-over.\<close>

lemma queued_appends:
  assumes rel: "tx_rel r fs" and ctx: "ctx_step r (next_to_clean r + frames_size fs) cs r1"
    and ds: "length ds = length ps" "ps \<noteq> []" and room: "frames_size fs + length cs + length ps < ring_count r"
    and f: "f = mk_frame (ring_count r) (next_to_clean r + frames_size fs) s
      (cs @ tx_bufs now (ring_count r) (next_to_clean r + frames_size fs + length cs) ps ds)"
    and r2: "r2 = queued fl cmd (length ps) (next_to_clean r + frames_size fs + length cs)
      (r1\<lparr>buffer_info := bplace (ring_count r) (next_to_clean r + frames_size fs) f (buffer_info r)\<rparr>)"
  shows "tx_rel r2 (fs @ [f])" "\<not> frame_done r2 (next_to_clean r + frames_size fs) f"
proof -
  let ?c = "ring_count r" and ?k = "next_to_clean r + frames_size fs"
  let ?k1 = "?k + length cs" and ?bs = "cs @ tx_bufs now (ring_count r) (next_to_clean r + frames_size fs + length cs) ps ds"
  have from_r: "ring_from r (next_to_clean r) fs" and wf: "ring_wf r"
    using rel by (simp_all add: tx_rel_def ring_from_def)
  have lf: "length f = length cs + length ps" using ds by (simp add: f)
  have c: "0 < ?c" "length (buffer_info r) = ?c" "length (ring_desc r1) = ?c" "ring_count r1 = ?c"
    using wf ctx by (simp_all add: ring_wf_def ctx_step_def)
  have r2s: "ring_count r2 = ?c" "next_to_clean r2 = next_to_clean r" "next_to_use r2 = (?k1 + length ps) mod ?c"
      "buffer_info r2 = bplace ?c ?k f (buffer_info r)"
    using ctx by (simp_all add: r2 queued_def Let_def ctx_step_def)
  define e where "e = (?k1 + length ps - 1) mod ?c"
  define dd where "dd = dfill ?c (txd_lower_of fl) (txd_upper_of fl) (buffer_info r2) (length ps) ?k1 (ring_desc r1)"
  have desc: "ring_desc r2 = dd[e := (dd ! e)\<lparr>tx_lower := tx_lower (dd ! e) OR cmd\<rparr>]"
    by (simp add: r2 queued_def Let_def c dd_def e_def)
  have up: "tx_upper (ring_desc r2 ! m) = tx_upper (dd ! m)" if "m < ?c" for m
    using that by (cases "e = m") (simp_all add: desc, simp add: dd_def c)
  have out: "buffer_info r2 ! (j mod ?c) = buf_at r j \<and> tx_upper (ring_desc r2 ! (j mod ?c)) = tx_upper (desc_at r j)"
    if "\<forall>i\<in>{?k..<?k + length f}. j mod ?c \<noteq> i mod ?c" for j
  proof
    show "buffer_info r2 ! (j mod ?c) = buf_at r j" using bplace_out[OF c(2) that] by (simp add: r2s)
    have "\<forall>i\<in>{?k1..<?k1 + length ps}. j mod ?c \<noteq> i mod ?c" "\<forall>i\<in>{?k..<?k + length cs}. j mod ?c \<noteq> i mod ?c"
      using that lf by auto
    then have "dd ! (j mod ?c) = ring_desc r1 ! (j mod ?c)" "ring_desc r1 ! (j mod ?c) = desc_at r j"
      using ctx dfill_out by (auto simp: dd_def ctx_step_def)
    then show "tx_upper (ring_desc r2 ! (j mod ?c)) = tx_upper (desc_at r j)" using up c(1) by simp
  qed
  have bufs: "\<forall>b\<in>set ?bs. buf_skb b = None \<and> next_to_watch b < ?c"
    using ctx ds c(1) by (auto simp: ctx_step_def in_set_conv_nth tx_bufs_nth tx_buf_def)
  have ok: "frame_ok ?c ?k f" unfolding f using bufs ds c(1) by (intro mk_frame_ok) (cases ps; cases ds; auto)
  have at: "map (buf_at r2) [?k..<?k + length f] = f"
    using lf room bplace_at[OF c(2), of _ f ?k] by (intro nth_equalityI) (auto simp: r2s)
  have "ring_from r2 (next_to_clean r) (fs @ [f])"
  proof (rule ring_from_append[OF from_r])
    show "ring_wf r2" using wf c by (simp add: ring_wf_def r2s desc dd_def)
    show "buf_at r2 (next_to_clean r + j) = buf_at r (next_to_clean r + j) \<and>
        tx_upper (desc_at r2 (next_to_clean r + j)) = tx_upper (desc_at r (next_to_clean r + j))"
      if "j < frames_size fs \<or> frames_size fs + length f \<le> j" "j < ?c" for j
      unfolding r2s(1)
    proof (rule out, intro ballI)
      fix i assume "i \<in> {?k..<?k + length f}"
      then show "(next_to_clean r + j) mod ?c \<noteq> i mod ?c"
        using that mod_eq_window[of "next_to_clean r + j" ?c i] lf room by auto
    qed
  qed (use lf room ok at in \<open>simp_all add: r2s add.assoc\<close>)
  then show "tx_rel r2 (fs @ [f])" by (simp add: tx_rel_def r2s)
  have pos: "length ps - 1 < length ps" using ds(2) by simp
  have "dd ! ((?k1 + (length ps - 1)) mod ?c) = data_desc (txd_lower_of fl) (txd_upper_of fl)
      (buffer_info r2 ! ((?k1 + (length ps - 1)) mod ?c)) (ring_desc r1 ! ((?k1 + (length ps - 1)) mod ?c))"
    unfolding dd_def using room by (intro dfill_at c pos) simp
  then have "tx_upper (ring_desc r2 ! ((?k1 + (length ps - 1)) mod ?c)) = txd_upper_of fl"
    using up c(1) by (simp add: data_desc_def)
  moreover have "?k + length f - 1 = ?k1 + (length ps - 1)" using lf ds(2) by (cases ps) simp_all
  moreover have "txd_upper_of fl AND 1 = 0"
  proof -
    have "\<not> bit (txd_upper_of fl) 0" by (simp add: txd_upper_of_def bit_or_iff bit_and_iff bit_0 even_or_iff even_and_iff)
    then show ?thesis using and_exp_eq_0_iff_not_bit[of "txd_upper_of fl" 0] by simp
  qed
  ultimately show "\<not> frame_done r2 ?k f" by (simp add: frame_done_def r2s)
qed

section \<open>The transmit entry point\<close>

text \<open>The frame as the chip gets it.\<close>

definition sent_skb :: "kernel \<Rightarrow> sk_buff \<Rightarrow> sk_buff" where
  "sent_skb K s = (if gso_size s \<noteq> 0 then tso_headers K s else s)"

lemma poke16_keep [simp]:
  "length (linear (poke16 off v s)) = length (linear s)" "frags (poke16 off v s) = frags s"
  "gso_size (poke16 off v s) = gso_size s"
  by (simp_all add: poke16_def)

lemma sent_skb_keep:
  "length (linear (sent_skb K s)) = length (linear s)" "frags (sent_skb K s) = frags s"
  "gso_size (sent_skb K s) = gso_size s"
  by (simp_all add: sent_skb_def tso_headers_def Let_def)

lemma sent_pieces: "frame_pieces m (sent_skb K s) = frame_pieces m s" "max_per_txd_of (sent_skb K s) = max_per_txd_of s"
  by (simp_all add: frame_pieces_def max_per_txd_of_def skb_headlen_def sent_skb_keep)

lemma tso_run:
  assumes "gso_size s \<noteq> 0" "expand_head K (klog a) s = 0" "next_to_use (tx_ring a) = k mod ring_count (tx_ring a)"
  shows "\<exists>g. run_state (e1000_tso K now s) a = ((1, tso_headers K s), a\<lparr>tx_ring := with_context now k g (tx_ring a)\<rparr>)"
  using assms by (auto simp: e1000_tso_def Let_def put_context_run)

lemma csum_run:
  assumes "summed s = CHECKSUM_PARTIAL" "next_to_use (tx_ring a) = k mod ring_count (tx_ring a)"
  shows "\<exists>g. run_state (e1000_tx_csum now s) a = (True, a\<lparr>tx_ring := with_context now k g (tx_ring a)\<rparr>)"
  using assms by (auto simp: e1000_tx_csum_def Let_def put_context_run)

text \<open>Number of slots of the offload context.\<close>

definition ctx_slots :: "sk_buff \<Rightarrow> nat" where
  "ctx_slots s = (if gso_size s \<noteq> 0 \<or> summed s = CHECKSUM_PARTIAL then 1 else 0)"

definition handed_over :: "u32 \<Rightarrow> sk_buff \<Rightarrow> nat \<Rightarrow> u32 \<Rightarrow> e1000_buffer list \<Rightarrow> e1000_tx_desc e1000_ring \<Rightarrow>
    (dma_src \<times> nat) list \<Rightarrow> u64 list \<Rightarrow> e1000_adapter \<Rightarrow> e1000_adapter" where
  "handed_over now s k fl cs r1 ps ds a = (let r = tx_ring a; k1 = k + length cs;
       f = mk_frame (ring_count r) k s (cs @ tx_bufs now (ring_count r) k1 ps ds) in
     a\<lparr>klog := map_evs ps ds @ klog a,
       tx_ring := queued fl (txd_cmd a) (length ps) k1 (r1\<lparr>buffer_info := bplace (ring_count r) k f (buffer_info r)\<rparr>),
       hw := (hw a)\<lparr>rhist := Wr (ring_tail r) (of_nat ((k1 + length ps) mod ring_count r)) # rhist (hw a)\<rparr>\<rparr>)"

lemma map_and_queue_run:
  assumes "\<And>d. \<not> dma_error K d" "tx_rel r fs" and k: "k = next_to_clean r + frames_size fs"
    and ctx: "ctx_step r k cs r1" and a: "tx_ring a = r"
    and ps: "ps = frame_pieces (max_per_txd_of s) s" "ps \<noteq> []" "frames_size fs + length cs + length ps < ring_count r"
  shows "\<exists>ds. length ds = length ps \<and>
    run_state (xmit_mapped K race now s (k mod ring_count r) fl) (a\<lparr>tx_ring := r1\<rparr>) =
    run_state (do { busy \<leftarrow> e1000_maybe_stop_tx race (MAX_SKB_FRAGS + 2); ret NETDEV_TX_OK })
      (handed_over now s k fl cs r1 ps ds a)"
proof -
  let ?c = "ring_count r" and ?a = "a\<lparr>tx_ring := r1\<rparr>"
  have wf: "ring_wf r" and free: "\<And>j. frames_size fs \<le> j \<Longrightarrow> j < ?c \<Longrightarrow> free_slot r (next_to_clean r + j)"
    using assms(2) by (simp_all add: tx_rel_def ring_from_def)
  have c1: "ring_count r1 = ?c" "ring_tail r1 = ring_tail r" "buffer_info r1 = bplace ?c k cs (buffer_info r)"
      "next_to_use r1 = (k + length cs) mod ?c" "ring_wf r1"
    using ctx wf by (simp_all add: ctx_step_def ring_wf_def)
  have len: "length (buffer_info r) = ?c" using wf by (simp add: ring_wf_def)
  have "buf_skb (buf_at r1 i) = None" if "i \<in> {k + length cs..<k + length cs + length ps}" for i
  proof -
    have "\<forall>j\<in>{k..<k + length cs}. i mod ?c \<noteq> j mod ?c"
      using that mod_eq_window[of i ?c] ps(3) by fastforce
    then have "buf_at r1 i = buf_at r i" using bplace_out[OF len] by (simp add: c1)
    moreover have "free_slot r (next_to_clean r + (i - next_to_clean r))"
      using that ps(3) unfolding k by (intro free) auto
    moreover have "next_to_clean r + (i - next_to_clean r) = i" using that k by simp
    ultimately show ?thesis by (simp add: free_slot_def)
  qed
  then have "room (tx_ring ?a) (k + length cs) (length ps)" using c1 ps(3) by (simp add: room_def)
  then obtain ds where ds: "length ds = length ps"
    and run: "run_state (e1000_tx_map K now s (k mod ?c) (max_per_txd_of s)) ?a =
      (Some (length ps), ?a\<lparr>klog := map_evs ps ds @ klog ?a, tx_ring := (tx_ring ?a)\<lparr>buffer_info :=
         bplace ?c k (mk_frame ?c k s (cs @ tx_bufs now ?c (k + length cs) ps ds)) (buffer_info r)\<rparr>\<rparr>)"
    using tx_map_run[OF assms(1) max_txd(2)[of s], where a = ?a and c = ?c and k = k and cs = cs and xs = "buffer_info r"
      and first = "k mod ?c" and ps = ps and s = s and now = now] c1 len ps
    by auto
  have "0 < length ps" using ps(2) by simp
  then show ?thesis
    using ds c1 a unfolding xmit_mapped_def by (intro exI[of _ ds], subst run_state_bind, subst run)
      (simp add: tx_queue_run[where k = "k + length cs"] handed_over_def Let_def)
qed

lemma xmit_reserved_run:
  assumes "\<And>d. \<not> dma_error K d" "\<And>h x. expand_head K h x = 0" "tx_rel (tx_ring a) fs"
    and k: "k = next_to_clean (tx_ring a) + frames_size fs"
    and ps: "ps = frame_pieces (max_per_txd_of s) s" "ps \<noteq> []"
      "frames_size fs + ctx_slots s + length ps < ring_count (tx_ring a)"
  shows "\<exists>fl cs r1 ds. length ds = length ps \<and> length cs = ctx_slots s \<and> ctx_step (tx_ring a) k cs r1 \<and>
    run_state (xmit_reserved K race now s) a = run_state
      (do { busy \<leftarrow> e1000_maybe_stop_tx race (MAX_SKB_FRAGS + 2); ret NETDEV_TX_OK })
      (handed_over now (sent_skb K s) k fl cs r1 ps ds a)"
proof -
  let ?r = "tx_ring a" and ?s = "sent_skb K s"
  let ?cs = "[(buf_at ?r k)\<lparr>time_stamp := now, next_to_watch := k mod ring_count ?r\<rparr>]"
  have use: "next_to_use ?r = k mod ring_count ?r" and wf: "ring_wf ?r" and free: "free_slot ?r k"
    using assms(3) ps(3) k by (auto simp: tx_rel_def ring_from_def)
  have one: "ctx_step ?r k ?cs (with_context now k g ?r)" for g
    using ctx_step_one[OF wf] free by (simp add: free_slot_def)
  have same: "a\<lparr>tx_ring := ?r\<rparr> = a" by simp
  let ?M = "do { busy \<leftarrow> e1000_maybe_stop_tx race (MAX_SKB_FRAGS + 2); ret NETDEV_TX_OK }"
  have step: "\<exists>ds. length ds = length ps \<and>
      run_state (xmit_mapped K race now ?s (k mod ring_count ?r) fl) (a\<lparr>tx_ring := r1\<rparr>) =
      run_state ?M (handed_over now ?s k fl cs r1 ps ds a)"
    if "ctx_step ?r k cs r1" "length cs = ctx_slots s" for cs r1 fl
    using map_and_queue_run[OF assms(1,3) k that(1) refl, where ps = ps and s = ?s and now = now and race = race and fl = fl] ps that(2) by (simp add: sent_pieces)
  let ?fl = "\<lambda>tso csum. tx_flags_of (vlgrp a \<noteq> None) tso csum ?s"
  consider (tso) "gso_size s \<noteq> 0" | (csum) "gso_size s = 0" "summed s = CHECKSUM_PARTIAL"
    | (plain) "gso_size s = 0" "summed s \<noteq> CHECKSUM_PARTIAL" by blast
  then show ?thesis
  proof cases
    case tso
    then obtain g where g: "run_state (e1000_tso K now s) a = ((1, ?s), a\<lparr>tx_ring := with_context now k g ?r\<rparr>)"
      using tso_run[OF tso assms(2) use] by (auto simp: sent_skb_def)
    then have "run_state (xmit_reserved K race now s) a =
        run_state (xmit_mapped K race now ?s (k mod ring_count ?r) (?fl True False)) (a\<lparr>tx_ring := with_context now k g ?r\<rparr>)"
      by (simp add: xmit_reserved_def use)
    moreover note step[OF one[of g], of "?fl True False"]
    ultimately obtain ds where "length ds = length ps" "run_state (xmit_reserved K race now s) a =
        run_state ?M (handed_over now ?s k (?fl True False) ?cs (with_context now k g ?r) ps ds a)"
      using tso by (auto simp: ctx_slots_def)
    with one[of g] tso show ?thesis by (intro exI conjI) (auto simp: ctx_slots_def)
  next
    case csum
    then obtain g where g: "run_state (e1000_tx_csum now s) a = (True, a\<lparr>tx_ring := with_context now k g ?r\<rparr>)"
      using csum_run[OF csum(2) use] by blast
    have e: "?s = s" "run_state (e1000_tso K now s) a = ((0, s), a)" using csum by (simp_all add: sent_skb_def e1000_tso_def)
    then have "run_state (xmit_reserved K race now s) a =
        run_state (xmit_mapped K race now ?s (k mod ring_count ?r) (?fl False True)) (a\<lparr>tx_ring := with_context now k g ?r\<rparr>)"
      using g by (simp add: xmit_reserved_def use)
    moreover note step[OF one[of g], of "?fl False True"]
    ultimately obtain ds where "length ds = length ps" "run_state (xmit_reserved K race now s) a =
        run_state ?M (handed_over now ?s k (?fl False True) ?cs (with_context now k g ?r) ps ds a)"
      using csum by (auto simp: ctx_slots_def)
    with one[of g] csum show ?thesis by (intro exI conjI) (auto simp: ctx_slots_def)
  next
    case plain
    have e: "?s = s" "run_state (e1000_tso K now s) a = ((0, s), a)" "run_state (e1000_tx_csum now s) a = (False, a)"
      using plain by (simp_all add: sent_skb_def e1000_tso_def e1000_tx_csum_def)
    then have "run_state (xmit_reserved K race now s) a =
        run_state (xmit_mapped K race now ?s (k mod ring_count ?r) (?fl False False)) (a\<lparr>tx_ring := ?r\<rparr>)"
      by (simp add: xmit_reserved_def use)
    moreover note step[OF ctx_step_none[OF use], of "?fl False False"]
    ultimately obtain ds where "length ds = length ps" "run_state (xmit_reserved K race now s) a =
        run_state ?M (handed_over now ?s k (?fl False False) [] ?r ps ds a)"
      using plain by (auto simp: ctx_slots_def)
    with ctx_step_none[OF use] plain show ?thesis by (intro exI conjI) (auto simp: ctx_slots_def)
  qed
qed

text \<open>What the chip reads: the addresses and lengths in the descriptors of \<open>n\<close> slots.\<close>

definition chip_data :: "e1000_tx_desc e1000_ring \<Rightarrow> nat \<Rightarrow> nat \<Rightarrow> (u64 \<times> nat) list" where
  "chip_data r k n = map (\<lambda>j. (tx_addr (desc_at r j), unat (tx_lower (desc_at r j) AND 0xFFFFF))) [k..<k + n]"

lemma unat_ucast_u16: "unat (ucast (n :: u16) :: u32) = unat n"
proof -
  have "unat n < 2 ^ 32" by (rule less_trans[OF unsigned_less]) simp
  then show ?thesis by (simp add: unsigned_ucast_eq take_bit_nat_eq_self)
qed

lemma txd_lower_length: "cmd AND 0xFFFFF = 0 \<Longrightarrow> ((txd_lower_of fl OR ucast (n :: u16)) OR cmd) AND 0xFFFFF = ucast n"
  "(txd_lower_of fl OR ucast (n :: u16)) AND 0xFFFFF = ucast n"
proof -
  have n: "(ucast n :: u32) AND 0xFFFFF = ucast n"
  proof -
    have "unat (ucast n :: u32) < 2 ^ 20" using unsigned_less[of n, where ?'a = nat] by (simp add: unat_ucast_u16)
    moreover have "(0xFFFFF :: u32) = mask 20" by (simp add: mask_eq_exp_minus_1)
    ultimately show ?thesis using and_mask_small by metis
  qed
  have fl: "txd_lower_of fl AND 0xFFFFF = 0"
    by (simp add: txd_lower_of_def E1000_TXD_CMD_DEXT_def E1000_TXD_CMD_TSE_def)
  show "(txd_lower_of fl OR ucast n) AND 0xFFFFF = ucast n" by (simp add: bit.conj_disj_distrib2 n fl)
  show "((txd_lower_of fl OR ucast n) OR cmd) AND 0xFFFFF = ucast n" if "cmd AND 0xFFFFF = 0"
    using that by (simp add: bit.conj_disj_distrib2 n fl)
qed

lemma queued_data:
  assumes "ring_wf r" "n \<le> ring_count r" "cmd AND 0xFFFFF = 0"
  shows "chip_data (queued fl cmd n k r) k n = map (\<lambda>j. (buf_dma (buf_at r j), unat (buf_length (buf_at r j)))) [k..<k + n]"
proof -
  let ?c = "ring_count r"
  let ?d = "dfill ?c (txd_lower_of fl) (txd_upper_of fl) (buffer_info r) n k (ring_desc r)" and ?e = "(k + n - 1) mod ?c"
  have len: "length (ring_desc r) = ?c" and c: "0 < ?c" using assms(1) by (simp_all add: ring_wf_def)
  have "tx_addr (desc_at (queued fl cmd n k r) j) = buf_dma (buf_at r j) \<and>
      tx_lower (desc_at (queued fl cmd n k r) j) AND 0xFFFFF = ucast (buf_length (buf_at r j))" if "j \<in> {k..<k + n}" for j
  proof -
    have d: "?d ! (j mod ?c) = data_desc (txd_lower_of fl) (txd_upper_of fl) (buf_at r j) (desc_at r j)"
    proof -
      have "j - k < n" "k + (j - k) = j" using that by auto
      then show ?thesis using dfill_at[OF len, of "j - k" n, where k = k] assms(2) by simp
    qed
    show ?thesis
    proof (cases "?e = j mod ?c")
      case True
      then show ?thesis using d c len assms(3)
        by (simp add: queued_def Let_def data_desc_def txd_lower_length)
    next
      case False
      then show ?thesis using d by (simp add: queued_def Let_def data_desc_def txd_lower_length)
    qed
  qed
  then show ?thesis unfolding chip_data_def
    by (intro map_cong) (auto simp: queued_def Let_def unat_ucast_u16)
qed

lemma maybe_stop_skip:
  "\<exists>stop. run_state (e1000_maybe_stop_tx skip n) a = (e1000_desc_unused (tx_ring a) < int n,
     if e1000_desc_unused (tx_ring a) < int n then a\<lparr>queue_stopped := True, klog := Stop_queue # klog a\<rparr> else a)"
  by (auto simp: e1000_maybe_stop_tx_def maybe_stop_tx_slow_def stop_queue_def)

lemma transfer_dhcp_hw: "\<exists>h. exec (e1000_transfer_dhcp_info E s) a = a\<lparr>hw := h\<rparr>"
proof -
  have same: "a = a\<lparr>hw := hw a\<rparr>" by simp
  show ?thesis
    unfolding e1000_transfer_dhcp_info_def
    by (auto simp: hw_op_def Let_def split: option.splits prod.splits intro: exI[of _ "hw a"])
qed

end
