(* ===== verification/TxProps.thy ===== *)
theory TxProps
  imports TxSend
begin

text \<open>
  The transmit path as a whole: a frame is appended to the queue that the ring implements, the
  reclaim takes sent frames off its head, and what happens when a mapping fails or a frame
  needs more descriptors than there are.
\<close>

section \<open>Sent and reclaimed\<close>

text \<open>The log without the events that only steer the queue.\<close>

definition mem_evs :: "kev list \<Rightarrow> kev list" where
  "mem_evs h = filter (\<lambda>e. e \<notin> {Stop_queue, Start_queue, Wake_queue}) h"

lemma mem_evs_simps [simp]:
  "mem_evs (Stop_queue # h) = mem_evs h" "mem_evs (Start_queue # h) = mem_evs h"
  "mem_evs (Wake_queue # h) = mem_evs h" "mem_evs (g @ h) = mem_evs g @ mem_evs h"
  by (simp_all add: mem_evs_def)

lemma mem_evs_own [simp]: "mem_evs (map_evs ps ds) = map_evs ps ds" "mem_evs (frames_evs fs) = frames_evs fs"
proof -
  show "mem_evs (map_evs ps ds) = map_evs ps ds"
    by (auto simp: mem_evs_def map_evs_def filter_id_conv)
  show "mem_evs (frames_evs fs) = frames_evs fs"
    by (auto simp: mem_evs_def frames_evs_def frame_evs_def put_evs_def filter_id_conv split: option.splits if_splits)
qed

lemma handed_over_data:
  assumes "tx_rel (tx_ring a) fs" "k = next_to_clean (tx_ring a) + frames_size fs"
    and ctx: "ctx_step (tx_ring a) k cs r1" and ds: "length ds = length ps" "ps \<noteq> []"
    and room: "frames_size fs + length cs + length ps < ring_count (tx_ring a)"
    and cmd: "txd_cmd a AND 0xFFFFF = 0" and small: "\<forall>p\<in>set ps. snd p < 2 ^ 16"
  shows "chip_data (tx_ring (handed_over now s k fl cs r1 ps ds a)) (k + length cs) (length ps) = zip ds (map snd ps)"
proof -
  let ?r = "tx_ring a" and ?c = "ring_count (tx_ring a)" and ?k1 = "k + length cs"
  let ?bs = "cs @ tx_bufs now ?c ?k1 ps ds"
  let ?f = "mk_frame ?c k s ?bs"
  let ?r2 = "r1\<lparr>buffer_info := bplace ?c k ?f (buffer_info ?r)\<rparr>"
  have wf: "ring_wf ?r" using assms(1) by (simp add: tx_rel_def ring_from_def)
  then have len: "length (buffer_info ?r) = ?c" and c1: "ring_count r1 = ?c" and wf2: "ring_wf ?r2"
    using ctx by (auto simp: ring_wf_def ctx_step_def)
  have at: "buf_at ?r2 (?k1 + j) = ?f ! (length cs + j)" if "j < length ps" for j
    using bplace_at[OF len, of "length cs + j" ?f k] that ds room by (simp add: c1 add.assoc)
  have "chip_data (queued fl (txd_cmd a) (length ps) ?k1 ?r2) ?k1 (length ps) =
      map (\<lambda>j. (buf_dma (buf_at ?r2 j), unat (buf_length (buf_at ?r2 j)))) [?k1..<?k1 + length ps]"
    using room c1 by (intro queued_data[OF wf2]) (simp_all add: cmd)
  also have "\<dots> = zip ds (map snd ps)"
  proof (rule nth_equalityI)
    fix j assume "j < length (map (\<lambda>j. (buf_dma (buf_at ?r2 j), unat (buf_length (buf_at ?r2 j)))) [?k1..<?k1 + length ps])"
    then have j: "j < length ps" by simp
    then have "snd (ps ! j) < 2 ^ 16" using small nth_mem by blast
    with j ds at[OF j] mk_frame_nth[of "length cs + j" ?bs ?c k s] show "map (\<lambda>j. (buf_dma (buf_at ?r2 j),
        unat (buf_length (buf_at ?r2 j)))) [?k1..<?k1 + length ps] ! j = zip ds (map snd ps) ! j"
      by (simp add: nth_append tx_bufs_nth tx_buf_def unat_of_nat take_bit_nat_eq_self del: upt_Suc)
  qed (simp add: ds)
  finally show ?thesis by (simp add: handed_over_def Let_def)
qed

lemma handed_over_rel:
  assumes rel: "tx_rel (tx_ring a) fs" and k: "k = next_to_clean (tx_ring a) + frames_size fs"
    and ctx: "ctx_step (tx_ring a) k cs r1" and ds: "length ds = length ps" "ps \<noteq> []"
    and room: "frames_size fs + length cs + length ps < ring_count (tx_ring a)"
    and b: "b = handed_over now s k fl cs r1 ps ds a"
  shows "\<exists>f. tx_rel (tx_ring b) (fs @ [f]) \<and> frame_skb f = s \<and> length f = length cs + length ps \<and>
    \<not> frame_done (tx_ring b) k f"
proof -
  let ?f = "mk_frame (ring_count (tx_ring a)) k s (cs @ tx_bufs now (ring_count (tx_ring a)) (k + length cs) ps ds)"
  have "tx_rel (tx_ring b) (fs @ [?f])" "\<not> frame_done (tx_ring b) k ?f"
    using queued_appends[OF rel ctx[unfolded k] ds room refl refl, of fl "txd_cmd a" s now]
    by (simp_all add: b handed_over_def Let_def k)
  moreover have "cs @ tx_bufs now (ring_count (tx_ring a)) (k + length cs) ps ds \<noteq> []"
    using ds by (cases ps; cases ds; auto)
  ultimately show ?thesis using ds by (intro exI[of _ ?f]) (simp add: frame_skb_def mk_frame_skb)
qed

text \<open>The calls of the kernel that may fail succeed.\<close>

definition kernel_ok :: "kernel \<Rightarrow> bool" where
  "kernel_ok K \<longleftrightarrow> (\<forall>d. \<not> dma_error K d) \<and> (\<forall>h x. expand_head K h x = 0)"

lemma frame_pieces_ne: "0 < skb_len s \<Longrightarrow> frame_pieces (max_per_txd_of s) s \<noteq> []"
  using frame_pieces_sum[OF max_txd(2)[of s], of s] by (metis list.simps(8) sum_list.Nil less_irrefl)

lemma frame_pieces_small: "p \<in> set (frame_pieces (max_per_txd_of s) s) \<Longrightarrow> 0 < snd p \<and> snd p \<le> max_per_txd_of s"
  by (auto simp: frame_pieces_def dest: pieces_size)

lemma xmit_run:
  assumes "\<not> is_down a" "0 < skb_len skb" "tx_pull K skb = Some s"
    and "int (tx_count s + 2) \<le> e1000_desc_unused (tx_ring a)"
  shows "\<exists>h. run_state (e1000_xmit_frame E K race now skb) a = run_state (xmit_reserved K race now s) (a\<lparr>hw := h\<rparr>)"
proof (cases "tx_pkt_filtering (mac (hw a))")
  case True
  obtain h r where "run_state (e1000_transfer_dhcp_info E s) a = (r, a\<lparr>hw := h\<rparr>)"
    using transfer_dhcp_hw[of E s a] by (metis prod.collapse)
  with True assms show ?thesis
    by (intro exI[of _ h]) (simp add: e1000_xmit_frame_def e1000_maybe_stop_tx_def)
next
  case False
  have "a = a\<lparr>hw := hw a\<rparr>" by simp
  with False assms show ?thesis
    by (intro exI[of _ "hw a"]) (simp add: e1000_xmit_frame_def e1000_maybe_stop_tx_def)
qed

text \<open>
  C1: the transmit entry point appends the frame to the queue of the ring.  When the interface
  is up, the frame is not empty, the kernel does not fail and the ring has room for the estimate
  and two descriptors, the frame is accepted; the ring then holds one more frame, not marked
  done, whose data descriptors give the chip exactly the pieces of the frame, in order, at the
  addresses the kernel mapped them to; two descriptors stay free, and the last register write
  moves the tail behind the frame.
\<close>

theorem xmit_appends:
  assumes "tx_rel (tx_ring a) fs" "kernel_ok K" "txd_cmd a AND 0xFFFFF = 0"
    and "\<not> is_down a" "0 < skb_len skb" "tx_pull K skb = Some s" "0 < skb_len s"
    and "int (tx_count s + 2) \<le> e1000_desc_unused (tx_ring a)"
  shows "\<exists>f ds. let (r, b) = run_state (e1000_xmit_frame E K skip now skb) a;
      k = next_to_clean (tx_ring a) + frames_size fs; ps = frame_pieces (max_per_txd_of s) s in
    r = NETDEV_TX_OK \<and> tx_rel (tx_ring b) (fs @ [f]) \<and> frame_skb f = sent_skb K s \<and> \<not> frame_done (tx_ring b) k f \<and>
    length ds = length ps \<and> chip_data (tx_ring b) (k + ctx_slots s) (length ps) = zip ds (map snd ps) \<and>
    mem_evs (klog b) = map_evs ps ds @ mem_evs (klog a) \<and> 2 \<le> e1000_desc_unused (tx_ring b) \<and>
    hd (rhist (hw b)) = Wr (ring_tail (tx_ring a)) (of_nat (next_to_use (tx_ring b)))"
proof -
  let ?r = "tx_ring a" and ?k = "next_to_clean (tx_ring a) + frames_size fs"
  let ?ps = "frame_pieces (max_per_txd_of s) s"
  obtain h where run: "run_state (e1000_xmit_frame E K skip now skb) a = run_state (xmit_reserved K skip now s) (a\<lparr>hw := h\<rparr>)"
    using xmit_run[OF assms(4-6,8)] by blast
  have ne: "?ps \<noteq> []" using frame_pieces_ne[OF assms(7)] .
  have size: "frames_size fs + ctx_slots s + length ?ps + 3 < ring_count ?r"
    using tx_count_covers[of s] assms(8) tx_rel_unused[OF assms(1)] by (auto simp: ctx_slots_def split: if_splits)
  obtain fl cs r1 ds where ds: "length ds = length ?ps" "length cs = ctx_slots s" and ctx: "ctx_step ?r ?k cs r1"
    and res: "run_state (xmit_reserved K skip now s) (a\<lparr>hw := h\<rparr>) = run_state
      (do { busy \<leftarrow> e1000_maybe_stop_tx skip (MAX_SKB_FRAGS + 2); ret NETDEV_TX_OK })
      (handed_over now (sent_skb K s) ?k fl cs r1 ?ps ds (a\<lparr>hw := h\<rparr>))"
    using xmit_reserved_run[where a = "a\<lparr>hw := h\<rparr>" and K = K and fs = fs and s = s and k = ?k and race = skip and now = now]
      assms(1,2) ne size by (auto simp: kernel_ok_def)
  let ?b = "handed_over now (sent_skb K s) ?k fl cs r1 ?ps ds (a\<lparr>hw := h\<rparr>)"
  obtain f where f: "tx_rel (tx_ring ?b) (fs @ [f])" "frame_skb f = sent_skb K s"
      "length f = length cs + length ?ps" "\<not> frame_done (tx_ring ?b) ?k f"
    using handed_over_rel[OF _ _ _ ds(1) ne _ refl, of "a\<lparr>hw := h\<rparr>" fs ?k cs r1 now "sent_skb K s" fl] assms(1) ctx ds size by auto
  have "2 \<le> e1000_desc_unused (tx_ring ?b)"
    using tx_rel_unused[OF f(1)] f(3) size ds ctx by (simp add: handed_over_def queued_def Let_def ctx_step_def)
  moreover have "\<forall>p\<in>set ?ps. snd p < 2 ^ 16"
    using frame_pieces_small max_txd(3)[of s] by fastforce
  then have "chip_data (tx_ring ?b) (?k + ctx_slots s) (length ?ps) = zip ds (map snd ?ps)"
    using handed_over_data[of "a\<lparr>hw := h\<rparr>" fs ?k cs r1 ds ?ps now "sent_skb K s" fl] assms(1,3) ctx ds ne size by simp
  moreover have "hd (rhist (hw ?b)) = Wr (ring_tail ?r) (of_nat (next_to_use (tx_ring ?b)))"
    using ctx by (simp add: handed_over_def queued_def Let_def ctx_step_def)
  moreover have "mem_evs (klog ?b) = map_evs ?ps ds @ mem_evs (klog a)" by (simp add: handed_over_def Let_def)
  moreover obtain q where "run_state (do { busy \<leftarrow> e1000_maybe_stop_tx skip (MAX_SKB_FRAGS + 2); ret NETDEV_TX_OK }) ?b =
      (NETDEV_TX_OK, if q then ?b\<lparr>queue_stopped := True, klog := Stop_queue # klog ?b\<rparr> else ?b)"
    using maybe_stop_skip[of "MAX_SKB_FRAGS + 2" ?b] by auto
  ultimately show ?thesis using run res f ds(1) by (intro exI[of _ f] exI[of _ ds]) (simp add: Let_def)
qed

lemma frames_at_mod:
  "k mod ring_count r = k' mod ring_count r \<Longrightarrow> frames_at r k fs = frames_at r k' fs"
proof (induction fs arbitrary: k k')
  case (Cons f fs)
  have e: "(k + j) mod ring_count r = (k' + j) mod ring_count r" for j
    using Cons.prems by (metis mod_add_left_eq)
  have "map (buf_at r) [k..<k + length f] = map (buf_at r) [k'..<k' + length f]"
    by (rule nth_equalityI) (simp_all add: e)
  moreover have "frame_ok (ring_count r) k f = frame_ok (ring_count r) k' f"
    using e[of "length f - 1"] by (cases f) (auto simp: frame_ok_def)
  ultimately show ?case using Cons.IH[OF e] by (simp del: map_eq_conv)
qed simp

lemma ring_from_clean:
  assumes "ring_from r k fs"
  shows "tx_rel (r\<lparr>next_to_clean := k mod ring_count r\<rparr>) fs"
proof -
  let ?r = "r\<lparr>next_to_clean := k mod ring_count r\<rparr>"
  have c: "0 < ring_count r" using assms by (simp add: ring_from_def ring_wf_def)
  have e: "(k mod ring_count r + j) mod ring_count r = (k + j) mod ring_count r" for j
    by (simp add: mod_add_left_eq)
  have "frames_at ?r (k mod ring_count r) fs = frames_at ?r k fs" by (rule frames_at_mod) simp
  moreover have "frames_at ?r k fs = frames_at r k fs" by (rule frames_at_cong) simp_all
  ultimately show ?thesis
    using assms c by (simp add: tx_rel_def ring_from_def ring_wf_def free_slot_def e)
qed

text \<open>The end of the reclaim steers the queue and touches nothing else but the chip.\<close>

definition only_queue :: "e1000_adapter \<Rightarrow> e1000_adapter \<Rightarrow> bool" where
  "only_queue a b \<longleftrightarrow> tx_ring b = tx_ring a \<and> mem_evs (klog b) = mem_evs (klog a) \<and>
     net_tx_packets b = net_tx_packets a \<and> net_tx_bytes b = net_tx_bytes a"

lemma only_queue_trans: "only_queue a b \<Longrightarrow> only_queue b c \<Longrightarrow> only_queue a c"
  by (simp add: only_queue_def)

lemma wake_tx_wp: "wp (wake_tx c) (\<lambda>_ b. only_queue a b) a"
  by (simp add: wake_tx_def start_queue_def only_queue_def)

lemma check_tx_hang_wp: "wp (check_tx_hang E K now eop) (\<lambda>_ b. only_queue a b) a"
  by (auto simp: check_tx_hang_def e1000_print_tx_hang_def stop_queue_def only_queue_def wp_hw_op intro!: wp_er32_any)

lemma clean_tx_run:
  assumes "tx_rel (tx_ring a) fs"
  shows "\<exists>p q complete eop. fs = p @ q \<and>
    (if complete then p = done_prefix (tx_ring a) (next_to_clean (tx_ring a)) fs
     else prefix p (done_prefix (tx_ring a) (next_to_clean (tx_ring a)) fs) \<and> ring_count (tx_ring a) \<le> frames_segs p) \<and>
    (\<exists>r. tx_rel r q \<and> ring_count r = ring_count (tx_ring a) \<and>
      run_state (e1000_clean_tx_irq E K now) a = run_state (do {
        wake_tx (p \<noteq> []);
        check_tx_hang E K now eop;
        modify (\<lambda>a. a\<lparr>total_tx_bytes := total_tx_bytes a + of_nat (frames_bytes p),
            total_tx_packets := total_tx_packets a + of_nat (frames_segs p),
            net_tx_bytes := net_tx_bytes a + of_nat (frames_bytes p),
            net_tx_packets := net_tx_packets a + of_nat (frames_segs p)\<rparr>);
        ret (Some complete) }) (a\<lparr>klog := frames_evs p @ klog a, tx_ring := r\<rparr>))"
proof -
  let ?r = "tx_ring a" and ?c = "ring_count (tx_ring a)" and ?k = "next_to_clean (tx_ring a)"
  have from_r: "ring_from ?r ?k fs" and k: "?k mod ?c = ?k" and c: "0 < ?c"
    using assms by (simp_all add: tx_rel_def ring_from_def ring_wf_def)
  have "length fs < ?c"
    using from_r frames_size_ge[of fs] frames_at_ne[of ?r ?k fs] by (auto simp: ring_from_def)
  note loop = clean_loop_run[OF from_r this c, of 0 False, unfolded k add_0 simp_thms]
  obtain p q eop limit where pq: "fs = p @ q"
    and run: "run_state (clean_tx_loop ?c ?k 0 0 False) a =
      (Some ((?k + frames_size p) mod ?c, eop, frames_segs p, frames_bytes p, p \<noteq> [], limit),
       a\<lparr>klog := frames_evs p @ klog a, tx_ring := wipes ?k (frames_size p) ?r\<rparr>)"
    and rest: "ring_from (wipes ?k (frames_size p) ?r) (?k + frames_size p) q"
    and lim: "if limit then ?c \<le> frames_segs p \<and> prefix p (done_prefix ?r ?k fs) else p = done_prefix ?r ?k fs"
    using loop by blast
  let ?w = "(wipes ?k (frames_size p) ?r)\<lparr>next_to_clean := (?k + frames_size p) mod ?c\<rparr>"
  have "tx_rel ?w q" using ring_from_clean[OF rest] by simp
  moreover have "if \<not> limit then p = done_prefix ?r ?k fs
      else prefix p (done_prefix ?r ?k fs) \<and> ?c \<le> frames_segs p" using lim by (cases limit) simp_all
  ultimately show ?thesis
    using pq run
    by (intro exI[of _ p] exI[of _ q] exI[of _ "\<not> limit"] exI[of _ eop] conjI exI[of _ ?w])
      (simp_all add: e1000_clean_tx_irq_def)
qed

text \<open>
  C2: the reclaim takes sent frames off the head of the queue of the ring.  It ends and never
  reads a missing socket buffer; the frames it takes are the longest prefix that the chip has
  marked done, or, when the limit of a poll is reached, a prefix of it with that many packets;
  of these frames every mapped buffer is unmapped and every socket buffer freed, once and in
  order; the rest stays queued and the statistics grow by the packets and bytes of what was taken.
\<close>

theorem tx_reclaims:
  assumes "tx_rel (tx_ring a) fs"
  shows "\<exists>p q complete. fs = p @ q \<and> (let (r, b) = run_state (e1000_clean_tx_irq E K now) a;
      sent = done_prefix (tx_ring a) (next_to_clean (tx_ring a)) fs in
    r = Some complete \<and> tx_rel (tx_ring b) q \<and> mem_evs (klog b) = frames_evs p @ mem_evs (klog a) \<and>
    net_tx_packets b = net_tx_packets a + of_nat (frames_segs p) \<and>
    net_tx_bytes b = net_tx_bytes a + of_nat (frames_bytes p) \<and>
    (if complete then p = sent else prefix p sent \<and> ring_count (tx_ring a) \<le> frames_segs p))"
proof -
  obtain p q complete eop r where pq: "fs = p @ q"
    and taken: "if complete then p = done_prefix (tx_ring a) (next_to_clean (tx_ring a)) fs
     else prefix p (done_prefix (tx_ring a) (next_to_clean (tx_ring a)) fs) \<and> ring_count (tx_ring a) \<le> frames_segs p"
    and r: "tx_rel r q"
    and run: "run_state (e1000_clean_tx_irq E K now) a = run_state (do {
        wake_tx (p \<noteq> []);
        check_tx_hang E K now eop;
        modify (\<lambda>a. a\<lparr>total_tx_bytes := total_tx_bytes a + of_nat (frames_bytes p),
            total_tx_packets := total_tx_packets a + of_nat (frames_segs p),
            net_tx_bytes := net_tx_bytes a + of_nat (frames_bytes p),
            net_tx_packets := net_tx_packets a + of_nat (frames_segs p)\<rparr>);
        ret (Some complete) }) (a\<lparr>klog := frames_evs p @ klog a, tx_ring := r\<rparr>)"
    using clean_tx_run[OF assms, of E K now] by blast
  let ?a = "a\<lparr>klog := frames_evs p @ klog a, tx_ring := r\<rparr>"
  let ?b = "exec (check_tx_hang E K now eop) (exec (wake_tx (p \<noteq> [])) ?a)"
  have same: "only_queue ?a ?b"
    using wake_tx_wp[of "p \<noteq> []" ?a] check_tx_hang_wp[of E K now eop "exec (wake_tx (p \<noteq> [])) ?a"]
    unfolding wp_iff by (rule only_queue_trans)
  let ?t = "?b\<lparr>total_tx_bytes := total_tx_bytes ?b + of_nat (frames_bytes p),
    total_tx_packets := total_tx_packets ?b + of_nat (frames_segs p),
    net_tx_bytes := net_tx_bytes ?b + of_nat (frames_bytes p),
    net_tx_packets := net_tx_packets ?b + of_nat (frames_segs p)\<rparr>"
  have "run_state (e1000_clean_tx_irq E K now) a = (Some complete, ?t)"
    unfolding run by (simp add: split_def)
  moreover have "tx_rel (tx_ring ?t) q" "mem_evs (klog ?t) = frames_evs p @ mem_evs (klog a)"
      "net_tx_packets ?t = net_tx_packets a + of_nat (frames_segs p)"
      "net_tx_bytes ?t = net_tx_bytes a + of_nat (frames_bytes p)"
    using same r by (simp_all add: only_queue_def)
  ultimately show ?thesis
    using pq taken unfolding Let_def by (intro exI[of _ p] exI[of _ q] exI[of _ complete]) (simp only: prod.case simp_thms)
qed

section \<open>Stopping and waking the queue\<close>

text \<open>
  C3: no wake-up is lost.  When all frames in the ring are marked done and fit one poll, the
  link is up and the ring has at least 33 descriptors, the reclaim empties the ring and leaves
  the queue running, however it was before.
\<close>

theorem tx_queue_wakes:
  assumes "tx_rel (tx_ring a) fs" "fs \<noteq> []" "done_prefix (tx_ring a) (next_to_clean (tx_ring a)) fs = fs"
    and "frames_segs fs < ring_count (tx_ring a)" "33 \<le> ring_count (tx_ring a)"
    and "carrier_ok a" "\<not> is_down a" "\<not> detect_tx_hung a"
  shows "let b = exec (e1000_clean_tx_irq E K now) a in tx_rel (tx_ring b) [] \<and> \<not> queue_stopped b"
proof -
  obtain p q complete eop r where pq: "fs = p @ q"
    and taken: "if complete then p = done_prefix (tx_ring a) (next_to_clean (tx_ring a)) fs
      else prefix p (done_prefix (tx_ring a) (next_to_clean (tx_ring a)) fs) \<and> ring_count (tx_ring a) \<le> frames_segs p"
    and r: "tx_rel r q" "ring_count r = ring_count (tx_ring a)"
    and run: "run_state (e1000_clean_tx_irq E K now) a = run_state (do {
        wake_tx (p \<noteq> []);
        check_tx_hang E K now eop;
        modify (\<lambda>a. a\<lparr>total_tx_bytes := total_tx_bytes a + of_nat (frames_bytes p),
            total_tx_packets := total_tx_packets a + of_nat (frames_segs p),
            net_tx_bytes := net_tx_bytes a + of_nat (frames_bytes p),
            net_tx_packets := net_tx_packets a + of_nat (frames_segs p)\<rparr>);
        ret (Some complete) }) (a\<lparr>klog := frames_evs p @ klog a, tx_ring := r\<rparr>)"
    using clean_tx_run[OF assms(1), of E K now] by blast
  have "frames_segs p \<le> frames_segs fs" by (simp add: pq frames_segs_def)
  then have complete using taken assms(4) by (metis le_less_trans less_irrefl less_le_trans)
  with taken assms(3) have "p = fs" by presburger
  with pq have "q = []" by simp
  have "TX_WAKE_THRESHOLD \<le> e1000_desc_unused r"
    using tx_rel_unused[OF r(1)] r(2) assms(5) \<open>q = []\<close> by (simp add: TX_WAKE_THRESHOLD_def)
  with \<open>p = fs\<close> have "wp (wake_tx (p \<noteq> [])) (\<lambda>_ b. tx_ring b = r \<and> \<not> queue_stopped b \<and> \<not> detect_tx_hung b)
      (a\<lparr>klog := frames_evs p @ klog a, tx_ring := r\<rparr>)"
    using assms(2,6-8) by (simp add: wake_tx_def start_queue_def)
  then have "tx_ring (exec (e1000_clean_tx_irq E K now) a) = r \<and> \<not> queue_stopped (exec (e1000_clean_tx_irq E K now) a)"
    unfolding run wp_iff by (simp add: check_tx_hang_def split_def)
  with r(1) \<open>q = []\<close> show ?thesis by simp
qed

text \<open>
  When the descriptor that the first slot names is not marked, the reclaim leaves the ring and
  does not wake the queue.
\<close>

lemma clean_tx_idle:
  assumes "0 < ring_count (tx_ring a)"
    and "tx_upper (ring_desc (tx_ring a) ! next_to_watch (buffer_info (tx_ring a) ! next_to_clean (tx_ring a))) AND 1 = 0"
  shows "tx_ring (exec (e1000_clean_tx_irq E K now) a) = tx_ring a"
    "queue_stopped a \<Longrightarrow> queue_stopped (exec (e1000_clean_tx_irq E K now) a)"
proof -
  let ?r = "tx_ring a"
  let ?e = "next_to_watch (buffer_info ?r ! next_to_clean ?r)"
  have same: "?r\<lparr>next_to_clean := next_to_clean ?r\<rparr> = ?r" by simp
  obtain n where n: "ring_count ?r = Suc n" using assms(1) by (cases "ring_count ?r") auto
  have loop: "run_state (clean_tx_loop (ring_count ?r) (next_to_clean ?r) 0 0 False) a =
      (Some (next_to_clean ?r, ?e, 0, 0, False, False), a)"
    using assms(2) unfolding n by simp
  then have run: "run_state (e1000_clean_tx_irq E K now) a = run_state (do {
      check_tx_hang E K now ?e;
      modify (\<lambda>a. a\<lparr>total_tx_bytes := total_tx_bytes a, total_tx_packets := total_tx_packets a,
          net_tx_bytes := net_tx_bytes a, net_tx_packets := net_tx_packets a\<rparr>);
      ret (Some True) }) a"
    by (simp add: e1000_clean_tx_irq_def wake_tx_def same ring_same)
  have hang: "wp (check_tx_hang E K now ?e) (\<lambda>_ b. tx_ring b = ?r \<and> (queue_stopped a \<longrightarrow> queue_stopped b)) a"
    by (auto simp: check_tx_hang_def e1000_print_tx_hang_def stop_queue_def wp_hw_op intro!: wp_er32_any)
  then show "tx_ring (exec (e1000_clean_tx_irq E K now) a) = ?r"
    "queue_stopped a \<Longrightarrow> queue_stopped (exec (e1000_clean_tx_irq E K now) a)"
    unfolding run wp_iff by (simp_all add: split_def)
qed


section \<open>A failed mapping\<close>

lemma tso_context_status: "tx_upper (tso_context s d) AND 1 = tx_upper d AND 1"
  by (simp add: tso_context_def Let_def and_one_eq mod_2_eq_odd even_or_iff even_and_iff)


section \<open>Concrete runs\<close>

definition ring64 :: "e1000_tx_desc e1000_ring" where
  "ring64 = ring_zero\<lparr>ring_desc := replicate 64 tx_desc_zero, ring_count := 64, ring_head := 0x3810,
     ring_tail := 0x3818, buffer_info := replicate 64 buffer_zero\<rparr>"

definition adapter0 :: e1000_adapter where
  "adapter0 = adapter_zero\<lparr>tx_ring := ring64, carrier_ok := True, tx_timeout_factor := 1, txd_cmd := 0x0B000000\<rparr>"

definition skb60 :: sk_buff where
  "skb60 = \<lparr>skb_id = 0, linear = replicate 60 0, frags = [], gso_size = 0, gso_segs = 0, gso_tcpv6 = False,
     protocol = 0x0800, summed = CHECKSUM_NONE, skb_csum = 0, csum_offset = 16, network_offset = 14,
     transport_offset = 34, header_cloned = False, vlan_tag = None\<rparr>"

definition buffer60 :: e1000_buffer where
  "buffer60 = \<lparr>buf_dma = 0x1000, buf_skb = Some skb60, time_stamp = 0, buf_length = 60, next_to_watch = 0\<rparr>"

text \<open>The ring with one frame, which the chip has sent.\<close>

definition adapter1 :: e1000_adapter where
  "adapter1 = adapter0\<lparr>queue_stopped := True, tx_ring := ring64\<lparr>next_to_use := 1,
     buffer_info := (replicate 64 buffer_zero)[0 := buffer60],
     ring_desc := (replicate 64 tx_desc_zero)[0 := tx_desc_zero\<lparr>tx_upper := 1\<rparr>]\<rparr>\<rparr>"

lemma adapter0_rel: "tx_rel (tx_ring adapter0) []" "e1000_desc_unused (tx_ring adapter0) = 63"
    "ring_count (tx_ring adapter0) = 64" "\<not> is_down adapter0" "txd_cmd adapter0 = 0x0B000000"
  by (simp_all add: adapter0_def adapter_zero_def ring64_def ring_zero_def tx_rel_def ring_from_def ring_wf_def free_slot_def
    buffer_zero_def tx_desc_zero_def e1000_desc_unused_def)

lemma adapter1_rel: "tx_rel (tx_ring adapter1) [[buffer60]]"
    "done_prefix (tx_ring adapter1) (next_to_clean (tx_ring adapter1)) [[buffer60]] = [[buffer60]]"
    "frames_segs [[buffer60]] = 1" "ring_count (tx_ring adapter1) = 64" "carrier_ok adapter1"
    "\<not> is_down adapter1" "\<not> detect_tx_hung adapter1"
  by (auto simp: adapter1_def adapter0_def adapter_zero_def ring64_def ring_zero_def tx_rel_def ring_from_def ring_wf_def free_slot_def
    frame_ok_def frame_done_def frames_segs_def buffer60_def skb60_def buffer_zero_def tx_desc_zero_def
    frame_skb_def wire_segs_def nth_Cons' nth_list_update)

lemma skb60_facts: "skb_len skb60 = 60" "tx_pull K skb60 = Some skb60" "tx_count skb60 = 2" "sent_skb K skb60 = skb60"
  by (simp_all add: skb60_def skb_len_def skb_headlen_def skb_data_len_def tx_pull_def tx_count_def
    max_txd_pwr_of_def TXD_USE_COUNT_def sent_skb_def)

lemma xmit_appends_witness:
  "\<exists>f. let (r, b) = run_state (e1000_xmit_frame (\<lambda>h q. 0) kernel0 skip 0 skb60) adapter0 in
    r = NETDEV_TX_OK \<and> tx_rel (tx_ring b) [f] \<and> frame_skb f = skb60"
  using xmit_appends[of adapter0 "[]" kernel0 skb60 skb60 "\<lambda>h q. 0" 0]
  by (auto simp: adapter0_rel skb60_facts kernel_ok_def kernel0_def Let_def)

lemma tx_reclaims_witness:
  "net_tx_packets (exec (e1000_clean_tx_irq (\<lambda>h q. 0) kernel0 0) adapter1) = net_tx_packets adapter1 + 1"
proof -
  obtain p q complete where f: "[[buffer60]] = p @ q"
      "if complete then p = [[buffer60]] else prefix p [[buffer60]] \<and> 64 \<le> frames_segs p"
      "net_tx_packets (exec (e1000_clean_tx_irq (\<lambda>h q. 0) kernel0 0) adapter1) =
        net_tx_packets adapter1 + of_nat (frames_segs p)"
    using tx_reclaims[OF adapter1_rel(1), of "\<lambda>h q. 0" kernel0 0]
    unfolding adapter1_rel(2,4) by (auto simp: split_def Let_def)
  moreover have "frames_segs ([] :: tx_frame list) = 0" by (simp add: frames_segs_def)
  moreover have "p = [] \<or> p = [[buffer60]]" using f(1) by (cases p) auto
  ultimately have "p = [[buffer60]]" using adapter1_rel(3) by (cases complete) auto
  then show ?thesis unfolding f(3) by (simp only: adapter1_rel(3) of_nat_1)
qed

lemma tx_queue_wakes_witness:
  "let b = exec (e1000_clean_tx_irq (\<lambda>h q. 0) kernel0 0) adapter1 in tx_rel (tx_ring b) [] \<and> \<not> queue_stopped b"
proof (rule tx_queue_wakes[OF adapter1_rel(1) _ adapter1_rel(2) _ _ adapter1_rel(5-7)])
  show "frames_segs [[buffer60]] < ring_count (tx_ring adapter1)" "33 \<le> ring_count (tx_ring adapter1)"
    unfolding adapter1_rel(3,4) by simp_all
qed simp



end
