(* ===== verification/NetRx.thy ===== *)
theory NetRx
  imports NetBase
begin

text \<open>
  Reception with one buffer for each frame, netdev.c: the refill of the ring, the reclaim of
  completed descriptors with the copy of short frames, the checksum result of the chip, and the
  release of all buffers.
\<close>

section \<open>Buffers\<close>

text \<open>An empty buffer as \<open>netdev_alloc_skb\<close> returns it.\<close>

definition rx_skb :: "nat \<Rightarrow> sk_buff" where
  "rx_skb n = \<lparr>skb_id = n, linear = [], frags = [], gso_size = 0, gso_segs = 0, gso_tcpv6 = False,
     protocol = 0, summed = CHECKSUM_NONE, skb_csum = 0, csum_offset = 0, network_offset = 0,
     transport_offset = 0, header_cloned = False, vlan_tag = None\<rparr>"

text \<open>Every allocation is logged, so the length of the log has not been used as an identity.\<close>

definition netdev_alloc_skb :: "kernel \<Rightarrow> nat \<Rightarrow> (e1000_adapter, sk_buff option) state" where
  "netdev_alloc_skb K n = do {
     h \<leftarrow> gets klog;
     (if alloc_ok K h n then do { log_ev (Alloc_skb (length h)); ret (Some (rx_skb (length h))) }
      else ret None) }"

section \<open>Refill\<close>

definition E1000_RX_BUFFER_WRITE :: nat where "E1000_RX_BUFFER_WRITE = 16"

text \<open>A buffer for slot \<open>i\<close>: the one it has, emptied, or a new one.\<close>

definition rx_slot_skb :: "kernel \<Rightarrow> nat \<Rightarrow> (e1000_adapter, sk_buff option) state" where
  "rx_slot_skb K i = do {
     b \<leftarrow> gets (\<lambda>a. buffer_info (rx_ring a) ! i);
     (case buf_skb b of
        Some skb \<Rightarrow> do {
          set_rx (upd_buffer i (\<lambda>b. b\<lparr>buf_skb := Some (skb\<lparr>linear := []\<rparr>)\<rparr>));
          ret (Some (skb\<lparr>linear := []\<rparr>)) }
      | None \<Rightarrow> do {
          n \<leftarrow> gets rx_buffer_len;
          skb \<leftarrow> netdev_alloc_skb K (n + 2);
          (case skb of
             None \<Rightarrow> do {
               modify (\<lambda>a. a\<lparr>alloc_rx_buff_failed := alloc_rx_buff_failed a + 1\<rparr>);
               ret None }
           | Some skb \<Rightarrow> do {
               set_rx (upd_buffer i (\<lambda>b. b\<lparr>buf_skb := Some skb\<rparr>));
               ret (Some skb) }) }) }"

text \<open>One turn of the loop; the result is whether slot \<open>i\<close> can be given to the chip.\<close>

definition alloc_rx_one :: "kernel \<Rightarrow> nat \<Rightarrow> (e1000_adapter, bool) state" where
  "alloc_rx_one K i = do {
     skb \<leftarrow> rx_slot_skb K i;
     (case skb of
        None \<Rightarrow> ret False
      | Some skb \<Rightarrow> do {
          len \<leftarrow> gets rx_buffer_len;
          h \<leftarrow> gets klog;
          (let dma = dma_map K h (Rx_buffer (skb_id skb)) len in do {
             log_ev (Map (Rx_buffer (skb_id skb)) len dma);
             set_rx (upd_buffer i (\<lambda>b. b\<lparr>buf_dma := dma\<rparr>));
             (if dma_error K dma then do {
                modify (\<lambda>a. a\<lparr>rx_dma_failed := rx_dma_failed a + 1\<rparr>);
                ret False }
              else do {
                set_rx (upd_desc i (\<lambda>d. d\<lparr>rx_addr := dma\<rparr>));
                ret True }) }) }) }"

fun alloc_rx_loop :: "kernel \<Rightarrow> nat \<Rightarrow> nat \<Rightarrow> (e1000_adapter, nat) state" where
  "alloc_rx_loop K 0 i = ret i"
| "alloc_rx_loop K (Suc n) i = do {
     ok \<leftarrow> alloc_rx_one K i;
     (if \<not> ok then ret i
      else do {
        next \<leftarrow> gets (\<lambda>a. ring_next (rx_ring a) i);
        alloc_rx_loop K n next }) }"

definition e1000_alloc_rx_buffers :: "kernel \<Rightarrow> nat \<Rightarrow> (e1000_adapter, unit) state" where
  "e1000_alloc_rx_buffers K cleaned_count = do {
     use \<leftarrow> gets (\<lambda>a. next_to_use (rx_ring a));
     i \<leftarrow> alloc_rx_loop K cleaned_count use;
     (if i = use then skip
      else do {
        set_rx (\<lambda>r. r\<lparr>next_to_use := i\<rparr>);
        r \<leftarrow> gets rx_ring;
        hw_op (ew32 (ring_tail r) (of_nat (if i = 0 then ring_count r - 1 else i - 1))) }) }"

section \<open>Reclaim\<close>

definition ntohl :: "u32 \<Rightarrow> u32" where
  "ntohl v = push_bit 24 (v AND 0xFF) OR push_bit 8 (v AND 0xFF00) OR drop_bit 8 (v AND 0xFF0000) OR drop_bit 24 v"

definition RXD_STAT_DD :: u8 where "RXD_STAT_DD = 0x01"
definition RXD_STAT_EOP :: u8 where "RXD_STAT_EOP = 0x02"
definition RXD_STAT_VP :: u8 where "RXD_STAT_VP = 0x08"
definition RXD_ERR_FRAME_ERR_MASK :: u8 where "RXD_ERR_FRAME_ERR_MASK = 0x97"

text \<open>The checksum state of a buffer, and whether the chip's result was good or bad.\<close>

definition rx_csum_of :: "u32 \<Rightarrow> u32 \<Rightarrow> ip_summed \<times> u32 option \<times> bool option" where
  "rx_csum_of status_err csum =
     (let status = ucast status_err :: u16; errors = ucast (drop_bit 24 status_err) :: u8 in
      if status AND 0x04 \<noteq> 0 then (CHECKSUM_NONE, None, None)
      else if errors AND 0x20 \<noteq> 0 then (CHECKSUM_NONE, None, Some False)
      else if status AND 0x30 = 0 then (CHECKSUM_NONE, None, None)
      else if status AND 0x20 \<noteq> 0 then (CHECKSUM_UNNECESSARY, None, Some True)
      else (CHECKSUM_COMPLETE, Some (ntohl (csum XOR 0xFFFF)), Some True))"

definition e1000_rx_checksum :: "u32 \<Rightarrow> u32 \<Rightarrow> sk_buff \<Rightarrow> (e1000_adapter, sk_buff) state" where
  "e1000_rx_checksum status_err csum skb =
     (let (smd, v, good) = rx_csum_of status_err csum in do {
        (case good of None \<Rightarrow> skip
         | Some True \<Rightarrow> modify (\<lambda>a. a\<lparr>hw_csum_good := hw_csum_good a + 1\<rparr>)
         | Some False \<Rightarrow> modify (\<lambda>a. a\<lparr>hw_csum_err := hw_csum_err a + 1\<rparr>));
        ret (skb\<lparr>summed := smd, skb_csum := (case v of None \<Rightarrow> skb_csum skb | Some c \<Rightarrow> c)\<rparr>) })"

definition e1000_receive_skb :: "kernel \<Rightarrow> sk_buff \<Rightarrow> u8 \<Rightarrow> u16 \<Rightarrow> (e1000_adapter, unit) state" where
  "e1000_receive_skb K skb status vlan = do {
     grp \<leftarrow> gets vlgrp;
     log_ev (Receive (skb\<lparr>protocol := eth_type_trans K (linear skb)\<rparr>)
       (if grp \<noteq> None \<and> status AND RXD_STAT_VP \<noteq> 0 then Some vlan else None)) }"

text \<open>The frame is dropped: not the last part of one, nothing but its checksum, or damaged.\<close>

definition rx_dropped :: "e1000_rx_desc \<Rightarrow> bool" where
  "rx_dropped d \<longleftrightarrow> rx_status d AND RXD_STAT_EOP = 0 \<or> unat (rx_length d) \<le> 4 \<or>
     rx_errors d AND RXD_ERR_FRAME_ERR_MASK \<noteq> 0"

definition rx_frame_len :: "u32 \<Rightarrow> e1000_rx_desc \<Rightarrow> nat" where
  "rx_frame_len fl2 d = unat (rx_length d) - (if fl2 AND 1 = 0 then 4 else 0)"

text \<open>
  A short frame is copied to a new buffer and the old one stays in slot \<open>i\<close>.  \<open>None\<close> is the
  panic of \<open>skb_put\<close> when the frame is longer than the buffer.
\<close>

definition rx_copybreak :: "kernel \<Rightarrow> nat \<Rightarrow> sk_buff \<Rightarrow> nat \<Rightarrow> (e1000_adapter, sk_buff option) state" where
  "rx_copybreak K i skb n = do {
     cb \<leftarrow> gets copybreak;
     len \<leftarrow> gets rx_buffer_len;
     new \<leftarrow> (if n < cb then netdev_alloc_skb K (n + 2) else ret None);
     (case new of
        Some new \<Rightarrow> do {
          set_rx (upd_buffer i (\<lambda>b. b\<lparr>buf_skb := Some skb\<rparr>));
          ret (Some new) }
      | None \<Rightarrow> ret (if n \<le> len then Some skb else None)) }"

text \<open>
  One completed descriptor; the result is the packets and bytes it counts for.  \<open>None\<close> is the
  panic of a slot without a buffer or of \<open>skb_put\<close>.
\<close>

definition rx_one :: "kernel \<Rightarrow> nat \<Rightarrow> (e1000_adapter, (nat \<times> nat) option) state" where
  "rx_one K i = do {
     d \<leftarrow> gets (\<lambda>a. ring_desc (rx_ring a) ! i);
     b \<leftarrow> gets (\<lambda>a. buffer_info (rx_ring a) ! i);
     (case buf_skb b of None \<Rightarrow> ret None
      | Some skb \<Rightarrow> do {
          set_rx (upd_buffer i (\<lambda>b. b\<lparr>buf_skb := None\<rparr>));
          len \<leftarrow> gets rx_buffer_len;
          log_ev (Unmap (buf_dma b) len);
          set_rx (upd_buffer i (\<lambda>b. b\<lparr>buf_dma := 0\<rparr>));
          fl2 \<leftarrow> gets flags2;
          r \<leftarrow> (if rx_dropped d then do {
                 set_rx (upd_buffer i (\<lambda>b. b\<lparr>buf_skb := Some skb\<rparr>));
                 ret (Some (0, 0)) }
               else (let n = rx_frame_len fl2 d in do {
                 to \<leftarrow> rx_copybreak K i skb n;
                 (case to of None \<Rightarrow> ret None
                  | Some skb \<Rightarrow> do {
                      skb \<leftarrow> e1000_rx_checksum (ucast (rx_status d) OR push_bit 24 (ucast (rx_errors d)))
                        (ucast (rx_csum d)) (skb\<lparr>linear := rx_data K (buf_dma b) n\<rparr>);
                      e1000_receive_skb K skb (rx_status d) (rx_special d);
                      ret (Some (1, n)) }) }));
          (if r = None then skip else set_rx (upd_desc i (\<lambda>d. d\<lparr>rx_status := 0\<rparr>)));
          ret r }) }"

text \<open>
  The loop, with the budget left, the slots to refill so far, and the totals.  The result is the
  next slot, the budget left and the totals.
\<close>

fun clean_rx_loop :: "kernel \<Rightarrow> nat \<Rightarrow> nat \<Rightarrow> nat \<Rightarrow> nat \<Rightarrow> nat \<Rightarrow>
    (e1000_adapter, (nat \<times> nat \<times> nat \<times> nat) option) state" where
  "clean_rx_loop K 0 i cleaned packets bytes = ret (Some (i, 0, packets, bytes))"
| "clean_rx_loop K (Suc left) i cleaned packets bytes = do {
     d \<leftarrow> gets (\<lambda>a. ring_desc (rx_ring a) ! i);
     (if rx_status d AND RXD_STAT_DD = 0 then ret (Some (i, Suc left, packets, bytes))
      else do {
        r \<leftarrow> rx_one K i;
        (case r of None \<Rightarrow> ret None
         | Some (p, n) \<Rightarrow> do {
             next \<leftarrow> gets (\<lambda>a. ring_next (rx_ring a) i);
             (if cleaned + 1 \<ge> E1000_RX_BUFFER_WRITE then do {
                e1000_alloc_rx_buffers K (cleaned + 1);
                clean_rx_loop K left next 0 (packets + p) (bytes + n) }
              else clean_rx_loop K left next (cleaned + 1) (packets + p) (bytes + n)) }) }) }"

text \<open>The result is the number of descriptors worked on, at most the budget.\<close>

definition e1000_clean_rx_irq :: "kernel \<Rightarrow> nat \<Rightarrow> (e1000_adapter, nat option) state" where
  "e1000_clean_rx_irq K budget = do {
     i \<leftarrow> gets (\<lambda>a. next_to_clean (rx_ring a));
     r \<leftarrow> clean_rx_loop K budget i 0 0 0;
     (case r of None \<Rightarrow> ret None
      | Some (i, left, packets, bytes) \<Rightarrow> do {
          set_rx (\<lambda>r. r\<lparr>next_to_clean := i\<rparr>);
          unused \<leftarrow> gets (\<lambda>a. e1000_desc_unused (rx_ring a));
          (if unused = 0 then skip else e1000_alloc_rx_buffers K (nat unused));
          modify (\<lambda>a. a\<lparr>total_rx_bytes := total_rx_bytes a + of_nat bytes,
            total_rx_packets := total_rx_packets a + of_nat packets,
            net_rx_bytes := net_rx_bytes a + of_nat bytes,
            net_rx_packets := net_rx_packets a + of_nat packets\<rparr>);
          ret (Some (budget - left)) }) }"

section \<open>Release\<close>

text \<open>The size a buffer was mapped with, and the size of a page.\<close>

definition PAGE_SIZE :: nat where "PAGE_SIZE = 4096"

definition rx_map_len :: "e1000_adapter \<Rightarrow> nat" where
  "rx_map_len a = (case clean_rx a of Rx_legacy \<Rightarrow> rx_buffer_len a | Rx_jumbo \<Rightarrow> PAGE_SIZE | Rx_ps \<Rightarrow> unat (rx_ps_bsize0 a))"

text \<open>The pages of a packet-split buffer up to the first missing one.\<close>

fun put_ps_pages :: "(nat option \<times> u64) list \<Rightarrow> (e1000_adapter, (nat option \<times> u64) list) state" where
  "put_ps_pages [] = ret []"
| "put_ps_pages ((None, d) # ps) = ret ((None, d) # ps)"
| "put_ps_pages ((Some p, d) # ps) = do {
     log_ev (Unmap d PAGE_SIZE);
     log_ev (Put_page p);
     rest \<leftarrow> put_ps_pages ps;
     ret ((None, 0) # rest) }"

definition e1000_put_rxbuf :: "nat \<Rightarrow> (e1000_adapter, unit) state" where
  "e1000_put_rxbuf i = do {
     b \<leftarrow> gets (\<lambda>a. buffer_info (rx_ring a) ! i);
     len \<leftarrow> gets rx_map_len;
     (if buf_dma b \<noteq> 0 then do {
        log_ev (Unmap (buf_dma b) len);
        set_rx (upd_buffer i (\<lambda>b. b\<lparr>buf_dma := 0\<rparr>)) } else skip);
     page \<leftarrow> gets (\<lambda>a. buf_page (rx_ring a) ! i);
     (case page of None \<Rightarrow> skip
      | Some p \<Rightarrow> do { log_ev (Put_page p); set_rx (upd_page i None) });
     (case buf_skb b of None \<Rightarrow> skip
      | Some skb \<Rightarrow> do {
          log_ev (Free_skb skb);
          set_rx (upd_buffer i (\<lambda>b. b\<lparr>buf_skb := None\<rparr>)) });
     ps \<leftarrow> gets (\<lambda>a. ps_pages (rx_ring a) ! i);
     ps \<leftarrow> put_ps_pages ps;
     set_rx (upd_ps i ps) }"

definition e1000_clean_rx_ring :: "(e1000_adapter, unit) state" where
  "e1000_clean_rx_ring = do {
     n \<leftarrow> gets (\<lambda>a. ring_count (rx_ring a));
     for_each [0..<n] e1000_put_rxbuf;
     top \<leftarrow> gets (\<lambda>a. rx_skb_top (rx_ring a));
     (case top of None \<Rightarrow> skip
      | Some skb \<Rightarrow> do { log_ev (Free_skb skb); set_rx (\<lambda>r. r\<lparr>rx_skb_top := None\<rparr>) });
     set_rx (\<lambda>r. r\<lparr>ring_desc := replicate n rx_desc_zero, ps_desc := replicate n (replicate 4 0),
       next_to_clean := 0, next_to_use := 0\<rparr>);
     h \<leftarrow> gets (\<lambda>a. ring_head (rx_ring a));
     t \<leftarrow> gets (\<lambda>a. ring_tail (rx_ring a));
     hw_op (ew32 h 0);
     hw_op (ew32 t 0) }"

end
