(* ===== verification/RxRing.thy ===== *)
theory RxRing
  imports NetRx TxRing
begin

text \<open>
  The receive ring: the slots from the one to be cleaned next belong to the chip or hold frames
  it has completed; the others wait for a refill.
\<close>

section \<open>The ring\<close>

text \<open>\<open>m\<close> slots from position \<open>k\<close> have a buffer; no other slot is marked done.\<close>

definition rx_from :: "e1000_rx_desc e1000_ring \<Rightarrow> nat \<Rightarrow> nat \<Rightarrow> bool" where
  "rx_from r k m \<longleftrightarrow> ring_wf r \<and> m < ring_count r \<and> next_to_use r = (k + m) mod ring_count r \<and>
     (\<forall>j<m. buf_skb (buf_at r (k + j)) \<noteq> None) \<and>
     (\<forall>j. m \<le> j \<and> j < ring_count r \<longrightarrow> rx_status (desc_at r (k + j)) AND RXD_STAT_DD = 0)"

definition rx_rel :: "e1000_rx_desc e1000_ring \<Rightarrow> nat \<Rightarrow> bool" where
  "rx_rel r m = rx_from r (next_to_clean r) m"

text \<open>What the network stack sees of a received frame.\<close>

type_synonym rx_view = "u8 list \<times> u16 \<times> ip_summed \<times> u32 \<times> u16 option"

definition rx_view_of :: "kev \<Rightarrow> rx_view option" where
  "rx_view_of e = (case e of
     Receive s v \<Rightarrow> Some (linear s, protocol s, summed s, if summed s = CHECKSUM_COMPLETE then skb_csum s else 0, v)
   | _ \<Rightarrow> None)"

definition rx_views :: "kev list \<Rightarrow> rx_view list" where
  "rx_views h = List.map_filter rx_view_of h"

lemma rx_views_simps [simp]:
  "rx_views [] = []" "rx_views (Map x n d # h) = rx_views h" "rx_views (Unmap d n # h) = rx_views h"
  "rx_views (Alloc_skb n # h) = rx_views h"
  "rx_views (Receive s v # h) = (linear s, protocol s, summed s, if summed s = CHECKSUM_COMPLETE then skb_csum s else 0, v) # rx_views h"
  by (simp_all add: rx_views_def rx_view_of_def List.map_filter_simps)

text \<open>The fields that reception does not touch.\<close>

definition rx_only :: "e1000_adapter \<Rightarrow> e1000_adapter \<Rightarrow> bool" where
  "rx_only a b \<longleftrightarrow> b = a\<lparr>hw := hw b, klog := klog b, rx_ring := rx_ring b,
     alloc_rx_buff_failed := alloc_rx_buff_failed b, rx_dma_failed := rx_dma_failed b,
     hw_csum_good := hw_csum_good b, hw_csum_err := hw_csum_err b\<rparr>"

lemma rx_only_refl: "rx_only a a"
  by (simp add: rx_only_def)

lemma rx_only_fields:
  "rx_only a b \<Longrightarrow> flags2 b = flags2 a \<and> vlgrp b = vlgrp a \<and> rx_buffer_len b = rx_buffer_len a \<and>
     copybreak b = copybreak a \<and> net_rx_packets b = net_rx_packets a \<and> net_rx_bytes b = net_rx_bytes a"
  unfolding rx_only_def by (erule ssubst) simp

lemma rx_only_trans: "rx_only a b \<Longrightarrow> rx_only b c \<Longrightarrow> rx_only a c"
  by (cases a; cases b; cases c) (simp add: rx_only_def)

lemma rx_only_upd: "rx_only a b \<Longrightarrow> rx_only a (b\<lparr>rx_ring := r, hw := h\<rparr>)"
  by (cases a; cases b) (simp add: rx_only_def)

section \<open>Refill\<close>

text \<open>The kernel that always has memory and can always map it.\<close>

definition rx_kernel_ok :: "kernel \<Rightarrow> bool" where
  "rx_kernel_ok K \<longleftrightarrow> (\<forall>h n. alloc_ok K h n) \<and> (\<forall>d. \<not> dma_error K d)"

definition slot_set :: "nat \<Rightarrow> e1000_buffer \<Rightarrow> e1000_rx_desc \<Rightarrow> e1000_rx_desc e1000_ring \<Rightarrow> e1000_rx_desc e1000_ring" where
  "slot_set i x d r = r\<lparr>buffer_info := (buffer_info r)[i := x], ring_desc := (ring_desc r)[i := d]\<rparr>"

lemma slot_set_simps [simp]:
  "ring_count (slot_set i x d r) = ring_count r" "next_to_use (slot_set i x d r) = next_to_use r"
  "next_to_clean (slot_set i x d r) = next_to_clean r" "ring_tail (slot_set i x d r) = ring_tail r"
  "ring_wf (slot_set i x d r) = ring_wf r"
  "slot_set i x d (slot_set i y e r) = slot_set i x d r"
  by (simp_all add: slot_set_def ring_wf_def)

lemma slot_set_at:
  assumes "ring_wf r"
  shows "buffer_info (slot_set (j mod ring_count r) x d r) ! (k mod ring_count r) = (if k mod ring_count r = j mod ring_count r then x else buf_at r k)"
    "ring_desc (slot_set (j mod ring_count r) x d r) ! (k mod ring_count r) = (if k mod ring_count r = j mod ring_count r then d else desc_at r k)"
  using assms by (auto simp: slot_set_def ring_wf_def nth_list_update)

lemma upd_slot:
  assumes "ring_wf r" "i < ring_count r"
  shows "upd_buffer i f r = slot_set i (f (buffer_info r ! i)) (ring_desc r ! i) r"
    "upd_desc i g r = slot_set i (buffer_info r ! i) (g (ring_desc r ! i)) r"
  by (simp_all add: upd_buffer_def upd_desc_def slot_set_def)

lemma slot_same: "slot_set i (buffer_info r ! i) (ring_desc r ! i) r = r"
  by (simp add: slot_set_def)

lemma slot_nth:
  assumes "ring_wf r" "i < ring_count r"
  shows "buffer_info (slot_set i x d r) ! i = x" "ring_desc (slot_set i x d r) ! i = d"
  using assms by (simp_all add: slot_set_def ring_wf_def)

text \<open>
  The state after work on slot \<open>i\<close>: the slot is set to a buffer and a descriptor that satisfy
  \<open>P\<close>, and the frames \<open>vs\<close> (newest first) were handed to the stack.
\<close>

definition slot_step :: "nat \<Rightarrow> (e1000_buffer \<Rightarrow> e1000_rx_desc \<Rightarrow> bool) \<Rightarrow> rx_view list \<Rightarrow>
    e1000_adapter \<Rightarrow> e1000_adapter \<Rightarrow> bool" where
  "slot_step i P vs a b \<longleftrightarrow> rx_only a b \<and> hw b = hw a \<and> rx_views (klog b) = vs @ rx_views (klog a) \<and>
     rx_ring b = slot_set i (buffer_info (rx_ring b) ! i) (ring_desc (rx_ring b) ! i) (rx_ring a) \<and>
     P (buffer_info (rx_ring b) ! i) (ring_desc (rx_ring b) ! i)"

lemma alloc_one_wp:
  assumes "ring_wf (rx_ring a)" "i < ring_count (rx_ring a)"
  shows "wp (alloc_rx_one K i) (\<lambda>ok b. (rx_kernel_ok K \<longrightarrow> ok) \<and> slot_step i (\<lambda>x d. (ok \<longrightarrow> buf_skb x \<noteq> None) \<and>
    rx_status d = rx_status (ring_desc (rx_ring a) ! i)) [] a b) a"
proof -
  note slot = upd_slot slot_nth slot_same assms
  show ?thesis
    by (cases "buf_skb (buffer_info (rx_ring a) ! i)";
      simp add: alloc_rx_one_def rx_slot_skb_def netdev_alloc_skb_def slot_step_def rx_only_def Let_def
        slot rx_kernel_ok_def rx_skb_def; blast)
qed

text \<open>The slots \<open>m\<close> to \<open>m'\<close> were filled, the first \<open>m\<close> are as before.\<close>

definition grown :: "nat \<Rightarrow> nat \<Rightarrow> nat \<Rightarrow> e1000_adapter \<Rightarrow> e1000_adapter \<Rightarrow> bool" where
  "grown k m m' a b \<longleftrightarrow> rx_only a b \<and> hw b = hw a \<and> rx_views (klog b) = rx_views (klog a) \<and>
     ring_wf (rx_ring b) \<and> ring_count (rx_ring b) = ring_count (rx_ring a) \<and>
     next_to_use (rx_ring b) = next_to_use (rx_ring a) \<and> next_to_clean (rx_ring b) = next_to_clean (rx_ring a) \<and>
     ring_tail (rx_ring b) = ring_tail (rx_ring a) \<and>
     (\<forall>j<m. buf_at (rx_ring b) (k + j) = buf_at (rx_ring a) (k + j) \<and> desc_at (rx_ring b) (k + j) = desc_at (rx_ring a) (k + j)) \<and>
     (\<forall>j. m \<le> j \<and> j < m' \<longrightarrow> buf_skb (buf_at (rx_ring b) (k + j)) \<noteq> None) \<and>
     (\<forall>j. rx_status (desc_at (rx_ring b) (k + j)) = rx_status (desc_at (rx_ring a) (k + j)))"

lemma grown_slot:
  assumes "ring_wf (rx_ring a)" "m < ring_count (rx_ring a)"
    and "slot_step ((k + m) mod ring_count (rx_ring a)) (\<lambda>x d. (ok \<longrightarrow> buf_skb x \<noteq> None) \<and>
      rx_status d = rx_status (desc_at (rx_ring a) (k + m))) [] a b"
  shows "grown k m (if ok then Suc m else m) a b"
proof -
  let ?r = "rx_ring a" and ?i = "(k + m) mod ring_count (rx_ring a)"
  obtain x d where r: "rx_ring b = slot_set ?i x d ?r" and x: "ok \<longrightarrow> buf_skb x \<noteq> None"
    and d: "rx_status d = rx_status (desc_at ?r (k + m))"
    using assms(3) by (auto simp: slot_step_def)
  have "(k + j) mod ring_count ?r \<noteq> ?i" if "j < m" for j
    using mod_eq_window[of "k + j" "ring_count ?r" "k + m"] that assms(2) by auto
  then show ?thesis
    using assms(1,3) x d unfolding grown_def r
    by (auto simp: slot_set_at slot_step_def r le_less_Suc_eq split: if_splits)
qed

lemma grown_trans:
  assumes "grown k m m1 a b" "grown k m1 m2 b c" "m \<le> m1"
  shows "grown k m m2 a c"
proof -
  have "buf_skb (buf_at (rx_ring c) (k + j)) \<noteq> None" if "m \<le> j" "j < m2" for j
    using assms that by (cases "j < m1") (auto simp: grown_def)
  then show ?thesis
    using assms rx_only_trans[of a b c] by (auto simp: grown_def)
qed

lemma alloc_loop_wp:
  assumes "ring_wf (rx_ring a)" "m + n < ring_count (rx_ring a)" "i = (k + m) mod ring_count (rx_ring a)"
  shows "wp (alloc_rx_loop K n i) (\<lambda>i b. \<exists>m'. i = (k + m') mod ring_count (rx_ring a) \<and> m \<le> m' \<and> m' \<le> m + n \<and>
    (rx_kernel_ok K \<longrightarrow> m' = m + n) \<and> grown k m m' a b) a"
  using assms
proof (induction n arbitrary: a m i)
  case 0
  then show ?case by (auto simp: grown_def rx_only_refl intro!: exI[of _ m])
next
  case (Suc n)
  let ?c = "ring_count (rx_ring a)"
  have i: "i < ?c" using Suc.prems by (simp add: ring_wf_def)
  show ?case
  proof (simp only: alloc_rx_loop.simps wp_bind, rule wp_mono[OF alloc_one_wp[OF Suc.prems(1) i, where K = K]], elim conjE)
    fix ok b
    assume ok: "rx_kernel_ok K \<longrightarrow> ok" and step: "slot_step i (\<lambda>x d. (ok \<longrightarrow> buf_skb x \<noteq> None) \<and>
      rx_status d = rx_status (ring_desc (rx_ring a) ! i)) [] a b"
    have g: "grown k m (if ok then Suc m else m) a b"
      using grown_slot[OF Suc.prems(1) _ step[unfolded Suc.prems(3)]] Suc.prems(2) by simp
    then have b: "ring_wf (rx_ring b)" "ring_count (rx_ring b) = ?c" by (simp_all add: grown_def)
    show "wp (if \<not> ok then ret i else gets (\<lambda>a. ring_next (rx_ring a) i) \<bind> alloc_rx_loop K n)
      (\<lambda>i b. \<exists>m'. i = (k + m') mod ?c \<and> m \<le> m' \<and> m' \<le> m + Suc n \<and> (rx_kernel_ok K \<longrightarrow> m' = m + Suc n) \<and> grown k m m' a b) b"
    proof (cases ok)
      case False
      with g ok Suc.prems(3) show ?thesis by (auto intro!: exI[of _ m])
    next
      case True
      have follow: "ring_next (rx_ring b) i = (k + Suc m) mod ring_count (rx_ring b)"
        using ring_next_mod[of "rx_ring b" "k + m"] b(2) Suc.prems(3) by simp
      have room: "Suc m + n < ring_count (rx_ring b)" using Suc.prems(2) b(2) by simp
      have "wp (alloc_rx_loop K n (ring_next (rx_ring b) i)) (\<lambda>i c. \<exists>m'. i = (k + m') mod ?c \<and> m \<le> m' \<and>
          m' \<le> m + Suc n \<and> (rx_kernel_ok K \<longrightarrow> m' = m + Suc n) \<and> grown k m m' a c) b"
      proof (rule wp_mono[OF Suc.IH[OF b(1) room follow]], elim exE conjE)
        fix i' t m'
        assume "i' = (k + m') mod ring_count (rx_ring b)" "Suc m \<le> m'" "m' \<le> Suc m + n"
          "rx_kernel_ok K \<longrightarrow> m' = Suc m + n" "grown k (Suc m) m' b t"
        with g True show "\<exists>m'. i' = (k + m') mod ?c \<and> m \<le> m' \<and> m' \<le> m + Suc n \<and>
            (rx_kernel_ok K \<longrightarrow> m' = m + Suc n) \<and> grown k m m' a t"
          by (intro exI[of _ m']) (auto simp: b(2) intro: grown_trans)
      qed
      then show ?thesis by (simp only: True wp_bind wp_State prod.case not_True_eq_False if_False)
    qed
  qed
qed

text \<open>What a refill keeps.\<close>

definition kept :: "nat \<Rightarrow> nat \<Rightarrow> e1000_adapter \<Rightarrow> e1000_adapter \<Rightarrow> bool" where
  "kept k m a b \<longleftrightarrow> rx_only a b \<and> ring_count (rx_ring b) = ring_count (rx_ring a) \<and>
     next_to_clean (rx_ring b) = next_to_clean (rx_ring a) \<and> ring_tail (rx_ring b) = ring_tail (rx_ring a) \<and>
     (\<forall>j<m. buf_at (rx_ring b) (k + j) = buf_at (rx_ring a) (k + j) \<and> desc_at (rx_ring b) (k + j) = desc_at (rx_ring a) (k + j))"

text \<open>The slots a refill adds are not marked done.\<close>

definition blank :: "e1000_rx_desc e1000_ring \<Rightarrow> nat \<Rightarrow> nat \<Rightarrow> nat \<Rightarrow> bool" where
  "blank r k m m' \<longleftrightarrow> (\<forall>j. m \<le> j \<and> j < m' \<longrightarrow> rx_status (desc_at r (k + j)) AND RXD_STAT_DD = 0)"

lemma alloc_buffers_wp:
  assumes "rx_from (rx_ring a) k m" "m + n < ring_count (rx_ring a)"
  shows "wp (e1000_alloc_rx_buffers K n) (\<lambda>_ b. \<exists>m'. m \<le> m' \<and> m' \<le> m + n \<and> (rx_kernel_ok K \<longrightarrow> m' = m + n) \<and>
    rx_from (rx_ring b) k m' \<and> kept k m a b \<and> rx_views (klog b) = rx_views (klog a) \<and> blank (rx_ring b) k m m') a"
proof -
  let ?c = "ring_count (rx_ring a)"
  have wf: "ring_wf (rx_ring a)" and use: "next_to_use (rx_ring a) = (k + m) mod ?c"
    using assms(1) by (simp_all add: rx_from_def)
  show ?thesis
  proof (simp only: e1000_alloc_rx_buffers_def wp_bind wp_State prod.case,
      rule wp_mono[OF alloc_loop_wp[OF wf assms(2) use, where K = K]], elim exE conjE)
    fix i b m'
    assume i: "i = (k + m') mod ?c" and m': "m \<le> m'" "m' \<le> m + n" "rx_kernel_ok K \<longrightarrow> m' = m + n"
      and g: "grown k m m' a b"
    have c: "m' < ?c" "0 < ?c" using m'(2) assms(2) by simp_all
    have wfb: "ring_wf (rx_ring b)" "ring_count (rx_ring b) = ?c" using g by (simp_all add: grown_def)
    have bufs: "buf_skb (buf_at (rx_ring b) (k + j)) \<noteq> None" if "j < m'" for j
      using g assms(1) that by (cases "j < m") (auto simp: grown_def rx_from_def)
    have descs: "rx_status (desc_at (rx_ring b) (k + j)) AND RXD_STAT_DD = 0" if "m' \<le> j" "j < ?c" for j
      using g assms(1) that m'(1) by (auto simp: grown_def rx_from_def)
    have "rx_from ((rx_ring b)\<lparr>next_to_use := i\<rparr>) k m'"
      using wfb c i bufs descs by (auto simp: rx_from_def ring_wf_def)
    moreover have "rx_from (rx_ring b) k m'" if "i = next_to_use (rx_ring a)"
    proof -
      have "(rx_ring b)\<lparr>next_to_use := i\<rparr> = rx_ring b" using g that by (simp add: grown_def)
      with calculation show ?thesis by simp
    qed
    moreover have "kept k m a b" "rx_views (klog b) = rx_views (klog a)" using g by (auto simp: grown_def kept_def)
    moreover have "rx_status (desc_at (rx_ring b) (k + j)) AND RXD_STAT_DD = 0" if "m \<le> j" "j < m'" for j
      using g assms(1) that c by (auto simp: grown_def rx_from_def)
    then have "blank (rx_ring b) k m m'" "blank ((rx_ring b)\<lparr>next_to_use := i\<rparr>) k m m'" by (simp_all add: blank_def)
    moreover have "kept k m a (b\<lparr>rx_ring := (rx_ring b)\<lparr>next_to_use := i\<rparr>, hw := h\<rparr>)" for h
      using g by (auto simp: grown_def kept_def rx_only_upd)
    ultimately show "wp (if i = next_to_use (rx_ring a) then skip else
        set_rx (next_to_use_update (\<lambda>_. i)) \<bind> (\<lambda>_. gets rx_ring \<bind> (\<lambda>r.
          hw_op (ew32 (ring_tail r) (of_nat (if i = 0 then ring_count r - 1 else i - 1))))))
      (\<lambda>_ b. \<exists>m'. m \<le> m' \<and> m' \<le> m + n \<and> (rx_kernel_ok K \<longrightarrow> m' = m + n) \<and>
        rx_from (rx_ring b) k m' \<and> kept k m a b \<and> rx_views (klog b) = rx_views (klog a) \<and> blank (rx_ring b) k m m') b"
      using m' by (cases "i = next_to_use (rx_ring a)") (auto simp: wp_hw_op intro!: exI[of _ m'])
  qed
qed

section \<open>One descriptor\<close>

text \<open>
  What a good frame is: the last descriptor of a frame, more than a checksum, and none of the
  errors CE, SE, SEQ, CXE and RXE.  Its bytes are those the chip has stored, without the checksum
  unless the chip strips it.
\<close>

definition rx_good :: "e1000_rx_desc \<Rightarrow> bool" where
  "rx_good d \<longleftrightarrow> bit (rx_status d) 1 \<and> 4 < unat (rx_length d) \<and> (\<forall>n\<in>{0, 1, 2, 4, 7}. \<not> bit (rx_errors d) n)"

definition rx_payload :: "u32 \<Rightarrow> e1000_rx_desc \<Rightarrow> nat" where
  "rx_payload fl2 d = (if bit fl2 0 then unat (rx_length d) else unat (rx_length d) - 4)"

text \<open>The frame of a completed slot as the stack sees it.\<close>

definition rx_deliver :: "kernel \<Rightarrow> u32 \<Rightarrow> bool \<Rightarrow> e1000_rx_desc \<times> e1000_buffer \<Rightarrow> rx_view" where
  "rx_deliver K fl2 grp s = (let d = fst s; bytes = rx_data K (buf_dma (snd s)) (rx_payload fl2 d);
       (smd, v, good) = rx_csum_of (ucast (rx_status d) OR push_bit 24 (ucast (rx_errors d))) (ucast (rx_csum d)) in
     (bytes, eth_type_trans K bytes, smd, case v of None \<Rightarrow> 0 | Some c \<Rightarrow> c,
      if grp \<and> bit (rx_status d) 3 then Some (rx_special d) else None))"

definition rx_frames :: "kernel \<Rightarrow> e1000_adapter \<Rightarrow> (e1000_rx_desc \<times> e1000_buffer) list \<Rightarrow> rx_view list" where
  "rx_frames K a ss = map (rx_deliver K (flags2 a) (vlgrp a \<noteq> None)) (filter (\<lambda>s. rx_good (fst s)) ss)"

definition rx_bytes :: "e1000_adapter \<Rightarrow> (e1000_rx_desc \<times> e1000_buffer) list \<Rightarrow> nat" where
  "rx_bytes a ss = sum_list (map (\<lambda>s. rx_payload (flags2 a) (fst s)) (filter (\<lambda>s. rx_good (fst s)) ss))"

text \<open>The tests of the code are these.\<close>

lemma rx_good_code: "rx_good d \<longleftrightarrow> \<not> rx_dropped d"
proof -
  have "rx_errors d AND 0x97 = rx_errors d AND (2 ^ 0 OR 2 ^ 1 OR 2 ^ 2 OR 2 ^ 4 OR 2 ^ 7)" by simp
  then have "rx_errors d AND 0x97 = 0 \<longleftrightarrow> (\<forall>n\<in>{0, 1, 2, 4, 7}. \<not> bit (rx_errors d) n)"
    by (simp only: bit.conj_disj_distrib or_eq_0_iff and_exp_eq_0_iff_not_bit) auto
  moreover have "rx_status d AND 2 = 0 \<longleftrightarrow> \<not> bit (rx_status d) 1"
    using and_exp_eq_0_iff_not_bit[of "rx_status d" 1] by simp
  ultimately show ?thesis by (auto simp: rx_good_def rx_dropped_def RXD_ERR_FRAME_ERR_MASK_def RXD_STAT_EOP_def)
qed

lemma rx_payload_code: "rx_payload fl2 d = rx_frame_len fl2 d"
  using and_exp_eq_0_iff_not_bit[of fl2 0] by (simp add: rx_payload_def rx_frame_len_def)

lemma rx_vlan_code: "bit (w :: u8) 3 \<longleftrightarrow> w AND RXD_STAT_VP \<noteq> 0"
  using and_exp_eq_0_iff_not_bit[of w 3] by (simp add: RXD_STAT_VP_def)

lemmas rx_code = rx_good_code rx_payload_code rx_vlan_code

text \<open>The chip stores no frame that is longer than a buffer.\<close>

definition rx_fits :: "e1000_adapter \<Rightarrow> e1000_rx_desc \<Rightarrow> bool" where
  "rx_fits a d \<longleftrightarrow> (rx_good d \<longrightarrow> rx_payload (flags2 a) d \<le> rx_buffer_len a)"

lemma rx_csum_none: "rx_csum_of s c = (smd, v, good) \<Longrightarrow> (smd = CHECKSUM_COMPLETE \<longleftrightarrow> v \<noteq> None)"
  by (auto simp: rx_csum_of_def Let_def split: if_splits)

lemma checksum_wp:
  assumes "rx_csum_of se c = (smd, v, good)"
    and "\<And>g e. Q (skb\<lparr>summed := smd, skb_csum := (case v of None \<Rightarrow> skb_csum skb | Some c \<Rightarrow> c)\<rparr>)
      (a\<lparr>hw_csum_good := g, hw_csum_err := e\<rparr>)"
  shows "wp (e1000_rx_checksum se c skb) Q a"
proof -
  let ?s = "skb\<lparr>summed := smd, skb_csum := (case v of None \<Rightarrow> skb_csum skb | Some c \<Rightarrow> c)\<rparr>"
  have "Q ?s (a\<lparr>hw_csum_good := g\<rparr>)" "Q ?s (a\<lparr>hw_csum_err := e\<rparr>)" "Q ?s a" for g e
    using assms(2)[where g = g and e = "hw_csum_err a"] assms(2)[where g = "hw_csum_good a" and e = e]
      assms(2)[where g = "hw_csum_good a" and e = "hw_csum_err a"] by simp_all
  then show ?thesis by (cases v; simp add: e1000_rx_checksum_def assms(1) split: option.split bool.split)
qed

text \<open>The copy leaves a buffer in the slot or not; the frame goes to an empty buffer.\<close>

lemma copybreak_wp:
  assumes "n \<le> rx_buffer_len a"
    and "\<And>h. Q (Some (rx_skb (length (klog a)))) (a\<lparr>klog := Alloc_skb h # klog a,
      rx_ring := upd_buffer i (\<lambda>b. b\<lparr>buf_skb := Some skb\<rparr>) (rx_ring a)\<rparr>)" "Q (Some skb) a"
  shows "wp (rx_copybreak K i skb n) Q a"
  using assms by (simp add: rx_copybreak_def netdev_alloc_skb_def)

lemma rx_one_wp:
  assumes "ring_wf (rx_ring a)" "i < ring_count (rx_ring a)" "buf_skb (buffer_info (rx_ring a) ! i) \<noteq> None"
    and "rx_fits a (ring_desc (rx_ring a) ! i)"
  shows "wp (rx_one K i) (\<lambda>r b. let s = (ring_desc (rx_ring a) ! i, buffer_info (rx_ring a) ! i) in
    r = Some (length (rx_frames K a [s]), rx_bytes a [s]) \<and>
    slot_step i (\<lambda>x d. rx_status d = 0) (rx_frames K a [s]) a b) a"
proof -
  obtain skb where skb: "buf_skb (buffer_info (rx_ring a) ! i) = Some skb" using assms(3) by blast
  let ?d = "ring_desc (rx_ring a) ! i"
  obtain smd v good where c: "rx_csum_of (ucast (rx_status ?d) OR push_bit 24 (ucast (rx_errors ?d))) (ucast (rx_csum ?d)) = (smd, v, good)"
    using prod_cases3 by blast
  note slot = upd_slot slot_nth slot_same assms(1,2)
  show ?thesis
  proof (cases "rx_dropped ?d")
    case True
    then show ?thesis
      using skb by (simp add: rx_one_def slot_step_def rx_only_def Let_def slot rx_frames_def rx_bytes_def rx_code
        del: upd_ring_simps)
  next
    case False
    with assms(4) have fits: "rx_frame_len (flags2 a) ?d \<le> rx_buffer_len a" by (simp add: rx_fits_def rx_code)
    show ?thesis
      using False skb rx_csum_none[OF c] fits
      by (simp add: rx_one_def Let_def)
        (intro copybreak_wp, simp_all add: e1000_receive_skb_def, (rule checksum_wp[OF c], simp add: slot_step_def
          rx_only_def Let_def slot rx_frames_def rx_bytes_def rx_deliver_def rx_code c rx_skb_def split: option.split del: upd_ring_simps)+)
  qed
qed

section \<open>The loop\<close>

definition rx_slots :: "e1000_rx_desc e1000_ring \<Rightarrow> nat \<Rightarrow> nat \<Rightarrow> (e1000_rx_desc \<times> e1000_buffer) list" where
  "rx_slots r k m = map (\<lambda>j. (desc_at r (k + j), buf_at r (k + j))) [0..<m]"

text \<open>The slots that the chip has completed.\<close>

definition rx_done :: "e1000_rx_desc e1000_ring \<Rightarrow> nat \<Rightarrow> nat \<Rightarrow> (e1000_rx_desc \<times> e1000_buffer) list" where
  "rx_done r k m = takeWhile (\<lambda>s. rx_status (fst s) AND RXD_STAT_DD \<noteq> 0) (rx_slots r k m)"

lemma rx_slots_Suc: "rx_slots r k (Suc m) = (desc_at r k, buf_at r k) # rx_slots r (Suc k) m"
  by (simp add: rx_slots_def upt_conv_Cons map_Suc_upt[symmetric] comp_def del: upt_Suc)

lemma rx_slots_cong:
  "ring_count r' = ring_count r \<Longrightarrow>
   (\<And>j. j < m \<Longrightarrow> buf_at r' (k + j) = buf_at r (k + j) \<and> desc_at r' (k + j) = desc_at r (k + j)) \<Longrightarrow>
   rx_slots r' k m = rx_slots r k m"
  by (simp add: rx_slots_def)

lemma rx_done_length: "length (rx_done r k m) \<le> m"
  unfolding rx_done_def by (rule order_trans[OF length_takeWhile_le]) (simp add: rx_slots_def)

lemma rx_done_blank:
  assumes "m \<le> m'" "blank r k m m'"
  shows "rx_done r k m' = rx_done r k m"
proof -
  have "rx_slots r k m' = rx_slots r k m @ map (\<lambda>j. (desc_at r (k + j), buf_at r (k + j))) [m..<m']"
    using assms(1) upt_add_eq_append[of 0 m "m' - m"] by (simp add: rx_slots_def)
  moreover have "takeWhile (\<lambda>s. rx_status (fst s) AND RXD_STAT_DD \<noteq> 0)
      (map (\<lambda>j. (desc_at r (k + j), buf_at r (k + j))) [m..<m']) = []"
    using assms by (cases "m < m'") (auto simp: upt_conv_Cons blank_def)
  ultimately show ?thesis by (auto simp: rx_done_def takeWhile_append takeWhile_eq_all_conv[THEN iffD2])
qed

lemma rx_frames_app: "rx_frames K a (ss @ ts) = rx_frames K a ss @ rx_frames K a ts" "rx_bytes a (ss @ ts) = rx_bytes a ss + rx_bytes a ts"
  by (simp_all add: rx_frames_def rx_bytes_def)

lemma rx_frames_one: "rev (rx_frames K a [s]) = rx_frames K a [s]"
  by (simp add: rx_frames_def)

lemma rx_frames_same:
  "rx_only a b \<Longrightarrow> rx_frames K b ss = rx_frames K a ss \<and> rx_bytes b ss = rx_bytes a ss \<and> rx_fits b d = rx_fits a d"
  using rx_only_fields[of a b] by (simp add: rx_frames_def rx_bytes_def rx_fits_def)

lemma rx_one_from:
  assumes "rx_from (rx_ring a) k (Suc m)" "rx_fits a (desc_at (rx_ring a) k)"
  shows "wp (rx_one K (k mod ring_count (rx_ring a))) (\<lambda>r b. let s = (desc_at (rx_ring a) k, buf_at (rx_ring a) k) in
    r = Some (length (rx_frames K a [s]), rx_bytes a [s]) \<and> rx_from (rx_ring b) (Suc k) m \<and> kept (Suc k) m a b \<and>
    rx_views (klog b) = rx_frames K a [s] @ rx_views (klog a)) a"
proof -
  let ?r = "rx_ring a" and ?c = "ring_count (rx_ring a)"
  have wf: "ring_wf ?r" and m: "Suc m < ?c" and skb: "buf_skb (buf_at ?r k) \<noteq> None"
    using assms(1) by (auto simp: rx_from_def dest: spec[of _ 0])
  have i: "k mod ?c < ?c" using m by simp
  show ?thesis
  proof (rule wp_mono[OF rx_one_wp[OF wf i skb assms(2)]], unfold Let_def, elim conjE)
    fix r b
    let ?s = "(desc_at ?r k, buf_at ?r k)"
    assume "r = Some (length (rx_frames K a [?s]), rx_bytes a [?s])"
      and step: "slot_step (k mod ?c) (\<lambda>x d. rx_status d = 0) (rx_frames K a [?s]) a b"
    obtain x d where r: "rx_ring b = slot_set (k mod ?c) x d ?r" "rx_status d = 0"
      using step by (auto simp: slot_step_def)
    have out: "Suc (k + j) mod ?c \<noteq> k mod ?c" if "Suc j < ?c" for j
      using mod_eq_window[of "Suc (k + j)" ?c k] that by auto
    have "rx_status (desc_at (rx_ring b) (Suc k + j)) AND RXD_STAT_DD = 0" if "m \<le> j" "j < ?c" for j
    proof (cases "Suc j = ?c")
      case True
      then have "(Suc k + j) mod ?c = k mod ?c" by (metis add_Suc_right add_Suc_shift mod_add_self2)
      with r show ?thesis by (simp add: slot_set_at wf)
    next
      case False
      then have "rx_status (desc_at ?r (k + Suc j)) AND RXD_STAT_DD = 0" "Suc j < ?c"
        using assms(1) that unfolding rx_from_def by (meson Suc_le_mono Suc_lessI)+
      with out[of j] r show ?thesis by (simp add: slot_set_at wf)
    qed
    moreover have "buf_at (rx_ring b) (Suc k + j) = buf_at ?r (Suc k + j)" "desc_at (rx_ring b) (Suc k + j) = desc_at ?r (Suc k + j)"
      if "j < m" for j
      using out[of j] that m r by (simp_all add: slot_set_at wf)
    moreover have "buf_skb (buf_at ?r (Suc k + j)) \<noteq> None" if "j < m" for j
      using assms(1) that unfolding rx_from_def by (metis Suc_less_eq add_Suc_right add_Suc_shift)
    ultimately show "r = Some (length (rx_frames K a [?s]), rx_bytes a [?s]) \<and> rx_from (rx_ring b) (Suc k) m \<and>
        kept (Suc k) m a b \<and> rx_views (klog b) = rx_frames K a [?s] @ rx_views (klog a)"
      using assms(1) step m wf r \<open>r = _\<close> by (simp add: rx_from_def kept_def slot_step_def)
  qed
qed

text \<open>The result of the loop over the slots \<open>ss\<close> with \<open>m\<close> slots from position \<open>k\<close>.\<close>

definition rx_result :: "kernel \<Rightarrow> (e1000_rx_desc \<times> e1000_buffer) list \<Rightarrow> nat \<Rightarrow> nat \<Rightarrow> e1000_adapter \<Rightarrow> e1000_adapter \<Rightarrow> bool" where
  "rx_result K ss k m a b \<longleftrightarrow> rx_views (klog b) = rev (rx_frames K a ss) @ rx_views (klog a) \<and>
     kept (k + length ss) (m - length ss) a b \<and>
     (\<exists>m'. m \<le> length ss + m' \<and> rx_from (rx_ring b) (k + length ss) m')"

lemma rx_result_Cons:
  assumes "kept (Suc k) m a b" "rx_views (klog b) = rx_frames K a [s] @ rx_views (klog a)"
    and "rx_result K ss (Suc k) mb b c" "m \<le> mb"
  shows "rx_result K (s # ss) k (Suc m) a c"
proof -
  have "rx_only a b" using assms(1) by (simp add: kept_def)
  then have f: "rx_frames K b ss = rx_frames K a ss" using rx_frames_same by blast
  have "rx_frames K a (s # ss) = rx_frames K a [s] @ rx_frames K a ss" using rx_frames_app(1)[of K a "[s]" ss] by simp
  then have v: "rx_views (klog c) = rev (rx_frames K a (s # ss)) @ rx_views (klog a)"
    using assms(2,3) f rx_frames_one[of K a s] by (simp add: rx_result_def)
  have "kept (Suc k + length ss) (m - length ss) a c"
    using assms(1,3,4) rx_only_trans[of a b c] unfolding kept_def rx_result_def by (auto simp: add.assoc)
  moreover obtain n' where "mb \<le> length ss + n'" "rx_from (rx_ring c) (Suc k + length ss) n'"
    using assms(3) by (auto simp: rx_result_def)
  ultimately show ?thesis using v assms(4) by (auto simp: rx_result_def intro!: exI[of _ n'])
qed

lemma kept_done:
  assumes "kept k m a b"
  shows "rx_done (rx_ring b) k m = rx_done (rx_ring a) k m"
proof -
  have "rx_slots (rx_ring b) k m = rx_slots (rx_ring a) k m"
    using assms by (intro rx_slots_cong) (auto simp: kept_def)
  then show ?thesis by (simp add: rx_done_def)
qed

lemma kept_trans: "kept k m a b \<Longrightarrow> kept k m b c \<Longrightarrow> kept k m a c"
  using rx_only_trans[of a b c] by (auto simp: kept_def)

lemma clean_rx_loop_wp:
  assumes "rx_from (rx_ring a) k m" "i = k mod ring_count (rx_ring a)" "m + cc < ring_count (rx_ring a)"
    and "ss = take left (rx_done (rx_ring a) k m)" "\<forall>s\<in>set ss. rx_fits a (fst s)"
  shows "wp (clean_rx_loop K left i cc pk by') (\<lambda>r b. r = Some ((k + length ss) mod ring_count (rx_ring a), left - length ss,
    pk + length (rx_frames K a ss), by' + rx_bytes a ss) \<and> rx_result K ss k m a b) a"
  using assms
proof (induction left arbitrary: a k m i cc pk by' ss)
  case 0
  then show ?case by (auto simp: rx_result_def kept_def rx_only_refl rx_frames_def rx_bytes_def)
next
  case (Suc left)
  let ?r = "rx_ring a" and ?c = "ring_count (rx_ring a)"
  show ?case
  proof (cases "m = 0 \<or> rx_status (desc_at ?r k) AND RXD_STAT_DD = 0")
    case True
    have idle: "rx_status (desc_at ?r k) AND RXD_STAT_DD = 0 \<and> rx_done ?r k m = []"
    proof (cases m)
      case 0
      with Suc.prems(3) have "rx_status (desc_at ?r (k + 0)) AND RXD_STAT_DD = 0"
        using Suc.prems(1) unfolding rx_from_def by (metis le0 add.left_neutral gr0I not_less0)
      with 0 show ?thesis by (simp add: rx_done_def rx_slots_def)
    next
      case (Suc n)
      with True show ?thesis by (simp add: rx_done_def rx_slots_Suc)
    qed
    then show ?thesis
      using Suc.prems(1-4) by (simp add: rx_result_def kept_def rx_only_refl rx_frames_def rx_bytes_def)
        (intro exI[of _ m], simp)
  next
    case False
    then obtain n where m: "m = Suc n" and busy: "rx_status (desc_at ?r k) AND RXD_STAT_DD \<noteq> 0"
      by (cases m) auto
    let ?s = "(desc_at ?r k, buf_at ?r k)" and ?ts = "take left (rx_done ?r (Suc k) n)"
    have ss: "ss = ?s # ?ts" using Suc.prems(4) busy by (simp add: m rx_done_def rx_slots_Suc)
    have fits: "rx_fits a (desc_at ?r k)" using Suc.prems(5) by (simp add: ss)
    let ?Q = "\<lambda>r b. r = Some ((k + length ss) mod ?c, Suc left - length ss,
      pk + length (rx_frames K a ss), by' + rx_bytes a ss) \<and> rx_result K ss k m a b"
    have rest: "wp (clean_rx_loop K left (Suc k mod ?c) cc' (pk + length (rx_frames K a [?s])) (by' + rx_bytes a [?s])) ?Q b"
      if b: "kept (Suc k) n a b" "rx_views (klog b) = rx_frames K a [?s] @ rx_views (klog a)"
        and from_b: "rx_from (rx_ring b) (Suc k) n'" "n \<le> n'" "n' + cc' < ?c" "blank (rx_ring b) (Suc k) n n'" for b n' cc'
    proof -
      have only: "rx_only a b" and c: "ring_count (rx_ring b) = ?c" using b(1) by (simp_all add: kept_def)
      have same: "rx_done (rx_ring b) (Suc k) n' = rx_done ?r (Suc k) n"
        using rx_done_blank[OF from_b(2,4)] kept_done[OF b(1)] by simp
      have fits_b: "\<forall>s\<in>set ?ts. rx_fits b (fst s)" using Suc.prems(5) rx_frames_same[OF only] by (simp add: ss)
      have room_b: "n' + cc' < ring_count (rx_ring b)" using from_b(3) c by simp
      have todo: "?ts = take left (rx_done (rx_ring b) (Suc k) n')" by (simp add: same)
      note ih = Suc.IH[OF from_b(1) refl room_b todo fits_b, unfolded c]
      show ?thesis
      proof (rule wp_mono[OF ih], elim conjE, intro conjI)
        fix r t
        assume r: "r = Some ((Suc k + length ?ts) mod ?c, left - length ?ts,
          pk + length (rx_frames K a [?s]) + length (rx_frames K b ?ts), by' + rx_bytes a [?s] + rx_bytes b ?ts)"
          and t: "rx_result K ?ts (Suc k) n' b t"
        show "rx_result K ss k m a t" using rx_result_Cons[OF b t from_b(2)] by (simp add: ss m)
        show "r = Some ((k + length ss) mod ?c, Suc left - length ss, pk + length (rx_frames K a ss), by' + rx_bytes a ss)"
          using rx_frames_same[OF only] rx_frames_app(1)[of K a "[?s]" ?ts] rx_frames_app(2)[of a "[?s]" ?ts]
          by (simp add: r ss)
      qed
    qed
    have room: "n + Suc cc < ?c" using Suc.prems(3) m by simp
    show ?thesis
    proof (simp only: clean_rx_loop.simps wp_bind wp_State prod.case wp_if Suc.prems(2) busy if_False,
        rule wp_mono[OF rx_one_from[OF Suc.prems(1)[unfolded m] fits]], unfold Let_def, elim conjE)
      fix r b
      assume r: "r = Some (length (rx_frames K a [?s]), rx_bytes a [?s])" and from_b: "rx_from (rx_ring b) (Suc k) n"
        and b: "kept (Suc k) n a b" "rx_views (klog b) = rx_frames K a [?s] @ rx_views (klog a)"
      have c: "ring_count (rx_ring b) = ?c" using b(1) by (simp add: kept_def)
      have follow: "ring_next (rx_ring b) (k mod ?c) = Suc k mod ?c" using ring_next_mod[of "rx_ring b" k] c by simp
      have "wp (e1000_alloc_rx_buffers K (cc + 1)) (\<lambda>_ c. wp (clean_rx_loop K left (Suc k mod ?c) 0
          (pk + length (rx_frames K a [?s])) (by' + rx_bytes a [?s])) ?Q c) b"
      proof (rule wp_mono[OF alloc_buffers_wp[OF from_b]], use room c in simp, elim exE conjE)
        fix t n'
        assume "n \<le> n'" "n' \<le> n + (cc + 1)" "rx_from (rx_ring t) (Suc k) n'" "kept (Suc k) n b t"
          "rx_views (klog t) = rx_views (klog b)" "blank (rx_ring t) (Suc k) n n'"
        then show "wp (clean_rx_loop K left (Suc k mod ?c) 0 (pk + length (rx_frames K a [?s])) (by' + rx_bytes a [?s])) ?Q t"
          using rest[of t n' 0] kept_trans[OF b(1)] b(2) room by simp
      qed
      moreover have "wp (clean_rx_loop K left (Suc k mod ?c) (cc + 1) (pk + length (rx_frames K a [?s])) (by' + rx_bytes a [?s])) ?Q b"
        by (rule rest[OF b from_b le_refl]) (use room in \<open>auto simp: blank_def\<close>)
      ultimately show "wp (case r of None \<Rightarrow> ret None
          | Some (p, n) \<Rightarrow> gets (\<lambda>a. ring_next (rx_ring a) (k mod ?c)) \<bind> (\<lambda>next.
             (if cc + 1 \<ge> E1000_RX_BUFFER_WRITE then do {
                e1000_alloc_rx_buffers K (cc + 1);
                clean_rx_loop K left next 0 (pk + p) (by' + n) }
              else clean_rx_loop K left next (cc + 1) (pk + p) (by' + n)))) ?Q b"
        by (simp only: r option.case prod.case wp_bind wp_State follow wp_if if_cancel)
    qed
  qed
qed

end
