(* ===== verification/RxProps.thy ===== *)
theory RxProps
  imports RxRing
begin

text \<open>The receive path as a whole: delivery in order, refill, and the ownership of buffers.\<close>

section \<open>Delivery\<close>

lemma rx_from_mod:
  assumes "rx_from r k m"
  shows "rx_rel (r\<lparr>next_to_clean := k mod ring_count r\<rparr>) m"
proof -
  have e: "(k mod ring_count r + j) mod ring_count r = (k + j) mod ring_count r" for j
    by (simp add: mod_add_left_eq)
  have "0 < ring_count r" using assms by (simp add: rx_from_def ring_wf_def)
  with assms show ?thesis by (simp add: rx_rel_def rx_from_def ring_wf_def e)
qed

lemma ring_unused:
  assumes "next_to_clean r < ring_count r" "m < ring_count r" "next_to_use r = (next_to_clean r + m) mod ring_count r"
  shows "e1000_desc_unused r = int (ring_count r) - 1 - int m"
proof (cases "next_to_clean r + m < ring_count r")
  case True
  with assms show ?thesis by (auto simp: e1000_desc_unused_def)
next
  case False
  then have "next_to_use r = next_to_clean r + m - ring_count r" using assms by (simp add: le_mod_geq)
  with assms False show ?thesis by (auto simp: e1000_desc_unused_def)
qed

lemma rx_slots_mod: "rx_slots r (k mod ring_count r) n = rx_slots r k n"
  by (simp add: rx_slots_def mod_add_left_eq)

lemma rx_slots_drop: "drop n (rx_slots r k m) = rx_slots r (k + n) (m - n)"
  by (rule nth_equalityI) (simp_all add: rx_slots_def add.assoc)

lemma kept_slots: "kept k m a b \<Longrightarrow> rx_slots (rx_ring b) k m = rx_slots (rx_ring a) k m"
  by (intro rx_slots_cong) (auto simp: kept_def)

text \<open>The last refill, after the slot to be cleaned next is stored.\<close>

lemma rx_refill_wp:
  assumes "rx_rel (rx_ring a) m"
  shows "wp (if e1000_desc_unused (rx_ring a) = 0 then skip
      else e1000_alloc_rx_buffers K (nat (e1000_desc_unused (rx_ring a))))
    (\<lambda>_ b. \<exists>m'. m \<le> m' \<and> (rx_kernel_ok K \<longrightarrow> m' = ring_count (rx_ring a) - 1) \<and> rx_rel (rx_ring b) m' \<and>
      kept (next_to_clean (rx_ring a)) m a b \<and> rx_views (klog b) = rx_views (klog a)) a"
proof -
  let ?k = "next_to_clean (rx_ring a)" and ?c = "ring_count (rx_ring a)"
  have from_a: "rx_from (rx_ring a) ?k m" using assms by (simp add: rx_rel_def)
  have u: "e1000_desc_unused (rx_ring a) = int ?c - 1 - int m" and m: "m < ?c"
    using from_a ring_unused[of "rx_ring a" m] by (auto simp: rx_from_def ring_wf_def)
  then have n: "m + nat (e1000_desc_unused (rx_ring a)) < ?c" by simp
  have goal: "wp (e1000_alloc_rx_buffers K (nat (e1000_desc_unused (rx_ring a)))) (\<lambda>_ b. \<exists>m'. m \<le> m' \<and>
      (rx_kernel_ok K \<longrightarrow> m' = ?c - 1) \<and> rx_rel (rx_ring b) m' \<and> kept ?k m a b \<and> rx_views (klog b) = rx_views (klog a)) a"
  proof (rule wp_mono[OF alloc_buffers_wp[OF from_a n]], elim exE conjE)
    fix t m'
    assume "m \<le> m'" "rx_kernel_ok K \<longrightarrow> m' = m + nat (e1000_desc_unused (rx_ring a))" "rx_from (rx_ring t) ?k m'"
      "kept ?k m a t" "rx_views (klog t) = rx_views (klog a)"
    then show "\<exists>m'. m \<le> m' \<and> (rx_kernel_ok K \<longrightarrow> m' = ?c - 1) \<and> rx_rel (rx_ring t) m' \<and>
        kept ?k m a t \<and> rx_views (klog t) = rx_views (klog a)"
      using u m by (intro exI[of _ m']) (auto simp: rx_rel_def kept_def)
  qed
  have "m = ?c - 1 \<and> rx_rel (rx_ring a) m \<and> kept ?k m a a" if "e1000_desc_unused (rx_ring a) = 0"
    using that u assms by (simp add: kept_def rx_only_refl)
  then show ?thesis using goal by (cases "e1000_desc_unused (rx_ring a) = 0") (simp_all only: if_True if_False wp_return, auto)
qed

text \<open>
  C4: reception delivers exactly the good frames, in order and once.  With \<open>m\<close> slots in the
  hands of the chip, a poll with a budget works on the completed slots in order, at most as many
  as the budget, and reports their number; the stack gets the frames of these slots that are
  whole, longer than their checksum and not damaged, with the bytes the chip stored, the checksum
  result and the VLAN tag; the counters grow by them; the slots not worked on stay as they are,
  the ring has no fewer free slots than before, and with memory available it is full again.
\<close>

theorem rx_delivers:
  assumes "rx_rel (rx_ring a) m"
    and "\<forall>s\<in>set (take budget (rx_done (rx_ring a) (next_to_clean (rx_ring a)) m)). rx_fits a (fst s)"
  shows "let (r, b) = run_state (e1000_clean_rx_irq K budget) a; k = next_to_clean (rx_ring a);
      ss = take budget (rx_done (rx_ring a) k m); frames = rx_frames K a ss in
    r = Some (length ss) \<and> rx_views (klog b) = rev frames @ rx_views (klog a) \<and>
    net_rx_packets b = net_rx_packets a + of_nat (length frames) \<and> net_rx_bytes b = net_rx_bytes a + of_nat (rx_bytes a ss) \<and>
    next_to_clean (rx_ring b) = (k + length ss) mod ring_count (rx_ring a) \<and>
    rx_slots (rx_ring b) (next_to_clean (rx_ring b)) (m - length ss) = drop (length ss) (rx_slots (rx_ring a) k m) \<and>
    (\<exists>m'. m \<le> length ss + m' \<and> rx_rel (rx_ring b) m' \<and> (rx_kernel_ok K \<longrightarrow> m' = ring_count (rx_ring a) - 1))"
proof -
  let ?r = "rx_ring a" and ?c = "ring_count (rx_ring a)" and ?k = "next_to_clean (rx_ring a)"
  let ?ss = "take budget (rx_done ?r ?k m)" and ?n = "length (take budget (rx_done ?r ?k m))"
  let ?i = "(?k + ?n) mod ?c" and ?p = "length (rx_frames K a ?ss)"
  have from_a: "rx_from ?r ?k m" and k: "?k = ?k mod ?c" and m: "m + 0 < ?c"
    using assms(1) by (auto simp: rx_rel_def rx_from_def ring_wf_def)
  let ?Q = "\<lambda>r b. r = Some ?n \<and> rx_views (klog b) = rev (rx_frames K a ?ss) @ rx_views (klog a) \<and>
    net_rx_packets b = net_rx_packets a + of_nat ?p \<and> net_rx_bytes b = net_rx_bytes a + of_nat (rx_bytes a ?ss) \<and>
    next_to_clean (rx_ring b) = ?i \<and> rx_slots (rx_ring b) ?i (m - ?n) = drop ?n (rx_slots ?r ?k m) \<and>
    (\<exists>m'. m \<le> ?n + m' \<and> rx_rel (rx_ring b) m' \<and> (rx_kernel_ok K \<longrightarrow> m' = ?c - 1))"
  have "wp (e1000_clean_rx_irq K budget) ?Q a"
  proof (simp only: e1000_clean_rx_irq_def wp_bind wp_State prod.case,
      rule wp_mono[OF clean_rx_loop_wp[OF from_a k m refl assms(2)]], elim conjE)
    fix r b
    assume r: "r = Some (?i, budget - ?n, 0 + ?p, 0 + rx_bytes a ?ss)" and b: "rx_result K ?ss ?k m a b"
    then obtain m1 where m1: "m \<le> ?n + m1" "rx_from (rx_ring b) (?k + ?n) m1" by (auto simp: rx_result_def)
    have kept_b: "kept (?k + ?n) (m - ?n) a b" and views: "rx_views (klog b) = rev (rx_frames K a ?ss) @ rx_views (klog a)"
      using b by (simp_all add: rx_result_def)
    have only: "rx_only a b" and c: "ring_count (rx_ring b) = ?c" using kept_b by (simp_all add: kept_def)
    let ?b = "b\<lparr>rx_ring := (rx_ring b)\<lparr>next_to_clean := ?i\<rparr>\<rparr>"
    have rel: "rx_rel (rx_ring ?b) m1" using rx_from_mod[OF m1(2)] c by simp
    show "wp (case r of None \<Rightarrow> ret None
      | Some (i, left, packets, bytes) \<Rightarrow> do {
          set_rx (\<lambda>r. r\<lparr>next_to_clean := i\<rparr>);
          unused \<leftarrow> gets (\<lambda>a. e1000_desc_unused (rx_ring a));
          (if unused = 0 then skip else e1000_alloc_rx_buffers K (nat unused));
          modify (\<lambda>a. a\<lparr>total_rx_bytes := total_rx_bytes a + of_nat bytes,
            total_rx_packets := total_rx_packets a + of_nat packets,
            net_rx_bytes := net_rx_bytes a + of_nat bytes,
            net_rx_packets := net_rx_packets a + of_nat packets\<rparr>);
          ret (Some (budget - left)) }) ?Q b"
    proof (simp only: r option.case prod.case wp_bind wp_State wp_return, rule wp_mono[OF rx_refill_wp], rule rel,
        elim exE conjE)
      fix t m'
      assume t: "m1 \<le> m'" "rx_kernel_ok K \<longrightarrow> m' = ring_count (rx_ring ?b) - 1" "rx_rel (rx_ring t) m'"
        "kept (next_to_clean (rx_ring ?b)) m1 ?b t" "rx_views (klog t) = rx_views (klog ?b)"
      have "kept ?i (m - ?n) ?b t" using t(4) m1(1) by (auto simp: kept_def)
      then have "rx_slots (rx_ring t) ?i (m - ?n) = rx_slots (rx_ring ?b) ?i (m - ?n)" by (rule kept_slots)
      also have "\<dots> = rx_slots ?r (?k + ?n) (m - ?n)"
        using kept_slots[OF kept_b] rx_slots_mod[of "rx_ring b" "?k + ?n"] c by (simp add: rx_slots_def)
      finally have slots: "rx_slots (rx_ring t) ?i (m - ?n) = drop ?n (rx_slots ?r ?k m)" by (simp only: rx_slots_drop)
      have only_t: "rx_only ?b t" using t(4) by (simp add: kept_def)
      have n: "?n \<le> budget" by simp
      show "?Q (Some (budget - (budget - ?n))) (t\<lparr>total_rx_bytes := total_rx_bytes t + of_nat (0 + rx_bytes a ?ss),
          total_rx_packets := total_rx_packets t + of_nat (0 + ?p), net_rx_bytes := net_rx_bytes t + of_nat (0 + rx_bytes a ?ss),
          net_rx_packets := net_rx_packets t + of_nat (0 + ?p)\<rparr>)"
      proof (intro conjI exI[of _ m'])
        have "net_rx_packets t = net_rx_packets a" "net_rx_bytes t = net_rx_bytes a"
          using rx_only_fields[OF only] rx_only_fields[OF only_t] by simp_all
        then show "net_rx_packets (t\<lparr>total_rx_bytes := total_rx_bytes t + of_nat (0 + rx_bytes a ?ss),
            total_rx_packets := total_rx_packets t + of_nat (0 + ?p), net_rx_bytes := net_rx_bytes t + of_nat (0 + rx_bytes a ?ss),
            net_rx_packets := net_rx_packets t + of_nat (0 + ?p)\<rparr>) = net_rx_packets a + of_nat ?p"
          "net_rx_bytes (t\<lparr>total_rx_bytes := total_rx_bytes t + of_nat (0 + rx_bytes a ?ss),
            total_rx_packets := total_rx_packets t + of_nat (0 + ?p), net_rx_bytes := net_rx_bytes t + of_nat (0 + rx_bytes a ?ss),
            net_rx_packets := net_rx_packets t + of_nat (0 + ?p)\<rparr>) = net_rx_bytes a + of_nat (rx_bytes a ?ss)"
          by simp_all
        have "next_to_clean (rx_ring t) = ?i" using t(4) by (simp add: kept_def)
        then show "next_to_clean (rx_ring (t\<lparr>total_rx_bytes := total_rx_bytes t + of_nat (0 + rx_bytes a ?ss),
            total_rx_packets := total_rx_packets t + of_nat (0 + ?p), net_rx_bytes := net_rx_bytes t + of_nat (0 + rx_bytes a ?ss),
            net_rx_packets := net_rx_packets t + of_nat (0 + ?p)\<rparr>)) = ?i" by simp
      qed (use t(1-3,5) slots views n c m1(1) in simp_all)
    qed
  qed
  then show ?thesis unfolding wp_def Let_def by (simp add: split_def)
qed

section \<open>A concrete run\<close>

text \<open>A ring of eight with one buffer, which holds a frame of 64 bytes.\<close>

definition rx_adapter0 :: e1000_adapter where
  "rx_adapter0 = adapter_zero\<lparr>rx_buffer_len := 1522, rx_ring := ring_zero\<lparr>
     ring_desc := (replicate 8 rx_desc_zero)[0 := rx_desc_zero\<lparr>rx_status := 3, rx_length := 64\<rparr>],
     ring_count := 8, next_to_use := 1,
     buffer_info := (replicate 8 buffer_zero)[0 := buffer_zero\<lparr>buf_dma := 0x1000, buf_skb := Some (rx_skb 0)\<rparr>]\<rparr>\<rparr>"

lemma rx_adapter0_facts:
  "rx_rel (rx_ring rx_adapter0) 1" "length (rx_done (rx_ring rx_adapter0) 0 1) = 1"
  "rx_frames kernel0 rx_adapter0 (rx_done (rx_ring rx_adapter0) 0 1) = [(replicate 60 0, 0x0800, CHECKSUM_NONE, 0, None)]"
  "\<forall>s\<in>set (rx_done (rx_ring rx_adapter0) 0 1). rx_fits rx_adapter0 (fst s)"
  "next_to_clean (rx_ring rx_adapter0) = 0" "klog rx_adapter0 = []"
proof -
  show "rx_rel (rx_ring rx_adapter0) 1"
    by (auto simp: rx_adapter0_def ring_zero_def rx_rel_def rx_from_def ring_wf_def rx_desc_zero_def nth_list_update
      RXD_STAT_DD_def)
  have d: "rx_done (rx_ring rx_adapter0) 0 1 = [(rx_desc_zero\<lparr>rx_status := 3, rx_length := 64\<rparr>,
      buffer_zero\<lparr>buf_dma := 0x1000, buf_skb := Some (rx_skb 0)\<rparr>)]"
    by (simp add: rx_adapter0_def ring_zero_def rx_done_def rx_slots_def RXD_STAT_DD_def)
  show "length (rx_done (rx_ring rx_adapter0) 0 1) = 1" unfolding d by simp
  show "rx_frames kernel0 rx_adapter0 (rx_done (rx_ring rx_adapter0) 0 1) = [(replicate 60 0, 0x0800, CHECKSUM_NONE, 0, None)]"
    "\<forall>s\<in>set (rx_done (rx_ring rx_adapter0) 0 1). rx_fits rx_adapter0 (fst s)"
    unfolding d by (simp_all add: rx_frames_def rx_code rx_fits_def rx_dropped_def rx_deliver_def rx_frame_len_def rx_csum_of_def rx_desc_zero_def
      RXD_STAT_EOP_def RXD_STAT_VP_def RXD_ERR_FRAME_ERR_MASK_def kernel0_def rx_adapter0_def adapter_zero_def Let_def)
  show "next_to_clean (rx_ring rx_adapter0) = 0" "klog rx_adapter0 = []"
    by (simp_all add: rx_adapter0_def ring_zero_def adapter_zero_def)
qed

lemma rx_delivers_witness:
  "let (r, b) = run_state (e1000_clean_rx_irq kernel0 64) rx_adapter0 in
    r = Some 1 \<and> rx_views (klog b) = [(replicate 60 0, 0x0800, CHECKSUM_NONE, 0, None)]"
proof -
  have all: "take 64 (rx_done (rx_ring rx_adapter0) 0 1) = rx_done (rx_ring rx_adapter0) 0 1"
    by (rule take_all, subst rx_adapter0_facts(2)) simp
  note run = rx_delivers[OF rx_adapter0_facts(1), where budget = 64 and K = kernel0,
    unfolded Let_def split_def rx_adapter0_facts(5) all, OF rx_adapter0_facts(4),
    unfolded rx_adapter0_facts(2,3,6)]
  then show ?thesis unfolding Let_def split_def by simp
qed

end
