(* ===== verification/RxOwn.thy ===== *)
theory RxOwn
  imports RxRing
begin

text \<open>
  Ownership of receive buffers: a buffer is in at most one slot of the ring, is handed to the
  stack at most once, and never is in a slot after it was handed over.
\<close>

section \<open>The invariant\<close>

text \<open>The identities of the buffers handed to the stack.\<close>

definition given :: "kev list \<Rightarrow> nat list" where
  "given h = List.map_filter (\<lambda>e. case e of Receive s v \<Rightarrow> Some (skb_id s) | _ \<Rightarrow> None) h"

definition slot_ids :: "e1000_buffer list \<Rightarrow> nat list" where
  "slot_ids bs = List.map_filter (\<lambda>b. map_option skb_id (buf_skb b)) bs"

definition owned :: "e1000_buffer list \<Rightarrow> kev list \<Rightarrow> bool" where
  "owned bs h \<longleftrightarrow> distinct (slot_ids bs @ given h) \<and> (\<forall>n\<in>set (slot_ids bs @ given h). n < length h)"

lemma given_simps [simp]:
  "given [] = []" "given (Map x n d # h) = given h" "given (Unmap d n # h) = given h"
  "given (Alloc_skb n # h) = given h" "given (Free_skb s # h) = given h"
  "given (Receive s v # h) = skb_id s # given h" "given (Put_page p # h) = given h"
  by (simp_all add: given_def List.map_filter_simps)

lemma slot_ids_simps: "slot_ids [] = []" "slot_ids (b # bs) = (case buf_skb b of None \<Rightarrow> [] | Some s \<Rightarrow> [skb_id s]) @ slot_ids bs"
  by (simp_all add: slot_ids_def List.map_filter_simps split: option.splits)

lemma slot_ids_app: "slot_ids (xs @ ys) = slot_ids xs @ slot_ids ys"
  by (induction xs) (simp_all add: slot_ids_simps)

abbreviation id_list :: "e1000_buffer \<Rightarrow> nat list" where
  "id_list b \<equiv> slot_ids [b]"

lemma slot_ids_split:
  assumes "i < length bs"
  shows "slot_ids bs = slot_ids (take i bs) @ id_list (bs ! i) @ slot_ids (drop (Suc i) bs)"
    "slot_ids (bs[i := x]) = slot_ids (take i bs) @ id_list x @ slot_ids (drop (Suc i) bs)"
  using assms id_take_nth_drop[OF assms] upd_conv_take_nth_drop[OF assms, of x]
  by (metis slot_ids_app append_Cons append_Nil)+

text \<open>
  A change of slot \<open>i\<close> and of the log keeps the invariant when the identities that are in the
  slot or newly given were in the slot before or are new.
\<close>

lemma owned_step:
  assumes "owned bs h" "i < length bs" "length h \<le> length h'" "given h' = g @ given h"
    and "distinct (id_list x @ g)"
    and "\<forall>n\<in>set (id_list x @ g). n \<in> set (id_list (bs ! i)) \<or> length h \<le> n \<and> n < length h'"
  shows "owned (bs[i := x]) h'"
proof -
  let ?l = "slot_ids (take i bs)" and ?r = "slot_ids (drop (Suc i) bs)"
  have old: "distinct (?l @ id_list (bs ! i) @ ?r @ given h)" "\<forall>n\<in>set (?l @ id_list (bs ! i) @ ?r @ given h). n < length h"
    using assms(1) slot_ids_split(1)[OF assms(2)] by (auto simp: owned_def)
  have "n \<notin> set (?l @ ?r @ given h)" if "n \<in> set (id_list x @ g)" for n
    using assms(6)[rule_format, OF that] old by (auto simp: not_less[symmetric])
  moreover have "n < length h'" if "n \<in> set ((?l @ id_list x @ ?r) @ g @ given h)" for n
    using old(2) assms(3,6) that by (auto intro: less_le_trans)
  ultimately show ?thesis
    using old(1) assms(4,5) slot_ids_split(2)[OF assms(2), of x] unfolding owned_def by auto
qed

lemma owned_log: "owned bs h \<Longrightarrow> length h \<le> length h' \<Longrightarrow> given h' = given h \<Longrightarrow> owned bs h'"
  by (auto simp: owned_def intro: less_le_trans)

section \<open>The operations keep it\<close>

definition rx_inv :: "nat \<Rightarrow> e1000_adapter \<Rightarrow> bool" where
  "rx_inv c a \<longleftrightarrow> ring_wf (rx_ring a) \<and> ring_count (rx_ring a) = c \<and> owned (buffer_info (rx_ring a)) (klog a)"

text \<open>Work on slot \<open>i\<close> that gives the buffers \<open>g\<close> to the stack.\<close>

definition own_step :: "nat \<Rightarrow> nat list \<Rightarrow> e1000_adapter \<Rightarrow> e1000_adapter \<Rightarrow> bool" where
  "own_step i g a b \<longleftrightarrow>
     rx_ring b = slot_set i (buffer_info (rx_ring b) ! i) (ring_desc (rx_ring b) ! i) (rx_ring a) \<and>
     length (klog a) \<le> length (klog b) \<and> given (klog b) = g @ given (klog a) \<and>
     distinct (id_list (buffer_info (rx_ring b) ! i) @ g) \<and>
     (\<forall>n\<in>set (id_list (buffer_info (rx_ring b) ! i) @ g).
        n \<in> set (id_list (buffer_info (rx_ring a) ! i)) \<or> length (klog a) \<le> n \<and> n < length (klog b))"

lemma own_step_inv:
  assumes "rx_inv c a" "i < c" "own_step i g a b"
  shows "rx_inv c b"
proof -
  have i: "i < length (buffer_info (rx_ring a))" using assms by (simp add: rx_inv_def ring_wf_def)
  obtain x d where x: "buffer_info (rx_ring b) ! i = x" and r: "rx_ring b = slot_set i x d (rx_ring a)"
    using assms(3) unfolding own_step_def by blast
  have "owned ((buffer_info (rx_ring a))[i := x]) (klog b)"
    using assms(1,3) by (intro owned_step[OF _ i, where h = "klog a" and g = g]) (simp_all add: rx_inv_def own_step_def x)
  with assms(1) show ?thesis by (simp add: rx_inv_def r) (simp add: slot_set_def)
qed

lemma alloc_one_owned:
  assumes "rx_inv c a" "i < c"
  shows "wp (alloc_rx_one K i) (\<lambda>_. rx_inv c) a"
proof -
  have wf: "ring_wf (rx_ring a)" "i < ring_count (rx_ring a)" using assms by (simp_all add: rx_inv_def)
  note slot = upd_slot slot_nth slot_same wf
  have "wp (alloc_rx_one K i) (\<lambda>_. own_step i [] a) a"
    by (cases "buf_skb (buffer_info (rx_ring a) ! i)")
      (simp_all add: alloc_rx_one_def rx_slot_skb_def netdev_alloc_skb_def own_step_def Let_def slot rx_skb_def
        slot_ids_simps del: upd_ring_simps)
  then show ?thesis by (rule wp_mono) (rule own_step_inv[OF assms])
qed

lemma alloc_loop_owned:
  assumes "rx_inv c a" "i < c"
  shows "wp (alloc_rx_loop K n i) (\<lambda>j b. rx_inv c b \<and> j < c) a"
  using assms
proof (induction n arbitrary: a i)
  case (Suc n)
  have "ring_next (rx_ring b) i < c" if "rx_inv c b" for b
    using that Suc.prems(2) by (auto simp: rx_inv_def ring_next_def)
  with Suc show ?case by (auto intro!: wp_mono[OF alloc_one_owned])
qed simp

lemma rx_inv_use: "rx_inv c a \<Longrightarrow> i < c \<Longrightarrow> rx_inv c (a\<lparr>rx_ring := (rx_ring a)\<lparr>next_to_use := i\<rparr>, hw := h\<rparr>)"
  by (simp add: rx_inv_def ring_wf_def)

lemma alloc_buffers_owned:
  assumes "rx_inv c a"
  shows "wp (e1000_alloc_rx_buffers K n) (\<lambda>_. rx_inv c) a"
proof -
  have "next_to_use (rx_ring a) < c" using assms by (simp add: rx_inv_def ring_wf_def)
  then show ?thesis
    unfolding e1000_alloc_rx_buffers_def wp_bind wp_State prod.case
    by (intro wp_mono[OF alloc_loop_owned[OF assms]]) (auto simp: wp_hw_op rx_inv_use)
qed

lemma rx_one_owned:
  assumes "rx_inv c a" "i < c"
  shows "wp (rx_one K i) (\<lambda>r b. r \<noteq> None \<longrightarrow> rx_inv c b) a"
proof -
  have wf: "ring_wf (rx_ring a)" "i < ring_count (rx_ring a)" using assms by (simp_all add: rx_inv_def)
  note slot = upd_slot slot_nth slot_same wf
  show ?thesis
  proof (cases "buf_skb (buffer_info (rx_ring a) ! i)")
    case (Some skb)
    have old: "skb_id skb < length (klog a)" 
    proof -
      have "skb_id skb \<in> set (slot_ids (buffer_info (rx_ring a)))"
        using slot_ids_split(1)[of i "buffer_info (rx_ring a)"] wf Some by (simp add: ring_wf_def slot_ids_simps)
      then show ?thesis using assms(1) by (auto simp: rx_inv_def owned_def)
    qed
    let ?d = "ring_desc (rx_ring a) ! i"
    obtain smd v good where c: "rx_csum_of (ucast (rx_status ?d) OR push_bit 24 (ucast (rx_errors ?d))) (ucast (rx_csum ?d)) = (smd, v, good)"
      using prod_cases3 by blast
    have "wp (rx_one K i) (\<lambda>r b. r \<noteq> None \<longrightarrow> (\<exists>g\<in>{[], [skb_id skb], [Suc (length (klog a))]}. own_step i g a b)) a"
      using Some old
      by (simp add: rx_one_def Let_def rx_copybreak_def netdev_alloc_skb_def e1000_receive_skb_def)
        (auto intro!: checksum_wp[OF c] simp: own_step_def slot slot_ids_simps rx_skb_def simp del: upd_ring_simps)
    then show ?thesis by (rule wp_mono) (auto intro: own_step_inv[OF assms])
  qed (simp add: rx_one_def)
qed

lemma clean_rx_loop_owned:
  assumes "rx_inv c a" "i < c"
  shows "wp (clean_rx_loop K left i cc pk n) (\<lambda>r b. \<forall>j x. r = Some (j, x) \<longrightarrow> rx_inv c b \<and> j < c) a"
  using assms
proof (induction left arbitrary: a i cc pk n)
  case (Suc left)
  have follow: "ring_next (rx_ring b) i < c" if "rx_inv c b" for b
    using that Suc.prems(2) by (auto simp: rx_inv_def ring_next_def)
  have "wp (rx_one K i) (\<lambda>r b. wp (case r of None \<Rightarrow> ret None
      | Some (p, m) \<Rightarrow> gets (\<lambda>a. ring_next (rx_ring a) i) \<bind> (\<lambda>next.
         (if cc + 1 \<ge> E1000_RX_BUFFER_WRITE then do {
            e1000_alloc_rx_buffers K (cc + 1);
            clean_rx_loop K left next 0 (pk + p) (n + m) }
          else clean_rx_loop K left next (cc + 1) (pk + p) (n + m))))
      (\<lambda>r b. \<forall>j x. r = Some (j, x) \<longrightarrow> rx_inv c b \<and> j < c) b) a"
  proof (rule wp_mono[OF rx_one_owned[OF Suc.prems]])
    fix r :: "(nat \<times> nat) option" and b
    assume inv: "r \<noteq> None \<longrightarrow> rx_inv c b"
    have "wp (e1000_alloc_rx_buffers K (cc + 1)) (\<lambda>_. wp (clean_rx_loop K left (ring_next (rx_ring b) i) 0 pk' n')
        (\<lambda>r b. \<forall>j x. r = Some (j, x) \<longrightarrow> rx_inv c b \<and> j < c)) b" if "r \<noteq> None" for pk' n'
      using inv that follow[of b] by (intro wp_mono[OF alloc_buffers_owned[of c b]]) (auto intro!: Suc.IH)
    moreover have "wp (clean_rx_loop K left (ring_next (rx_ring b) i) (cc + 1) pk' n')
        (\<lambda>r b. \<forall>j x. r = Some (j, x) \<longrightarrow> rx_inv c b \<and> j < c) b" if "r \<noteq> None" for pk' n'
      using inv that follow[of b] by (auto intro!: Suc.IH)
    ultimately show "wp (case r of None \<Rightarrow> ret None
      | Some (p, m) \<Rightarrow> gets (\<lambda>a. ring_next (rx_ring a) i) \<bind> (\<lambda>next.
         (if cc + 1 \<ge> E1000_RX_BUFFER_WRITE then do {
            e1000_alloc_rx_buffers K (cc + 1);
            clean_rx_loop K left next 0 (pk + p) (n + m) }
          else clean_rx_loop K left next (cc + 1) (pk + p) (n + m))))
      (\<lambda>r b. \<forall>j x. r = Some (j, x) \<longrightarrow> rx_inv c b \<and> j < c) b"
      by (cases r) (auto simp only: option.case option.simps prod.case wp_bind wp_State wp_if wp_return not_False_eq_True simp_thms split: prod.split if_split)
  qed
  then show ?case
    using Suc.prems by (simp only: clean_rx_loop.simps wp_bind wp_State prod.case wp_if wp_return split: if_split) simp
qed simp

lemma clean_rx_irq_owned:
  assumes "rx_inv c a"
  shows "wp (e1000_clean_rx_irq K n) (\<lambda>r b. r \<noteq> None \<longrightarrow> rx_inv c b) a"
proof -
  have i: "next_to_clean (rx_ring a) < c" using assms by (simp add: rx_inv_def ring_wf_def)
  have clean: "rx_inv c (b\<lparr>rx_ring := (rx_ring b)\<lparr>next_to_clean := j\<rparr>\<rparr>)" if "rx_inv c b" "j < c" for b j
    using that by (simp add: rx_inv_def ring_wf_def)
  have stats: "rx_inv c b \<Longrightarrow> rx_inv c (b\<lparr>total_rx_bytes := w, total_rx_packets := x, net_rx_bytes := y, net_rx_packets := z\<rparr>)"
    for b w x y z by (simp add: rx_inv_def)
  show ?thesis
    unfolding e1000_clean_rx_irq_def wp_bind wp_State prod.case
    by (rule wp_mono[OF clean_rx_loop_owned[OF assms i]])
      (auto simp: clean stats intro!: wp_mono[OF alloc_buffers_owned[of c]] split: option.split)
qed

lemma rx_inv_other:
  "rx_inv c (a\<lparr>rx_ring := upd_page i p (rx_ring a)\<rparr>) = rx_inv c a" "rx_inv c (a\<lparr>rx_ring := upd_ps i ps (rx_ring a)\<rparr>) = rx_inv c a"
  "rx_inv c (a\<lparr>rx_ring := (rx_ring a)\<lparr>rx_skb_top := tp\<rparr>\<rparr>) = rx_inv c a"
  by (simp_all add: rx_inv_def ring_wf_def upd_page_def upd_ps_def)

lemma rx_inv_log: "given (e # klog a) = given (klog a) \<Longrightarrow> rx_inv c a \<Longrightarrow> rx_inv c (a\<lparr>klog := e # klog a\<rparr>)"
  by (auto simp: rx_inv_def intro: owned_log)

lemma rx_inv_upd:
  assumes "rx_inv c a" "i < c" "set (id_list (f (buffer_info (rx_ring a) ! i))) \<subseteq> set (id_list (buffer_info (rx_ring a) ! i))"
    "distinct (id_list (f (buffer_info (rx_ring a) ! i)))"
  shows "rx_inv c (a\<lparr>rx_ring := upd_buffer i f (rx_ring a)\<rparr>)"
proof -
  have wf: "ring_wf (rx_ring a)" "i < ring_count (rx_ring a)" using assms by (simp_all add: rx_inv_def)
  have "own_step i [] a (a\<lparr>rx_ring := upd_buffer i f (rx_ring a)\<rparr>)"
    using assms by (auto simp: own_step_def upd_slot[OF wf] slot_nth[OF wf] simp del: upd_ring_simps)
  then show ?thesis by (rule own_step_inv[OF assms(1,2)])
qed

lemma put_pages_owned: "rx_inv c a \<Longrightarrow> wp (put_ps_pages ps) (\<lambda>_. rx_inv c) a"
proof (induction ps arbitrary: a rule: put_ps_pages.induct)
  case (3 p d ps)
  have "rx_inv c (a\<lparr>klog := Put_page p # Unmap d PAGE_SIZE # klog a\<rparr>)"
    using 3(2) by (auto simp: rx_inv_def intro: owned_log)
  then show ?case by (simp, rule_tac wp_mono[OF 3(1)]) simp_all
qed simp_all

lemma put_rxbuf_owned:
  assumes "rx_inv c a" "i < c"
  shows "wp (e1000_put_rxbuf i) (\<lambda>_. rx_inv c) a"
proof -
  have dma: "wp (if d \<noteq> 0 then log_ev (Unmap d n) \<bind> (\<lambda>_. set_rx (upd_buffer i (\<lambda>b. b\<lparr>buf_dma := 0\<rparr>))) else skip) (\<lambda>_. rx_inv c) b"
    if "rx_inv c b" for d n b
    using rx_inv_upd[OF rx_inv_log[of "Unmap d n" b c] assms(2), of "\<lambda>b. b\<lparr>buf_dma := 0\<rparr>"] that by (auto simp: slot_ids_simps split: option.splits)
  have page: "wp (case p of None \<Rightarrow> skip | Some p \<Rightarrow> log_ev (Put_page p) \<bind> (\<lambda>_. set_rx (upd_page i None))) (\<lambda>_. rx_inv c) b"
    if "rx_inv c b" for p b
    using that by (auto simp: rx_inv_def ring_wf_def upd_page_def intro: owned_log split: option.split)
  have skb: "wp (case s of None \<Rightarrow> skip
      | Some s \<Rightarrow> log_ev (Free_skb s) \<bind> (\<lambda>_. set_rx (upd_buffer i (\<lambda>b. b\<lparr>buf_skb := None\<rparr>)))) (\<lambda>_. rx_inv c) b"
    if "rx_inv c b" for s b
  proof (cases s)
    case (Some t)
    have "rx_inv c (b\<lparr>klog := Free_skb t # klog b\<rparr>)" using that by (simp add: rx_inv_log)
    from rx_inv_upd[OF this assms(2), of "\<lambda>b. b\<lparr>buf_skb := None\<rparr>"] show ?thesis by (simp add: Some slot_ids_simps)
  qed (simp add: that)
  have ps: "wp (put_ps_pages ps) (\<lambda>ps b. rx_inv c (b\<lparr>rx_ring := upd_ps i ps (rx_ring b)\<rparr>)) b" if "rx_inv c b" for ps b
    by (rule wp_mono[OF put_pages_owned[OF that]]) (simp add: rx_inv_other)
  show ?thesis
    unfolding e1000_put_rxbuf_def wp_bind wp_State prod.case
    by (rule wp_mono[OF dma[OF assms(1)]], rule wp_mono[OF page], assumption, rule wp_mono[OF skb], assumption, rule ps)
qed

lemma put_all_owned: "rx_inv c a \<Longrightarrow> set is \<subseteq> {..<c} \<Longrightarrow> wp (for_each is e1000_put_rxbuf) (\<lambda>_. rx_inv c) a"
  by (induction "is" arbitrary: a) (auto intro: wp_mono[OF put_rxbuf_owned])

lemma clean_rx_ring_owned:
  assumes "rx_inv c a" "0 < c"
  shows "wp e1000_clean_rx_ring (\<lambda>_. rx_inv c) a"
proof -
  have c: "ring_count (rx_ring a) = c" using assms by (simp add: rx_inv_def)
  have all: "wp (for_each [0..<c] e1000_put_rxbuf) (\<lambda>_. rx_inv c) a" using assms by (intro put_all_owned) auto
  have tp: "wp (case t of None \<Rightarrow> skip
      | Some skb \<Rightarrow> do { log_ev (Free_skb skb); set_rx (\<lambda>r. r\<lparr>rx_skb_top := None\<rparr>) }) (\<lambda>_. rx_inv c) b"
    if "rx_inv c b" for t b
    using that by (auto simp: rx_inv_def ring_wf_def intro: owned_log split: option.split)
  show ?thesis
    unfolding e1000_clean_rx_ring_def wp_bind wp_State prod.case c
    by (rule wp_mono[OF all], rule wp_mono[OF tp[unfolded wp_bind]], assumption)
      (simp add: wp_hw_op, use assms(2) in \<open>simp add: rx_inv_def ring_wf_def\<close>)
qed

section \<open>Reachable states\<close>

text \<open>
  What happens to the receive ring: the chip writes descriptors, at any time and in any way; a
  poll that does not panic, with any budget; a refill; and the release when the interface goes
  down.
\<close>

inductive rx_step :: "kernel \<Rightarrow> e1000_adapter \<Rightarrow> e1000_adapter \<Rightarrow> bool" for K where
  rx_chip: "length ds = ring_count (rx_ring a) \<Longrightarrow> rx_step K a (a\<lparr>rx_ring := (rx_ring a)\<lparr>ring_desc := ds\<rparr>\<rparr>)"
| rx_poll: "run_state (e1000_clean_rx_irq K n) a = (Some w, b) \<Longrightarrow> rx_step K a b"
| rx_refill: "run_state (e1000_alloc_rx_buffers K n) a = ((), b) \<Longrightarrow> rx_step K a b"
| rx_down: "run_state e1000_clean_rx_ring a = ((), b) \<Longrightarrow> rx_step K a b"

lemma rx_step_inv: "rx_step K a b \<Longrightarrow> rx_inv c a \<Longrightarrow> rx_inv c b"
proof (induction rule: rx_step.induct)
  case (rx_chip ds a)
  then show ?case by (simp add: rx_inv_def ring_wf_def)
next
  case (rx_poll n a w b)
  then show ?case using clean_rx_irq_owned[of c a K n] by (simp add: wp_def)
next
  case (rx_refill n a b)
  then show ?case using alloc_buffers_owned[of c a K n] by (simp add: wp_def)
next
  case (rx_down a b)
  moreover have "0 < c" using rx_down(2) by (auto simp: rx_inv_def ring_wf_def)
  ultimately show ?case using clean_rx_ring_owned[of c a] by (simp add: wp_def)
qed

text \<open>
  C5: no receive buffer is used twice.  Starting from an empty ring, in every state that polls,
  refills, releases and arbitrary writes of the chip reach, with allocations and mappings that
  fail at will, no two slots of the ring hold the same buffer, no buffer was handed to the stack
  twice, and no buffer that was handed over is still in a slot.
\<close>

theorem rx_buffers_owned:
  assumes "ring_wf (rx_ring a)" "slot_ids (buffer_info (rx_ring a)) = []" "given (klog a) = []" "rtranclp (rx_step K) a b"
  shows "distinct (slot_ids (buffer_info (rx_ring b)) @ given (klog b))"
proof -
  have "rx_inv (ring_count (rx_ring a)) a" using assms(1-3) by (simp add: rx_inv_def owned_def)
  with assms(4) have "rx_inv (ring_count (rx_ring a)) b"
    by (induction rule: rtranclp_induct) (auto intro: rx_step_inv)
  then show ?thesis by (simp add: rx_inv_def owned_def)
qed

text \<open>An empty ring of eight, refilled and polled.\<close>

definition rx_empty0 :: e1000_adapter where
  "rx_empty0 = adapter_zero\<lparr>rx_buffer_len := 1522, rx_ring := ring_zero\<lparr>ring_desc := replicate 8 rx_desc_zero,
     ring_count := 8, buffer_info := replicate 8 buffer_zero\<rparr>\<rparr>"

lemma rx_buffers_owned_witness:
  "distinct (slot_ids (buffer_info (rx_ring (exec (e1000_alloc_rx_buffers kernel0 7) rx_empty0))) @
    given (klog (exec (e1000_alloc_rx_buffers kernel0 7) rx_empty0)))"
proof (rule rx_buffers_owned[of rx_empty0 kernel0])
  show "ring_wf (rx_ring rx_empty0)" "slot_ids (buffer_info (rx_ring rx_empty0)) = []" "given (klog rx_empty0) = []"
    by (simp_all add: rx_empty0_def ring_wf_def ring_zero_def adapter_zero_def slot_ids_simps buffer_zero_def numeral_eq_Suc)
  show "rtranclp (rx_step kernel0) rx_empty0 (exec (e1000_alloc_rx_buffers kernel0 7) rx_empty0)"
    by (rule r_into_rtranclp, rule rx_refill[of kernel0 7]) (simp add: prod_eq_iff)
qed

end
