(* ===== verification/NetPages.thy ===== *)
theory NetPages
  imports NetRx
begin

text \<open>
  Reception into pages, netdev.c: jumbo frames, whose parts arrive in one page for each descriptor
  and are chained to one socket buffer, and packet split, where the chip puts the headers into a
  small buffer and the payload into pages.
\<close>

section \<open>Pages and fragments\<close>

text \<open>A new page; like a socket buffer it is named by the length of the log.\<close>

definition alloc_page :: "kernel \<Rightarrow> (e1000_adapter, nat option) state" where
  "alloc_page K = do {
     h \<leftarrow> gets klog;
     (if page_ok K h then do { log_ev (Alloc_page (length h)); ret (Some (length h)) }
      else do {
        modify (\<lambda>a. a\<lparr>alloc_rx_buff_failed := alloc_rx_buff_failed a + 1\<rparr>);
        ret None }) }"

definition map_page :: "kernel \<Rightarrow> nat \<Rightarrow> (e1000_adapter, u64) state" where
  "map_page K p = do {
     h \<leftarrow> gets klog;
     (let dma = dma_map K h (Page_buffer p) PAGE_SIZE in do {
        log_ev (Map (Page_buffer p) PAGE_SIZE dma);
        ret dma }) }"

text \<open>\<open>skb_fill_page_desc\<close> behind the last fragment, with the lengths that follow from it.\<close>

definition add_frag :: "sk_buff \<Rightarrow> nat \<Rightarrow> nat \<Rightarrow> sk_buff" where
  "add_frag skb page n = skb\<lparr>frags := frags skb @ [(page, 0, n)]\<rparr>"

text \<open>\<open>pskb_may_pull\<close>: the buffer with its first \<open>n\<close> bytes in the linear part.\<close>

definition pskb_may_pull :: "kernel \<Rightarrow> sk_buff \<Rightarrow> nat \<Rightarrow> sk_buff option" where
  "pskb_may_pull K skb n =
     (if n \<le> skb_headlen skb then Some skb
      else if skb_len skb < n then None
      else pull_tail K skb (n - skb_headlen skb))"

text \<open>\<open>pskb_trim\<close> of the last \<open>n\<close> bytes; a fragment that becomes empty is dropped.\<close>

fun trim_frags :: "(nat \<times> nat \<times> nat) list \<Rightarrow> nat \<Rightarrow> (nat \<times> nat \<times> nat) list" where
  "trim_frags [] len = []"
| "trim_frags ((p, off, n) # fs) len = (if len = 0 then [] else (p, off, min n len) # trim_frags fs (len - n))"

definition pskb_trim :: "sk_buff \<Rightarrow> nat \<Rightarrow> sk_buff" where
  "pskb_trim skb len = skb\<lparr>linear := take len (linear skb), frags := trim_frags (frags skb) (len - skb_headlen skb)\<rparr>"

section \<open>Refill for jumbo frames\<close>

text \<open>A socket buffer for slot \<open>i\<close>: the one it has, emptied, or a new one.\<close>

definition jumbo_skb :: "kernel \<Rightarrow> nat \<Rightarrow> (e1000_adapter, bool) state" where
  "jumbo_skb K i = do {
     b \<leftarrow> gets (\<lambda>a. buffer_info (rx_ring a) ! i);
     (case buf_skb b of
        Some skb \<Rightarrow> do {
          set_rx (upd_buffer i (\<lambda>b. b\<lparr>buf_skb := Some (skb\<lparr>linear := [], frags := []\<rparr>)\<rparr>));
          ret True }
      | None \<Rightarrow> do {
          skb \<leftarrow> netdev_alloc_skb K 238;
          (case skb of
             None \<Rightarrow> do {
               modify (\<lambda>a. a\<lparr>alloc_rx_buff_failed := alloc_rx_buff_failed a + 1\<rparr>);
               ret False }
           | Some skb \<Rightarrow> do {
               set_rx (upd_buffer i (\<lambda>b. b\<lparr>buf_skb := Some skb\<rparr>));
               ret True }) }) }"

definition jumbo_page :: "kernel \<Rightarrow> nat \<Rightarrow> (e1000_adapter, nat option) state" where
  "jumbo_page K i = do {
     page \<leftarrow> gets (\<lambda>a. buf_page (rx_ring a) ! i);
     (case page of Some p \<Rightarrow> ret (Some p)
      | None \<Rightarrow> do {
          p \<leftarrow> alloc_page K;
          set_rx (upd_page i p);
          ret p }) }"

text \<open>The address of the mapping is not tested for an error.\<close>

definition alloc_jumbo_one :: "kernel \<Rightarrow> nat \<Rightarrow> (e1000_adapter, bool) state" where
  "alloc_jumbo_one K i = do {
     ok \<leftarrow> jumbo_skb K i;
     (if \<not> ok then ret False
      else do {
        page \<leftarrow> jumbo_page K i;
        (case page of None \<Rightarrow> ret False
         | Some p \<Rightarrow> do {
             b \<leftarrow> gets (\<lambda>a. buffer_info (rx_ring a) ! i);
             (if buf_dma b = 0 then do {
                dma \<leftarrow> map_page K p;
                set_rx (upd_buffer i (\<lambda>b. b\<lparr>buf_dma := dma\<rparr>)) }
              else skip);
             b \<leftarrow> gets (\<lambda>a. buffer_info (rx_ring a) ! i);
             set_rx (upd_desc i (\<lambda>d. d\<lparr>rx_addr := buf_dma b\<rparr>));
             ret True }) }) }"

text \<open>
  The loop of both refills over the slots from \<open>i\<close>, and the hand-over of the new tail; \<open>scale\<close> is
  the number of hardware steps for one descriptor.
\<close>

fun refill_loop :: "(nat \<Rightarrow> (e1000_adapter, bool) state) \<Rightarrow> nat \<Rightarrow> nat \<Rightarrow> (e1000_adapter, nat) state" where
  "refill_loop f 0 i = ret i"
| "refill_loop f (Suc n) i = do {
     ok \<leftarrow> f i;
     (if \<not> ok then ret i
      else do {
        next \<leftarrow> gets (\<lambda>a. ring_next (rx_ring a) i);
        refill_loop f n next }) }"

definition refill :: "(nat \<Rightarrow> (e1000_adapter, bool) state) \<Rightarrow> nat \<Rightarrow> nat \<Rightarrow> (e1000_adapter, unit) state" where
  "refill f scale n = do {
     use \<leftarrow> gets (\<lambda>a. next_to_use (rx_ring a));
     i \<leftarrow> refill_loop f n use;
     (if i = use then skip
      else do {
        set_rx (\<lambda>r. r\<lparr>next_to_use := i\<rparr>);
        r \<leftarrow> gets rx_ring;
        hw_op (ew32 (ring_tail r) (of_nat (scale * (if i = 0 then ring_count r - 1 else i - 1)))) }) }"

definition e1000_alloc_jumbo_rx_buffers :: "kernel \<Rightarrow> nat \<Rightarrow> (e1000_adapter, unit) state" where
  "e1000_alloc_jumbo_rx_buffers K n = refill (alloc_jumbo_one K) 1 n"

section \<open>Reclaim of jumbo frames\<close>

text \<open>
  One completed descriptor that is not damaged.  The socket buffer of the first part of a frame
  waits in \<open>rx_skb_top\<close> for the others; the result is the finished frame, if there is one.  \<open>d\<close> and
  \<open>b\<close> are the descriptor and the slot as they were, \<open>skb\<close> and \<open>p\<close> its buffer and page.
\<close>

definition jumbo_part :: "kernel \<Rightarrow> nat \<Rightarrow> e1000_rx_desc \<Rightarrow> e1000_buffer \<Rightarrow> sk_buff \<Rightarrow> nat \<Rightarrow>
    (e1000_adapter, sk_buff option) state" where
  "jumbo_part K i d b skb p = do {
     chain \<leftarrow> gets (\<lambda>a. rx_skb_top (rx_ring a));
     cb \<leftarrow> gets copybreak;
     (let n = unat (rx_length d); last_part = rx_status d AND RXD_STAT_EOP \<noteq> 0 in
      case chain of
        Some t \<Rightarrow> do {
          set_rx (upd_buffer i (\<lambda>b. b\<lparr>buf_skb := Some skb\<rparr>));
          set_rx (upd_page i None);
          set_rx (\<lambda>r. r\<lparr>rx_skb_top := (if last_part then None else Some (add_frag t p n))\<rparr>);
          ret (if last_part then Some (add_frag t p n) else None) }
      | None \<Rightarrow>
          (if last_part \<and> n \<le> cb \<and> n \<le> tailroom K 236
           then ret (Some (skb\<lparr>linear := linear skb @ rx_data K (buf_dma b) n\<rparr>))
           else do {
             set_rx (upd_page i None);
             (if last_part then ret (Some (add_frag skb p n))
              else do { set_rx (\<lambda>r. r\<lparr>rx_skb_top := Some (add_frag skb p n)\<rparr>); ret None }) })) }"

text \<open>A damaged last part: the slot keeps its buffer and its page, a chain is thrown away.\<close>

definition jumbo_drop :: "nat \<Rightarrow> sk_buff option \<Rightarrow> (e1000_adapter, unit) state" where
  "jumbo_drop i skb = do {
     set_rx (upd_buffer i (\<lambda>b. b\<lparr>buf_skb := skb\<rparr>));
     chain \<leftarrow> gets (\<lambda>a. rx_skb_top (rx_ring a));
     (case chain of None \<Rightarrow> skip | Some t \<Rightarrow> log_ev (Free_skb t));
     set_rx (\<lambda>r. r\<lparr>rx_skb_top := None\<rparr>) }"

text \<open>A finished frame; the result is the packets and bytes it counts for.\<close>

definition jumbo_finish :: "kernel \<Rightarrow> e1000_rx_desc \<Rightarrow> sk_buff \<Rightarrow> (e1000_adapter, nat \<times> nat) state" where
  "jumbo_finish K d skb = do {
     skb \<leftarrow> e1000_rx_checksum (ucast (rx_status d) OR push_bit 24 (ucast (rx_errors d))) (ucast (rx_csum d)) skb;
     (case pskb_may_pull K skb 14 of
        None \<Rightarrow> log_ev (Free_skb skb)
      | Some skb \<Rightarrow> e1000_receive_skb K skb (rx_status d) (rx_special d));
     ret (1, skb_len skb) }"

text \<open>\<open>None\<close> is the access through a missing buffer or page.\<close>

definition jumbo_one :: "kernel \<Rightarrow> nat \<Rightarrow> (e1000_adapter, (nat \<times> nat) option) state" where
  "jumbo_one K i = do {
     d \<leftarrow> gets (\<lambda>a. ring_desc (rx_ring a) ! i);
     b \<leftarrow> gets (\<lambda>a. buffer_info (rx_ring a) ! i);
     page \<leftarrow> gets (\<lambda>a. buf_page (rx_ring a) ! i);
     set_rx (upd_buffer i (\<lambda>b. b\<lparr>buf_skb := None\<rparr>));
     log_ev (Unmap (buf_dma b) PAGE_SIZE);
     set_rx (upd_buffer i (\<lambda>b. b\<lparr>buf_dma := 0\<rparr>));
     r \<leftarrow> (if rx_status d AND RXD_STAT_EOP \<noteq> 0 \<and> rx_errors d AND RXD_ERR_FRAME_ERR_MASK \<noteq> 0
           then do { jumbo_drop i (buf_skb b); ret (Some (0, 0)) }
           else case (buf_skb b, page) of
             (Some skb, Some p) \<Rightarrow> do {
               frame \<leftarrow> jumbo_part K i d b skb p;
               (case frame of None \<Rightarrow> ret (Some (0, 0))
                | Some skb \<Rightarrow> do { r \<leftarrow> jumbo_finish K d skb; ret (Some r) }) }
           | _ \<Rightarrow> ret None);
     (if r = None then skip else set_rx (upd_desc i (\<lambda>d. d\<lparr>rx_status := 0\<rparr>)));
     ret r }"

text \<open>
  The loop of both routines: \<open>done\<close> is whether the chip has written the descriptor of a slot, \<open>one\<close>
  the work on it, \<open>alloc\<close> the refill.
\<close>

fun rx_page_loop :: "(e1000_adapter \<Rightarrow> nat \<Rightarrow> bool) \<Rightarrow> (nat \<Rightarrow> (e1000_adapter, (nat \<times> nat) option) state) \<Rightarrow>
    (nat \<Rightarrow> (e1000_adapter, unit) state) \<Rightarrow> nat \<Rightarrow> nat \<Rightarrow> nat \<Rightarrow> nat \<Rightarrow> nat \<Rightarrow>
    (e1000_adapter, (nat \<times> nat \<times> nat \<times> nat) option) state" where
  "rx_page_loop written one alloc 0 i cleaned packets bytes = ret (Some (i, 0, packets, bytes))"
| "rx_page_loop written one alloc (Suc left) i cleaned packets bytes = do {
     dd \<leftarrow> gets (\<lambda>a. written a i);
     (if \<not> dd then ret (Some (i, Suc left, packets, bytes))
      else do {
        r \<leftarrow> one i;
        (case r of None \<Rightarrow> ret None
         | Some (p, n) \<Rightarrow> do {
             next \<leftarrow> gets (\<lambda>a. ring_next (rx_ring a) i);
             (if cleaned + 1 \<ge> E1000_RX_BUFFER_WRITE then do {
                alloc (cleaned + 1);
                rx_page_loop written one alloc left next 0 (packets + p) (bytes + n) }
              else rx_page_loop written one alloc left next (cleaned + 1) (packets + p) (bytes + n)) }) }) }"

definition page_clean :: "(e1000_adapter \<Rightarrow> nat \<Rightarrow> bool) \<Rightarrow> (nat \<Rightarrow> (e1000_adapter, (nat \<times> nat) option) state) \<Rightarrow>
    (nat \<Rightarrow> (e1000_adapter, unit) state) \<Rightarrow> nat \<Rightarrow> (e1000_adapter, nat option) state" where
  "page_clean written one alloc budget = do {
     i \<leftarrow> gets (\<lambda>a. next_to_clean (rx_ring a));
     r \<leftarrow> rx_page_loop written one alloc budget i 0 0 0;
     (case r of None \<Rightarrow> ret None
      | Some (i, left, packets, bytes) \<Rightarrow> do {
          set_rx (\<lambda>r. r\<lparr>next_to_clean := i\<rparr>);
          unused \<leftarrow> gets (\<lambda>a. e1000_desc_unused (rx_ring a));
          (if unused = 0 then skip else alloc (nat unused));
          modify (\<lambda>a. a\<lparr>total_rx_bytes := total_rx_bytes a + of_nat bytes,
            total_rx_packets := total_rx_packets a + of_nat packets,
            net_rx_bytes := net_rx_bytes a + of_nat bytes,
            net_rx_packets := net_rx_packets a + of_nat packets\<rparr>);
          ret (Some (budget - left)) }) }"

definition e1000_clean_jumbo_rx_irq :: "kernel \<Rightarrow> nat \<Rightarrow> (e1000_adapter, nat option) state" where
  "e1000_clean_jumbo_rx_irq K budget =
     page_clean (\<lambda>a i. rx_status (ring_desc (rx_ring a) ! i) AND RXD_STAT_DD \<noteq> 0) (jumbo_one K)
       (e1000_alloc_jumbo_rx_buffers K) budget"

section \<open>Packet split: the descriptor\<close>

text \<open>Word 0 of a written descriptor ends with the checksum, word 1 is the status, the length of
  the header buffer and the VLAN tag, word 2 the header status and the lengths of three pages.\<close>

definition psd_staterr :: "u64 list \<Rightarrow> u32" where "psd_staterr d = ucast (d ! 1)"
definition psd_length0 :: "u64 list \<Rightarrow> u16" where "psd_length0 d = ucast (drop_bit 32 (d ! 1))"
definition psd_vlan :: "u64 list \<Rightarrow> u16" where "psd_vlan d = ucast (drop_bit 48 (d ! 1))"
definition psd_csum :: "u64 list \<Rightarrow> u16" where "psd_csum d = ucast (drop_bit 48 (d ! 0))"
definition psd_header_status :: "u64 list \<Rightarrow> u16" where "psd_header_status d = ucast (d ! 2)"
definition psd_length :: "u64 list \<Rightarrow> nat \<Rightarrow> u16" where "psd_length d j = ucast (drop_bit (16 * (j + 1)) (d ! 2))"

definition upd_psd :: "nat \<Rightarrow> (u64 list \<Rightarrow> u64 list) \<Rightarrow> 'd e1000_ring \<Rightarrow> 'd e1000_ring" where
  "upd_psd i f r = r\<lparr>ps_desc := (ps_desc r)[i := f (ps_desc r ! i)]\<rparr>"

lemma upd_psd_simps [simp]: "ring_count (upd_psd i f r) = ring_count r" "buffer_info (upd_psd i f r) = buffer_info r"
  by (simp_all add: upd_psd_def)

definition RXDEXT_ERR_FRAME_ERR_MASK :: u32 where
  "RXDEXT_ERR_FRAME_ERR_MASK = 0x01000000 OR 0x02000000 OR 0x04000000 OR 0x10000000 OR 0x80000000"

section \<open>Packet split: refill\<close>

text \<open>A page whose mapping failed stays in the list with the address it got.\<close>

definition ps_page_fill :: "kernel \<Rightarrow> nat \<Rightarrow> nat \<Rightarrow> (e1000_adapter, bool) state" where
  "ps_page_fill K i j = do {
     ps \<leftarrow> gets (\<lambda>a. ps_pages (rx_ring a) ! i);
     (case fst (ps ! j) of Some p \<Rightarrow> ret True
      | None \<Rightarrow> do {
          p \<leftarrow> alloc_page K;
          (case p of None \<Rightarrow> ret False
           | Some p \<Rightarrow> do {
               dma \<leftarrow> map_page K p;
               set_rx (upd_ps i (ps[j := (Some p, dma)]));
               (if dma_error K dma then do {
                  modify (\<lambda>a. a\<lparr>rx_dma_failed := rx_dma_failed a + 1\<rparr>);
                  ret False }
                else ret True) }) }) }"

fun ps_fill :: "kernel \<Rightarrow> nat \<Rightarrow> nat list \<Rightarrow> (e1000_adapter, bool) state" where
  "ps_fill K i [] = ret True"
| "ps_fill K i (j # js) = do {
     n \<leftarrow> gets (\<lambda>a. unat (rx_ps_pages a));
     (if n \<le> j then do {
        set_rx (upd_psd i (\<lambda>d. d[j + 1 := - 1]));
        ps_fill K i js }
      else do {
        ok \<leftarrow> ps_page_fill K i j;
        (if \<not> ok then ret False
         else do {
           ps \<leftarrow> gets (\<lambda>a. ps_pages (rx_ring a) ! i);
           set_rx (upd_psd i (\<lambda>d. d[j + 1 := snd (ps ! j)]));
           ps_fill K i js }) }) }"

definition alloc_ps_one :: "kernel \<Rightarrow> nat \<Rightarrow> (e1000_adapter, bool) state" where
  "alloc_ps_one K i = do {
     ok \<leftarrow> ps_fill K i [0, 1, 2];
     (if \<not> ok then ret False
      else do {
        len \<leftarrow> gets (\<lambda>a. unat (rx_ps_bsize0 a));
        skb \<leftarrow> netdev_alloc_skb K (len + 2);
        (case skb of
           None \<Rightarrow> do {
             modify (\<lambda>a. a\<lparr>alloc_rx_buff_failed := alloc_rx_buff_failed a + 1\<rparr>);
             ret False }
         | Some skb \<Rightarrow> do {
             h \<leftarrow> gets klog;
             (let dma = dma_map K h (Rx_buffer (skb_id skb)) len in do {
                log_ev (Map (Rx_buffer (skb_id skb)) len dma);
                set_rx (upd_buffer i (\<lambda>b. b\<lparr>buf_skb := Some skb, buf_dma := dma\<rparr>));
                (if dma_error K dma then do {
                   modify (\<lambda>a. a\<lparr>rx_dma_failed := rx_dma_failed a + 1\<rparr>);
                   log_ev (Free_skb skb);
                   set_rx (upd_buffer i (\<lambda>b. b\<lparr>buf_skb := None\<rparr>));
                   ret False }
                 else do {
                   set_rx (upd_psd i (\<lambda>d. d[0 := dma]));
                   ret True }) }) }) }) }"

definition e1000_alloc_rx_buffers_ps :: "kernel \<Rightarrow> nat \<Rightarrow> (e1000_adapter, unit) state" where
  "e1000_alloc_rx_buffers_ps K n = refill (alloc_ps_one K) 2 n"

section \<open>Packet split: reclaim\<close>

text \<open>
  The pages with data are moved to the frame, up to the first page without; a slot the chip has written
  has all its pages.
\<close>

fun ps_take :: "nat \<Rightarrow> u64 list \<Rightarrow> nat list \<Rightarrow> sk_buff \<Rightarrow> (e1000_adapter, sk_buff) state" where
  "ps_take i d [] skb = ret skb"
| "ps_take i d (j # js) skb =
     (let n = unat (psd_length d j) in
      if n = 0 then ret skb
      else do {
        ps \<leftarrow> gets (\<lambda>a. ps_pages (rx_ring a) ! i);
        log_ev (Unmap (snd (ps ! j)) PAGE_SIZE);
        set_rx (upd_ps i (ps[j := (None, 0)]));
        ps_take i d js (case fst (ps ! j) of None \<Rightarrow> skb | Some p \<Rightarrow> add_frag skb p n) })"

text \<open>A short payload is copied behind the header and the page stays in the slot.\<close>

definition ps_payload :: "kernel \<Rightarrow> nat \<Rightarrow> u64 list \<Rightarrow> sk_buff \<Rightarrow> (e1000_adapter, sk_buff) state" where
  "ps_payload K i d skb = do {
     a \<leftarrow> gets (\<lambda>a. a);
     (let n = unat (psd_length0 d); l1 = unat (psd_length d 0); crc = (if flags2 a AND 1 = 0 then 4 else 0) in
      if l1 \<noteq> 0 \<and> l1 \<le> copybreak a \<and> n + l1 \<le> unat (rx_ps_bsize0 a)
      then ret (skb\<lparr>linear := take (n + l1 - crc) (linear skb @ rx_data K (snd (ps_pages (rx_ring a) ! i ! 0)) l1)\<rparr>)
      else do {
        skb \<leftarrow> ps_take i d [0, 1, 2] skb;
        ret (if crc = 0 then skb else pskb_trim skb (skb_len skb - crc)) }) }"

text \<open>\<open>None\<close> is the access through a missing buffer, and the panic of \<open>skb_put\<close>.\<close>

definition ps_one :: "kernel \<Rightarrow> nat \<Rightarrow> (e1000_adapter, (nat \<times> nat) option) state" where
  "ps_one K i = do {
     d \<leftarrow> gets (\<lambda>a. ps_desc (rx_ring a) ! i);
     b \<leftarrow> gets (\<lambda>a. buffer_info (rx_ring a) ! i);
     len \<leftarrow> gets (\<lambda>a. unat (rx_ps_bsize0 a));
     (let staterr = psd_staterr d; n = unat (psd_length0 d) in
      case buf_skb b of None \<Rightarrow> ret None
      | Some skb \<Rightarrow> do {
          log_ev (Unmap (buf_dma b) len);
          set_rx (upd_buffer i (\<lambda>b. b\<lparr>buf_dma := 0\<rparr>));
          r \<leftarrow> (if staterr AND 0x02 = 0 \<or> staterr AND RXDEXT_ERR_FRAME_ERR_MASK \<noteq> 0 \<or> n = 0
                then do { log_ev (Free_skb skb); ret (Some (0, 0)) }
                else if tailroom K len < n then ret None
                else do {
                  skb \<leftarrow> ps_payload K i d (skb\<lparr>linear := rx_data K (buf_dma b) n\<rparr>);
                  skb \<leftarrow> e1000_rx_checksum staterr (ucast (psd_csum d)) skb;
                  (if psd_header_status d AND 0x8000 \<noteq> 0
                   then modify (\<lambda>a. a\<lparr>rx_hdr_split := rx_hdr_split a + 1\<rparr>) else skip);
                  e1000_receive_skb K skb (ucast staterr) (psd_vlan d);
                  ret (Some (1, skb_len skb)) });
          (if r = None then skip
           else do {
             set_rx (upd_psd i (\<lambda>d. d[1 := d ! 1 AND NOT 0xFF]));
             set_rx (upd_buffer i (\<lambda>b. b\<lparr>buf_skb := None\<rparr>)) });
          ret r }) }"

definition e1000_clean_rx_irq_ps :: "kernel \<Rightarrow> nat \<Rightarrow> (e1000_adapter, nat option) state" where
  "e1000_clean_rx_irq_ps K budget =
     page_clean (\<lambda>a i. psd_staterr (ps_desc (rx_ring a) ! i) AND 0x01 \<noteq> 0) (ps_one K) (e1000_alloc_rx_buffers_ps K) budget"

section \<open>The routine in use\<close>

text \<open>The function pointers \<open>clean_rx\<close> and \<open>alloc_rx_buf\<close>, which are always set together.\<close>

definition rx_clean :: "kernel \<Rightarrow> nat \<Rightarrow> (e1000_adapter, nat option) state" where
  "rx_clean K budget = do {
     r \<leftarrow> gets clean_rx;
     (case r of Rx_legacy \<Rightarrow> e1000_clean_rx_irq K budget
      | Rx_jumbo \<Rightarrow> e1000_clean_jumbo_rx_irq K budget
      | Rx_ps \<Rightarrow> e1000_clean_rx_irq_ps K budget) }"

definition rx_alloc :: "kernel \<Rightarrow> rx_routine \<Rightarrow> nat \<Rightarrow> (e1000_adapter, unit) state" where
  "rx_alloc K r n = (case r of Rx_legacy \<Rightarrow> e1000_alloc_rx_buffers K n
     | Rx_jumbo \<Rightarrow> e1000_alloc_jumbo_rx_buffers K n
     | Rx_ps \<Rightarrow> e1000_alloc_rx_buffers_ps K n)"

end
