(* ===== verification/PageOwn.thy ===== *)
theory PageOwn
  imports NetPages "HOL-Library.Multiset"
begin

text \<open>
  Ownership of pages: whatever routine receives, a page is in one slot of the ring, in the chain of
  a frame that is not complete, in a frame that left the driver, or put back, and in one of these
  places only.
\<close>

section \<open>Where pages are\<close>

definition opt_ms :: "nat option \<Rightarrow> nat multiset" where
  "opt_ms p = (case p of None \<Rightarrow> {#} | Some x \<Rightarrow> {#x#})"

definition skb_pages :: "sk_buff \<Rightarrow> nat multiset" where
  "skb_pages s = mset (map fst (frags s))"

definition skb_opt_pages :: "sk_buff option \<Rightarrow> nat multiset" where
  "skb_opt_pages s = (case s of None \<Rightarrow> {#} | Some s \<Rightarrow> skb_pages s)"

definition ps_list_pages :: "(nat option \<times> u64) list \<Rightarrow> nat multiset" where
  "ps_list_pages ps = sum_list (map (opt_ms \<circ> fst) ps)"

text \<open>The pages of the slots, of the other slots, and of one slot.\<close>

definition lists_pages :: "nat option list \<Rightarrow> (nat option \<times> u64) list list \<Rightarrow> nat multiset" where
  "lists_pages pages pss = sum_list (map opt_ms pages) + sum_list (map ps_list_pages pss)"

definition slots_pages :: "e1000_rx_desc e1000_ring \<Rightarrow> nat multiset" where
  "slots_pages r = lists_pages (buf_page r) (ps_pages r)"

definition other_pages :: "nat \<Rightarrow> e1000_rx_desc e1000_ring \<Rightarrow> nat multiset" where
  "other_pages i r =
     lists_pages (take i (buf_page r)) (take i (ps_pages r)) +
     lists_pages (drop (Suc i) (buf_page r)) (drop (Suc i) (ps_pages r))"

definition slot_pages :: "nat \<Rightarrow> e1000_rx_desc e1000_ring \<Rightarrow> nat multiset" where
  "slot_pages i r = opt_ms (buf_page r ! i) + ps_list_pages (ps_pages r ! i)"

text \<open>The pages that left the driver or were put back, and those it has got, with their identities.\<close>

fun gone_pages :: "kev list \<Rightarrow> nat multiset" where
  "gone_pages [] = {#}"
| "gone_pages (Receive s v # h) = skb_pages s + gone_pages h"
| "gone_pages (Free_skb s # h) = skb_pages s + gone_pages h"
| "gone_pages (Put_page p # h) = {#p#} + gone_pages h"
| "gone_pages (e # h) = gone_pages h"

fun made_pages :: "kev list \<Rightarrow> nat multiset" where
  "made_pages [] = {#}"
| "made_pages (Alloc_page p # h) = {#p#} + made_pages h"
| "made_pages (e # h) = made_pages h"

definition held_pages :: "e1000_adapter \<Rightarrow> nat multiset" where
  "held_pages a = slots_pages (rx_ring a) + skb_opt_pages (rx_skb_top (rx_ring a)) + gone_pages (klog a)"

text \<open>The identity of a page is the length of the log when it was allocated.\<close>

fun page_log :: "kev list \<Rightarrow> bool" where
  "page_log [] = True"
| "page_log (e # h) = (page_log h \<and> (case e of Alloc_page p \<Rightarrow> p = length h | _ \<Rightarrow> True))"

lemma made_bound: "page_log h \<Longrightarrow> p \<in># made_pages h \<Longrightarrow> p < length h"
  by (induction h rule: made_pages.induct) auto

lemma made_once: "page_log h \<Longrightarrow> count (made_pages h) p \<le> 1"
proof (induction h rule: made_pages.induct)
  case (2 q h)
  then show ?case using made_bound[of h q] by (auto simp: count_eq_zero_iff)
qed auto

lemma split_nth: "i < length xs \<Longrightarrow> sum_list (map f xs) = sum_list (map f (take i xs)) + (f (xs ! i) + sum_list (map f (drop (Suc i) xs)))"
  for f :: "'a \<Rightarrow> nat multiset"
  by (metis id_take_nth_drop list.simps(9) map_append sum_list.Cons sum_list_append)

section \<open>The invariant\<close>

text \<open>The buffers in the slots have no pages of their own.\<close>

definition rings_shaped :: "nat \<Rightarrow> e1000_rx_desc e1000_ring \<Rightarrow> bool" where
  "rings_shaped c r \<longleftrightarrow> ring_count r = c \<and> length (buffer_info r) = c \<and> length (buf_page r) = c \<and> length (ps_pages r) = c \<and>
     (\<forall>ps\<in>set (ps_pages r). length ps = 3) \<and> (\<forall>b\<in>set (buffer_info r). skb_opt_pages (buf_skb b) = {#}) \<and>
     next_to_use r < c \<and> next_to_clean r < c"

text \<open>\<open>X\<close> are the pages of a frame the driver works on.\<close>

definition page_hold :: "nat \<Rightarrow> nat multiset \<Rightarrow> e1000_adapter \<Rightarrow> bool" where
  "page_hold c X a \<longleftrightarrow> rings_shaped c (rx_ring a) \<and> page_log (klog a) \<and> held_pages a + X \<subseteq># made_pages (klog a)"

abbreviation page_inv :: "nat \<Rightarrow> e1000_adapter \<Rightarrow> bool" where
  "page_inv c \<equiv> page_hold c {#}"

lemma slots_split:
  assumes "rings_shaped c r" "i < c"
  shows "slots_pages r = other_pages i r + slot_pages i r"
  using assms split_nth[of i "buf_page r" opt_ms] split_nth[of i "ps_pages r" ps_list_pages]
  by (simp add: slots_pages_def other_pages_def slot_pages_def lists_pages_def rings_shaped_def ac_simps)

text \<open>The invariant seen from slot \<open>i\<close>.\<close>

lemma page_hold_at:
  assumes "i < c"
  shows "page_hold c X a \<longleftrightarrow> rings_shaped c (rx_ring a) \<and> page_log (klog a) \<and>
    other_pages i (rx_ring a) + slot_pages i (rx_ring a) + skb_opt_pages (rx_skb_top (rx_ring a)) + gone_pages (klog a) + X
      \<subseteq># made_pages (klog a)"
  using slots_split[OF _ assms] by (auto simp: page_hold_def held_pages_def)

lemma page_hold_less: "page_hold c X a \<Longrightarrow> Y \<subseteq># X \<Longrightarrow> page_hold c Y a"
  by (auto simp: page_hold_def intro: subset_mset.order_trans[rotated])

named_theorems page_simps

lemma shaped_upd [page_simps]:
  "rings_shaped c r \<Longrightarrow> skb_opt_pages (buf_skb (f (buffer_info r ! i))) = {#} \<Longrightarrow> rings_shaped c (upd_buffer i f r)"
  "rings_shaped c (upd_page i p r) = rings_shaped c r"
  "rings_shaped c (upd_desc i g r) = rings_shaped c r" "rings_shaped c (upd_psd i h r) = rings_shaped c r"
  "rings_shaped c (r\<lparr>rx_skb_top := t\<rparr>) = rings_shaped c r"
  "rings_shaped c r \<Longrightarrow> length ps = 3 \<Longrightarrow> rings_shaped c (upd_ps i ps r)"
  by (auto simp: rings_shaped_def upd_buffer_def upd_page_def upd_desc_def upd_psd_def upd_ps_def dest: set_update_subset_insert[THEN subsetD])

lemma other_upd [page_simps]:
  "other_pages i (upd_buffer i f r) = other_pages i r" "other_pages i (upd_page i p r) = other_pages i r"
  "other_pages i (upd_desc i g r) = other_pages i r" "other_pages i (upd_psd i h r) = other_pages i r"
  "other_pages i (r\<lparr>rx_skb_top := t\<rparr>) = other_pages i r" "other_pages i (upd_ps i ps r) = other_pages i r"
  by (simp_all add: other_pages_def upd_buffer_def upd_page_def upd_desc_def upd_psd_def upd_ps_def)

lemma top_upd [page_simps]:
  "rx_skb_top (upd_buffer i f r) = rx_skb_top r" "rx_skb_top (upd_page i p r) = rx_skb_top r"
  "rx_skb_top (upd_desc i g r) = rx_skb_top r" "rx_skb_top (upd_psd i h r) = rx_skb_top r" "rx_skb_top (upd_ps i ps r) = rx_skb_top r"
  by (simp_all add: upd_buffer_def upd_page_def upd_desc_def upd_psd_def upd_ps_def)

lemma fields_upd [page_simps]:
  "buf_page (upd_buffer i f r) = buf_page r" "ps_pages (upd_buffer i f r) = ps_pages r"
  "buf_page (upd_desc i g r) = buf_page r" "ps_pages (upd_desc i g r) = ps_pages r"
  "buf_page (upd_psd i h r) = buf_page r" "ps_pages (upd_psd i h r) = ps_pages r"
  "buf_page (upd_page i p r) = (buf_page r)[i := p]" "ps_pages (upd_page i p r) = ps_pages r"
  "buf_page (upd_ps i ps r) = buf_page r" "ps_pages (upd_ps i ps r) = (ps_pages r)[i := ps]"
  by (simp_all add: upd_buffer_def upd_page_def upd_desc_def upd_psd_def upd_ps_def)

lemma ms_simps [page_simps]: "opt_ms None = {#}" "opt_ms (Some p) = {#p#}" "skb_opt_pages None = {#}" "skb_opt_pages (Some s) = skb_pages s"
  by (simp_all add: opt_ms_def skb_opt_pages_def)

lemma skb_pages_simps [page_simps]:
  "skb_pages (s\<lparr>linear := l\<rparr>) = skb_pages s" "skb_pages (s\<lparr>summed := sm, skb_csum := cs\<rparr>) = skb_pages s"
  "skb_pages (s\<lparr>protocol := pr\<rparr>) = skb_pages s" "skb_pages (s\<lparr>summed := sm\<rparr>) = skb_pages s" "skb_pages (rx_skb n) = {#}" "skb_pages (s\<lparr>linear := l, frags := []\<rparr>) = {#}"
  "skb_pages (add_frag s p n) = add_mset p (skb_pages s)"
  by (simp_all add: skb_pages_def rx_skb_def add_frag_def)

text \<open>The invariant with the pages that were dropped, so that operations are equations.\<close>

definition slot_view :: "nat \<Rightarrow> nat \<Rightarrow> nat multiset \<Rightarrow> nat multiset \<Rightarrow> e1000_adapter \<Rightarrow> bool" where
  "slot_view c i X D a \<longleftrightarrow> rings_shaped c (rx_ring a) \<and> length (buffer_info (rx_ring a)) = c \<and>
     length (buf_page (rx_ring a)) = c \<and> length (ps_pages (rx_ring a)) = c \<and> length (ps_pages (rx_ring a) ! i) = 3 \<and>
     skb_opt_pages (buf_skb (buffer_info (rx_ring a) ! i)) = {#} \<and> page_log (klog a) \<and>
     made_pages (klog a) = other_pages i (rx_ring a) + slot_pages i (rx_ring a) +
       skb_opt_pages (rx_skb_top (rx_ring a)) + gone_pages (klog a) + X + D"

lemma page_holdE:
  assumes "page_hold c X a" "i < c"
  obtains D where "slot_view c i X D a"
  using assms by (auto simp: page_hold_at[OF assms(2)] mset_subset_eq_exists_conv rings_shaped_def slot_view_def)

section \<open>Refills\<close>

lemma legacy_fill_page:
  assumes "page_inv c a" "i < c"
  shows "wp (alloc_rx_one K i) (\<lambda>_. page_inv c) a"
proof -
  obtain D where inv: "slot_view c i {#} D a"
    by (rule page_holdE[OF assms])
  show ?thesis
    by (cases "buf_skb (buffer_info (rx_ring a) ! i)")
      (insert inv[unfolded slot_view_def], simp_all add: assms(2) alloc_rx_one_def rx_slot_skb_def netdev_alloc_skb_def Let_def page_hold_at[OF assms(2)]
        page_simps slot_pages_def)
qed

lemma jumbo_fill_page:
  assumes "page_inv c a" "i < c"
  shows "wp (alloc_jumbo_one K i) (\<lambda>_. page_inv c) a"
proof -
  obtain D where inv: "slot_view c i {#} D a"
    by (rule page_holdE[OF assms])
  show ?thesis
    by (cases "buf_skb (buffer_info (rx_ring a) ! i)"; cases "buf_page (rx_ring a) ! i")
      (insert inv[unfolded slot_view_def], simp_all add: assms(2) alloc_jumbo_one_def jumbo_skb_def jumbo_page_def alloc_page_def map_page_def
        netdev_alloc_skb_def Let_def page_hold_at[OF assms(2)] page_simps slot_pages_def)
qed

section \<open>Frames\<close>

lemma checksum_hold:
  assumes "page_hold c (skb_pages skb) a"
  shows "wp (e1000_rx_checksum st cs skb) (\<lambda>skb. page_hold c (skb_pages skb)) a"
proof -
  obtain smd v good where "rx_csum_of st cs = (smd, v, good)" using prod_cases3 by blast
  then show ?thesis
    using assms by (auto simp: e1000_rx_checksum_def page_simps page_hold_def held_pages_def split: option.split bool.split)
qed

lemma receive_hold: "page_hold c (skb_pages skb) a \<Longrightarrow> wp (e1000_receive_skb K skb st vlan) (\<lambda>_. page_inv c) a"
  by (simp add: e1000_receive_skb_def page_simps page_hold_def held_pages_def ac_simps)

lemma free_hold: "page_hold c (skb_pages skb) a \<Longrightarrow> page_inv c (a\<lparr>klog := Free_skb skb # klog a\<rparr>)"
  by (simp add: page_hold_def held_pages_def ac_simps)

definition pull_keeps :: "kernel \<Rightarrow> bool" where
  "pull_keeps K \<longleftrightarrow> (\<forall>s n t. pull_tail K s n = Some t \<longrightarrow> skb_pages t \<subseteq># skb_pages s)"

lemma finish_hold:
  assumes "pull_keeps K" "page_hold c (skb_pages skb) a"
  shows "wp (jumbo_finish K d skb) (\<lambda>_. page_inv c) a"
proof -
  have pull: "skb_pages t \<subseteq># skb_pages s" if "pskb_may_pull K s n = Some t" for s n t
    using that assms(1) by (auto simp: pskb_may_pull_def pull_keeps_def split: if_splits)
  have rest: "wp (case pskb_may_pull K s 14 of None \<Rightarrow> log_ev (Free_skb s) | Some t \<Rightarrow> e1000_receive_skb K t st vlan) (\<lambda>_. page_inv c) b"
    if "page_hold c (skb_pages s) b" for s b st vlan
    using that by (auto simp: free_hold intro: receive_hold page_hold_less pull split: option.split)
  show ?thesis
    unfolding jumbo_finish_def wp_bind
    by (rule wp_mono[OF checksum_hold[OF assms(2)]], rule wp_mono[OF rest], assumption) simp
qed

lemma jumbo_part_hold:
  assumes "page_inv c a" "i < c" "buf_page (rx_ring a) ! i = Some p" "skb_pages skb = {#}"
  shows "wp (jumbo_part K i d b skb p) (\<lambda>r. page_hold c (skb_opt_pages r)) a"
proof -
  obtain D where inv: "slot_view c i {#} D a"
    by (rule page_holdE[OF assms(1,2)])
  show ?thesis
    by (cases "rx_skb_top (rx_ring a)")
      (insert inv[unfolded slot_view_def], simp_all add: assms(2-4) jumbo_part_def Let_def page_hold_at[OF assms(2)] page_simps slot_pages_def)
qed

lemma jumbo_drop_hold:
  assumes "page_inv c a" "i < c" "skb_opt_pages skb = {#}"
  shows "wp (jumbo_drop i skb) (\<lambda>_. page_inv c) a"
proof -
  obtain D where inv: "slot_view c i {#} D a"
    by (rule page_holdE[OF assms(1,2)])
  show ?thesis
    by (cases "rx_skb_top (rx_ring a)")
      (insert inv[unfolded slot_view_def], simp_all add: assms(2,3) jumbo_drop_def page_hold_at[OF assms(2)] page_simps slot_pages_def)
qed

lemma upd_buffer_hold:
  assumes "page_hold c X a" "i < c" "skb_opt_pages (buf_skb (f (buffer_info (rx_ring a) ! i))) = {#}"
  shows "page_hold c X (a\<lparr>rx_ring := upd_buffer i f (rx_ring a)\<rparr>)"
  using assms by (simp add: page_hold_def held_pages_def slots_pages_def page_simps)

lemma slot_no_pages: "page_hold c X a \<Longrightarrow> i < c \<Longrightarrow> skb_opt_pages (buf_skb (buffer_info (rx_ring a) ! i)) = {#}"
  by (simp add: page_hold_def rings_shaped_def)

text \<open>The buffer of a slot is taken out.\<close>

lemma take_hold:
  assumes "page_inv c a" "i < c"
  shows "page_inv c (a\<lparr>klog := Unmap d n # klog a, rx_ring := upd_buffer i (\<lambda>b. b\<lparr>buf_dma := 0\<rparr>)
       (upd_buffer i (\<lambda>b. b\<lparr>buf_skb := None\<rparr>) (rx_ring a))\<rparr>)"
proof -
  obtain D where inv: "slot_view c i {#} D a"
    by (rule page_holdE[OF assms])
  show ?thesis
    by (simp add: inv[unfolded slot_view_def] assms(2) page_hold_at[OF assms(2)] page_simps slot_pages_def)
qed

lemma upd_desc_hold: "page_hold c X (a\<lparr>rx_ring := upd_desc i f (rx_ring a)\<rparr>) = page_hold c X a"
  "page_hold c X (a\<lparr>rx_ring := upd_psd i g (rx_ring a)\<rparr>) = page_hold c X a"
  by (simp_all add: page_hold_def held_pages_def slots_pages_def page_simps)

lemma wp_state_eq: "s = t \<Longrightarrow> wp m Q t \<Longrightarrow> wp m Q s"
  by simp

lemma jumbo_one_page:
  assumes "pull_keeps K" "page_inv c a" "i < c"
  shows "wp (jumbo_one K i) (\<lambda>r b. r \<noteq> None \<longrightarrow> page_inv c b) a"
proof -
  let ?b = "buffer_info (rx_ring a) ! i" and ?d = "ring_desc (rx_ring a) ! i"
  let ?a = "a\<lparr>klog := Unmap (buf_dma ?b) PAGE_SIZE # klog a, rx_ring := upd_buffer i (\<lambda>b. b\<lparr>buf_dma := 0\<rparr>)
    (upd_buffer i (\<lambda>b. b\<lparr>buf_skb := None\<rparr>) (rx_ring a))\<rparr>"
  note held = take_hold[OF assms(2,3), of "buf_dma ?b" PAGE_SIZE]
  have part: "wp (do { frame \<leftarrow> jumbo_part K i d b skb p;
      (case frame of None \<Rightarrow> ret (Some (0, 0)) | Some skb \<Rightarrow> do { r \<leftarrow> jumbo_finish K d skb; ret (Some r) }) })
      (\<lambda>r b. r \<noteq> None \<longrightarrow> page_inv c b) ?a"
    if "buf_skb ?b = Some skb" "buf_page (rx_ring a) ! i = Some p" for skb p d b
  proof (subst wp_bind, rule wp_mono[OF jumbo_part_hold[OF _ assms(3)]])
    show "page_inv c ?a" by (rule held)
    show "skb_pages skb = {#}" using slot_no_pages[OF assms(2,3)] that by (simp add: page_simps)
    show "buf_page (rx_ring ?a) ! i = Some p" using that by (simp add: page_simps)
    fix r b' assume "page_hold c (skb_opt_pages r) b'"
    then show "wp (case r of None \<Rightarrow> ret (Some (0, 0)) | Some skb \<Rightarrow> do { r \<leftarrow> jumbo_finish K d skb; ret (Some r) })
        (\<lambda>r b. r \<noteq> None \<longrightarrow> page_inv c b) b'"
      by (cases r) (auto simp: page_simps intro: wp_mono[OF finish_hold[OF assms(1)]])
  qed
  have rest: "wp (if rx_status ?d AND RXD_STAT_EOP \<noteq> 0 \<and> rx_errors ?d AND RXD_ERR_FRAME_ERR_MASK \<noteq> 0
      then do { jumbo_drop i (buf_skb ?b); ret (Some (0, 0)) }
      else case (buf_skb ?b, buf_page (rx_ring a) ! i) of
        (Some skb, Some p) \<Rightarrow> do {
          frame \<leftarrow> jumbo_part K i ?d ?b skb p;
          (case frame of None \<Rightarrow> ret (Some (0, 0))
           | Some skb \<Rightarrow> do { r \<leftarrow> jumbo_finish K ?d skb; ret (Some r) }) }
      | _ \<Rightarrow> ret None) (\<lambda>r b. r \<noteq> None \<longrightarrow> page_inv c b) ?a" (is "wp (if ?bad then ?drop else ?good) _ _")
  proof (cases ?bad)
    case True
    then show ?thesis
      unfolding if_P[OF True] wp_bind by (rule_tac wp_mono[OF jumbo_drop_hold[OF held assms(3) slot_no_pages[OF assms(2,3)]]]) simp
  next
    case False
    show ?thesis
      unfolding if_not_P[OF False] using part
      by (cases "buf_skb ?b"; cases "buf_page (rx_ring a) ! i") (simp_all del: wp_bind)
  qed
  show ?thesis
    unfolding jumbo_one_def wp_bind wp_State prod.case
    by (rule wp_state_eq[where t = ?a], simp, rule wp_mono[OF rest[unfolded prod.case]]) (simp add: upd_desc_hold)
qed

lemma wp_either: "wp m Q s \<Longrightarrow> wp n Q s \<Longrightarrow> wp (if b then m else n) Q s"
  by simp

section \<open>Packet split\<close>

lemma ps_list_upd:
  assumes "j < length ps"
  shows "ps_list_pages (ps[j := x]) + opt_ms (fst (ps ! j)) = ps_list_pages ps + opt_ms (fst x)"
  using assms unfolding ps_list_pages_def
proof (induction ps arbitrary: j)
  case (Cons p ps)
  then show ?case by (cases j) (auto simp: ac_simps union_iff)
qed simp

lemma ps_page_fill_hold:
  assumes "page_inv c a" "i < c" "j < 3"
  shows "wp (ps_page_fill K i j) (\<lambda>_. page_inv c) a"
proof -
  obtain D where inv: "slot_view c i {#} D a"
    by (rule page_holdE[OF assms(1,2)])
  show ?thesis
    using ps_list_upd[of j "ps_pages (rx_ring a) ! i"] assms(3)
    by (cases "fst (ps_pages (rx_ring a) ! i ! j)")
      (insert inv[unfolded slot_view_def], simp_all add: assms(1,2) ps_page_fill_def alloc_page_def map_page_def Let_def page_hold_at[OF assms(2)] page_simps slot_pages_def)
qed

lemma ps_fill_hold: "page_inv c a \<Longrightarrow> i < c \<Longrightarrow> set js \<subseteq> {..<3} \<Longrightarrow> wp (ps_fill K i js) (\<lambda>_. page_inv c) a"
proof (induction js arbitrary: a)
  case (Cons j js)
  have more: "wp (ps_fill K i js) (\<lambda>_. page_inv c) b" if "page_inv c b" for b
    using Cons that by simp
  show ?case
    using Cons.prems more by (auto simp: upd_desc_hold intro!: wp_mono[OF ps_page_fill_hold])
qed simp

lemma ps_one_fill_page:
  assumes "page_inv c a" "i < c"
  shows "wp (alloc_ps_one K i) (\<lambda>_. page_inv c) a"
proof -
  have rest: "wp (do {
      len \<leftarrow> gets (\<lambda>a. unat (rx_ps_bsize0 a));
      skb \<leftarrow> netdev_alloc_skb K (len + 2);
      (case skb of
         None \<Rightarrow> do {
           modify (\<lambda>a. a\<lparr>alloc_rx_buff_failed := alloc_rx_buff_failed a + 1\<rparr>);
           ret False }
       | Some skb \<Rightarrow> do {
           h \<leftarrow> gets klog;
           (let dma = dma_map K h (Rx_buffer (skb_id skb)) len in do {
              log_ev (Map (Rx_buffer (skb_id skb)) len dma);
              set_rx (upd_buffer i (\<lambda>b. b\<lparr>buf_skb := Some skb, buf_dma := dma\<rparr>));
              (if dma_error K dma then do {
                 modify (\<lambda>a. a\<lparr>rx_dma_failed := rx_dma_failed a + 1\<rparr>);
                 log_ev (Free_skb skb);
                 set_rx (upd_buffer i (\<lambda>b. b\<lparr>buf_skb := None\<rparr>));
                 ret False }
               else do {
                 set_rx (upd_psd i (\<lambda>d. d[0 := dma]));
                 ret True }) }) }) }) (\<lambda>_. page_inv c) b" if held: "page_inv c b" for b
  proof -
    obtain D where inv: "slot_view c i {#} D b"
      by (rule page_holdE[OF held assms(2)])
    show ?thesis
      by (cases "buf_skb (buffer_info (rx_ring b) ! i)")
        (insert inv[unfolded slot_view_def], simp_all add: assms(2) netdev_alloc_skb_def Let_def page_hold_at[OF assms(2)] page_simps slot_pages_def)
  qed
  show ?thesis
    unfolding alloc_ps_one_def
    by (subst wp_bind, rule wp_mono[OF ps_fill_hold[OF assms]]) (simp, rule wp_either, simp, rule rest)
qed

lemma trim_pages: "skb_pages (pskb_trim skb n) \<subseteq># skb_pages skb"
proof -
  have "mset (map fst (trim_frags fs k)) \<subseteq># mset (map fst fs)" for fs k
    by (induction fs k rule: trim_frags.induct) auto
  then show ?thesis by (simp add: skb_pages_def pskb_trim_def)
qed

lemma ps_take_hold:
  "page_hold c (skb_pages skb) a \<Longrightarrow> i < c \<Longrightarrow> set js \<subseteq> {..<3} \<Longrightarrow> wp (ps_take i d js skb) (\<lambda>skb. page_hold c (skb_pages skb)) a"
proof (induction js arbitrary: a skb)
  case (Cons j js)
  obtain D where inv: "slot_view c i (skb_pages skb) D a"
    by (rule page_holdE[OF Cons.prems(1,2)])
  let ?ps = "ps_pages (rx_ring a) ! i"
  let ?s = "case fst (?ps ! j) of None \<Rightarrow> skb | Some p \<Rightarrow> add_frag skb p (unat (psd_length d j))"
  have "page_hold c (skb_pages ?s)
      (a\<lparr>klog := Unmap (snd (?ps ! j)) PAGE_SIZE # klog a, rx_ring := upd_ps i (?ps[j := (None, 0)]) (rx_ring a)\<rparr>)"
    using ps_list_upd[of j ?ps "(None, 0)"] Cons.prems(3)
    by (cases "fst (?ps ! j)")
      (insert inv[unfolded slot_view_def], simp_all add: Cons.prems(1,2) page_hold_at[OF Cons.prems(2)] page_simps slot_pages_def)
  then show ?case
    using Cons.prems by (auto simp: Let_def intro!: Cons.IH)
qed simp

lemma ps_payload_hold:
  assumes "page_hold c (skb_pages skb) a" "i < c"
  shows "wp (ps_payload K i d skb) (\<lambda>skb. page_hold c (skb_pages skb)) a"
proof -
  have pages: "wp (do { skb \<leftarrow> ps_take i d [0, 1, 2] skb; ret (if crc = (0 :: nat) then skb else pskb_trim skb (skb_len skb - crc)) })
      (\<lambda>skb. page_hold c (skb_pages skb)) a" for crc
    by (subst wp_bind, rule wp_mono[OF ps_take_hold[OF assms]]) (auto elim: page_hold_less intro: trim_pages)
  show ?thesis
    unfolding ps_payload_def Let_def
    by (subst wp_bind, unfold wp_State prod.case, rule wp_either, simp add: assms page_simps, rule pages)
qed

lemma ps_one_page:
  assumes "page_inv c a" "i < c"
  shows "wp (ps_one K i) (\<lambda>r b. r \<noteq> None \<longrightarrow> page_inv c b) a"
proof (cases "buf_skb (buffer_info (rx_ring a) ! i)")
  case (Some skb)
  let ?b = "buffer_info (rx_ring a) ! i" and ?d = "ps_desc (rx_ring a) ! i" and ?len = "unat (rx_ps_bsize0 a)"
  have none: "skb_pages (skb\<lparr>linear := l\<rparr>) = {#}" "skb_pages skb = {#}" for l
    using slot_no_pages[OF assms] Some by (simp_all add: page_simps)
  let ?a = "a\<lparr>klog := Unmap (buf_dma ?b) ?len # klog a, rx_ring := upd_buffer i (\<lambda>b. b\<lparr>buf_dma := 0\<rparr>) (rx_ring a)\<rparr>"
  have held: "page_inv c ?a"
    using upd_buffer_hold[OF assms, of "\<lambda>b. b\<lparr>buf_dma := 0\<rparr>"] slot_no_pages[OF assms] by (simp add: page_hold_def held_pages_def)
  have frame: "wp (do { skb \<leftarrow> ps_payload K i ?d (skb\<lparr>linear := l\<rparr>); skb \<leftarrow> e1000_rx_checksum st cs skb;
      (if split then modify (\<lambda>a. a\<lparr>rx_hdr_split := rx_hdr_split a + 1\<rparr>) else skip);
      e1000_receive_skb K skb st' vlan; ret (Some (1 :: nat, skb_len skb)) }) (\<lambda>r. page_inv c) ?a" for l st cs split st' vlan
  proof -
    have hold: "page_hold c (skb_pages (skb\<lparr>linear := l\<rparr>)) ?a" using held none by simp
    have split: "page_hold c X (b\<lparr>rx_hdr_split := n\<rparr>) = page_hold c X b" for X b n
      by (simp add: page_hold_def held_pages_def)
    have rest: "wp (do { (if split then modify (\<lambda>a. a\<lparr>rx_hdr_split := rx_hdr_split a + 1\<rparr>) else skip);
        e1000_receive_skb K s st' vlan; ret (Some (1 :: nat, skb_len s)) }) (\<lambda>r. page_inv c) b" if "page_hold c (skb_pages s) b" for s b
      using that by (auto simp: split intro!: wp_mono[OF receive_hold])
    show ?thesis
      by (subst wp_bind, rule wp_mono[OF ps_payload_hold[OF hold assms(2)]], subst wp_bind, rule wp_mono[OF checksum_hold], assumption, rule rest)
  qed
  have cleared: "page_inv c (b\<lparr>rx_ring := upd_buffer i (\<lambda>b. b\<lparr>buf_skb := None\<rparr>) (upd_psd i g (rx_ring b))\<rparr>)" if "page_inv c b" for b g
    using upd_buffer_hold[of c "{#}" "b\<lparr>rx_ring := upd_psd i g (rx_ring b)\<rparr>" i "\<lambda>b. b\<lparr>buf_skb := None\<rparr>"] that assms(2)
    by (simp add: upd_desc_hold page_simps)
  show ?thesis
    unfolding ps_one_def Let_def wp_bind wp_State prod.case Some option.case
    apply (rule wp_state_eq[where t = ?a], simp)
    apply (rule wp_mono[where Q = "\<lambda>r b. r \<noteq> None \<longrightarrow> page_inv c b"])
     apply (intro wp_either)
       apply (use free_hold[of c skb ?a] held none in simp)
      apply simp
     apply (rule wp_mono[OF frame], simp)
    apply (auto simp: cleared)
    done
qed (simp add: ps_one_def Let_def)

section \<open>One buffer for each frame, and release\<close>

lemma legacy_one_page:
  assumes "page_inv c a" "i < c"
  shows "wp (rx_one K i) (\<lambda>r b. r \<noteq> None \<longrightarrow> page_inv c b) a"
proof (cases "buf_skb (buffer_info (rx_ring a) ! i)")
  case (Some skb)
  obtain D where inv: "slot_view c i {#} D a"
    by (rule page_holdE[OF assms])
  let ?d = "ring_desc (rx_ring a) ! i"
  obtain smd v good where "rx_csum_of (ucast (rx_status ?d) OR push_bit 24 (ucast (rx_errors ?d))) (ucast (rx_csum ?d)) = (smd, v, good)"
    using prod_cases3 by blast
  then show ?thesis
    using Some inv[unfolded slot_view_def]
    by (cases v; cases good rule: option.exhaust; cases "the good")
      (simp_all add: rx_one_def Let_def rx_copybreak_def netdev_alloc_skb_def e1000_receive_skb_def e1000_rx_checksum_def
        assms(2) page_hold_at[OF assms(2)] page_simps slot_pages_def)
qed (simp add: rx_one_def)

text \<open>The pages put back are those missing from the list afterwards.\<close>

definition put_pages_post :: "(nat option \<times> u64) list \<Rightarrow> e1000_adapter \<Rightarrow> (nat option \<times> u64) list \<Rightarrow> e1000_adapter \<Rightarrow> bool" where
  "put_pages_post ps a ps' b \<longleftrightarrow> rx_ring b = rx_ring a \<and> length ps' = length ps \<and> made_pages (klog b) = made_pages (klog a) \<and>
     (page_log (klog a) \<longrightarrow> page_log (klog b)) \<and>
     gone_pages (klog b) + ps_list_pages ps' = gone_pages (klog a) + ps_list_pages ps"

lemma put_pages_wp: "wp (put_ps_pages ps) (put_pages_post ps a) a"
proof (induction ps arbitrary: a rule: put_ps_pages.induct)
  case (3 p d ps)
  show ?case
    by (simp, rule wp_mono[OF 3]) (auto simp: put_pages_post_def ps_list_pages_def page_simps)
qed (simp_all add: put_pages_post_def)

lemma put_buf_page:
  assumes "page_inv c a" "i < c"
  shows "wp (e1000_put_rxbuf i) (\<lambda>_. page_inv c) a"
proof -
  have dma: "wp (if d \<noteq> 0 then log_ev (Unmap d n) \<bind> (\<lambda>_. set_rx (upd_buffer i (\<lambda>b. b\<lparr>buf_dma := 0\<rparr>))) else skip) (\<lambda>_. page_inv c) b"
    if inv: "page_inv c b" for d n b
    using upd_buffer_hold[OF inv assms(2), of "\<lambda>b. b\<lparr>buf_dma := 0\<rparr>"] slot_no_pages[OF inv assms(2)] inv
    by (simp add: page_hold_def held_pages_def)
  have page: "wp (do { page \<leftarrow> gets (\<lambda>a. buf_page (rx_ring a) ! i);
      (case page of None \<Rightarrow> skip | Some p \<Rightarrow> log_ev (Put_page p) \<bind> (\<lambda>_. set_rx (upd_page i None))) }) (\<lambda>_. page_inv c) b"
    if held: "page_inv c b" for b
  proof -
    obtain D where inv: "slot_view c i {#} D b" by (rule page_holdE[OF held assms(2)])
    show ?thesis
      by (cases "buf_page (rx_ring b) ! i")
        (insert inv[unfolded slot_view_def], simp_all add: held assms(2) page_hold_at[OF assms(2)] page_simps slot_pages_def)
  qed
  have skb: "wp (case s of None \<Rightarrow> skip | Some s \<Rightarrow> log_ev (Free_skb s) \<bind> (\<lambda>_. set_rx (upd_buffer i (\<lambda>b. b\<lparr>buf_skb := None\<rparr>)))) (\<lambda>_. page_inv c) b"
    if "page_inv c b" "skb_opt_pages s = {#}" for s b
    using upd_buffer_hold[OF free_hold[of c "the s" b] assms(2), of "\<lambda>b. b\<lparr>buf_skb := None\<rparr>"] that
    by (cases s) (simp_all add: page_simps)
  have ps: "wp (do { ps \<leftarrow> gets (\<lambda>a. ps_pages (rx_ring a) ! i); ps \<leftarrow> put_ps_pages ps; set_rx (upd_ps i ps) }) (\<lambda>_. page_inv c) b"
    if held: "page_inv c b" for b
  proof -
    obtain D where inv: "slot_view c i {#} D b" by (rule page_holdE[OF held assms(2)])
    have "page_inv c (b'\<lparr>rx_ring := upd_ps i ps' (rx_ring b')\<rparr>)" if "put_pages_post (ps_pages (rx_ring b) ! i) b ps' b'" for ps' b'
      using that inv[unfolded slot_view_def] assms(2)
      by (simp add: put_pages_post_def page_hold_at[OF assms(2)] page_simps slot_pages_def) (metis (no_types) add.assoc add.commute mset_subset_eq_add_left)
    then show ?thesis
      unfolding wp_bind wp_State prod.case by (rule_tac wp_mono[OF put_pages_wp])
  qed
  show ?thesis
    unfolding e1000_put_rxbuf_def
    by (unfold wp_bind wp_State prod.case, rule wp_mono[OF dma[OF assms(1), unfolded wp_bind]],
      rule wp_mono[OF page[unfolded wp_bind wp_State prod.case]], assumption,
      rule wp_mono[OF skb[OF _ slot_no_pages[OF assms], unfolded wp_bind]], assumption,
      rule ps[unfolded wp_bind wp_State prod.case])
qed

section \<open>Loops\<close>

lemma inv_fields:
  "page_inv c a \<Longrightarrow> n < c \<Longrightarrow> page_inv c (a\<lparr>rx_ring := (rx_ring a)\<lparr>next_to_clean := n\<rparr>\<rparr>)"
  "page_inv c a \<Longrightarrow> page_inv c (a\<lparr>total_rx_bytes := w, total_rx_packets := x, net_rx_bytes := y, net_rx_packets := z\<rparr>)"
  "page_inv c a \<Longrightarrow> next_to_use (rx_ring a) < c" "page_inv c a \<Longrightarrow> next_to_clean (rx_ring a) < c" "page_inv c a \<Longrightarrow> ring_count (rx_ring a) = c"
  by (simp_all add: page_hold_def held_pages_def slots_pages_def rings_shaped_def)

lemma inv_next: "page_inv c a \<Longrightarrow> i < c \<Longrightarrow> ring_next (rx_ring a) i < c"
  by (auto simp: page_hold_def rings_shaped_def ring_next_def)

lemma inv_hw: "page_inv c a \<Longrightarrow> wp (hw_op m) (\<lambda>_. page_inv c) a"
  by (simp add: wp_hw_op) (simp add: wp_iff page_hold_def held_pages_def)

text \<open>A refill and a reclaim keep the invariant if the work on every slot does.\<close>

lemma refill_page:
  assumes "\<And>a i. page_inv c a \<Longrightarrow> i < c \<Longrightarrow> wp (f i) (\<lambda>_. page_inv c) a" "page_inv c a"
  shows "wp (refill f m n) (\<lambda>_. page_inv c) a"
proof -
  have loop: "wp (refill_loop f n i) (\<lambda>j b. page_inv c b \<and> j < c) b" if "page_inv c b" "i < c" for n i b
    using that
  proof (induction n arbitrary: i b)
    case (Suc n)
    then show ?case by (auto simp: inv_next intro!: wp_mono[OF assms(1)])
  qed simp
  have use: "page_inv c (b\<lparr>rx_ring := (rx_ring b)\<lparr>next_to_use := i\<rparr>\<rparr>)" if "page_inv c b" "i < c" for b i
    using that by (simp add: page_hold_def held_pages_def slots_pages_def rings_shaped_def)
  show ?thesis
    unfolding refill_def wp_bind wp_State prod.case
    by (rule wp_mono[OF loop[OF assms(2) inv_fields(3)[OF assms(2)]]]) (auto intro!: inv_hw use)
qed

definition loop_post :: "nat \<Rightarrow> (nat \<times> nat \<times> nat \<times> nat) option \<Rightarrow> e1000_adapter \<Rightarrow> bool" where
  "loop_post c r b \<longleftrightarrow> (case r of None \<Rightarrow> True | Some (j, x) \<Rightarrow> page_inv c b \<and> j < c)"

lemma clean_page:
  assumes "\<And>a i. page_inv c a \<Longrightarrow> i < c \<Longrightarrow> wp (one i) (\<lambda>r b. r \<noteq> None \<longrightarrow> page_inv c b) a"
    and "\<And>a n. page_inv c a \<Longrightarrow> wp (alloc n) (\<lambda>_. page_inv c) a" "page_inv c a"
  shows "wp (page_clean written one alloc budget) (\<lambda>r b. r \<noteq> None \<longrightarrow> page_inv c b) a"
proof -
  have loop: "wp (rx_page_loop written one alloc left i k pk n) (loop_post c) b"
    if "page_inv c b" "i < c" for left i k pk n b
    using that
  proof (induction left arbitrary: i k pk n b)
    case (Suc left)
    have next_step: "wp (do {
        next \<leftarrow> gets (\<lambda>a. ring_next (rx_ring a) i);
        (if k + 1 \<ge> E1000_RX_BUFFER_WRITE then do {
           alloc (k + 1);
           rx_page_loop written one alloc left next 0 (pk + p) (n + m) }
         else rx_page_loop written one alloc left next (k + 1) (pk + p) (n + m)) })
        (loop_post c) b'" if "page_inv c b'" for b' p m
      using that inv_next[OF that Suc.prems(2)] Suc.IH by (auto intro!: wp_mono[OF assms(2)])
    have "wp (one i) (\<lambda>r b. wp (case r of None \<Rightarrow> ret None | Some (p, m) \<Rightarrow> do {
        next \<leftarrow> gets (\<lambda>a. ring_next (rx_ring a) i);
        (if k + 1 \<ge> E1000_RX_BUFFER_WRITE then do {
           alloc (k + 1);
           rx_page_loop written one alloc left next 0 (pk + p) (n + m) }
         else rx_page_loop written one alloc left next (k + 1) (pk + p) (n + m)) })
        (loop_post c) b) b"
      by (rule wp_mono[OF assms(1)[OF Suc.prems]]) (use next_step in \<open>auto simp: loop_post_def[of _ None] simp del: wp_bind split: option.split\<close>)
    then have "wp (one i \<bind> (\<lambda>r. case r of None \<Rightarrow> ret None | Some (p, m) \<Rightarrow> do {
        next \<leftarrow> gets (\<lambda>a. ring_next (rx_ring a) i);
        (if k + 1 \<ge> E1000_RX_BUFFER_WRITE then do {
           alloc (k + 1);
           rx_page_loop written one alloc left next 0 (pk + p) (n + m) }
         else rx_page_loop written one alloc left next (k + 1) (pk + p) (n + m)) })) (loop_post c) b"
      by (simp only: wp_bind)
    then show ?case
      unfolding rx_page_loop.simps
      by (subst wp_bind, unfold wp_State prod.case, rule_tac wp_either) (simp add: loop_post_def Suc.prems)
  qed (simp add: loop_post_def)
  have rest: "wp (do {
      set_rx (\<lambda>r. r\<lparr>next_to_clean := i\<rparr>);
      unused \<leftarrow> gets (\<lambda>a. e1000_desc_unused (rx_ring a));
      (if unused = 0 then skip else alloc (nat unused));
      modify (\<lambda>a. a\<lparr>total_rx_bytes := total_rx_bytes a + of_nat bytes,
        total_rx_packets := total_rx_packets a + of_nat packets,
        net_rx_bytes := net_rx_bytes a + of_nat bytes,
        net_rx_packets := net_rx_packets a + of_nat packets\<rparr>);
      ret (Some (budget - left)) }) (\<lambda>r b. r \<noteq> None \<longrightarrow> page_inv c b) b" if "page_inv c b" "i < c" for i left bytes packets b
    using that by (auto simp: inv_fields intro!: wp_mono[OF assms(2)])
  show ?thesis
    unfolding page_clean_def
    by (subst wp_bind, unfold wp_State prod.case, subst wp_bind, rule wp_mono[OF loop[OF assms(3) inv_fields(4)[OF assms(3)]]])
      (use rest in \<open>auto simp: loop_post_def simp del: wp_bind split: option.split\<close>)
qed

text \<open>The routine with one buffer for each frame has the same loops.\<close>

lemma bind_gets: "State_Monad.bind (gets f) g = State (\<lambda>s. run_state (g (f s)) s)"
  by (simp add: State_Monad.bind_def)

lemma alloc_is_refill: "e1000_alloc_rx_buffers K n = refill (alloc_rx_one K) 1 n"
proof -
  have "alloc_rx_loop K n = refill_loop (alloc_rx_one K) n" for n
    by (induction n) (auto intro!: ext cong: if_cong)
  then show ?thesis by (simp add: e1000_alloc_rx_buffers_def refill_def cong: if_cong)
qed

lemma clean_is_page_clean:
  "e1000_clean_rx_irq K budget = page_clean (\<lambda>a i. rx_status (ring_desc (rx_ring a) ! i) AND RXD_STAT_DD \<noteq> 0)
     (rx_one K) (e1000_alloc_rx_buffers K) budget"
proof -
  have "clean_rx_loop K left i k p n = rx_page_loop (\<lambda>a i. rx_status (ring_desc (rx_ring a) ! i) AND RXD_STAT_DD \<noteq> 0)
      (rx_one K) (e1000_alloc_rx_buffers K) left i k p n" for left i k p n
    by (induction left arbitrary: i k p n) (simp_all add: bind_gets cong: if_cong option.case_cong)
  then show ?thesis by (simp add: e1000_clean_rx_irq_def page_clean_def)
qed

section \<open>Reachable states\<close>

lemma alloc_page_inv:
  assumes "page_inv c a"
  shows "wp (rx_alloc K r n) (\<lambda>_. page_inv c) a"
  by (cases r) (simp_all add: rx_alloc_def alloc_is_refill e1000_alloc_jumbo_rx_buffers_def e1000_alloc_rx_buffers_ps_def
    refill_page legacy_fill_page jumbo_fill_page ps_one_fill_page assms)

lemma clean_page_inv:
  assumes "pull_keeps K" "page_inv c a"
  shows "wp (rx_clean K n) (\<lambda>r b. r \<noteq> None \<longrightarrow> page_inv c b) a"
proof -
  have "wp (e1000_clean_rx_irq K n) (\<lambda>r b. r \<noteq> None \<longrightarrow> page_inv c b) a"
    unfolding clean_is_page_clean alloc_is_refill by (intro clean_page legacy_one_page refill_page legacy_fill_page assms)
  moreover have "wp (e1000_clean_jumbo_rx_irq K n) (\<lambda>r b. r \<noteq> None \<longrightarrow> page_inv c b) a"
    unfolding e1000_clean_jumbo_rx_irq_def e1000_alloc_jumbo_rx_buffers_def
    by (intro clean_page jumbo_one_page refill_page jumbo_fill_page assms)
  moreover have "wp (e1000_clean_rx_irq_ps K n) (\<lambda>r b. r \<noteq> None \<longrightarrow> page_inv c b) a"
    unfolding e1000_clean_rx_irq_ps_def e1000_alloc_rx_buffers_ps_def
    by (intro clean_page ps_one_page refill_page ps_one_fill_page assms)
  ultimately show ?thesis by (cases "clean_rx a") (simp_all add: rx_clean_def del: not_None_eq)
qed

lemma put_all_page: "page_inv c a \<Longrightarrow> set is \<subseteq> {..<c} \<Longrightarrow> wp (for_each is e1000_put_rxbuf) (\<lambda>_. page_inv c) a"
  by (induction "is" arbitrary: a) (auto intro: wp_mono[OF put_buf_page])

lemma clean_ring_page:
  assumes "page_inv c a"
  shows "wp e1000_clean_rx_ring (\<lambda>_. page_inv c) a"
proof -
  have all: "wp (for_each [0..<c] e1000_put_rxbuf) (\<lambda>_. page_inv c) a" using assms by (intro put_all_page) auto
  have chain: "wp (case t of None \<Rightarrow> skip
      | Some skb \<Rightarrow> do { log_ev (Free_skb skb); set_rx (\<lambda>r. r\<lparr>rx_skb_top := None\<rparr>) }) (\<lambda>_. page_inv c) b"
    if "page_inv c b" "rx_skb_top (rx_ring b) = t" for t b
    using that by (cases t) (auto simp: page_hold_def held_pages_def slots_pages_def rings_shaped_def page_simps ac_simps)
  have zero: "page_inv c (b\<lparr>rx_ring := (rx_ring b)\<lparr>ring_desc := ds, ps_desc := ps, next_to_clean := 0, next_to_use := 0\<rparr>\<rparr>)"
    if "page_inv c b" for b ds ps
    using that by (auto simp: page_hold_def held_pages_def slots_pages_def rings_shaped_def)
  show ?thesis
    unfolding e1000_clean_rx_ring_def wp_bind wp_State prod.case inv_fields(5)[OF assms]
    by (rule wp_mono[OF all], rule wp_mono[OF chain[unfolded wp_bind]], assumption, rule refl, rule wp_mono[OF inv_hw])
      (auto intro!: inv_hw zero)
qed

text \<open>
  What happens: the chip writes descriptors in any way, in the view of the routine in use; polls
  that do not panic, refills and the release; the configuration selects another routine or other
  sizes.
\<close>

inductive page_step :: "kernel \<Rightarrow> e1000_adapter \<Rightarrow> e1000_adapter \<Rightarrow> bool" for K where
  page_chip: "page_step K a (a\<lparr>rx_ring := (rx_ring a)\<lparr>ring_desc := ds, ps_desc := ps\<rparr>\<rparr>)"
| page_poll: "run_state (rx_clean K n) a = (Some w, b) \<Longrightarrow> page_step K a b"
| page_refill: "run_state (rx_alloc K r n) a = ((), b) \<Longrightarrow> page_step K a b"
| page_down: "run_state e1000_clean_rx_ring a = ((), b) \<Longrightarrow> page_step K a b"
| page_config: "page_step K a (a\<lparr>clean_rx := r, rx_ps_pages := n, rx_ps_bsize0 := m, rx_buffer_len := len\<rparr>)"

lemma page_step_inv: "page_step K a b \<Longrightarrow> pull_keeps K \<Longrightarrow> page_inv c a \<Longrightarrow> page_inv c b"
proof (induction rule: page_step.induct)
  case (page_poll n a w b)
  then show ?case using clean_page_inv[of K c a n] by (simp add: wp_def)
next
  case (page_refill r n a b)
  then show ?case using alloc_page_inv[of c a K r n] by (simp add: wp_def)
next
  case (page_down a b)
  then show ?case using clean_ring_page[of c a] by (simp add: wp_def)
qed (simp_all add: page_hold_def held_pages_def slots_pages_def rings_shaped_def)

text \<open>
  C6: no page is used twice.  With the routines for single buffers, jumbo frames and split
  packets in turn, from a ring without pages, in every state that polls, refills, releases,
  reconfigurations and arbitrary writes of the chip reach, with allocations and mappings that fail
  at will, each page is in at most one place: a slot, the chain of an incomplete frame, one frame
  given to the stack or freed, or put back once.  The kernel may release pages when it pulls
  headers but adds none.
\<close>

theorem rx_pages_owned:
  assumes "rings_shaped c (rx_ring a)" "held_pages a = {#}" "page_log (klog a)" "pull_keeps K" "rtranclp (page_step K) a b"
  shows "count (held_pages b) p \<le> 1"
proof -
  have "page_inv c a" using assms(1-3) by (simp add: page_hold_def)
  with assms(5) have "page_inv c b"
    by (induction rule: rtranclp_induct) (auto intro: page_step_inv assms(4))
  then have "count (held_pages b) p \<le> count (made_pages (klog b)) p" "page_log (klog b)"
    by (simp_all add: page_hold_def mset_subset_eq_count)
  with made_once[of "klog b" p] show ?thesis by simp
qed

text \<open>A ring of four for jumbo frames, refilled.\<close>

definition page_adapter0 :: e1000_adapter where
  "page_adapter0 = adapter_zero\<lparr>rx_ring := ring_zero\<lparr>ring_desc := replicate 4 rx_desc_zero, ring_count := 4,
     buffer_info := replicate 4 buffer_zero, buf_page := replicate 4 None, ps_pages := replicate 4 (replicate 3 (None, 0)),
     ps_desc := replicate 4 (replicate 4 0)\<rparr>\<rparr>"

lemma rx_pages_owned_witness:
  "buf_page (rx_ring (exec (rx_alloc kernel0 Rx_jumbo 3) page_adapter0)) ! 0 = Some 1 \<and>
   count (held_pages (exec (rx_alloc kernel0 Rx_jumbo 3) page_adapter0)) 1 \<le> 1"
proof
  show "buf_page (rx_ring (exec (rx_alloc kernel0 Rx_jumbo 3) page_adapter0)) ! 0 = Some 1"
    by (simp add: rx_alloc_def e1000_alloc_jumbo_rx_buffers_def refill_def alloc_jumbo_one_def jumbo_skb_def jumbo_page_def
      alloc_page_def map_page_def netdev_alloc_skb_def kernel0_def page_adapter0_def ring_zero_def adapter_zero_def
      buffer_zero_def numeral_eq_Suc upd_buffer_def upd_desc_def upd_page_def hw_op_def ring_next_def rx_skb_def)
  show "count (held_pages (exec (rx_alloc kernel0 Rx_jumbo 3) page_adapter0)) 1 \<le> 1"
  proof (rule rx_pages_owned[of 4 page_adapter0 kernel0])
    show "rings_shaped 4 (rx_ring page_adapter0)" "held_pages page_adapter0 = {#}" "page_log (klog page_adapter0)" "pull_keeps kernel0"
      by (simp_all add: page_adapter0_def rings_shaped_def ring_zero_def adapter_zero_def buffer_zero_def skb_opt_pages_def
        held_pages_def slots_pages_def lists_pages_def ps_list_pages_def opt_ms_def pull_keeps_def kernel0_def numeral_eq_Suc)
    show "rtranclp (page_step kernel0) page_adapter0 (exec (rx_alloc kernel0 Rx_jumbo 3) page_adapter0)"
      by (rule r_into_rtranclp, rule page_refill[of kernel0 Rx_jumbo 3]) (simp add: prod_eq_iff)
  qed
qed

end
