(* ===== verification/NetItr.thy ===== *)
theory NetItr
  imports NetBase "HOL-Library.Signed_Division"
begin

text \<open>
  Adaptive interrupt throttling, netdev.c: the traffic of the last interrupt moves two latency
  classes, their maximum gives a rate, and the rate is approached in steps.
\<close>

section \<open>Operations\<close>

definition lowest_latency :: u16 where "lowest_latency = 0"
definition low_latency :: u16 where "low_latency = 1"
definition bulk_latency :: u16 where "bulk_latency = 2"

lemmas latency_defs = lowest_latency_def low_latency_def bulk_latency_def

text \<open>The counts are unsigned and are passed as \<open>int\<close>; the division truncates.\<close>

definition e1000_update_itr :: "u16 \<Rightarrow> int \<Rightarrow> int \<Rightarrow> u16" where
  "e1000_update_itr setting packets bytes =
     (if packets = 0 then setting
      else if setting = lowest_latency then
        (if bytes sdiv packets > 8000 then bulk_latency
         else if packets < 5 \<and> bytes > 512 then low_latency
         else setting)
      else if setting = low_latency then
        (if bytes > 10000 then
           (if bytes sdiv packets > 8000 then bulk_latency
            else if packets < 10 \<or> bytes sdiv packets > 1200 then bulk_latency
            else if packets > 35 then lowest_latency
            else setting)
         else if bytes sdiv packets > 2000 then bulk_latency
         else if packets \<le> 2 \<and> bytes < 512 then lowest_latency
         else setting)
      else if setting = bulk_latency then
        (if bytes > 25000 then (if packets > 35 then low_latency else setting)
         else if bytes < 6000 then low_latency
         else setting)
      else setting)"

text \<open>The conservative mode has no lowest latency.\<close>

definition conservative :: "u32 \<Rightarrow> u16 \<Rightarrow> u16" where
  "conservative setting c = (if setting = 3 \<and> c = lowest_latency then low_latency else c)"

definition itr_of_class :: "u16 \<Rightarrow> u32 \<Rightarrow> u32" where
  "itr_of_class c old =
     (if c = lowest_latency then 70000 else if c = low_latency then 20000
      else if c = bulk_latency then 4000 else old)"

text \<open>The rate falls at once and rises by a quarter of the new rate at most.\<close>

definition itr_step :: "u32 \<Rightarrow> u32 \<Rightarrow> u32" where
  "itr_step old new = (if new > old then min (old + drop_bit 2 new) new else new)"

definition itr_word :: "u32 \<Rightarrow> u32" where
  "itr_word rate = 1000000000 div (rate * 256)"

definition set_itr_now :: "u32 \<Rightarrow> (e1000_adapter, unit) state" where
  "set_itr_now new = do {
     old \<leftarrow> gets itr;
     (if new = old then skip
      else do {
        modify (\<lambda>a. a\<lparr>itr := itr_step old new\<rparr>);
        set_rx (\<lambda>r. r\<lparr>itr_val := itr_step old new\<rparr>);
        m \<leftarrow> gets msix;
        (if m then set_rx (\<lambda>r. r\<lparr>set_itr := True\<rparr>)
         else hw_op (ew32 0x000C4 (itr_word (itr_step old new)))) }) }"

definition e1000_set_itr :: "(e1000_adapter, unit) state" where
  "e1000_set_itr = do {
     speed \<leftarrow> gets link_speed;
     (if speed \<noteq> 1000 then set_itr_now 4000
      else do {
        modify (\<lambda>a. a\<lparr>tx_itr := conservative (itr_setting a)
          (e1000_update_itr (tx_itr a) (sint (total_tx_packets a)) (sint (total_tx_bytes a)))\<rparr>);
        modify (\<lambda>a. a\<lparr>rx_itr := conservative (itr_setting a)
          (e1000_update_itr (rx_itr a) (sint (total_rx_packets a)) (sint (total_rx_bytes a)))\<rparr>);
        a \<leftarrow> gets (\<lambda>a. a);
        set_itr_now (itr_of_class (max (rx_itr a) (tx_itr a)) (itr a)) }) }"

section \<open>Bounds\<close>

text \<open>
  What one interrupt brings: the speed of the link and the counts of the poll.  A run is the
  list of interrupts of an interface in a dynamic mode.
\<close>

record itr_load =
  load_speed :: u16
  load_tx :: "u32 \<times> u32"
  load_rx :: "u32 \<times> u32"

definition itr_interrupt :: "itr_load \<Rightarrow> e1000_adapter \<Rightarrow> e1000_adapter" where
  "itr_interrupt l a = exec e1000_set_itr (a\<lparr>link_speed := load_speed l,
     total_tx_packets := fst (load_tx l), total_tx_bytes := snd (load_tx l),
     total_rx_packets := fst (load_rx l), total_rx_bytes := snd (load_rx l)\<rparr>)"

definition rate_ok :: "u32 \<Rightarrow> u32 \<Rightarrow> bool" where
  "rate_ok setting rate \<longleftrightarrow> 4000 \<le> rate \<and> rate \<le> (if setting = 3 then 20000 else 70000)"

definition class_ok :: "u16 \<Rightarrow> bool" where
  "class_ok c \<longleftrightarrow> c = lowest_latency \<or> c = low_latency \<or> c = bulk_latency"

definition itr_ok :: "e1000_adapter \<Rightarrow> bool" where
  "itr_ok a \<longleftrightarrow> rate_ok (itr_setting a) (itr a) \<and> class_ok (tx_itr a) \<and> class_ok (rx_itr a) \<and>
     (set_itr (rx_ring a) \<longrightarrow> rate_ok (itr_setting a) (itr_val (rx_ring a)))"

lemma update_itr_class: "class_ok c \<Longrightarrow> class_ok (conservative s (e1000_update_itr c p b))"
  by (auto simp: class_ok_def conservative_def e1000_update_itr_def)

lemma update_itr_conservative: "class_ok c \<Longrightarrow> conservative 3 (e1000_update_itr c p b) \<noteq> lowest_latency"
  by (auto simp: conservative_def latency_defs)

lemma max_class:
  "class_ok c \<Longrightarrow> class_ok d \<Longrightarrow> class_ok (max c d)"
  "c \<noteq> lowest_latency \<Longrightarrow> max c d \<noteq> lowest_latency"
  by (auto simp: class_ok_def latency_defs max_def word_le_nat_alt unat_eq_0)

lemma class_rate: "class_ok c \<Longrightarrow> (s = 3 \<Longrightarrow> c \<noteq> lowest_latency) \<Longrightarrow> rate_ok s (itr_of_class c old)"
  by (auto simp: class_ok_def rate_ok_def itr_of_class_def latency_defs)

lemma unat_drop2: "unat (drop_bit 2 (x :: u32)) = unat x div 4"
  by (simp only: unat_drop_bit_eq) (simp add: drop_bit_eq_div)

lemma itr_step_unat:
  assumes "unat old \<le> 70000" "unat new \<le> 70000"
  shows "unat (itr_step old new) = (if unat old < unat new then min (unat old + unat new div 4) (unat new) else unat new)"
proof -
  have "unat (old + drop_bit 2 new) = unat old + unat new div 4"
    using assms by (subst unat_add_lem[THEN iffD1]) (simp_all add: unat_drop2)
  then show ?thesis by (simp add: itr_step_def word_less_nat_alt min_def word_le_nat_alt)
qed

lemma rate_ok_unat: "rate_ok s r \<longleftrightarrow> 4000 \<le> unat r \<and> unat r \<le> (if s = 3 then 20000 else 70000)"
  by (auto simp: rate_ok_def word_le_nat_alt)

lemma itr_step_ok:
  assumes "rate_ok s old" "rate_ok s new"
  shows "rate_ok s (itr_step old new)"
proof -
  have "unat old \<le> 70000" "unat new \<le> 70000" using assms by (auto simp: rate_ok_unat split: if_splits)
  from itr_step_unat[OF this] assms show ?thesis by (auto simp: rate_ok_unat split: if_splits)
qed

text \<open>The register counts in units of 256 ns; its words stay between 55 and 976.\<close>

lemma itr_word_ok:
  assumes "rate_ok s r"
  shows "55 \<le> itr_word r" "itr_word r \<le> 976"
proof -
  have r: "4000 \<le> unat r" "unat r \<le> 70000" using assms by (auto simp: rate_ok_unat split: if_splits)
  then have "unat (r * 256) = unat r * 256" by (subst unat_mult_lem[THEN iffD1]) simp_all
  then have e: "unat (itr_word r) = 1000000000 div (unat r * 256)" by (simp add: itr_word_def unat_div)
  have "1000000000 div (70000 * 256) \<le> 1000000000 div (unat r * 256)"
    using r by (intro div_le_mono2) simp_all
  moreover have "1000000000 div (unat r * 256) \<le> 1000000000 div (4000 * 256)"
    using r by (intro div_le_mono2) simp_all
  ultimately show "55 \<le> itr_word r" "itr_word r \<le> 976" using e by (simp_all add: word_le_nat_alt)
qed

text \<open>What a call writes to the chip.\<close>

definition itr_writes :: "reg_ev list \<Rightarrow> bool" where
  "itr_writes ws \<longleftrightarrow> (\<forall>w\<in>set ws. \<exists>v. w = Wr 0x000C4 v \<and> 55 \<le> v \<and> v \<le> 976)"

lemma itr_step_same: "itr_step r r = r"
  by (simp add: itr_step_def)

lemma set_itr_now_wp:
  assumes "itr_ok a" "rate_ok (itr_setting a) new"
  shows "wp (set_itr_now new) (\<lambda>_ b. itr_ok b \<and> itr_setting b = itr_setting a \<and> itr b = itr_step (itr a) new \<and>
    (\<exists>ws. rhist (hw b) = ws @ rhist (hw a) \<and> itr_writes ws)) a"
proof -
  have "rate_ok (itr_setting a) (itr_step (itr a) new)"
    using assms by (intro itr_step_ok) (simp_all add: itr_ok_def)
  then show ?thesis
    using assms itr_word_ok[of "itr_setting a" "itr_step (itr a) new"]
    by (auto simp: set_itr_now_def wp_hw_op itr_ok_def itr_writes_def itr_step_same)
qed

text \<open>The rate a call aims at.\<close>

definition itr_target :: "itr_load \<Rightarrow> e1000_adapter \<Rightarrow> u32" where
  "itr_target l a = (if load_speed l \<noteq> 1000 then 4000
     else itr_of_class (max
       (conservative (itr_setting a) (e1000_update_itr (rx_itr a) (sint (fst (load_rx l))) (sint (snd (load_rx l)))))
       (conservative (itr_setting a) (e1000_update_itr (tx_itr a) (sint (fst (load_tx l))) (sint (snd (load_tx l))))))
       (itr a))"

lemma itr_target_ok:
  assumes "itr_ok a"
  shows "rate_ok (itr_setting a) (itr_target l a)"
proof -
  have "class_ok (tx_itr a)" "class_ok (rx_itr a)" using assms by (simp_all add: itr_ok_def)
  then have "rate_ok (itr_setting a) (itr_of_class (max
      (conservative (itr_setting a) (e1000_update_itr (rx_itr a) p b))
      (conservative (itr_setting a) (e1000_update_itr (tx_itr a) q d))) (itr a))" for p b q d
    by (intro class_rate max_class update_itr_class) (simp_all add: update_itr_conservative)
  moreover have "rate_ok (itr_setting a) 4000" by (simp add: rate_ok_def)
  ultimately show ?thesis by (simp add: itr_target_def del: fun_upd_apply)
qed

lemma itr_interrupt_step:
  assumes "itr_ok a"
  shows "itr_ok (itr_interrupt l a)" "itr_setting (itr_interrupt l a) = itr_setting a"
    "itr (itr_interrupt l a) = itr_step (itr a) (itr_target l a)"
    "\<exists>ws. rhist (hw (itr_interrupt l a)) = ws @ rhist (hw a) \<and> itr_writes ws"
proof -
  let ?s = "a\<lparr>link_speed := load_speed l,
     total_tx_packets := fst (load_tx l), total_tx_bytes := snd (load_tx l),
     total_rx_packets := fst (load_rx l), total_rx_bytes := snd (load_rx l)\<rparr>"
  let ?c = "\<lambda>c load. conservative (itr_setting a) (e1000_update_itr c (sint (fst load)) (sint (snd load)))"
  have classes: "class_ok (?c (tx_itr a) (load_tx l))" "class_ok (?c (rx_itr a) (load_rx l))"
    using assms by (simp_all add: itr_ok_def update_itr_class)
  have "wp e1000_set_itr (\<lambda>_ b. itr_ok b \<and> itr_setting b = itr_setting a \<and> itr b = itr_step (itr a) (itr_target l a) \<and>
    (\<exists>ws. rhist (hw b) = ws @ rhist (hw a) \<and> itr_writes ws)) ?s"
  proof (cases "load_speed l = 1000")
    case True
    let ?t = "?s\<lparr>tx_itr := ?c (tx_itr a) (load_tx l), rx_itr := ?c (rx_itr a) (load_rx l)\<rparr>"
    have "itr_ok ?t" using assms classes by (simp add: itr_ok_def)
    moreover have "run_state e1000_set_itr ?s = run_state (set_itr_now (itr_target l a)) ?t"
      using True by (simp add: e1000_set_itr_def itr_target_def)
    ultimately show ?thesis
      using set_itr_now_wp[of ?t "itr_target l a"] itr_target_ok[OF assms, of l] by (simp add: wp_def)
  next
    case False
    have "itr_ok ?s" using assms by (simp add: itr_ok_def)
    moreover have "run_state e1000_set_itr ?s = run_state (set_itr_now (itr_target l a)) ?s"
      using False by (simp add: e1000_set_itr_def itr_target_def)
    ultimately show ?thesis
      using set_itr_now_wp[of ?s "itr_target l a"] itr_target_ok[OF assms, of l] by (simp add: wp_def)
  qed
  then show "itr_ok (itr_interrupt l a)" "itr_setting (itr_interrupt l a) = itr_setting a"
    "itr (itr_interrupt l a) = itr_step (itr a) (itr_target l a)"
    "\<exists>ws. rhist (hw (itr_interrupt l a)) = ws @ rhist (hw a) \<and> itr_writes ws"
    unfolding wp_iff itr_interrupt_def by simp_all
qed

lemma itr_run:
  assumes "itr_ok a"
  shows "let b = fold itr_interrupt loads a in itr_ok b \<and> itr_setting b = itr_setting a \<and>
    (\<exists>ws. rhist (hw b) = ws @ rhist (hw a) \<and> itr_writes ws)"
  using assms
proof (induction loads arbitrary: a)
  case Nil
  then show ?case by (simp add: itr_writes_def)
next
  case (Cons l loads)
  obtain us where us: "rhist (hw (itr_interrupt l a)) = us @ rhist (hw a)" "itr_writes us"
    using itr_interrupt_step(4)[OF Cons.prems] by blast
  obtain ws where "rhist (hw (fold itr_interrupt loads (itr_interrupt l a))) = ws @ us @ rhist (hw a)" "itr_writes ws"
    using Cons.IH[OF itr_interrupt_step(1)[OF Cons.prems], of l] us by (auto simp: Let_def)
  then have "\<exists>ws. rhist (hw (fold itr_interrupt (l # loads) a)) = ws @ rhist (hw a) \<and> itr_writes ws"
    using us(2) by (intro exI[of _ "ws @ us"]) (auto simp: itr_writes_def)
  then show ?case
    using Cons.IH[OF itr_interrupt_step(1)[OF Cons.prems], of l] itr_interrupt_step(2)[OF Cons.prems, of l]
    by (simp add: Let_def)
qed

text \<open>The rate after \<open>k\<close> calls with the same aim.\<close>

lemma itr_approach:
  assumes "itr_ok a" "\<forall>i<length loads. itr_target (loads ! i) (fold itr_interrupt (take i loads) a) = t"
    and "rate_ok (itr_setting a) t" "loads \<noteq> []"
  shows "unat (itr (fold itr_interrupt loads a)) \<le> unat t \<and>
    min (unat t) (4000 + length loads * (unat t div 4)) \<le> unat (itr (fold itr_interrupt loads a))"
  using assms
proof (induction loads rule: rev_induct)
  case (snoc l loads)
  let ?b = "fold itr_interrupt loads a"
  have b: "itr_ok ?b" "itr_setting ?b = itr_setting a" using itr_run[OF snoc.prems(1), of loads] by (simp_all add: Let_def)
  have aim: "itr_target l ?b = t" using snoc.prems(2)[rule_format, of "length loads"] by simp
  have step: "itr (fold itr_interrupt (loads @ [l]) a) = itr_step (itr ?b) t"
    using itr_interrupt_step(3)[OF b(1), of l] aim by simp
  have rates: "unat (itr ?b) \<le> 70000" "unat t \<le> 70000" "4000 \<le> unat (itr ?b)"
    using b snoc.prems(3) by (auto simp: itr_ok_def rate_ok_unat split: if_splits)
  have prev: "min (unat t) (4000 + length loads * (unat t div 4)) \<le> unat (itr ?b) \<and> unat (itr ?b) \<le> unat t" if "loads \<noteq> []"
  proof -
    have "\<forall>i<length loads. itr_target (loads ! i) (fold itr_interrupt (take i loads) a) = t"
      using snoc.prems(2) by (simp add: nth_append less_Suc_eq)
    with snoc.IH[OF snoc.prems(1) _ snoc.prems(3) that] show ?thesis by simp
  qed
  then show ?case
    unfolding step itr_step_unat[OF rates(1,2)] using rates(3) by (cases "loads = []") (auto simp: min_def split: if_splits)
qed simp_all

text \<open>
  C19: adaptive throttling stays in bounds for all traffic and every change of the link speed.
  In every run of a dynamic mode the rate is between 4000 and 70000 interrupts per second, 20000
  in the conservative mode; the classes are the three of the table, no division is by zero, and
  every word written to the throttle register is between 55 and 976.
\<close>

theorem itr_bounded:
  assumes "itr_ok a"
  shows "let b = fold itr_interrupt loads a in itr_ok b \<and> itr_setting b = itr_setting a \<and>
    (\<exists>ws. rhist (hw b) = ws @ rhist (hw a) \<and> itr_writes ws)"
  by (rule itr_run[OF assms])

text \<open>
  C20: the rate reaches what the traffic asks for.  When four or more consecutive interrupts aim
  at the same rate, the interface has exactly this rate after them, from every admissible one.
\<close>

theorem itr_converges:
  assumes "itr_ok a" "4 \<le> length loads"
    and "\<forall>i<length loads. itr_target (loads ! i) (fold itr_interrupt (take i loads) a) = t"
  shows "itr (fold itr_interrupt loads a) = t"
proof -
  have "loads \<noteq> []" using assms(2) by auto
  moreover have "itr_target (loads ! 0) a = t" using assms(2) assms(3)[rule_format, of 0] by fastforce
  then have "rate_ok (itr_setting a) t" using itr_target_ok[OF assms(1)] by metis
  ultimately have "unat (itr (fold itr_interrupt loads a)) \<le> unat t"
    "min (unat t) (4000 + length loads * (unat t div 4)) \<le> unat (itr (fold itr_interrupt loads a))"
    using itr_approach[OF assms(1,3)] by simp_all
  moreover have "4 * (unat t div 4) \<le> length loads * (unat t div 4)" using assms(2) by simp
  ultimately have "unat (itr (fold itr_interrupt loads a)) = unat t" by linarith
  then show ?thesis by (simp only: word_unat_eq_iff)
qed

text \<open>A gigabit link without traffic in the dynamic mode.\<close>

definition itr_idle :: itr_load where
  "itr_idle = \<lparr>load_speed = 1000, load_tx = (0, 0), load_rx = (0, 0)\<rparr>"

definition itr_adapter0 :: e1000_adapter where
  "itr_adapter0 = adapter_zero\<lparr>itr := 4000, itr_setting := 1\<rparr>"

lemma itr_adapter0_ok: "itr_ok itr_adapter0"
  by (simp add: itr_ok_def itr_adapter0_def adapter_zero_def ring_zero_def rate_ok_def class_ok_def latency_defs)

lemma itr_bounded_witness: "itr_ok (fold itr_interrupt [itr_idle, itr_idle\<lparr>load_speed := 100\<rparr>] itr_adapter0)"
  using itr_bounded[OF itr_adapter0_ok, of "[itr_idle, itr_idle\<lparr>load_speed := 100\<rparr>]"] by (simp add: Let_def)

lemma set_itr_now_class:
  "wp (set_itr_now n) (\<lambda>_ b. tx_itr b = tx_itr a \<and> rx_itr b = rx_itr a \<and> itr_setting b = itr_setting a) a"
  by (simp add: set_itr_now_def wp_hw_op)

lemma update_itr_idle: "e1000_update_itr c 0 b = c"
  by (simp add: e1000_update_itr_def)

lemma itr_idle_class:
  "tx_itr (itr_interrupt itr_idle a) = conservative (itr_setting a) (tx_itr a) \<and>
   rx_itr (itr_interrupt itr_idle a) = conservative (itr_setting a) (rx_itr a) \<and>
   itr_setting (itr_interrupt itr_idle a) = itr_setting a"
proof -
  let ?s = "a\<lparr>link_speed := 1000, total_tx_packets := 0, total_tx_bytes := 0, total_rx_packets := 0,
    total_rx_bytes := 0, tx_itr := conservative (itr_setting a) (tx_itr a), rx_itr := conservative (itr_setting a) (rx_itr a)\<rparr>"
  have "run_state e1000_set_itr (a\<lparr>link_speed := 1000, total_tx_packets := 0, total_tx_bytes := 0,
      total_rx_packets := 0, total_rx_bytes := 0\<rparr>) = run_state (set_itr_now (itr_of_class
        (max (conservative (itr_setting a) (rx_itr a)) (conservative (itr_setting a) (tx_itr a))) (itr a))) ?s" (is "_ = run_state ?m _")
    by (simp add: e1000_set_itr_def update_itr_idle)
  then have "itr_interrupt itr_idle a = exec ?m ?s" by (simp add: itr_interrupt_def itr_idle_def)
  then show ?thesis using set_itr_now_class[of _ ?s] unfolding wp_iff by simp
qed

lemma itr_converges_witness: "itr (fold itr_interrupt [itr_idle, itr_idle, itr_idle, itr_idle] itr_adapter0) = 70000"
proof (rule itr_converges[OF itr_adapter0_ok])
  have zero: "tx_itr a = 0 \<and> rx_itr a = 0 \<and> itr_setting a = 1 \<Longrightarrow> itr_target itr_idle a = 70000 \<and>
      tx_itr (itr_interrupt itr_idle a) = 0 \<and> rx_itr (itr_interrupt itr_idle a) = 0 \<and>
      itr_setting (itr_interrupt itr_idle a) = 1" for a
    by (simp add: itr_idle_class itr_target_def conservative_def update_itr_idle itr_of_class_def latency_defs)
      (simp add: itr_idle_def update_itr_idle)
  show "\<forall>i<length [itr_idle, itr_idle, itr_idle, itr_idle].
      itr_target ([itr_idle, itr_idle, itr_idle, itr_idle] ! i)
        (fold itr_interrupt (take i [itr_idle, itr_idle, itr_idle, itr_idle]) itr_adapter0) = 70000"
    by (auto simp: less_Suc_eq zero itr_adapter0_def adapter_zero_def)
qed simp

end
