(* ===== verification/NetParam.thy ===== *)
theory NetParam
  imports NetItr
begin

text \<open>
  Module parameters, param.c.  The values a user gives for a parameter, one for each board, are
  a list; the number of the board selects one.
\<close>

section \<open>Validation\<close>

datatype option_arg = enable_option | range_option int int | list_option "int list"

record e1000_option =
  opt_def :: int
  opt_arg :: option_arg

text \<open>The value is unsigned: the bounds and entries are converted before they are compared.\<close>

definition e1000_validate_option :: "u32 \<Rightarrow> e1000_option \<Rightarrow> u32 \<times> int" where
  "e1000_validate_option v opt =
     (if v = of_int (- 1) then (of_int (opt_def opt), 0)
      else if (case opt_arg opt of
          enable_option \<Rightarrow> v = 1 \<or> v = 0
        | range_option mn mx \<Rightarrow> v \<ge> of_int mn \<and> v \<le> of_int mx
        | list_option is \<Rightarrow> list_ex (\<lambda>i. v = of_int i) is) then (v, 0)
      else (of_int (opt_def opt), - 1))"

definition range_opt :: "int \<Rightarrow> int \<Rightarrow> int \<Rightarrow> e1000_option" where
  "range_opt d mn mx = \<lparr>opt_def = d, opt_arg = range_option mn mx\<rparr>"

definition enable_opt :: "int \<Rightarrow> e1000_option" where
  "enable_opt d = \<lparr>opt_def = d, opt_arg = enable_option\<rparr>"

section \<open>The parameters\<close>

record e1000_params =
  TxIntDelay :: "int list"
  TxAbsIntDelay :: "int list"
  RxIntDelay :: "int list"
  RxAbsIntDelay :: "int list"
  InterruptThrottleRate :: "int list"
  IntMode :: "int list"
  SmartPowerDownEnable :: "int list"
  CrcStripping :: "int list"
  KumeranLockLoss :: "int list"

text \<open>A parameter that is only validated: the user's value if there is one, else the default.\<close>

definition user_value :: "e1000_option \<Rightarrow> int list \<Rightarrow> nat \<Rightarrow> u32" where
  "user_value opt xs bd =
     (if bd < length xs then fst (e1000_validate_option (of_int (xs ! bd)) opt) else of_int (opt_def opt))"

definition tx_int_delay_opt :: e1000_option where "tx_int_delay_opt = range_opt 8 0 0xFFFF"
definition tx_abs_int_delay_opt :: e1000_option where "tx_abs_int_delay_opt = range_opt 32 0 0xFFFF"
definition rx_int_delay_opt :: e1000_option where "rx_int_delay_opt = range_opt 0 0 0xFFFF"
definition rx_abs_int_delay_opt :: e1000_option where "rx_abs_int_delay_opt = range_opt 8 0 0xFFFF"
definition int_mode_opt :: e1000_option where "int_mode_opt = range_opt 2 0 2"
definition itr_opt :: e1000_option where "itr_opt = range_opt 3 100 100000"

text \<open>The rate and the setting; the setting is not touched when throttling is turned off.\<close>

definition itr_param :: "int list \<Rightarrow> nat \<Rightarrow> u32 \<Rightarrow> u32 \<times> u32" where
  "itr_param xs bd setting =
     (if bd < length xs then
        (let v = of_int (xs ! bd) :: u32 in
         if v = 0 then (v, setting)
         else if v = 1 \<or> v = 3 then (20000, v)
         else (let (w, code) = e1000_validate_option v itr_opt in
           if code \<noteq> 0 \<and> w = 3 then (20000, w) else (w, w AND NOT 3)))
      else (20000, of_int (opt_def itr_opt)))"

definition FLAG_HAS_SMART_POWER_DOWN :: u32 where "FLAG_HAS_SMART_POWER_DOWN = push_bit 11 1"
definition FLAG_SMART_POWER_DOWN :: u32 where "FLAG_SMART_POWER_DOWN = push_bit 26 1"
definition FLAG2_CRC_STRIPPING :: u32 where "FLAG2_CRC_STRIPPING = 1"

definition smart_power_param :: "int list \<Rightarrow> nat \<Rightarrow> u32 \<Rightarrow> u32" where
  "smart_power_param xs bd fl =
     (if bd < length xs \<and> fl AND FLAG_HAS_SMART_POWER_DOWN \<noteq> 0 \<and>
         fst (e1000_validate_option (of_int (xs ! bd)) (enable_opt 0)) \<noteq> 0
      then fl OR FLAG_SMART_POWER_DOWN else fl)"

definition crc_param :: "int list \<Rightarrow> nat \<Rightarrow> u32 \<Rightarrow> u32" where
  "crc_param xs bd fl = (if user_value (enable_opt 1) xs bd = 1 then fl OR FLAG2_CRC_STRIPPING else fl)"

definition e1000e_set_kmrn_lock_loss_workaround_ich8lan :: "bool \<Rightarrow> (e1000_hw, unit) state" where
  "e1000e_set_kmrn_lock_loss_workaround_ich8lan st = do {
     t \<leftarrow> gets (\<lambda>h. mac_type (mac h));
     (if t \<noteq> e1000_ich8lan then skip
      else modify (\<lambda>h. h\<lparr>kmrn_lock_loss_workaround_enabled := st\<rparr>)) }"

definition kmrn_param :: "int list \<Rightarrow> nat \<Rightarrow> (e1000_hw, unit) state" where
  "kmrn_param xs bd = do {
     t \<leftarrow> gets (\<lambda>h. mac_type (mac h));
     (if t = e1000_ich8lan
      then e1000e_set_kmrn_lock_loss_workaround_ich8lan (user_value (enable_opt 1) xs bd \<noteq> 0) else skip) }"

definition e1000e_check_options :: "e1000_params \<Rightarrow> nat \<Rightarrow> (e1000_adapter, unit) state" where
  "e1000e_check_options P bd = do {
     modify (\<lambda>a. a\<lparr>tx_int_delay := user_value tx_int_delay_opt (TxIntDelay P) bd\<rparr>);
     modify (\<lambda>a. a\<lparr>tx_abs_int_delay := user_value tx_abs_int_delay_opt (TxAbsIntDelay P) bd\<rparr>);
     modify (\<lambda>a. a\<lparr>rx_int_delay := user_value rx_int_delay_opt (RxIntDelay P) bd\<rparr>);
     modify (\<lambda>a. a\<lparr>rx_abs_int_delay := user_value rx_abs_int_delay_opt (RxAbsIntDelay P) bd\<rparr>);
     modify (\<lambda>a. let (rate, setting) = itr_param (InterruptThrottleRate P) bd (itr_setting a) in
       a\<lparr>itr := rate, itr_setting := setting\<rparr>);
     modify (\<lambda>a. a\<lparr>int_mode := user_value int_mode_opt (IntMode P) bd\<rparr>);
     modify (\<lambda>a. a\<lparr>flags := smart_power_param (SmartPowerDownEnable P) bd (flags a)\<rparr>);
     modify (\<lambda>a. a\<lparr>flags2 := crc_param (CrcStripping P) bd (flags2 a)\<rparr>);
     hw_op (kmrn_param (KumeranLockLoss P) bd) }"

section \<open>The configuration that results\<close>

lemma user_range:
  assumes "0 \<le> mn" "mn \<le> d" "d \<le> mx" "mx < 2 ^ 32"
  shows "of_int mn \<le> user_value (range_opt d mn mx) xs bd \<and> user_value (range_opt d mn mx) xs bd \<le> of_int mx"
  using assms
  by (auto simp: user_value_def e1000_validate_option_def range_opt_def word_le_def uint_word_of_int)

text \<open>
  The throttle setting is dynamic at the start rate, a fixed rate whose two lowest bits are
  cleared in the setting, or off; the value that marks an unset parameter gives a rate of three
  with the setting off.
\<close>

definition itr_config :: "u32 \<Rightarrow> u32 \<Rightarrow> bool" where
  "itr_config rate setting \<longleftrightarrow> rate = 20000 \<and> (setting = 1 \<or> setting = 3) \<or>
     100 \<le> rate \<and> rate \<le> 100000 \<and> setting = rate AND NOT 3 \<or> rate = 0 \<and> setting = 0 \<or> rate = 3 \<and> setting = 0"

lemma itr_param_config: "itr_param xs bd 0 = (rate, setting) \<Longrightarrow> itr_config rate setting"
  by (auto simp: itr_param_def itr_config_def e1000_validate_option_def itr_opt_def range_opt_def Let_def split: if_splits)

text \<open>
  The type of a configuration: what the rest of the driver may rely on, whatever the user passes.
\<close>

definition config_ok :: "e1000_adapter \<Rightarrow> bool" where
  "config_ok a \<longleftrightarrow> tx_int_delay a \<le> 0xFFFF \<and> tx_abs_int_delay a \<le> 0xFFFF \<and> rx_int_delay a \<le> 0xFFFF \<and>
     rx_abs_int_delay a \<le> 0xFFFF \<and> int_mode a \<le> 2 \<and> itr_config (itr a) (itr_setting a)"

lemma itr_word_range:
  assumes "100 \<le> r" "r \<le> 100000"
  shows "0 < r * 256" "39 \<le> itr_word r" "itr_word r \<le> 0xFFFF"
proof -
  have r: "100 \<le> unat r" "unat r \<le> 100000" using assms by (simp_all add: word_le_nat_alt)
  then have m: "unat (r * 256) = unat r * 256" by (subst unat_mult_lem[THEN iffD1]) simp_all
  with r show "0 < r * 256" by (simp add: word_less_nat_alt)
  have e: "unat (itr_word r) = 1000000000 div (unat r * 256)" by (simp add: itr_word_def unat_div m)
  have "1000000000 div (100000 * 256) \<le> 1000000000 div (unat r * 256)" using r by (intro div_le_mono2) simp_all
  moreover have "1000000000 div (unat r * 256) \<le> 1000000000 div (100 * 256)" using r by (intro div_le_mono2) simp_all
  ultimately show "39 \<le> itr_word r" "itr_word r \<le> 0xFFFF" using e by (simp_all add: word_le_nat_alt)
qed

lemma itr_config_on:
  "itr_config rate setting \<Longrightarrow> setting \<noteq> 0 \<Longrightarrow> 100 \<le> rate \<and> rate \<le> 100000"
  by (auto simp: itr_config_def)

lemmas param_opts = tx_int_delay_opt_def tx_abs_int_delay_opt_def rx_int_delay_opt_def rx_abs_int_delay_opt_def
  int_mode_opt_def

lemma check_options_wp:
  assumes "itr_setting a = 0"
  shows "wp (e1000e_check_options P bd) (\<lambda>_ b. config_ok b) a"
proof -
  have "itr_config (fst (itr_param xs bd 0)) (snd (itr_param xs bd 0))" for xs
    using itr_param_config[of xs bd] by (metis prod.collapse)
  moreover have "user_value (range_opt d 0 0xFFFF) xs bd \<le> 0xFFFF" if "0 \<le> d" "d \<le> 0xFFFF" for d xs
    using user_range[where mn = 0 and d = d and mx = 65535 and xs = xs and bd = bd] that by simp
  moreover have "user_value (range_opt 2 0 2) xs bd \<le> 2" for xs
    using user_range[where mn = 0 and d = 2 and mx = 2 and xs = xs and bd = bd] by simp
  ultimately show ?thesis
    using assms by (simp add: e1000e_check_options_def config_ok_def param_opts wp_hw_op split_def Let_def
      kmrn_param_def e1000e_set_kmrn_lock_loss_workaround_ich8lan_def)
qed


text \<open>
  A user who passes the marker of an unset parameter turns throttling off, while the default is
  the conservative mode.
\<close>

lemma throttle_marker:
  "bd < length xs \<Longrightarrow> xs ! bd = - 1 \<Longrightarrow> itr_param xs bd setting = (3, 0)"
  by (simp add: itr_param_def e1000_validate_option_def itr_opt_def range_opt_def)


end
