(* ===== verification/NetIrq.thy ===== *)
theory NetIrq
  imports NetRx NetItr NetTx
begin

text \<open>
  Interrupts, netdev.c: the handlers of the three modes, the poll they schedule, the masks, the
  set-up of MSI-X, the choice of a mode with its fallbacks, and the flag that tells the firmware
  who controls the chip.
\<close>

section \<open>Registers\<close>

abbreviation ICR :: u32 where "ICR \<equiv> 0x000C0"
abbreviation ICS :: u32 where "ICS \<equiv> 0x000C8"
abbreviation IMS :: u32 where "IMS \<equiv> 0x000D0"
abbreviation IMC :: u32 where "IMC \<equiv> 0x000D8"
abbreviation IAM :: u32 where "IAM \<equiv> 0x000E0"
abbreviation EIAC_82574 :: u32 where "EIAC_82574 \<equiv> 0x000DC"
abbreviation RCTL :: u32 where "RCTL \<equiv> 0x00100"

definition E1000_ICR_LSC :: u32 where "E1000_ICR_LSC = 0x00000004"
definition E1000_ICR_OTHER :: u32 where "E1000_ICR_OTHER = 0x01000000"
definition E1000_ICR_INT_ASSERTED :: u32 where "E1000_ICR_INT_ASSERTED = 0x80000000"
definition E1000_EIAC_MASK_82574 :: u32 where "E1000_EIAC_MASK_82574 = 0x01F00000"
definition E1000_EITR_82574 :: "u32 \<Rightarrow> u32" where "E1000_EITR_82574 n = 0x000E8 + 4 * n"

text \<open>RXT0, TXDW, RXDMT0, RXSEQ and LSC.\<close>

definition IMS_ENABLE_MASK :: u32 where
  "IMS_ENABLE_MASK = 0x80 OR 0x01 OR 0x10 OR 0x08 OR 0x04"

definition FLAG_RX_NEEDS_RESTART :: u32 where "FLAG_RX_NEEDS_RESTART = push_bit 24 1"
definition FLAG_LSC_GIG_SPEED_DROP :: u32 where "FLAG_LSC_GIG_SPEED_DROP = push_bit 25 1"
definition FLAG_MSI_ENABLED :: u32 where "FLAG_MSI_ENABLED = push_bit 27 1"
definition FLAG_RX_RESTART_NOW :: u32 where "FLAG_RX_RESTART_NOW = push_bit 30 1"
definition FLAG_HAS_MSIX :: u32 where "FLAG_HAS_MSIX = push_bit 10 1"
definition FLAG_HAS_CTRLEXT_ON_LOAD :: u32 where "FLAG_HAS_CTRLEXT_ON_LOAD = push_bit 5 1"
definition FLAG_HAS_SWSM_ON_LOAD :: u32 where "FLAG_HAS_SWSM_ON_LOAD = push_bit 6 1"

section \<open>Handlers\<close>

definition mod_watchdog :: "(e1000_adapter, unit) state" where
  "mod_watchdog = do { down \<leftarrow> gets is_down; (if down then skip else log_ev Watchdog_timer) }"

text \<open>The part for a change of the link that the MSI and the legacy handler share.\<close>

definition intr_link :: "mmio \<Rightarrow> (e1000_adapter, unit) state" where
  "intr_link E = do {
     hw_op (set_mac (\<lambda>m. m\<lparr>get_link_status := True\<rparr>));
     fl \<leftarrow> gets flags;
     (if fl AND FLAG_LSC_GIG_SPEED_DROP \<noteq> 0 then do {
        status \<leftarrow> hw_op (er32 E STATUS);
        (if status AND STATUS_LU = 0 then log_ev Downshift_task else skip) }
      else skip);
     up \<leftarrow> gets carrier_ok;
     (if up \<and> fl AND FLAG_RX_NEEDS_RESTART \<noteq> 0 then do {
        rctl \<leftarrow> hw_op (er32 E RCTL);
        hw_op (ew32 RCTL (rctl AND NOT 0x00000002));
        modify (\<lambda>a. a\<lparr>flags := flags a OR FLAG_RX_RESTART_NOW\<rparr>) }
      else skip);
     mod_watchdog }"

definition schedule_poll :: "(e1000_adapter, unit) state" where
  "schedule_poll = do {
     s \<leftarrow> gets napi_scheduled;
     (if s then skip
      else do {
        modify (\<lambda>a. a\<lparr>napi_scheduled := True\<rparr>);
        modify (\<lambda>a. a\<lparr>total_tx_bytes := 0, total_tx_packets := 0, total_rx_bytes := 0, total_rx_packets := 0\<rparr>);
        log_ev Napi_schedule }) }"

definition e1000_intr_msi :: "mmio \<Rightarrow> (e1000_adapter, unit) state" where
  "e1000_intr_msi E = do {
     icr \<leftarrow> hw_op (er32 E ICR);
     (if icr AND E1000_ICR_LSC \<noteq> 0 then intr_link E else skip);
     schedule_poll }"

text \<open>The result of the legacy handler is whether the interrupt was its own.\<close>

definition e1000_intr :: "mmio \<Rightarrow> (e1000_adapter, bool) state" where
  "e1000_intr E = do {
     icr \<leftarrow> hw_op (er32 E ICR);
     (if icr = 0 then ret False
      else if icr AND E1000_ICR_INT_ASSERTED = 0 then ret False
      else do {
        (if icr AND E1000_ICR_LSC \<noteq> 0 then intr_link E else skip);
        schedule_poll;
        ret True }) }"

definition e1000_msix_other :: "mmio \<Rightarrow> (e1000_adapter, bool) state" where
  "e1000_msix_other E = do {
     icr \<leftarrow> hw_op (er32 E ICR);
     (if icr AND E1000_ICR_INT_ASSERTED = 0 then do { hw_op (ew32 IMS E1000_ICR_OTHER); ret False }
      else do {
        eiac \<leftarrow> gets eiac_mask;
        (if icr AND eiac \<noteq> 0 then hw_op (ew32 ICS (icr AND eiac)) else skip);
        (if icr AND E1000_ICR_OTHER \<noteq> 0 \<and> icr AND E1000_ICR_LSC \<noteq> 0 then do {
           hw_op (set_mac (\<lambda>m. m\<lparr>get_link_status := True\<rparr>));
           mod_watchdog }
         else skip);
        hw_op (ew32 IMS (E1000_ICR_LSC OR E1000_ICR_OTHER));
        ret True }) }"

definition e1000_intr_msix_rx :: "(e1000_adapter, unit) state" where
  "e1000_intr_msix_rx = do {
     r \<leftarrow> gets rx_ring;
     (if set_itr r then do {
        hw_op (ew32 (itr_register r) (itr_word (itr_val r)));
        set_rx (\<lambda>r. r\<lparr>set_itr := False\<rparr>) }
      else skip);
     schedule_poll }"

section \<open>Masks\<close>

definition e1000_irq_disable :: "mmio \<Rightarrow> (e1000_adapter, unit) state" where
  "e1000_irq_disable E = do {
     hw_op (ew32 IMC (NOT 0));
     m \<leftarrow> gets msix;
     (if m then hw_op (ew32 EIAC_82574 0) else skip);
     hw_op (e1e_flush E) }"

definition e1000_irq_enable :: "mmio \<Rightarrow> (e1000_adapter, unit) state" where
  "e1000_irq_enable E = do {
     m \<leftarrow> gets msix;
     eiac \<leftarrow> gets eiac_mask;
     (if m then do {
        hw_op (ew32 EIAC_82574 (eiac AND E1000_EIAC_MASK_82574));
        hw_op (ew32 IMS (eiac OR E1000_ICR_OTHER OR E1000_ICR_LSC)) }
      else hw_op (ew32 IMS IMS_ENABLE_MASK));
     hw_op (e1e_flush E) }"

section \<open>Poll\<close>

text \<open>All work is done: polling ends and the interrupts it stands for are turned on.\<close>

definition poll_done :: "mmio \<Rightarrow> (e1000_adapter, unit) state" where
  "poll_done E = do {
     modify (\<lambda>a. a\<lparr>napi_scheduled := False\<rparr>);
     log_ev Napi_complete;
     setting \<leftarrow> gets itr_setting;
     (if setting AND 3 \<noteq> 0 then e1000_set_itr else skip);
     a \<leftarrow> gets (\<lambda>a. a);
     (if is_down a then skip
      else if msix a then hw_op (ew32 IMS (ims_val (rx_ring a)))
      else e1000_irq_enable E) }"

text \<open>
  The receive routine is the function pointer \<open>clean_rx\<close>: the argument \<open>rx\<close>.  The result is the
  work reported to the kernel; \<open>None\<close> as in the routines.
\<close>

definition e1000_poll :: "mmio \<Rightarrow> kernel \<Rightarrow> (nat \<Rightarrow> (e1000_adapter, nat option) state) \<Rightarrow> u32 \<Rightarrow> nat \<Rightarrow>
    (e1000_adapter, nat option) state" where
  "e1000_poll E K rx now budget = do {
     a \<leftarrow> gets (\<lambda>a. a);
     tx \<leftarrow> (if \<not> msix a \<or> ims_val (rx_ring a) AND ims_val (tx_ring a) \<noteq> 0
            then e1000_clean_tx_irq E K now else ret (Some True));
     (case tx of None \<Rightarrow> ret None
      | Some tx_done \<Rightarrow> do {
          w \<leftarrow> rx budget;
          (case w of None \<Rightarrow> ret None
           | Some w \<Rightarrow> (let work = (if tx_done then w else budget) in do {
               (if work < budget then poll_done E else skip);
               ret (Some work) })) }) }"

section \<open>MSI-X\<close>

definition eitr_word :: "u32 \<Rightarrow> u32" where
  "eitr_word rate = (if rate \<noteq> 0 then itr_word rate else 1)"

definition e1000_configure_msix :: "mmio \<Rightarrow> (e1000_adapter, unit) state" where
  "e1000_configure_msix E = do {
     modify (\<lambda>a. a\<lparr>eiac_mask := 0\<rparr>);
     t \<leftarrow> gets (\<lambda>a. mac_type (mac (hw a)));
     (if t = e1000_82574 then hw_op (do { v \<leftarrow> er32 E 0x05008; ew32 0x05008 (v OR 0x00001000) }) else skip);
     set_rx (\<lambda>r. r\<lparr>ims_val := 0x00100000\<rparr>);
     modify (\<lambda>a. a\<lparr>eiac_mask := eiac_mask a OR ims_val (rx_ring a)\<rparr>);
     r \<leftarrow> gets rx_ring;
     hw_op (ew32 (itr_register r) (eitr_word (itr_val r)));
     set_tx (\<lambda>r. r\<lparr>ims_val := 0x00400000\<rparr>);
     tx_ims \<leftarrow> gets (\<lambda>a. ims_val (tx_ring a));
     set_rx (\<lambda>r. r\<lparr>ims_val := ims_val r OR tx_ims\<rparr>);
     modify (\<lambda>a. a\<lparr>eiac_mask := eiac_mask a OR tx_ims\<rparr>);
     hw_op (ew32 (E1000_EITR_82574 1) (eitr_word (itr_val r)));
     hw_op (ew32 0x000E4 (0x8 OR push_bit 8 0x8 OR push_bit 16 (0x8 OR 1) OR push_bit 31 1));
     ctrl_ext \<leftarrow> hw_op (er32 E CTRL_EXT);
     hw_op (ew32 IAM (NOT E1000_EIAC_MASK_82574 OR E1000_ICR_OTHER));
     hw_op (ew32 CTRL_EXT (ctrl_ext OR 0x80000000 OR 0x01000000));
     hw_op (e1e_flush E) }"

definition e1000e_reset_interrupt_capability :: "(e1000_adapter, unit) state" where
  "e1000e_reset_interrupt_capability = do {
     a \<leftarrow> gets (\<lambda>a. a);
     (if msix a then do { log_ev Disable_msix; modify (\<lambda>a. a\<lparr>msix := False\<rparr>) }
      else if flags a AND FLAG_MSI_ENABLED \<noteq> 0 then do {
        log_ev Disable_msi;
        modify (\<lambda>a. a\<lparr>flags := flags a AND NOT FLAG_MSI_ENABLED\<rparr>) }
      else skip) }"

definition E1000E_INT_MODE_LEGACY :: u32 where "E1000E_INT_MODE_LEGACY = 0"
definition E1000E_INT_MODE_MSI :: u32 where "E1000E_INT_MODE_MSI = 1"
definition E1000E_INT_MODE_MSIX :: u32 where "E1000E_INT_MODE_MSIX = 2"

definition set_msi :: "kernel \<Rightarrow> (e1000_adapter, unit) state" where
  "set_msi K = do {
     h \<leftarrow> gets klog;
     (if enable_msi K h = 0 then do {
        log_ev Enable_msi;
        modify (\<lambda>a. a\<lparr>flags := flags a OR FLAG_MSI_ENABLED\<rparr>) }
      else modify (\<lambda>a. a\<lparr>int_mode := E1000E_INT_MODE_LEGACY\<rparr>)) }"

text \<open>The result is whether MSI-X is on.\<close>

definition set_msix :: "kernel \<Rightarrow> (e1000_adapter, bool) state" where
  "set_msix K = do {
     h \<leftarrow> gets klog;
     modify (\<lambda>a. a\<lparr>msix := alloc_entries K h\<rparr>);
     (if alloc_entries K h \<and> enable_msix K h then do { log_ev Enable_msix; ret True }
      else do { e1000e_reset_interrupt_capability; ret False }) }"

definition e1000e_set_interrupt_capability :: "kernel \<Rightarrow> (e1000_adapter, unit) state" where
  "e1000e_set_interrupt_capability K = do {
     a \<leftarrow> gets (\<lambda>a. a);
     (if int_mode a = E1000E_INT_MODE_MSIX then do {
        on \<leftarrow> (if flags a AND FLAG_HAS_MSIX \<noteq> 0 then set_msix K else ret False);
        (if on then skip
         else do { modify (\<lambda>a. a\<lparr>int_mode := E1000E_INT_MODE_MSI\<rparr>); set_msi K }) }
      else if int_mode a = E1000E_INT_MODE_MSI then set_msi K
      else skip) }"

definition request_handler :: "kernel \<Rightarrow> irq_handler \<Rightarrow> (e1000_adapter, int) state" where
  "request_handler K f = do {
     h \<leftarrow> gets klog;
     (if request_irq K h f = 0 then log_ev (Request_irq f) else skip);
     ret (request_irq K h f) }"

definition e1000_request_msix :: "mmio \<Rightarrow> kernel \<Rightarrow> (e1000_adapter, int) state" where
  "e1000_request_msix E K = do {
     err \<leftarrow> request_handler K Intr_msix_rx;
     (if err \<noteq> 0 then ret err
      else do {
        modify (\<lambda>a. a\<lparr>rx_ring := (rx_ring a)\<lparr>itr_register := E1000_EITR_82574 0, itr_val := itr a\<rparr>\<rparr>);
        err \<leftarrow> request_handler K Msix_other;
        (if err \<noteq> 0 then ret err
         else do { e1000_configure_msix E; ret 0 }) }) }"

definition request_legacy :: "kernel \<Rightarrow> (e1000_adapter, int) state" where
  "request_legacy K = request_handler K Intr_legacy"

definition request_msi :: "kernel \<Rightarrow> (e1000_adapter, int) state" where
  "request_msi K = do {
     fl \<leftarrow> gets flags;
     (if fl AND FLAG_MSI_ENABLED = 0 then request_legacy K
      else do {
        err \<leftarrow> request_handler K Intr_msi;
        (if err = 0 then ret err
         else do {
           e1000e_reset_interrupt_capability;
           modify (\<lambda>a. a\<lparr>int_mode := E1000E_INT_MODE_LEGACY\<rparr>);
           request_legacy K }) }) }"

definition e1000_request_irq :: "mmio \<Rightarrow> kernel \<Rightarrow> (e1000_adapter, int) state" where
  "e1000_request_irq E K = do {
     m \<leftarrow> gets msix;
     (if \<not> m then request_msi K
      else do {
        err \<leftarrow> e1000_request_msix E K;
        (if err = 0 then ret err
         else do {
           e1000e_reset_interrupt_capability;
           modify (\<lambda>a. a\<lparr>int_mode := E1000E_INT_MODE_MSI\<rparr>);
           e1000e_set_interrupt_capability K;
           request_msi K }) }) }"

text \<open>The vectors of MSI-X are numbered; the only interrupt of the other modes is 0.\<close>

definition e1000_free_irq :: "(e1000_adapter, unit) state" where
  "e1000_free_irq = do {
     m \<leftarrow> gets msix;
     log_ev (Free_irq 0);
     (if m then log_ev (Free_irq 1) else skip) }"

section \<open>Control of the chip\<close>

definition hw_control :: "mmio \<Rightarrow> bool \<Rightarrow> (e1000_adapter, unit) state" where
  "hw_control E own = do {
     fl \<leftarrow> gets flags;
     (let turn = (\<lambda>b v. if own then v OR b else v AND NOT b) in
      if fl AND FLAG_HAS_SWSM_ON_LOAD \<noteq> 0 then hw_op (do { v \<leftarrow> er32 E SWSM; ew32 SWSM (turn 0x00000008 v) })
      else if fl AND FLAG_HAS_CTRLEXT_ON_LOAD \<noteq> 0
        then hw_op (do { v \<leftarrow> er32 E CTRL_EXT; ew32 CTRL_EXT (turn 0x10000000 v) })
      else skip) }"

definition e1000_get_hw_control :: "mmio \<Rightarrow> (e1000_adapter, unit) state" where
  "e1000_get_hw_control E = hw_control E True"

definition e1000_release_hw_control :: "mmio \<Rightarrow> (e1000_adapter, unit) state" where
  "e1000_release_hw_control E = hw_control E False"

end
