(* ===== verification/IrqProps.thy ===== *)
theory IrqProps
  imports NetIrq
begin

text \<open>
  The interplay of interrupts and polls: the mask of the chip as a function of the register
  history, the operations that leave it alone, and the invariant of the legacy and MSI modes that
  either interrupts are on or a poll is scheduled.
\<close>

section \<open>The mask of the chip\<close>

definition IAME :: u32 where "IAME = 0x08000000"

text \<open>
  A read of ICR that finds an interrupt asserted clears the bits of IAM from the mask when the
  acknowledge mode is on; writes of IMS and IMC set and clear bits.
\<close>

definition auto_mask :: "reg_ev list \<Rightarrow> u32" where
  "auto_mask h = (case (reg_last h CTRL_EXT, reg_last h IAM) of
     (Some c, Some m) \<Rightarrow> (if c AND IAME \<noteq> 0 then m else 0) | _ \<Rightarrow> 0)"

fun irq_mask :: "reg_ev list \<Rightarrow> u32" where
  "irq_mask [] = 0"
| "irq_mask (Wr r v # h) =
     (if r = IMS then irq_mask h OR v else if r = IMC then irq_mask h AND NOT v else irq_mask h)"
| "irq_mask (Rd r v # h) =
     (if r = ICR \<and> v AND E1000_ICR_INT_ASSERTED \<noteq> 0 then irq_mask h AND NOT (auto_mask h) else irq_mask h)"

text \<open>What the interplay depends on.\<close>

record irq_view =
  view_mask :: u32
  view_auto :: u32
  view_scheduled :: bool
  view_down :: bool
  view_msix :: bool
  view_tails :: "u32 \<times> u32 \<times> u32"

definition irq_view :: "e1000_adapter \<Rightarrow> irq_view" where
  "irq_view a = \<lparr>view_mask = irq_mask (rhist (hw a)), view_auto = auto_mask (rhist (hw a)),
     view_scheduled = napi_scheduled a, view_down = is_down a, view_msix = msix a,
     view_tails = (ring_tail (rx_ring a), ring_head (tx_ring a), ring_tail (tx_ring a))\<rparr>"

definition plain_reg :: "u32 \<Rightarrow> bool" where
  "plain_reg r \<longleftrightarrow> r \<notin> {ICR, IMS, IMC, IAM, CTRL_EXT}"

definition plain_tails :: "irq_view \<Rightarrow> bool" where
  "plain_tails v = (case view_tails v of (rt, th, tt) \<Rightarrow> plain_reg rt \<and> plain_reg th \<and> plain_reg tt)"

text \<open>An operation that touches nothing of it.\<close>

definition quiet :: "(e1000_adapter, 'a) state \<Rightarrow> bool" where
  "quiet m \<longleftrightarrow> (\<forall>a. plain_tails (irq_view a) \<longrightarrow> irq_view (exec m a) = irq_view a)"

named_theorems quiet_intros

lemma quiet_return [quiet_intros]: "quiet (ret x)"
  by (simp add: quiet_def)

lemma quiet_bind [quiet_intros]: "quiet m \<Longrightarrow> (\<And>x. quiet (f x)) \<Longrightarrow> quiet (State_Monad.bind m f)"
  by (simp add: quiet_def split: prod.splits) (metis snd_conv)

lemma quiet_if [quiet_intros]: "(b \<Longrightarrow> quiet m) \<Longrightarrow> (\<not> b \<Longrightarrow> quiet n) \<Longrightarrow> quiet (if b then m else n)"
  by simp

lemma quiet_let [quiet_intros]: "(\<And>x. quiet (f x)) \<Longrightarrow> quiet (let x = e in f x)"
  by simp

lemma quiet_gets [quiet_intros]: "quiet (gets f)"
  by (simp add: quiet_def)

lemma quiet_option [quiet_intros]:
  "quiet m \<Longrightarrow> (\<And>x. quiet (f x)) \<Longrightarrow> quiet (case z of None \<Rightarrow> m | Some x \<Rightarrow> f x)"
  by (cases z) simp_all

lemma quiet_prod [quiet_intros]: "(\<And>x y. quiet (f x y)) \<Longrightarrow> quiet (case z of (x, y) \<Rightarrow> f x y)"
  by (cases z) simp

lemma quiet_bool [quiet_intros]: "quiet m \<Longrightarrow> quiet n \<Longrightarrow> quiet (case z of True \<Rightarrow> m | False \<Rightarrow> n)"
  by (cases z) simp_all

lemma quiet_modify [quiet_intros]: "(\<And>a. irq_view (f a) = irq_view a) \<Longrightarrow> quiet (modify f)"
  by (simp add: quiet_def)

lemma irq_view_hist:
  "plain_reg r \<Longrightarrow> irq_view (a\<lparr>hw := (hw a)\<lparr>rhist := Wr r v # rhist (hw a)\<rparr>\<rparr>) = irq_view a"
  "plain_reg r \<Longrightarrow> irq_view (a\<lparr>hw := (hw a)\<lparr>rhist := Rd r v # rhist (hw a)\<rparr>\<rparr>) = irq_view a"
  by (simp_all add: irq_view_def plain_reg_def auto_mask_def)

lemma quiet_er32 [quiet_intros]: "plain_reg r \<Longrightarrow> quiet (hw_op (er32 E r))"
  by (simp add: quiet_def hw_op_def irq_view_hist)

lemma quiet_ew32 [quiet_intros]: "plain_reg r \<Longrightarrow> quiet (hw_op (ew32 r v))"
  by (simp add: quiet_def hw_op_def irq_view_hist)

section \<open>Quiet operations\<close>

lemma irq_view_simps [simp]:
  "irq_view (a\<lparr>klog := x\<rparr>) = irq_view a" "irq_view (a\<lparr>rx_ring := upd_buffer i f (rx_ring a)\<rparr>) = irq_view a"
  "irq_view (a\<lparr>tx_ring := upd_buffer i f (tx_ring a)\<rparr>) = irq_view a"
  "irq_view (a\<lparr>tx_ring := upd_desc i g (tx_ring a)\<rparr>) = irq_view a"
  "irq_view (a\<lparr>rx_ring := upd_desc i h (rx_ring a)\<rparr>) = irq_view a"
  by (simp_all add: irq_view_def upd_buffer_def upd_desc_def)

lemma quiet_put_txbuf [quiet_intros]: "quiet (e1000_put_txbuf i)"
  unfolding e1000_put_txbuf_def by (intro quiet_intros) (simp_all add: quiet_intros)

lemma quiet_clean_frame [quiet_intros]: "quiet (clean_frame fuel i eop p n)"
  by (induction fuel arbitrary: i p n) (auto intro!: quiet_intros)

lemma quiet_clean_tx_loop [quiet_intros]: "quiet (clean_tx_loop fuel i p n c)"
  by (induction fuel arbitrary: i p n c) (auto intro!: quiet_intros simp: Let_def)

lemma tails_plain:
  assumes "plain_tails (irq_view a)"
  shows "plain_reg (ring_tail (rx_ring a))" "plain_reg (ring_head (tx_ring a))" "plain_reg (ring_tail (tx_ring a))"
  using assms by (simp_all add: plain_tails_def irq_view_def)

lemma irq_view_hist2:
  "plain_reg r \<Longrightarrow> plain_reg q \<Longrightarrow> irq_view (a\<lparr>hw := (hw a)\<lparr>rhist := Rd r v # Rd q w # rhist (hw a)\<rparr>\<rparr>) = irq_view a"
  by (simp add: irq_view_def plain_reg_def auto_mask_def)

lemma quiet_tx_hang [quiet_intros]: "quiet (e1000_print_tx_hang E)"
  by (simp add: quiet_def e1000_print_tx_hang_def hw_op_def irq_view_hist2 tails_plain)

lemma quiet_rx_tail [quiet_intros]: "quiet (gets rx_ring \<bind> (\<lambda>r. hw_op (ew32 (ring_tail r) (f r))))"
  using tails_plain by (auto simp: quiet_def hw_op_def irq_view_hist)

lemma quiet_queue [quiet_intros]: "quiet stop_queue" "quiet (start_queue e)"
  by (simp_all add: stop_queue_def start_queue_def quiet_def irq_view_def)

lemma plain_status [quiet_intros]: "plain_reg STATUS"
  by (simp add: plain_reg_def)

lemma quiet_tx_irq [quiet_intros]: "quiet (e1000_clean_tx_irq E K now)"
  unfolding e1000_clean_tx_irq_def wake_tx_def check_tx_hang_def
  by (intro quiet_intros allI) (simp_all add: irq_view_def)

lemma quiet_alloc_loop [quiet_intros]: "quiet (alloc_rx_loop K n i)"
  by (induction n arbitrary: i)
    (auto intro!: quiet_intros simp: alloc_rx_one_def rx_slot_skb_def netdev_alloc_skb_def Let_def irq_view_def upd_buffer_def upd_desc_def)

lemma quiet_alloc [quiet_intros]: "quiet (e1000_alloc_rx_buffers K n)"
  unfolding e1000_alloc_rx_buffers_def by (intro quiet_intros) (simp_all add: irq_view_def)

lemma quiet_rx_one [quiet_intros]: "quiet (rx_one K i)"
  unfolding rx_one_def rx_copybreak_def netdev_alloc_skb_def e1000_rx_checksum_def e1000_receive_skb_def
  by (intro quiet_intros) (simp_all add: irq_view_def upd_buffer_def upd_desc_def)

lemma quiet_rx_loop [quiet_intros]: "quiet (clean_rx_loop K left i c p n)"
  by (induction left arbitrary: i c p n) (auto intro!: quiet_intros)

lemma quiet_rx_irq [quiet_intros]: "quiet (e1000_clean_rx_irq K n)"
  unfolding e1000_clean_rx_irq_def by (intro quiet_intros) (simp_all add: irq_view_def)

lemma plain_itr [quiet_intros]: "plain_reg 0x000C4"
  by (simp add: plain_reg_def)

lemma quiet_set_itr [quiet_intros]: "quiet e1000_set_itr"
  unfolding e1000_set_itr_def set_itr_now_def by (intro quiet_intros) (simp_all add: irq_view_def)

section \<open>Interrupts and polls\<close>

text \<open>
  What happens in the legacy and MSI modes with the receive routine for one buffer per frame: an
  MSI is sent only when an interrupt is asserted; the legacy line may be shared; a poll runs when
  it is scheduled; the chip writes descriptors.
\<close>

inductive irq_step :: "mmio \<Rightarrow> kernel \<Rightarrow> e1000_adapter \<Rightarrow> e1000_adapter \<Rightarrow> bool" for E K where
  irq_msi: "E (rhist (hw a)) ICR AND E1000_ICR_INT_ASSERTED \<noteq> 0 \<Longrightarrow> irq_step E K a (exec (e1000_intr_msi E) a)"
| irq_legacy: "irq_step E K a (exec (e1000_intr E) a)"
| irq_poll: "napi_scheduled a \<Longrightarrow> run_state (e1000_poll E K (e1000_clean_rx_irq K) now budget) a = (Some w, b) \<Longrightarrow>
    irq_step E K a b"
| irq_chip: "irq_step E K a (a\<lparr>rx_ring := (rx_ring a)\<lparr>ring_desc := rds\<rparr>, tx_ring := (tx_ring a)\<lparr>ring_desc := tds\<rparr>\<rparr>)"

text \<open>Exactly one: all interrupts are on, or a poll is scheduled and none is.\<close>

definition irq_inv :: "e1000_adapter \<Rightarrow> bool" where
  "irq_inv a \<longleftrightarrow> \<not> is_down a \<and> \<not> msix a \<and> plain_tails (irq_view a) \<and> auto_mask (rhist (hw a)) = - 1 \<and>
     irq_mask (rhist (hw a)) = (if napi_scheduled a then 0 else IMS_ENABLE_MASK)"

lemma irq_inv_view: "irq_view b = irq_view a \<Longrightarrow> irq_inv b = irq_inv a"
  by (simp add: irq_inv_def irq_view_def)

lemma quiet_inv: "quiet m \<Longrightarrow> plain_tails (irq_view a) \<Longrightarrow> irq_view (exec m a) = irq_view a"
  by (simp add: quiet_def)

lemma plain_rctl [quiet_intros]: "plain_reg RCTL"
  by (simp add: plain_reg_def)

lemma quiet_set_mac [quiet_intros]: "quiet (hw_op (set_mac f))"
  by (simp add: quiet_def hw_op_def set_mac_def irq_view_def)

lemma quiet_link [quiet_intros]: "quiet (intr_link E)"
  unfolding intr_link_def mod_watchdog_def by (intro quiet_intros) (simp_all add: irq_view_def)

lemma wp_quiet:
  assumes "quiet m" "plain_tails (irq_view a)" "\<And>r b. irq_view b = irq_view a \<Longrightarrow> Q r b"
  shows "wp m Q a"
  using assms quiet_inv[OF assms(1,2)] by (simp add: wp_iff)

text \<open>After an asserted interrupt was read, all are masked; the poll is then scheduled.\<close>

lemma intr_rest_wp:
  assumes "irq_inv a" "v AND E1000_ICR_INT_ASSERTED \<noteq> 0" "b = a\<lparr>hw := (hw a)\<lparr>rhist := Rd ICR v # rhist (hw a)\<rparr>\<rparr>"
  shows "wp (if v AND E1000_ICR_LSC \<noteq> 0 then intr_link E else skip) (\<lambda>_. wp schedule_poll (\<lambda>_. irq_inv)) b"
proof -
  have "irq_view b = (irq_view a)\<lparr>view_mask := 0\<rparr>"
    using assms by (simp add: irq_view_def irq_inv_def auto_mask_def)
  moreover have "wp schedule_poll (\<lambda>_. irq_inv) c" if "irq_view c = (irq_view a)\<lparr>view_mask := 0\<rparr>" for c
    using that assms(1) by (auto simp: schedule_poll_def irq_inv_def irq_view_def plain_tails_def split: prod.splits)
  ultimately show ?thesis
    using assms(1) by (auto simp: irq_inv_def plain_tails_def intro!: wp_quiet[OF quiet_link])
qed

lemma intr_msi_inv:
  assumes "irq_inv a" "E (rhist (hw a)) ICR AND E1000_ICR_INT_ASSERTED \<noteq> 0"
  shows "wp (e1000_intr_msi E) (\<lambda>_. irq_inv) a"
  unfolding e1000_intr_msi_def wp_bind wp_hw_op
  by (rule wp_er32) (rule intr_rest_wp[OF assms(1) _ refl], use assms(2) in simp)

lemma intr_inv:
  assumes "irq_inv a"
  shows "wp (e1000_intr E) (\<lambda>_. irq_inv) a"
  unfolding e1000_intr_def wp_bind wp_hw_op
proof (rule wp_er32)
  fix v
  let ?b = "a\<lparr>hw := (hw a)\<lparr>rhist := Rd ICR v # rhist (hw a)\<rparr>\<rparr>"
  have no: "irq_inv ?b" if "v AND E1000_ICR_INT_ASSERTED = 0"
    using assms that by (simp add: irq_inv_def irq_view_def plain_tails_def auto_mask_def)
  show "wp (if v = 0 then ret False else if v AND E1000_ICR_INT_ASSERTED = 0 then ret False
      else do { (if v AND E1000_ICR_LSC \<noteq> 0 then intr_link E else skip); schedule_poll; ret True }) (\<lambda>_. irq_inv) ?b"
  proof (cases "v AND E1000_ICR_INT_ASSERTED = 0")
    case False
    then have "wp (if v AND E1000_ICR_LSC \<noteq> 0 then intr_link E else skip)
        (\<lambda>_. wp schedule_poll (\<lambda>_. wp (ret True) (\<lambda>_. irq_inv))) ?b"
      by (rule wp_mono[OF intr_rest_wp[OF assms _ refl]]) (erule wp_mono, simp)
    moreover have "v \<noteq> 0" using False by auto
    ultimately show ?thesis using False by (simp only: if_False wp_bind)
  qed (use no in auto)
qed

lemma irq_enable_wp:
  assumes "\<not> msix a" "\<And>b. irq_view b = (irq_view a)\<lparr>view_mask := view_mask (irq_view a) OR IMS_ENABLE_MASK\<rparr> \<Longrightarrow> Q () b"
  shows "wp (e1000_irq_enable E) Q a"
  using assms(1)
  by (simp add: e1000_irq_enable_def wp_hw_op) (intro wp_flush assms(2), simp add: irq_view_def auto_mask_def)

lemma poll_done_wp:
  assumes "irq_inv a" "napi_scheduled a"
  shows "wp (poll_done E) (\<lambda>_. irq_inv) a"
proof -
  let ?b = "a\<lparr>napi_scheduled := False, klog := Napi_complete # klog a\<rparr>"
  have v: "irq_view ?b = (irq_view a)\<lparr>view_scheduled := False\<rparr>" by (simp add: irq_view_def)
  have plain: "plain_tails (irq_view ?b)" using assms(1) v by (simp add: irq_inv_def plain_tails_def)
  have end_ok: "wp (if is_down c then skip else if msix c then hw_op (ew32 IMS (ims_val (rx_ring c)))
      else e1000_irq_enable E) (\<lambda>_. irq_inv) c" if "irq_view c = irq_view ?b" for c
    using that v assms by (auto simp: irq_inv_def irq_view_def plain_tails_def intro!: irq_enable_wp)
  have itr: "wp (if x then e1000_set_itr else skip) (\<lambda>_ c. wp (if is_down c then skip
      else if msix c then hw_op (ew32 IMS (ims_val (rx_ring c))) else e1000_irq_enable E) (\<lambda>_. irq_inv) c) ?b" for x
    by (rule wp_quiet[OF _ plain]) (intro quiet_intros, rule end_ok)
  show ?thesis
    unfolding poll_done_def wp_bind wp_State prod.case using itr[of "itr_setting a AND 3 \<noteq> 0"] by simp
qed

lemma poll_inv:
  assumes "irq_inv a" "napi_scheduled a"
  shows "wp (e1000_poll E K (e1000_clean_rx_irq K) now budget) (\<lambda>r b. r \<noteq> None \<longrightarrow> irq_inv b) a"
proof -
  have tails: "plain_tails (irq_view b)" if "irq_view b = irq_view a" for b using assms(1) that by (simp add: irq_inv_def)
  have rx: "wp (case w of None \<Rightarrow> ret None
      | Some w \<Rightarrow> (let work = (if tx_done then w else budget) in do {
          (if work < budget then poll_done E else skip);
          ret (Some work) })) (\<lambda>r b. r \<noteq> None \<longrightarrow> irq_inv b) c" if "irq_view c = irq_view a" for w tx_done c
  proof -
    have "irq_inv c" "napi_scheduled c" using that assms irq_inv_view[OF that] by (auto simp: irq_view_def)
    moreover from this have "wp (poll_done E) (\<lambda>_. wp (ret (Some x)) (\<lambda>r b. r \<noteq> None \<longrightarrow> irq_inv b)) c" for x :: nat
      by (intro wp_mono[OF poll_done_wp]) simp_all
    ultimately show ?thesis by (cases w) (simp_all add: Let_def)
  qed
  have tx: "quiet (if \<not> msix a \<or> ims_val (rx_ring a) AND ims_val (tx_ring a) \<noteq> 0 then e1000_clean_tx_irq E K now else ret (Some True))"
    by (intro quiet_intros)
  have tx_rest: "wp (case r of None \<Rightarrow> ret None
      | Some tx_done \<Rightarrow> do {
          w \<leftarrow> e1000_clean_rx_irq K budget;
          (case w of None \<Rightarrow> ret None
           | Some w \<Rightarrow> (let work = (if tx_done then w else budget) in do {
               (if work < budget then poll_done E else skip);
               ret (Some work) })) }) (\<lambda>r b. r \<noteq> None \<longrightarrow> irq_inv b) b" if "irq_view b = irq_view a" for r b
    using that by (cases r) (simp_all only: option.case wp_bind wp_return, auto intro!: wp_quiet[OF quiet_rx_irq tails[OF that]] rx)
  show ?thesis
    unfolding e1000_poll_def wp_bind wp_State prod.case
    by (rule wp_quiet[OF tx tails[OF refl]]) (rule tx_rest)
qed

lemma irq_step_inv: "irq_step E K a b \<Longrightarrow> irq_inv a \<Longrightarrow> irq_inv b"
proof (induction rule: irq_step.induct)
  case (irq_msi a)
  then show ?case using intr_msi_inv[of a E] by (simp add: wp_iff)
next
  case (irq_legacy a)
  then show ?case using intr_inv[of a E] by (simp add: wp_iff)
next
  case (irq_poll a now budget w b)
  then show ?case using poll_inv[of a E K now budget] by (simp add: wp_def)
next
  case (irq_chip a rds tds)
  then show ?case by (subst irq_inv_view[of _ a]) (simp_all add: irq_view_def)
qed


text \<open>An interface whose chip asserts an interrupt at every read.\<close>

definition irq_adapter0 :: e1000_adapter where
  "irq_adapter0 = adapter_zero\<lparr>hw := hw_zero\<lparr>rhist := [Wr CTRL_EXT IAME, Wr IAM (- 1)]\<rparr>,
     rx_ring := ring_zero\<lparr>ring_tail := 0x02818\<rparr>, tx_ring := ring_zero\<lparr>ring_head := 0x03810, ring_tail := 0x03818\<rparr>\<rparr>"

definition irq_dev :: mmio where "irq_dev h r = E1000_ICR_INT_ASSERTED"


section \<open>The choice of a mode\<close>

text \<open>The handlers requested since a point of the log, newest first.\<close>

fun handlers :: "kev list \<Rightarrow> irq_handler list" where
  "handlers [] = []"
| "handlers (Request_irq f # h) = f # handlers h"
| "handlers (e # h) = handlers h"

definition msi_on :: "e1000_adapter \<Rightarrow> bool" where
  "msi_on a \<longleftrightarrow> flags a AND FLAG_MSI_ENABLED \<noteq> 0"

text \<open>The handlers that belong to the mode the adapter is in.\<close>

definition mode_handlers :: "e1000_adapter \<Rightarrow> irq_handler list" where
  "mode_handlers a = (if msix a then [Msix_other, Intr_msix_rx] else if msi_on a then [Intr_msi] else [Intr_legacy])"

lemma msi_flag:
  "(f OR FLAG_MSI_ENABLED) AND FLAG_MSI_ENABLED \<noteq> 0" "(f AND NOT FLAG_MSI_ENABLED) AND FLAG_MSI_ENABLED = 0" "FLAG_MSI_ENABLED \<noteq> 0"
proof -
  have "bit ((f OR FLAG_MSI_ENABLED) AND FLAG_MSI_ENABLED) 27" by (simp add: FLAG_MSI_ENABLED_def bit_simps)
  then show "(f OR FLAG_MSI_ENABLED) AND FLAG_MSI_ENABLED \<noteq> 0" by auto
qed (simp_all add: and.assoc FLAG_MSI_ENABLED_def)

lemma configure_msix_wp:
  "wp (e1000_configure_msix E) (\<lambda>_ b. (klog b, msix b, flags b) = (klog a, msix a, flags a)) a"
  by (rule keeps_wp[where v = "\<lambda>a. (klog a, msix a, flags a)"])
    (simp_all add: e1000_configure_msix_def keeps_intros)

lemma request_legacy_wp:
  assumes "\<not> msix a" "\<not> msi_on a"
  shows "wp (request_legacy K) (\<lambda>err b. \<not> msix b \<and> \<not> msi_on b \<and>
    (if err = 0 then \<exists>h. klog b = Request_irq Intr_legacy # klog a else klog b = klog a \<and> (\<exists>h. request_irq K h Intr_legacy \<noteq> 0))) a"
  using assms by (auto simp: request_legacy_def request_handler_def msi_on_def)

text \<open>A result of the request: a success leaves the handlers of the mode as the last requested.\<close>

definition request_ok :: "kernel \<Rightarrow> int \<Rightarrow> e1000_adapter \<Rightarrow> bool" where
  "request_ok K err b \<longleftrightarrow> (if err = 0 then \<exists>hs. handlers (klog b) = mode_handlers b @ hs
     else \<exists>h. request_irq K h Intr_legacy \<noteq> 0)"

lemma legacy_ok: "\<not> msix a \<Longrightarrow> \<not> msi_on a \<Longrightarrow> wp (request_legacy K) (request_ok K) a"
  by (rule wp_mono[OF request_legacy_wp]) (auto simp: request_ok_def mode_handlers_def split: if_splits)

lemma request_msi_ok: "\<not> msix a \<Longrightarrow> wp (request_msi K) (request_ok K) a"
  by (auto simp: request_msi_def request_handler_def e1000e_reset_interrupt_capability_def request_ok_def
      mode_handlers_def msi_on_def msi_flag intro!: legacy_ok)

lemma set_capability_msix:
  "\<not> msix a \<Longrightarrow> int_mode a = E1000E_INT_MODE_MSI \<Longrightarrow> wp (e1000e_set_interrupt_capability K) (\<lambda>_ b. \<not> msix b) a"
  by (simp add: e1000e_set_interrupt_capability_def set_msi_def E1000E_INT_MODE_MSI_def E1000E_INT_MODE_MSIX_def)

lemma request_msix_wp:
  assumes "msix a"
  shows "wp (e1000_request_msix E K) (\<lambda>err b. msix b \<and> (err = 0 \<longrightarrow> request_ok K err b)) a"
  using assms
  by (auto simp: e1000_request_msix_def request_handler_def request_ok_def mode_handlers_def
    intro!: wp_mono[OF configure_msix_wp])

lemma request_irq_wp: "wp (e1000_request_irq E K) (request_ok K) a"
proof (cases "msix a")
  case True
  have fall: "wp (e1000e_reset_interrupt_capability \<bind> (\<lambda>_. modify (\<lambda>a. a\<lparr>int_mode := E1000E_INT_MODE_MSI\<rparr>) \<bind>
      (\<lambda>_. e1000e_set_interrupt_capability K \<bind> (\<lambda>_. request_msi K)))) (request_ok K) b" if "msix b" for b
    using that
    by (auto simp: e1000e_reset_interrupt_capability_def intro!: wp_mono[OF set_capability_msix] request_msi_ok)
  show ?thesis
    unfolding e1000_request_irq_def wp_bind wp_State prod.case using True
    by simp (rule wp_mono[OF request_msix_wp[OF True]], use fall in auto)
qed (simp add: e1000_request_irq_def request_msi_ok)

text \<open>
  C21: whichever steps of the set-up fail, the request for interrupts ends in a mode that fits:
  on success the handlers of the mode the adapter is then in (both vectors of MSI-X, the MSI
  handler, or the legacy handler) are the last ones installed, and it fails only if the kernel
  refuses the legacy handler, the last way out.
\<close>

theorem irq_request_modes:
  "case run_state (e1000_request_irq E K) a of (err, b) \<Rightarrow>
     (if err = 0 then take (length (mode_handlers b)) (handlers (klog b)) = mode_handlers b
      else \<exists>h. request_irq K h Intr_legacy \<noteq> 0)"
  using request_irq_wp[where E = E and K = K and a = a] by (auto simp: wp_def request_ok_def split: prod.splits if_splits)

text \<open>
  The first vector of MSI-X is not given back when the second is refused: MSI-X is turned off
  with its handler installed.
\<close>

definition no_second :: "kernel \<Rightarrow> kernel" where
  "no_second K = K\<lparr>request_irq := (\<lambda>h f. if f = Msix_other then - 16 else 0), enable_msi := (\<lambda>h. 0)\<rparr>"

lemma msix_handler_leaks:
  assumes "msix a" "\<not> msi_on a"
  shows "klog (exec (e1000_request_irq E (no_second K)) a) =
    Request_irq Intr_msi # Enable_msi # Disable_msix # Request_irq Intr_msix_rx # klog a"
  using assms
  by (simp add: e1000_request_irq_def e1000_request_msix_def request_handler_def no_second_def
    e1000e_reset_interrupt_capability_def e1000e_set_interrupt_capability_def set_msi_def request_msi_def
    E1000E_INT_MODE_MSI_def E1000E_INT_MODE_MSIX_def msi_flag)

end
