(* ===== verification/NetVlan.thy ===== *)
theory NetVlan
  imports NetIrq
begin

text \<open>
  VLAN filtering, netdev.c.  A VLAN group maps the number of a VLAN to the features of its
  device.  The kernel's \<open>vlan_group_get_device\<close> dereferences the group, its
  \<open>vlan_group_set_device\<close> does nothing without one.  The result \<open>None\<close> is a dereference of a null
  pointer.
\<close>

section \<open>Operations\<close>

definition on_some :: "'a option \<Rightarrow> ('a \<Rightarrow> ('s, 'b option) state) \<Rightarrow> ('s, 'b option) state" where
  "on_some r f = (case r of None \<Rightarrow> ret None | Some x \<Rightarrow> f x)"

lemma on_some_simps [simp]: "on_some None f = ret None" "on_some (Some x) f = f x"
  by (simp_all add: on_some_def)

lemma keeps_on_some [keeps_intros]: "(\<And>x. keeps v (f x)) \<Longrightarrow> keeps v (on_some r f)"
  by (cases r) (auto intro: keeps_intros)

definition E1000_MNG_VLAN_NONE :: u16 where "E1000_MNG_VLAN_NONE = - 1"
definition FLAG_HAS_HW_VLAN_FILTER :: u32 where "FLAG_HAS_HW_VLAN_FILTER = push_bit 2 1"

text \<open>The management unit of the chip uses a VLAN.\<close>

definition mng_vlan_on :: "e1000_adapter \<Rightarrow> bool" where
  "mng_vlan_on a \<longleftrightarrow> mng_cookie (hw a) ! 4 AND 2 \<noteq> 0"

text \<open>The chips of the ICH families have no function to write the table.\<close>

definition e1000e_write_vfta :: "mmio \<Rightarrow> u32 \<Rightarrow> u32 \<Rightarrow> (e1000_hw, unit) state" where
  "e1000e_write_vfta E index v = do {
     t \<leftarrow> gets (\<lambda>h. mac_type (mac h));
     (if t \<in> {e1000_ich8lan, e1000_ich9lan, e1000_ich10lan} then skip else e1000e_write_vfta_generic E index v) }"

definition vlan_index :: "u16 \<Rightarrow> u32" where
  "vlan_index vid = ucast (drop_bit 5 vid) AND 0x7F"

definition vlan_bit :: "u16 \<Rightarrow> u32" where
  "vlan_bit vid = push_bit (unat (vid AND 0x1F)) 1"

text \<open>A change of the entry of the table that has the bit of \<open>vid\<close>.\<close>

definition update_vfta :: "mmio \<Rightarrow> (u32 \<Rightarrow> u32) \<Rightarrow> u16 \<Rightarrow> (e1000_adapter, unit) state" where
  "update_vfta E f vid = hw_op (do {
     v \<leftarrow> er32 E (reg_array VFTA (vlan_index vid));
     e1000e_write_vfta E (vlan_index vid) (f v) })"

definition e1000_vlan_rx_add_vid :: "mmio \<Rightarrow> u16 \<Rightarrow> (e1000_adapter, unit option) state" where
  "e1000_vlan_rx_add_vid E vid = do {
     a \<leftarrow> gets (\<lambda>a. a);
     (if mng_vlan_on a \<and> vid = mng_vlan_id a then ret (Some ())
      else do {
        update_vfta E (\<lambda>v. v OR vlan_bit vid) vid;
        (case vlgrp a of None \<Rightarrow> ret None
         | Some g \<Rightarrow> (case g vid of None \<Rightarrow> ret None
            | Some fs \<Rightarrow> do {
                modify (\<lambda>a. a\<lparr>vlgrp := Some (g(vid \<mapsto> fs OR features a))\<rparr>);
                ret (Some ()) })) }) }"

definition unless_down :: "(e1000_adapter, unit) state \<Rightarrow> (e1000_adapter, unit) state" where
  "unless_down m = do { down \<leftarrow> gets is_down; (if down then skip else m) }"

definition e1000_vlan_rx_kill_vid :: "mmio \<Rightarrow> u16 \<Rightarrow> (e1000_adapter, unit) state" where
  "e1000_vlan_rx_kill_vid E vid = do {
     unless_down (e1000_irq_disable E);
     modify (\<lambda>a. a\<lparr>vlgrp := map_option (\<lambda>g. g(vid := None)) (vlgrp a)\<rparr>);
     unless_down (e1000_irq_enable E);
     a \<leftarrow> gets (\<lambda>a. a);
     (if mng_vlan_on a \<and> vid = mng_vlan_id a then e1000_release_hw_control E
      else update_vfta E (\<lambda>v. v AND NOT (vlan_bit vid)) vid) }"

definition vlan_device :: "e1000_adapter \<Rightarrow> u16 \<Rightarrow> bool" where
  "vlan_device a vid = (case vlgrp a of None \<Rightarrow> False | Some g \<Rightarrow> g vid \<noteq> None)"

definition e1000_update_mng_vlan :: "mmio \<Rightarrow> (e1000_adapter, unit option) state" where
  "e1000_update_mng_vlan E = do {
     a \<leftarrow> gets (\<lambda>a. a);
     (let vid = cookie_vlan (mng_cookie (hw a)); old_vid = mng_vlan_id a in
      if vlgrp a = None then ret (Some ())
      else if vlan_device a vid then do {
        modify (\<lambda>a. a\<lparr>mng_vlan_id := vid\<rparr>);
        ret (Some ()) }
      else do {
        modify (\<lambda>a. a\<lparr>mng_vlan_id := E1000_MNG_VLAN_NONE\<rparr>);
        r \<leftarrow> (if mng_vlan_on a then do {
               r \<leftarrow> e1000_vlan_rx_add_vid E vid;
               on_some r (\<lambda>_. do { modify (\<lambda>a. a\<lparr>mng_vlan_id := vid\<rparr>); ret (Some ()) }) }
             else ret (Some ()));
        on_some r (\<lambda>_. do {
          a \<leftarrow> gets (\<lambda>a. a);
          (if old_vid \<noteq> E1000_MNG_VLAN_NONE \<and> vid \<noteq> old_vid \<and> \<not> vlan_device a old_vid
           then e1000_vlan_rx_kill_vid E old_vid else skip);
          ret (Some ()) }) }) }"

definition e1000_vlan_rx_register :: "mmio \<Rightarrow> (u16 \<rightharpoonup> u32) option \<Rightarrow> (e1000_adapter, unit option) state" where
  "e1000_vlan_rx_register E grp = do {
     unless_down (e1000_irq_disable E);
     modify (\<lambda>a. a\<lparr>vlgrp := grp\<rparr>);
     filter \<leftarrow> gets (\<lambda>a. flags a AND FLAG_HAS_HW_VLAN_FILTER \<noteq> 0);
     r \<leftarrow> (if grp \<noteq> None then do {
            hw_op (do { v \<leftarrow> er32 E CTRL; ew32 CTRL (v OR 0x40000000) });
            (if filter then do {
               hw_op (do { v \<leftarrow> er32 E RCTL; ew32 RCTL (v AND NOT 0x00080000) });
               e1000_update_mng_vlan E }
             else ret (Some ())) }
          else do {
            hw_op (do { v \<leftarrow> er32 E CTRL; ew32 CTRL (v AND NOT 0x40000000) });
            id \<leftarrow> gets mng_vlan_id;
            (if filter \<and> id \<noteq> E1000_MNG_VLAN_NONE then do {
               e1000_vlan_rx_kill_vid E id;
               modify (\<lambda>a. a\<lparr>mng_vlan_id := E1000_MNG_VLAN_NONE\<rparr>) }
             else skip);
            ret (Some ()) });
     on_some r (\<lambda>_. do { unless_down (e1000_irq_enable E); ret (Some ()) }) }"

text \<open>The loop over the numbers of VLANs.\<close>

fun add_vids :: "mmio \<Rightarrow> u16 list \<Rightarrow> (e1000_adapter, unit option) state" where
  "add_vids E [] = ret (Some ())"
| "add_vids E (vid # vids) = do {
     dev \<leftarrow> gets (\<lambda>a. vlan_device a vid);
     r \<leftarrow> (if dev then e1000_vlan_rx_add_vid E vid else ret (Some ()));
     on_some r (\<lambda>_. add_vids E vids) }"

definition e1000_restore_vlan :: "mmio \<Rightarrow> (e1000_adapter, unit option) state" where
  "e1000_restore_vlan E = do {
     g \<leftarrow> gets vlgrp;
     r \<leftarrow> e1000_vlan_rx_register E g;
     on_some r (\<lambda>_. do {
       g \<leftarrow> gets vlgrp;
       (if g = None then ret (Some ()) else add_vids E (map of_nat [0..<4096])) }) }"

section \<open>The filter table\<close>

text \<open>VLAN \<open>vid\<close> passes the filter: its bit in the word last written; the chip keeps the words.\<close>

definition vfta_bit :: "reg_ev list \<Rightarrow> u16 \<Rightarrow> bool" where
  "vfta_bit h vid \<longleftrightarrow> (case reg_last h (reg_array VFTA (vlan_index vid)) of None \<Rightarrow> False
     | Some w \<Rightarrow> bit w (unat (vid AND 0x1F)))"

definition vfta_latch :: "mmio \<Rightarrow> bool" where
  "vfta_latch E \<longleftrightarrow> (\<forall>h vid w. reg_last h (reg_array VFTA (vlan_index vid)) = Some w \<longrightarrow>
     E h (reg_array VFTA (vlan_index vid)) = w)"

text \<open>The hardware structure without the history of accesses.\<close>

definition chip :: "e1000_adapter \<Rightarrow> e1000_hw" where
  "chip a = (hw a)\<lparr>rhist := []\<rparr>"

lemma chip_fields: "mac (hw a) = mac (chip a)" "mng_cookie (hw a) = mng_cookie (chip a)"
  by (simp_all add: chip_def)

lemma mng_vlan_on_chip: "mng_vlan_on a = (mng_cookie (chip a) ! 4 AND 2 \<noteq> 0)"
  by (simp add: mng_vlan_on_def chip_fields)

definition only_hist :: "(e1000_hw, 'a) state \<Rightarrow> bool" where
  "only_hist m \<longleftrightarrow> (\<forall>h. (exec m h)\<lparr>rhist := []\<rparr> = h\<lparr>rhist := []\<rparr>)"

lemma only_hist_basic [keeps_intros]:
  "only_hist (ret x)" "only_hist (gets f)" "only_hist (er32 E r)" "only_hist (ew32 r w)" "only_hist (e1e_flush E)"
  "only_hist m \<Longrightarrow> (\<And>x. only_hist (f' x)) \<Longrightarrow> only_hist (State_Monad.bind m f')"
  "(b \<Longrightarrow> only_hist m) \<Longrightarrow> (\<not> b \<Longrightarrow> only_hist n) \<Longrightarrow> only_hist (if b then m else n)"
  by (auto simp: only_hist_def e1e_flush_def split: prod.splits) (metis snd_conv)

lemma keeps_chip [keeps_intros]: "only_hist m \<Longrightarrow> keeps chip (hw_op m)"
  by (simp add: only_hist_def keeps_def hw_op_def chip_def split_def Let_def)

lemma only_hist_vfta [keeps_intros]: "only_hist (e1000e_write_vfta E i v)"
  by (simp add: e1000e_write_vfta_def e1000e_write_vfta_generic_def keeps_intros)

lemma bit_vlan: "bit (vlan_bit vid) (unat (vid AND 0x1F))"
proof -
  have "vid AND 0x1F = take_bit 5 vid" by (simp add: take_bit_eq_mask mask_eq_exp_minus_1)
  then have "unat (vid AND 0x1F) = take_bit 5 (unat vid)" by (simp add: unsigned_take_bit_eq)
  then have "unat (vid AND 0x1F) < 32" by (simp add: take_bit_eq_mod)
  then show ?thesis by (simp add: vlan_bit_def bit_simps)
qed

lemma vfta_or:
  assumes "vfta_latch E" "\<And>r. reg_last h' r = (if r = reg_array VFTA (vlan_index vid)
      then Some (E h (reg_array VFTA (vlan_index vid)) OR vlan_bit vid) else reg_last h r)"
  shows "vfta_bit h' vid \<and> (\<forall>v. vfta_bit h v \<longrightarrow> vfta_bit h' v)"
proof -
  have "vfta_bit h' v" if "vfta_bit h v" for v
  proof -
    from that obtain w where w: "reg_last h (reg_array VFTA (vlan_index v)) = Some w" "bit w (unat (v AND 0x1F))"
      by (auto simp: vfta_bit_def split: option.splits)
    moreover from w(1) have "E h (reg_array VFTA (vlan_index v)) = w" using assms(1) by (simp add: vfta_latch_def)
    ultimately show ?thesis by (auto simp: vfta_bit_def assms(2) bit_or_iff)
  qed
  moreover have "vfta_bit h' vid" using bit_vlan by (simp add: vfta_bit_def assms(2) bit_or_iff)
  ultimately show ?thesis by blast
qed

lemma update_vfta_wp:
  assumes "vfta_latch E" "mac_type (mac (chip a)) \<notin> {e1000_ich8lan, e1000_ich9lan, e1000_ich10lan}"
  shows "wp (update_vfta E (\<lambda>v. v OR vlan_bit vid) vid) (\<lambda>_ b. \<exists>h. b = a\<lparr>hw := (hw a)\<lparr>rhist := h\<rparr>\<rparr> \<and>
    vfta_bit h vid \<and> (\<forall>v. vfta_bit (rhist (hw a)) v \<longrightarrow> vfta_bit h v)) a"
proof -
  let ?r = "reg_array VFTA (vlan_index vid)" and ?h = "rhist (hw a)"
  have "wp (e1e_flush E) (\<lambda>_ b. \<exists>h. a\<lparr>hw := b\<rparr> = a\<lparr>hw := (hw a)\<lparr>rhist := h\<rparr>\<rparr> \<and> vfta_bit h vid \<and>
      (\<forall>v. vfta_bit ?h v \<longrightarrow> vfta_bit h v)) ((hw a)\<lparr>rhist := Wr ?r (E ?h ?r OR vlan_bit vid) # Rd ?r (E ?h ?r) # ?h\<rparr>)"
    by (rule wp_flush, rule exI, rule conjI, simp, rule vfta_or[OF assms(1)]) simp
  then show ?thesis
    using assms(2)
    by (simp add: update_vfta_def wp_hw_op chip_fields) (rule wp_er32, simp add: e1000e_write_vfta_def e1000e_write_vfta_generic_def chip_fields)
qed

section \<open>Restoring the filter\<close>

text \<open>
  What a run of additions keeps: the structure of the chip, the management identifier, the set of
  devices, and the bits that are set.
\<close>

definition vlan_more :: "e1000_adapter \<Rightarrow> e1000_adapter \<Rightarrow> bool" where
  "vlan_more a b \<longleftrightarrow> chip b = chip a \<and> mng_vlan_id b = mng_vlan_id a \<and> (vlgrp b = None) = (vlgrp a = None) \<and>
     vlan_device b = vlan_device a \<and> (\<forall>v. vfta_bit (rhist (hw a)) v \<longrightarrow> vfta_bit (rhist (hw b)) v)"

lemma vlan_more_trans: "vlan_more a b \<Longrightarrow> vlan_more b c \<Longrightarrow> vlan_more a c"
  by (simp add: vlan_more_def)

text \<open>The VLAN that the firmware keeps in the table.\<close>

definition mng_vlan :: "e1000_adapter \<Rightarrow> u16 \<Rightarrow> bool" where
  "mng_vlan a vid \<longleftrightarrow> mng_vlan_on a \<and> vid = mng_vlan_id a"

lemma add_vid_wp:
  assumes "vfta_latch E" "mac_type (mac (chip a)) \<notin> {e1000_ich8lan, e1000_ich9lan, e1000_ich10lan}" "vlan_device a vid"
  shows "wp (e1000_vlan_rx_add_vid E vid) (\<lambda>r b. r = Some () \<and> vlan_more a b \<and>
    (vfta_bit (rhist (hw b)) vid \<or> mng_vlan a vid)) a"
proof -
  obtain g fs where g: "vlgrp a = Some g" "g vid = Some fs" using assms(3) by (auto simp: vlan_device_def split: option.splits)
  have dev: "vlan_device (b\<lparr>vlgrp := Some (g(vid \<mapsto> x))\<rparr>) = vlan_device a" for b x
    using g by (simp add: vlan_device_def fun_eq_iff)
  show ?thesis
  proof (cases "mng_vlan a vid")
    case True
    then show ?thesis by (simp add: e1000_vlan_rx_add_vid_def mng_vlan_def vlan_more_def)
  next
    case False
    then have "\<not> (mng_vlan_on a \<and> vid = mng_vlan_id a)" by (simp add: mng_vlan_def)
    then show ?thesis
      unfolding e1000_vlan_rx_add_vid_def wp_bind wp_State prod.case
      by (simp only: if_False wp_bind, intro wp_mono[OF update_vfta_wp[OF assms(1,2), of vid]])
        (auto simp: g vlan_more_def chip_def dev)
  qed
qed

lemma add_vids_wp:
  assumes "vfta_latch E" "mac_type (mac (chip a)) \<notin> {e1000_ich8lan, e1000_ich9lan, e1000_ich10lan}"
  shows "wp (add_vids E vids) (\<lambda>r b. r = Some () \<and> vlan_more a b \<and>
    (\<forall>vid\<in>set vids. vlan_device a vid \<longrightarrow> vfta_bit (rhist (hw b)) vid \<or> mng_vlan a vid)) a"
  using assms(2)
proof (induction vids arbitrary: a)
  case (Cons vid vids)
  have step: "wp (if vlan_device a vid then e1000_vlan_rx_add_vid E vid else ret (Some ())) (\<lambda>r b. r = Some () \<and> vlan_more a b \<and>
      (vlan_device a vid \<longrightarrow> vfta_bit (rhist (hw b)) vid \<or> mng_vlan a vid)) a"
    using wp_mono[OF add_vid_wp[OF assms(1) Cons.prems]] by (auto simp: vlan_more_def)
  have rest: "wp (add_vids E vids) (\<lambda>r c. r = Some () \<and> vlan_more a c \<and>
      (\<forall>v\<in>set (vid # vids). vlan_device a v \<longrightarrow> vfta_bit (rhist (hw c)) v \<or> mng_vlan a v)) b"
    if "vlan_more a b" "vlan_device a vid \<longrightarrow> vfta_bit (rhist (hw b)) vid \<or> mng_vlan a vid" for b
  proof -
    have "mac_type (mac (chip b)) \<notin> {e1000_ich8lan, e1000_ich9lan, e1000_ich10lan}" using that(1) Cons.prems by (simp add: vlan_more_def)
    from Cons.IH[OF this] show ?thesis
      by (rule wp_mono) (use that in \<open>auto simp: vlan_more_def mng_vlan_def mng_vlan_on_chip\<close>)
  qed
  show ?case
    by (simp only: add_vids.simps wp_bind wp_State prod.case, rule wp_mono[OF step], elim conjE)
      (use rest in simp)
qed (simp add: vlan_more_def)

text \<open>Registering the group again keeps the devices, unless the firmware's VLAN has none.\<close>

definition vlan_kept :: "e1000_adapter \<Rightarrow> e1000_adapter \<Rightarrow> bool" where
  "vlan_kept a b \<longleftrightarrow> chip b = chip a \<and> (vlgrp b = None) = (vlgrp a = None) \<and> vlan_device b = vlan_device a"

lemma irq_switch_keeps [keeps_intros]:
  "keeps chip (e1000_irq_disable E)" "keeps chip (e1000_irq_enable E)" "keeps vlgrp (e1000_irq_disable E)"
  "keeps vlgrp (e1000_irq_enable E)" "keeps mng_vlan_id (e1000_irq_disable E)" "keeps mng_vlan_id (e1000_irq_enable E)"
  by (simp_all add: e1000_irq_disable_def e1000_irq_enable_def keeps_intros)

lemma unless_down_keeps [keeps_intros]: "keeps v m \<Longrightarrow> keeps v (unless_down m)"
  by (simp add: unless_down_def keeps_intros)

lemma vlan_kept_refl: "vlan_kept a a"
  by (simp add: vlan_kept_def)

lemma vlan_kept_trans: "vlan_kept a b \<Longrightarrow> vlan_kept b c \<Longrightarrow> vlan_kept a c"
  by (simp add: vlan_kept_def)

lemma kept_step:
  assumes "keeps chip m" "keeps vlgrp m" "vlan_kept a b" "\<And>r c. vlan_kept a c \<Longrightarrow> Q r c"
  shows "wp m Q b"
  using assms by (simp add: keeps_def wp_iff vlan_kept_def vlan_device_def[abs_def])

lemma kill_vid_wp:
  assumes "\<not> vlan_device a vid" "vlan_kept a b"
  shows "wp (e1000_vlan_rx_kill_vid E vid) (\<lambda>_. vlan_kept a) b"
proof -
  have set_none: "vlan_kept a (c\<lparr>vlgrp := map_option (\<lambda>g. g(vid := None)) (vlgrp c)\<rparr>)" if "vlan_kept a c" for c
  proof -
    have "\<not> vlan_device c vid" using that assms by (simp add: vlan_kept_def)
    then have "vlan_device (c\<lparr>vlgrp := map_option (\<lambda>g. g(vid := None)) (vlgrp c)\<rparr>) v = vlan_device c v" for v
      by (cases "vlgrp c") (auto simp: vlan_device_def)
    with that show ?thesis by (auto simp: vlan_kept_def chip_def)
  qed
  have tail: "wp (if mng_vlan_on c \<and> vid = mng_vlan_id c then e1000_release_hw_control E
      else update_vfta E (\<lambda>v. v AND NOT (vlan_bit vid)) vid) (\<lambda>_. vlan_kept a) c" if "vlan_kept a c" for c
    by (rule kept_step[OF _ _ that])
      (simp_all add: e1000_release_hw_control_def hw_control_def update_vfta_def Let_def keeps_intros)
  have enable: "wp (unless_down (e1000_irq_enable E)) (\<lambda>_ c. wp (if mng_vlan_on c \<and> vid = mng_vlan_id c
      then e1000_release_hw_control E else update_vfta E (\<lambda>v. v AND NOT (vlan_bit vid)) vid) (\<lambda>_. vlan_kept a) c) c"
    if "vlan_kept a c" for c
    by (rule kept_step[OF _ _ that]; (intro keeps_intros | erule tail))
  show ?thesis
    unfolding e1000_vlan_rx_kill_vid_def wp_bind wp_State prod.case
    by (rule kept_step[OF _ _ assms(2)]; (intro keeps_intros | erule enable[OF set_none]))
qed

text \<open>The firmware's VLAN is not used or has a device.\<close>

definition mng_vlan_known :: "e1000_adapter \<Rightarrow> bool" where
  "mng_vlan_known a \<longleftrightarrow> \<not> mng_vlan_on a \<or> vlan_device a (cookie_vlan (mng_cookie (hw a)))"

lemma vlan_kept_known: "vlan_kept a b \<Longrightarrow> mng_vlan_known b = mng_vlan_known a"
  by (simp add: vlan_kept_def mng_vlan_known_def mng_vlan_on_chip chip_fields)

lemma vlan_kept_mng: "vlan_kept a (a\<lparr>mng_vlan_id := x\<rparr>)"
  by (simp add: vlan_kept_def chip_def vlan_device_def[abs_def])

lemma update_mng_wp:
  assumes "mng_vlan_known b" "vlan_kept a b"
  shows "wp (e1000_update_mng_vlan E) (\<lambda>r b. r = Some () \<and> vlan_kept a b) b"
proof -
  have set_id: "vlan_kept a (c\<lparr>mng_vlan_id := x\<rparr>)" if "vlan_kept a c" for c x
    using vlan_kept_trans[OF that vlan_kept_mng] .
  have kill: "wp (e1000_vlan_rx_kill_vid E v) (\<lambda>_ c. vlan_kept a c) (b\<lparr>mng_vlan_id := x\<rparr>)" if "\<not> vlan_device b v" for v x
    using that assms(2) by (intro kill_vid_wp set_id) (auto simp: vlan_kept_def)
  show ?thesis
    using assms set_id[OF assms(2)]
    by (auto simp: e1000_update_mng_vlan_def Let_def mng_vlan_known_def mng_vlan_on_def vlan_device_def[of "mng_vlan_id_update _ _"]
      vlan_device_def[symmetric] intro!: wp_mono[OF kill])
qed

lemma register_wp:
  assumes "mng_vlan_known a" "vlgrp a = Some g"
  shows "wp (e1000_vlan_rx_register E (Some g)) (\<lambda>r b. r = Some () \<and> vlan_kept a b) a"
proof -
  have regs: "wp (hw_op (do { v \<leftarrow> er32 E r; ew32 r' (f v) })) (\<lambda>_. vlan_kept a) b" if "vlan_kept a b" for r r' f b
    by (rule kept_step[OF _ _ that]) (simp_all add: keeps_intros)
  have upd: "wp (e1000_update_mng_vlan E) (\<lambda>r b. r = Some () \<and> vlan_kept a b) b" if "vlan_kept a b" for b
    using that assms(1) vlan_kept_known[OF that] by (intro update_mng_wp) simp
  have on: "wp (unless_down (e1000_irq_enable E) \<bind> (\<lambda>_. ret (Some ()))) (\<lambda>r b. r = Some () \<and> vlan_kept a b) b"
    if "vlan_kept a b" for b by (simp, rule kept_step[OF _ _ that]; (intro keeps_intros | simp))
  have upd2: "wp (if filter then do {
        hw_op (do { v \<leftarrow> er32 E RCTL; ew32 RCTL (v AND NOT 0x00080000) });
        e1000_update_mng_vlan E } else ret (Some ())) (\<lambda>r b. r = Some () \<and> vlan_kept a b) b" if "vlan_kept a b" for b filter
    by (cases filter; simp only: if_True if_False wp_bind[of "hw_op _"] wp_return that simp_thms)
      (rule wp_mono[OF regs[OF that]], erule upd)
  have body: "wp (do {
      r \<leftarrow> do {
            hw_op (do { v \<leftarrow> er32 E CTRL; ew32 CTRL (v OR 0x40000000) });
            (if filter then do {
               hw_op (do { v \<leftarrow> er32 E RCTL; ew32 RCTL (v AND NOT 0x00080000) });
               e1000_update_mng_vlan E }
             else ret (Some ())) };
      on_some r (\<lambda>_. do { unless_down (e1000_irq_enable E); ret (Some ()) }) }) (\<lambda>r b. r = Some () \<and> vlan_kept a b) b"
    if "vlan_kept a b" for b filter
    unfolding wp_bind[of "State_Monad.bind (hw_op _) _"] wp_bind[of "hw_op _"]
    by (rule wp_mono[OF regs[OF that]], rule wp_mono[OF upd2], assumption, elim conjE) (simp only: on_some_simps on)
  have grp: "vlan_kept a (c\<lparr>vlgrp := Some g\<rparr>)" if "vlan_kept a c" for c
    using that assms(2) by (simp add: vlan_kept_def chip_def vlan_device_def[abs_def])
  show ?thesis
    unfolding e1000_vlan_rx_register_def wp_bind[of "unless_down _"]
    by (rule kept_step[OF _ _ vlan_kept_refl], (intro keeps_intros)+)
      (simp only: wp_bind[of "State _"] wp_State prod.case option.distinct not_False_eq_True if_True body grp)
qed

text \<open>
  C12: after the interface comes up, every VLAN of the group passes the filter: with a chip that
  keeps its table, restoring the group does not fail, keeps the set of its devices, and sets the
  bit of every one of them, apart from the VLAN of the firmware, whose bit the firmware keeps.
\<close>

theorem vlan_restore:
  assumes "vfta_latch E" "mac_type (mac (hw a)) \<notin> {e1000_ich8lan, e1000_ich9lan, e1000_ich10lan}"
    and "vlgrp a = Some g" "mng_vlan_known a"
  shows "case run_state (e1000_restore_vlan E) a of (r, b) \<Rightarrow> r = Some () \<and> vlan_device b = vlan_device a \<and>
    (\<forall>vid. vid < 4096 \<longrightarrow> g vid \<noteq> None \<longrightarrow> vfta_bit (rhist (hw b)) vid \<or> mng_vlan b vid)"
proof -
  have dev: "vlan_device a vid = (g vid \<noteq> None)" for vid using assms(3) by (simp add: vlan_device_def)
  have loop: "wp (add_vids E (map of_nat [0..<4096])) (\<lambda>r c. r = Some () \<and> vlan_device c = vlan_device a \<and>
      (\<forall>vid. vid < 4096 \<longrightarrow> g vid \<noteq> None \<longrightarrow> vfta_bit (rhist (hw c)) vid \<or> mng_vlan c vid)) b" if "vlan_kept a b" for b
  proof (rule wp_mono[OF add_vids_wp[OF assms(1)]])
    show "mac_type (mac (chip b)) \<notin> {e1000_ich8lan, e1000_ich9lan, e1000_ich10lan}"
      using that assms(2) by (simp add: vlan_kept_def chip_fields)
    fix r c
    assume c: "r = Some () \<and> vlan_more b c \<and> (\<forall>vid\<in>set (map of_nat [0..<4096]). vlan_device b vid \<longrightarrow>
        vfta_bit (rhist (hw c)) vid \<or> mng_vlan b vid)"
    have "vid \<in> set (map of_nat [0..<4096])" if "vid < 4096" for vid :: u16
      using that by (intro image_eqI[of _ _ "unat vid", THEN subsetD[OF equalityD2[OF set_map]]]) (simp_all add: word_less_nat_alt)
    with c that show "r = Some () \<and> vlan_device c = vlan_device a \<and>
        (\<forall>vid. vid < 4096 \<longrightarrow> g vid \<noteq> None \<longrightarrow> vfta_bit (rhist (hw c)) vid \<or> mng_vlan c vid)"
      by (auto simp: vlan_kept_def vlan_more_def dev mng_vlan_def mng_vlan_on_chip)
  qed
  have "vlgrp b \<noteq> None" if "vlan_kept a b" for b using that assms(3) by (auto simp: vlan_kept_def)
  with loop have "wp (e1000_restore_vlan E) (\<lambda>r c. r = Some () \<and> vlan_device c = vlan_device a \<and>
      (\<forall>vid. vid < 4096 \<longrightarrow> g vid \<noteq> None \<longrightarrow> vfta_bit (rhist (hw c)) vid \<or> mng_vlan c vid)) a"
    unfolding e1000_restore_vlan_def wp_bind wp_State prod.case assms(3)
    by (intro wp_mono[OF register_wp[OF assms(4,3)]], elim conjE)
      (simp only: on_some_simps wp_bind wp_State prod.case if_False)
  then show ?thesis by (simp add: wp_def)
qed

text \<open>
  When the firmware uses a VLAN for which the host has no device, the update of the
  management VLAN dereferences a null pointer: the only path to the addition of this VLAN is the
  one on which its device is missing.
\<close>

theorem mng_vlan_crash:
  assumes "vlgrp a = Some g" "mng_vlan_on a" "g (cookie_vlan (mng_cookie (hw a))) = None"
    and "cookie_vlan (mng_cookie (hw a)) \<noteq> E1000_MNG_VLAN_NONE"
  shows "val_of (e1000_update_mng_vlan E) a = None"
proof -
  have "wp (e1000_vlan_rx_add_vid E (cookie_vlan (mng_cookie (hw a)))) (\<lambda>r b. r = None) (a\<lparr>mng_vlan_id := E1000_MNG_VLAN_NONE\<rparr>)"
    using assms by (simp add: e1000_vlan_rx_add_vid_def mng_vlan_on_def update_vfta_def wp_hw_op) (simp add: wp_iff)
  then have "wp (e1000_update_mng_vlan E) (\<lambda>r b. r = None) a"
    using assms
    by (simp add: e1000_update_mng_vlan_def Let_def vlan_device_def) (rule wp_mono, assumption, simp)
  then show ?thesis by (simp add: wp_iff)
qed

section \<open>Concrete runs\<close>

text \<open>A group with VLAN 5 on a chip that keeps every register.\<close>

definition latch_all :: mmio where
  "latch_all h r = (case reg_last h r of None \<Rightarrow> 0 | Some v \<Rightarrow> v)"

definition vlan_adapter0 :: e1000_adapter where
  "vlan_adapter0 = adapter_zero\<lparr>vlgrp := Some [5 \<mapsto> 0]\<rparr>"

lemma vlan_restore_witness:
  "vfta_bit (rhist (hw (exec (e1000_restore_vlan latch_all) vlan_adapter0))) 5 \<or>
   mng_vlan (exec (e1000_restore_vlan latch_all) vlan_adapter0) 5"
proof -
  have "vfta_latch latch_all" by (simp add: vfta_latch_def latch_all_def)
  from vlan_restore[OF this, of vlan_adapter0 "[5 \<mapsto> 0]"] show ?thesis
    by (simp add: vlan_adapter0_def adapter_zero_def hw_zero_def mac_zero_def mng_vlan_known_def mng_vlan_on_def split_def)
qed

definition vlan_adapter1 :: e1000_adapter where
  "vlan_adapter1 = adapter_zero\<lparr>vlgrp := Some Map.empty, hw := hw_zero\<lparr>mng_cookie := (replicate 16 0)[4 := 2, 6 := 7]\<rparr>\<rparr>"

lemma mng_vlan_crash_witness: "val_of (e1000_update_mng_vlan latch_all) vlan_adapter1 = None"
  by (rule mng_vlan_crash[where g = Map.empty])
    (simp_all add: vlan_adapter1_def mng_vlan_on_def cookie_vlan_def E1000_MNG_VLAN_NONE_def join16_def)

end
