(* ===== verification/NetConf.thy ===== *)
theory NetConf
  imports NetVlan NetParam
begin

text \<open>
  Configuration of the interface, netdev.c: the functions of the chip family, management, the
  receive unit, the address filters, the reset with its buffer allocation and flow control
  thresholds, and bringing the interface up and down.
\<close>

section \<open>The functions of a chip family\<close>

text \<open>
  The function pointers of \<open>struct e1000_hw\<close> that the network interface calls.  \<open>junk\<close> is the
  variable that \<open>e1000_check_mng_mode_82574\<close> tests uninitialised, \<open>m88_len\<close> the cable length function
  of the M88 PHY, whose read behind its table has no defined result.
\<close>

record e1000_ops =
  reset_hw :: "(e1000_hw, int) state"
  init_hw :: "(e1000_hw, int) state"
  setup_link :: "(e1000_hw, int) state"
  check_for_link :: "(e1000_hw, int) state"
  get_link_up_info :: "(e1000_hw, int + (u16 \<times> u16)) state"
  update_mc_addr_list :: "u8 list list \<Rightarrow> nat \<Rightarrow> u32 \<Rightarrow> (e1000_hw, unit option) state"
  check_mng_mode :: "(e1000_hw, bool) state"
  rphy :: phy_rd
  wphy :: phy_wr
  get_info :: "(e1000_hw, int) state"
  power_up :: "(e1000_hw, unit) state"
  power_down :: "(e1000_hw, unit) state"
  cfg_on_link_up :: "(e1000_hw, int) state"

definition get_info_82571 :: "mmio \<Rightarrow> (e1000_hw, int) state \<Rightarrow> (e1000_hw, int) state" where
  "get_info_82571 E m88_len = do {
     old \<leftarrow> gets is_82571_2;
     (if old then e1000e_get_phy_info_igp (read_reg_op E) (e1000e_get_cable_length_igp_2 (read_reg_op E))
      else e1000e_get_phy_info_m88 (read_reg_op E) m88_len) }"

definition ops_82571 :: "mmio \<Rightarrow> u16 \<Rightarrow> (e1000_hw, int) state \<Rightarrow> e1000_ops" where
  "ops_82571 E junk m88_len = \<lparr>reset_hw = e1000_reset_hw_82571 E,
     init_hw = e1000_init_hw_82571 E junk (e1000_setup_link_82571 E),
     setup_link = e1000_setup_link_82571 E, check_for_link = check_for_link_op E,
     get_link_up_info = get_link_up_info_op E, update_mc_addr_list = e1000_update_mc_addr_list_82571 E,
     check_mng_mode = check_mng_mode_op E junk, rphy = read_reg_op E, wphy = write_reg_op E,
     get_info = get_info_82571 E m88_len, power_up = e1000_power_up_phy_copper (read_reg_op E) (write_reg_op E),
     power_down = e1000_power_down_phy_copper_82571 E junk, cfg_on_link_up = ret 0\<rparr>"

section \<open>Flags and registers\<close>

definition FLAG_HAS_AMT :: u32 where "FLAG_HAS_AMT = 1"
definition FLAG_HAS_ERT :: u32 where "FLAG_HAS_ERT = push_bit 4 1"
definition FLAG_HAS_JUMBO_FRAMES :: u32 where "FLAG_HAS_JUMBO_FRAMES = push_bit 7 1"
definition FLAG_IS_ICH :: u32 where "FLAG_IS_ICH = push_bit 9 1"
definition FLAG_DISABLE_FC_PAUSE_TIME :: u32 where "FLAG_DISABLE_FC_PAUSE_TIME = push_bit 18 1"
definition FLAG_MNG_PT_ENABLED :: u32 where "FLAG_MNG_PT_ENABLED = push_bit 20 1"
definition FLAG_RX_CSUM_ENABLED :: u32 where "FLAG_RX_CSUM_ENABLED = push_bit 28 1"

abbreviation RFCTL :: u32 where "RFCTL \<equiv> 0x05008"
abbreviation PBA :: u32 where "PBA \<equiv> 0x01000"

definition E1000_ERT_2048 :: u32 where "E1000_ERT_2048 = 0x100"
definition E1000_FC_PAUSE_TIME :: u16 where "E1000_FC_PAUSE_TIME = 0x0680"

text \<open>A register is read, changed and written.\<close>

definition reg_mod :: "mmio \<Rightarrow> u32 \<Rightarrow> (u32 \<Rightarrow> u32) \<Rightarrow> (e1000_adapter, unit) state" where
  "reg_mod E r f = hw_op (do { v \<leftarrow> er32 E r; ew32 r (f v) })"

section \<open>Receive unit\<close>

definition e1000_init_manageability :: "mmio \<Rightarrow> (e1000_adapter, unit) state" where
  "e1000_init_manageability E = do {
     fl \<leftarrow> gets flags;
     (if fl AND FLAG_MNG_PT_ENABLED = 0 then skip
      else hw_op (do {
        manc \<leftarrow> er32 E 0x05820;
        manc2h \<leftarrow> er32 E 0x05860;
        ew32 0x05860 (manc2h OR push_bit 5 1 OR push_bit 6 1);
        ew32 0x05820 (manc OR 0x00200000) })) }"

text \<open>The bits for the size of a buffer; with a page size of 4096.\<close>

definition rctl_size :: "nat \<Rightarrow> u32 \<Rightarrow> u32" where
  "rctl_size len rctl =
     (let r = (rctl AND NOT 0x00030000) OR 0x02000000 in
      if len = 256 then (r OR 0x00030000) AND NOT 0x02000000
      else if len = 512 then (r OR 0x00020000) AND NOT 0x02000000
      else if len = 1024 then (r OR 0x00010000) AND NOT 0x02000000
      else if len = 4096 then r OR 0x00030000
      else if len = 8192 then r OR 0x00020000
      else if len = 16384 then r OR 0x00010000
      else r AND NOT 0x02000000)"

definition PAGE_USE_COUNT :: "u32 \<Rightarrow> u32" where
  "PAGE_USE_COUNT n = drop_bit 12 n + (if n AND 0xFFF \<noteq> 0 then 1 else 0)"

definition rctl_base :: "e1000_adapter \<Rightarrow> u32 \<Rightarrow> u32" where
  "rctl_base a v =
     (let r = (v AND NOT (push_bit 12 3)) OR 0x00000002 OR 0x00008000 OR push_bit 12 (mc_filter_type (mac (hw a)));
          r = r AND NOT 0x00000004;
          r = (if mtu a \<le> 1500 then r AND NOT 0x00000020 else r OR 0x00000020);
          r = (if flags2 a AND FLAG2_CRC_STRIPPING \<noteq> 0 then r OR 0x04000000 else r) in
      rctl_size (rx_buffer_len a) r)"

definition psrctl_of :: "u16 \<Rightarrow> u32 \<Rightarrow> u32" where
  "psrctl_of bsize0 pages =
     ucast (drop_bit 7 bsize0) OR
     (if pages = 3 then push_bit 14 4096 else 0) OR
     (if pages = 3 \<or> pages = 2 then push_bit 6 4096 else 0) OR
     (if pages = 3 \<or> pages = 2 \<or> pages = 1 then drop_bit 2 4096 else 0)"

definition e1000_setup_rctl :: "mmio \<Rightarrow> (e1000_adapter, unit) state" where
  "e1000_setup_rctl E = do {
     v \<leftarrow> hw_op (er32 E RCTL);
     a \<leftarrow> gets (\<lambda>a. a);
     (let rctl = rctl_base a v; pages = PAGE_USE_COUNT (mtu a) in do {
        modify (\<lambda>a. a\<lparr>rx_ps_pages :=
          (if flags a AND FLAG_IS_ICH = 0 \<and> pages \<le> 3 \<and> rctl AND 0x00000020 \<noteq> 0 then pages else 0)\<rparr>);
        ps \<leftarrow> gets rx_ps_pages;
        (if ps \<noteq> 0 then do {
           reg_mod E RFCTL (\<lambda>v. v OR 0x00008000 OR 0x00010000 OR 0x00020000);
           hw_op (ew32 0x02170 (psrctl_of (rx_ps_bsize0 a) ps)) }
         else skip);
        hw_op (ew32 RCTL (if ps \<noteq> 0 then rctl OR 0x00000400 else rctl));
        modify (\<lambda>a. a\<lparr>flags := flags a AND NOT FLAG_RX_RESTART_NOW\<rparr>) }) }"

definition rx_routine_of :: "e1000_adapter \<Rightarrow> rx_routine" where
  "rx_routine_of a = (if rx_ps_pages a \<noteq> 0 then Rx_ps else if mtu a > 1518 then Rx_jumbo else Rx_legacy)"

definition rxcsum_of :: "e1000_adapter \<Rightarrow> u32 \<Rightarrow> u32" where
  "rxcsum_of a v =
     (if flags a AND FLAG_RX_CSUM_ENABLED \<noteq> 0
      then v OR 0x00000200 OR (if rx_ps_pages a \<noteq> 0 then 0x00001000 else 0)
      else v AND NOT 0x00000200)"

definition e1000_configure_rx :: "mmio \<Rightarrow> (e1000_adapter, unit) state" where
  "e1000_configure_rx E = do {
     modify (\<lambda>a. a\<lparr>clean_rx := rx_routine_of a\<rparr>);
     a \<leftarrow> gets (\<lambda>a. a);
     rctl \<leftarrow> hw_op (er32 E RCTL);
     hw_op (ew32 RCTL (rctl AND NOT 0x00000002));
     hw_op (e1e_flush E);
     hw_op (ew32 0x02820 (rx_int_delay a));
     hw_op (ew32 0x0282C (rx_abs_int_delay a));
     (if itr_setting a \<noteq> 0 then hw_op (ew32 0x000C4 (itr_word (itr a))) else skip);
     ctrl_ext \<leftarrow> hw_op (er32 E CTRL_EXT);
     hw_op (ew32 IAM 0xFFFFFFFF);
     hw_op (ew32 CTRL_EXT (ctrl_ext OR 0x20000000 OR 0x08000000));
     hw_op (e1e_flush E);
     hw_op (ew32 0x02800 (ucast (ring_dma (rx_ring a))));
     hw_op (ew32 0x02804 (ucast (drop_bit 32 (ring_dma (rx_ring a)))));
     hw_op (ew32 0x02808 (of_nat (ring_count (rx_ring a) * (if clean_rx a = Rx_ps then 32 else 16))));
     hw_op (ew32 0x02810 0);
     hw_op (ew32 0x02818 0);
     set_rx (\<lambda>r. r\<lparr>ring_head := 0x02810, ring_tail := 0x02818\<rparr>);
     reg_mod E 0x05000 (rxcsum_of a);
     (if flags a AND FLAG_HAS_ERT \<noteq> 0 \<and> mtu a > 1500 then do {
        reg_mod E 0x02828 (\<lambda>v. v OR 0x3);
        hw_op (ew32 0x02008 (E1000_ERT_2048 OR push_bit 13 1)) }
      else skip);
     hw_op (ew32 RCTL rctl) }"

text \<open>The result is \<open>None\<close> when the hash of the multicast filter does not end.\<close>

definition e1000_set_multi :: "mmio \<Rightarrow> e1000_ops \<Rightarrow> (e1000_adapter, unit option) state" where
  "e1000_set_multi E ops = do {
     a \<leftarrow> gets (\<lambda>a. a);
     reg_mod E RCTL (\<lambda>v.
       if net_flags a AND 0x100 \<noteq> 0 then (v OR 0x00000008 OR 0x00000010) AND NOT 0x00040000
       else (let v = (if net_flags a AND 0x200 \<noteq> 0 then (v OR 0x00000010) AND NOT 0x00000008
                      else v AND NOT (0x00000008 OR 0x00000010)) in
         if flags a AND FLAG_HAS_HW_VLAN_FILTER \<noteq> 0 then v OR 0x00040000 else v));
     hw_op (update_mc_addr_list ops (mc_list a) 1 (ucast (rar_entry_count (mac (hw a))))) }"

text \<open>\<open>alloc\<close> is the refill of the receive routine.\<close>

definition e1000_configure :: "mmio \<Rightarrow> e1000_ops \<Rightarrow> (rx_routine \<Rightarrow> nat \<Rightarrow> (e1000_adapter, unit) state) \<Rightarrow>
    (e1000_adapter, unit option) state" where
  "e1000_configure E ops alloc = do {
     r \<leftarrow> e1000_set_multi E ops;
     on_some r (\<lambda>_. do {
       r \<leftarrow> e1000_restore_vlan E;
       on_some r (\<lambda>_. do {
         e1000_init_manageability E;
         e1000_configure_tx E;
         e1000_setup_rctl E;
         e1000_configure_rx E;
         a \<leftarrow> gets (\<lambda>a. a);
         alloc (clean_rx a) (nat (e1000_desc_unused (rx_ring a)));
         ret (Some ()) }) }) }"

section \<open>Reset\<close>

text \<open>The share of the packet buffer that receives get, in KB, from the register and the frame size.\<close>

definition kb_of :: "u32 \<Rightarrow> u32" where
  "kb_of n = drop_bit 10 ((n + 1023) AND NOT 1023)"

definition rx_space :: "bool \<Rightarrow> u32 \<Rightarrow> u32 \<Rightarrow> u32" where
  "rx_space ert frame v =
     (let tx_space = drop_bit 16 v; p = v AND 0xFFFF;
          min_tx_space = kb_of ((frame + 16 - 4) * 2); min_rx_space = kb_of frame in
      if tx_space < min_tx_space \<and> min_tx_space - tx_space < p then
        (let p = p - (min_tx_space - tx_space) in
         if p < min_rx_space \<and> \<not> ert then min_rx_space else p)
      else p)"

definition high_water_of :: "bool \<Rightarrow> u32 \<Rightarrow> u32 \<Rightarrow> u16" where
  "high_water_of ert frame p =
     ucast (min (push_bit 10 p * 9 div 10)
       (push_bit 10 p - (if ert then push_bit 3 E1000_ERT_2048 else frame)))"

definition reset_pba :: "mmio \<Rightarrow> (e1000_adapter, u32) state" where
  "reset_pba E = do {
     a \<leftarrow> gets (\<lambda>a. a);
     hw_op (ew32 PBA (pba a));
     (if max_frame_size a > 1518 then do {
        v \<leftarrow> hw_op (er32 E PBA);
        (let p = rx_space (flags a AND FLAG_HAS_ERT \<noteq> 0) (max_frame_size a) v in do {
           hw_op (ew32 PBA p);
           ret p }) }
      else ret (pba a)) }"

definition reset_fc :: "u32 \<Rightarrow> (e1000_adapter, unit) state" where
  "reset_fc p = do {
     a \<leftarrow> gets (\<lambda>a. a);
     (let hwm = high_water_of (flags a AND FLAG_HAS_ERT \<noteq> 0) (max_frame_size a) p in
      hw_op (set_fc (\<lambda>f. f\<lparr>high_water := ucast hwm AND 0xFFF8, low_water := (ucast hwm AND 0xFFF8) - 8,
        pause_time := (if flags a AND FLAG_DISABLE_FC_PAUSE_TIME \<noteq> 0 then 0xFFFF else E1000_FC_PAUSE_TIME),
        send_xon := True, current_mode := requested_mode f\<rparr>))) }"

definition e1000e_reset :: "mmio \<Rightarrow> e1000_ops \<Rightarrow> (e1000_adapter, unit option) state" where
  "e1000e_reset E ops = do {
     p \<leftarrow> reset_pba E;
     reset_fc p;
     r \<leftarrow> hw_op (reset_hw ops);
     fl \<leftarrow> gets flags;
     (if fl AND FLAG_HAS_AMT \<noteq> 0 then e1000_get_hw_control E else skip);
     hw_op (ew32 0x05800 0);
     r \<leftarrow> hw_op (init_hw ops);
     r \<leftarrow> e1000_update_mng_vlan E;
     on_some r (\<lambda>_. do {
       hw_op (ew32 0x00038 0x8100);
       hw_op e1000e_reset_adaptive;
       r \<leftarrow> hw_op (get_info ops);
       fl \<leftarrow> gets flags;
       (if fl AND FLAG_SMART_POWER_DOWN = 0 then do {
          r \<leftarrow> hw_op (rphy ops 0x19);
          r \<leftarrow> hw_op (wphy ops 0x19 ((case r of Inl e \<Rightarrow> 0 | Inr v \<Rightarrow> v) AND NOT 1));
          skip }
        else skip);
       ret (Some ()) }) }"

section \<open>Up and down\<close>

definition e1000e_power_up_phy :: "e1000_ops \<Rightarrow> (e1000_adapter, unit) state" where
  "e1000e_power_up_phy ops = do {
     hw_op (power_up ops);
     r \<leftarrow> hw_op (setup_link ops);
     skip }"

definition e1000_power_down_phy :: "e1000_ops \<Rightarrow> (e1000_adapter, unit) state" where
  "e1000_power_down_phy ops = do {
     w \<leftarrow> gets wol;
     (if w \<noteq> 0 then skip else hw_op (power_down ops)) }"

definition e1000e_up :: "mmio \<Rightarrow> e1000_ops \<Rightarrow> (rx_routine \<Rightarrow> nat \<Rightarrow> (e1000_adapter, unit) state) \<Rightarrow>
    (e1000_adapter, unit option) state" where
  "e1000e_up E ops alloc = do {
     r \<leftarrow> e1000_configure E ops alloc;
     on_some r (\<lambda>_. do {
       modify (\<lambda>a. a\<lparr>is_down := False\<rparr>);
       modify (\<lambda>a. a\<lparr>napi_scheduled := False\<rparr>);
       log_ev Napi_enable;
       m \<leftarrow> gets msix;
       (if m then e1000_configure_msix E else skip);
       e1000_irq_enable E;
       hw_op (ew32 ICS E1000_ICR_LSC);
       ret (Some ()) }) }"

definition e1000e_down :: "mmio \<Rightarrow> e1000_ops \<Rightarrow> (e1000_adapter, unit option) state" where
  "e1000e_down E ops = do {
     modify (\<lambda>a. a\<lparr>is_down := True\<rparr>);
     reg_mod E RCTL (\<lambda>v. v AND NOT 0x00000002);
     stop_queue;
     reg_mod E TCTL (\<lambda>v. v AND NOT 0x00000002);
     hw_op (e1e_flush E);
     modify (\<lambda>a. a\<lparr>napi_scheduled := True\<rparr>);
     log_ev Napi_disable;
     e1000_irq_disable E;
     log_ev Stop_timers;
     modify (\<lambda>a. a\<lparr>queue_len := tx_queue_len a, carrier_ok := False, link_speed := 0, link_duplex := 0\<rparr>);
     r \<leftarrow> e1000e_reset E ops;
     on_some r (\<lambda>_. do {
       e1000_clean_tx_ring;
       e1000_clean_rx_ring;
       ret (Some ()) }) }"

text \<open>
  The wait for the bit that a reset is in progress ends when the bit is clear; the caller is the
  only one that holds it afterwards.
\<close>

definition e1000e_reinit_locked :: "mmio \<Rightarrow> e1000_ops \<Rightarrow> (rx_routine \<Rightarrow> nat \<Rightarrow> (e1000_adapter, unit) state) \<Rightarrow>
    (e1000_adapter, unit option) state" where
  "e1000e_reinit_locked E ops alloc = do {
     modify (\<lambda>a. a\<lparr>resetting := True\<rparr>);
     r \<leftarrow> e1000e_down E ops;
     on_some r (\<lambda>_. do {
       r \<leftarrow> e1000e_up E ops alloc;
       on_some r (\<lambda>_. do {
         modify (\<lambda>a. a\<lparr>resetting := False\<rparr>);
         ret (Some ()) }) }) }"

section \<open>Frame size\<close>

definition buffer_len_of :: "int \<Rightarrow> nat" where
  "buffer_len_of max_frame =
     (if max_frame = 1518 \<or> max_frame = 1522 then 1522
      else if max_frame \<le> 256 then 256
      else if max_frame \<le> 512 then 512
      else if max_frame \<le> 1024 then 1024
      else if max_frame \<le> 2048 then 2048
      else 4096)"

definition EINVAL :: int where "EINVAL = 22"

text \<open>\<open>mtu\<close> is a number the administrator gives; the result is the code, or \<open>None\<close> as above.\<close>

definition e1000_change_mtu :: "mmio \<Rightarrow> e1000_ops \<Rightarrow> (rx_routine \<Rightarrow> nat \<Rightarrow> (e1000_adapter, unit) state) \<Rightarrow> int \<Rightarrow>
    (e1000_adapter, int option) state" where
  "e1000_change_mtu E ops alloc new_mtu = do {
     fl \<leftarrow> gets flags;
     (let max_frame = new_mtu + 14 + 4 in
      if new_mtu < 60 + 4 + 4 \<or> max_frame > 0x3F00 then ret (Some (- EINVAL))
      else if max_frame > 1514 + 4 \<and> fl AND FLAG_HAS_JUMBO_FRAMES = 0 then ret (Some (- EINVAL))
      else if max_frame > 9234 then ret (Some (- EINVAL))
      else do {
        modify (\<lambda>a. a\<lparr>resetting := True\<rparr>);
        modify (\<lambda>a. a\<lparr>max_frame_size := of_int max_frame\<rparr>);
        run \<leftarrow> gets running;
        r \<leftarrow> (if run then e1000e_down E ops else ret (Some ()));
        on_some r (\<lambda>_. do {
          modify (\<lambda>a. a\<lparr>rx_buffer_len := buffer_len_of max_frame\<rparr>);
          modify (\<lambda>a. a\<lparr>mtu := of_int new_mtu\<rparr>);
          r \<leftarrow> (if run then e1000e_up E ops alloc else e1000e_reset E ops);
          on_some r (\<lambda>_. do {
            modify (\<lambda>a. a\<lparr>resetting := False\<rparr>);
            ret (Some 0) }) }) }) }"

end
