(* ===== verification/NetOpen.thy ===== *)
theory NetOpen
  imports NetConf
begin

text \<open>
  The life of an interface, netdev.c: the memory of the rings, the test whether MSI works, open
  and close, the station address; the memory that is held over a whole life, and what the test
  leaves behind.
\<close>

section \<open>Memory of the rings\<close>

definition ENOMEM :: int where "ENOMEM = 12"
definition EBUSY :: int where "EBUSY = 16"
definition EIO :: int where "EIO = 5"
definition EADDRNOTAVAIL :: int where "EADDRNOTAVAIL = 99"

definition page_align :: "nat \<Rightarrow> nat" where
  "page_align n = (n + 4095) div 4096 * 4096"

text \<open>\<open>block\<close> tells the rings apart in the log; the result is the address for the device.\<close>

definition e1000_alloc_ring_dma :: "kernel \<Rightarrow> mem_block \<Rightarrow> nat \<Rightarrow> (e1000_adapter, u64 option) state" where
  "e1000_alloc_ring_dma K block n = do {
     h \<leftarrow> gets klog;
     (case ring_addr K h n of None \<Rightarrow> ret None
      | Some d \<Rightarrow> do { log_ev (Mem_alloc block); ret (Some d) }) }"

definition e1000e_setup_tx_resources :: "kernel \<Rightarrow> (e1000_adapter, int) state" where
  "e1000e_setup_tx_resources K = do {
     n \<leftarrow> gets (\<lambda>a. ring_count (tx_ring a));
     h \<leftarrow> gets klog;
     (if \<not> mem_ok K h Tx_info then ret (- ENOMEM)
      else do {
        log_ev (Mem_alloc Tx_info);
        set_tx (\<lambda>r. r\<lparr>buffer_info := replicate n buffer_zero\<rparr>);
        r \<leftarrow> e1000_alloc_ring_dma K Tx_desc (page_align (n * 16));
        (case r of None \<Rightarrow> do { log_ev (Mem_free Tx_info); ret (- ENOMEM) }
         | Some d \<Rightarrow> do {
             h \<leftarrow> gets klog;
             set_tx (\<lambda>r. r\<lparr>ring_dma := d, ring_desc := map (tx_mem K h) [0..<n],
               next_to_use := 0, next_to_clean := 0\<rparr>);
             ret 0 }) }) }"

text \<open>Memory for the pages of each buffer; the result is how many buffers got theirs.\<close>

fun alloc_ps_pages :: "kernel \<Rightarrow> nat \<Rightarrow> nat \<Rightarrow> (e1000_adapter, nat) state" where
  "alloc_ps_pages K 0 i = ret i"
| "alloc_ps_pages K (Suc left) i = do {
     h \<leftarrow> gets klog;
     (if mem_ok K h (Ps_block i) then do {
        log_ev (Mem_alloc (Ps_block i));
        set_rx (upd_ps i (replicate 3 (None, 0)));
        alloc_ps_pages K left (i + 1) }
      else ret i) }"

definition free_ps_pages :: "nat \<Rightarrow> (e1000_adapter, unit) state" where
  "free_ps_pages n = for_each [0..<n] (\<lambda>i. log_ev (Mem_free (Ps_block i)))"

definition e1000e_setup_rx_resources :: "kernel \<Rightarrow> (e1000_adapter, int) state" where
  "e1000e_setup_rx_resources K = do {
     n \<leftarrow> gets (\<lambda>a. ring_count (rx_ring a));
     h \<leftarrow> gets klog;
     (if \<not> mem_ok K h Rx_info then ret (- ENOMEM)
      else do {
        log_ev (Mem_alloc Rx_info);
        set_rx (\<lambda>r. r\<lparr>buffer_info := replicate n buffer_zero, buf_page := replicate n None, ps_pages := replicate n []\<rparr>);
        k \<leftarrow> alloc_ps_pages K n 0;
        r \<leftarrow> (if k < n then ret None else e1000_alloc_ring_dma K Rx_desc (page_align (n * 32)));
        (case r of None \<Rightarrow> do { free_ps_pages k; log_ev (Mem_free Rx_info); ret (- ENOMEM) }
         | Some d \<Rightarrow> do {
             h \<leftarrow> gets klog;
             set_rx (\<lambda>r. r\<lparr>ring_dma := d, ring_desc := map (rx_mem K h) [0..<n], ps_desc := map (ps_mem K h) [0..<n],
               next_to_clean := 0, next_to_use := 0, rx_skb_top := None\<rparr>);
             ret 0 }) }) }"

definition e1000e_free_tx_resources :: "(e1000_adapter, unit) state" where
  "e1000e_free_tx_resources = do {
     e1000_clean_tx_ring;
     log_ev (Mem_free Tx_info);
     set_tx (\<lambda>r. r\<lparr>buffer_info := []\<rparr>);
     log_ev (Mem_free Tx_desc);
     set_tx (\<lambda>r. r\<lparr>ring_desc := []\<rparr>) }"

definition e1000e_free_rx_resources :: "(e1000_adapter, unit) state" where
  "e1000e_free_rx_resources = do {
     e1000_clean_rx_ring;
     n \<leftarrow> gets (\<lambda>a. ring_count (rx_ring a));
     free_ps_pages n;
     log_ev (Mem_free Rx_info);
     set_rx (\<lambda>r. r\<lparr>buffer_info := [], buf_page := [], ps_pages := []\<rparr>);
     log_ev (Mem_free Rx_desc);
     set_rx (\<lambda>r. r\<lparr>ring_desc := [], ps_desc := []\<rparr>) }"

section \<open>The test of MSI\<close>

definition FLAG_MSI_TEST_FAILED :: u32 where "FLAG_MSI_TEST_FAILED = push_bit 31 1"
definition FLAG_RESET_OVERWRITES_LAA :: u32 where "FLAG_RESET_OVERWRITES_LAA = push_bit 21 1"
definition E1000_ICR_RXSEQ :: u32 where "E1000_ICR_RXSEQ = 0x00000008"

definition e1000_intr_msi_test :: "mmio \<Rightarrow> (e1000_adapter, unit) state" where
  "e1000_intr_msi_test E = do {
     icr \<leftarrow> hw_op (er32 E ICR);
     (if icr AND E1000_ICR_RXSEQ \<noteq> 0
      then modify (\<lambda>a. a\<lparr>flags := flags a AND NOT FLAG_MSI_TEST_FAILED\<rparr>) else skip) }"

text \<open>
  \<open>meanwhile\<close> is what happens in the 50 ms the test waits: the test handler runs if the message
  arrives.  The code of the test is not changed by the request of the handlers at its end.
\<close>

definition msi_test_run :: "mmio \<Rightarrow> kernel \<Rightarrow> (e1000_adapter, unit) state \<Rightarrow> (e1000_adapter, int) state" where
  "msi_test_run E K meanwhile = do {
     h \<leftarrow> gets klog;
     (if enable_msi K h \<noteq> 0 then ret (enable_msi K h)
      else do {
        log_ev Enable_msi;
        err \<leftarrow> request_handler K Intr_msi_test;
        (if err \<noteq> 0 then do { log_ev Disable_msi; ret err }
         else do {
           e1000_irq_enable E;
           hw_op (ew32 ICS E1000_ICR_RXSEQ);
           hw_op (e1e_flush E);
           meanwhile;
           e1000_irq_disable E;
           failed \<leftarrow> gets (\<lambda>a. flags a AND FLAG_MSI_TEST_FAILED \<noteq> 0);
           (if failed then modify (\<lambda>a. a\<lparr>int_mode := E1000E_INT_MODE_LEGACY\<rparr>) else skip);
           log_ev (Free_irq 0);
           log_ev Disable_msi;
           ret (if failed then - EIO else 0) }) }) }"

definition e1000_test_msi_interrupt :: "mmio \<Rightarrow> kernel \<Rightarrow> (e1000_adapter, unit) state \<Rightarrow> (e1000_adapter, int) state" where
  "e1000_test_msi_interrupt E K meanwhile = do {
     icr \<leftarrow> hw_op (er32 E ICR);
     e1000_free_irq;
     e1000e_reset_interrupt_capability;
     modify (\<lambda>a. a\<lparr>flags := flags a OR FLAG_MSI_TEST_FAILED\<rparr>);
     err \<leftarrow> msi_test_run E K meanwhile;
     e1000e_set_interrupt_capability K;
     r \<leftarrow> e1000_request_irq E K;
     ret err }"

definition e1000_test_msi :: "mmio \<Rightarrow> kernel \<Rightarrow> (e1000_adapter, unit) state \<Rightarrow> (e1000_adapter, int) state" where
  "e1000_test_msi E K meanwhile = do {
     fl \<leftarrow> gets flags;
     (if fl AND FLAG_MSI_ENABLED = 0 then ret 0
      else do {
        h \<leftarrow> gets klog;
        log_ev (Pci_command (pci_command K h AND NOT 0x100));
        err \<leftarrow> e1000_test_msi_interrupt E K meanwhile;
        log_ev (Pci_command (pci_command K h));
        (if err = 0 then ret 0
         else if err \<noteq> - EIO then ret err
         else do { e1000_free_irq; e1000_request_irq E K }) }) }"

section \<open>Open and close\<close>

definition open_failed :: "mmio \<Rightarrow> e1000_ops \<Rightarrow> int \<Rightarrow> (e1000_adapter, int option) state" where
  "open_failed E ops err = do { r \<leftarrow> e1000e_reset E ops; on_some r (\<lambda>_. ret (Some err)) }"

text \<open>The end of open: as the end of \<open>e1000e_up\<close>, but the queue is started and MSI-X not set up.\<close>

definition open_start :: "mmio \<Rightarrow> (e1000_adapter, unit) state" where
  "open_start E = do {
     modify (\<lambda>a. a\<lparr>is_down := False\<rparr>);
     modify (\<lambda>a. a\<lparr>napi_scheduled := False\<rparr>);
     log_ev Napi_enable;
     e1000_irq_enable E;
     modify (\<lambda>a. a\<lparr>queue_stopped := False, klog := Start_queue # klog a\<rparr>);
     hw_op (ew32 ICS E1000_ICR_LSC) }"

text \<open>The handlers, tested when they rest on a message.\<close>

definition open_irq :: "mmio \<Rightarrow> kernel \<Rightarrow> (e1000_adapter, unit) state \<Rightarrow> (e1000_adapter, int) state" where
  "open_irq E K meanwhile = do {
     err \<leftarrow> e1000_request_irq E K;
     (if err \<noteq> 0 then ret err
      else do {
        mode \<leftarrow> gets int_mode;
        (if mode \<noteq> E1000E_INT_MODE_LEGACY then e1000_test_msi E K meanwhile else ret 0) }) }"

definition e1000_open :: "mmio \<Rightarrow> kernel \<Rightarrow> e1000_ops \<Rightarrow> (rx_routine \<Rightarrow> nat \<Rightarrow> (e1000_adapter, unit) state) \<Rightarrow>
    (e1000_adapter, unit) state \<Rightarrow> (e1000_adapter, int option) state" where
  "e1000_open E K ops alloc meanwhile = do {
     test \<leftarrow> gets testing;
     (if test then ret (Some (- EBUSY))
      else do {
        err \<leftarrow> e1000e_setup_tx_resources K;
        (if err \<noteq> 0 then open_failed E ops err
         else do {
           err \<leftarrow> e1000e_setup_rx_resources K;
           (if err \<noteq> 0 then do { e1000e_free_tx_resources; open_failed E ops err }
            else do {
              e1000e_power_up_phy ops;
              modify (\<lambda>a. a\<lparr>mng_vlan_id := E1000_MNG_VLAN_NONE\<rparr>);
              on \<leftarrow> gets mng_vlan_on;
              r \<leftarrow> (if on then e1000_update_mng_vlan E else ret (Some ()));
              on_some r (\<lambda>_. do {
                fl \<leftarrow> gets flags;
                (if fl AND FLAG_HAS_AMT \<noteq> 0 then e1000_get_hw_control E else skip);
                r \<leftarrow> e1000_configure E ops alloc;
                on_some r (\<lambda>_. do {
                  err \<leftarrow> open_irq E K meanwhile;
                  (if err = 0 then do { open_start E; ret (Some 0) }
                   else do {
                     e1000_release_hw_control E;
                     e1000_power_down_phy ops;
                     e1000e_free_rx_resources;
                     e1000e_free_tx_resources;
                     open_failed E ops err }) }) }) }) }) }) }"

definition e1000_close :: "mmio \<Rightarrow> e1000_ops \<Rightarrow> (e1000_adapter, unit option) state" where
  "e1000_close E ops = do {
     r \<leftarrow> e1000e_down E ops;
     on_some r (\<lambda>_. do {
       e1000_power_down_phy ops;
       e1000_free_irq;
       e1000e_free_tx_resources;
       e1000e_free_rx_resources;
       a \<leftarrow> gets (\<lambda>a. a);
       (if mng_vlan_on a \<and> \<not> vlan_device a (mng_vlan_id a)
        then e1000_vlan_rx_kill_vid E (mng_vlan_id a) else skip);
       (if flags a AND FLAG_HAS_AMT \<noteq> 0 then e1000_release_hw_control E else skip);
       ret (Some ()) }) }"

text \<open>A valid address is not a group address and not zero.\<close>

definition is_valid_ether_addr :: "u8 list \<Rightarrow> bool" where
  "is_valid_ether_addr addr \<longleftrightarrow> addr ! 0 AND 1 = 0 \<and> addr \<noteq> zero_addr"

definition e1000_set_mac :: "mmio \<Rightarrow> u8 list \<Rightarrow> (e1000_adapter, int) state" where
  "e1000_set_mac E addr =
     (if \<not> is_valid_ether_addr addr then ret (- EADDRNOTAVAIL)
      else do {
        modify (\<lambda>a. a\<lparr>dev_addr := addr\<rparr>);
        hw_op (set_mac (\<lambda>m. m\<lparr>mac_addr := addr\<rparr>));
        hw_op (e1000e_rar_set E addr 0);
        fl \<leftarrow> gets flags;
        (if fl AND FLAG_RESET_OVERWRITES_LAA \<noteq> 0 then hw_op (do {
           e1000e_set_laa_state_82571 E True;
           n \<leftarrow> gets (\<lambda>h. rar_entry_count (mac h));
           e1000e_rar_set E addr (ucast n - 1) }) else skip);
        ret 0 })"

end
