(* ===== verification/NetWatch.thy ===== *)
theory NetWatch
  imports NetOpen
begin

text \<open>
  The watchdog of an interface, netdev.c: the link, the statistics, the snapshot of the PHY, the
  timers and tasks, the request of a reset, and the reading of PHY registers by user programs.

  PCI error recovery (\<open>HAVE_PCI_ERS\<close>) is not part of this configuration.
\<close>

section \<open>Link\<close>

text \<open>The test behind the switch only looks for a message to print.\<close>

definition e1000_has_link :: "mmio \<Rightarrow> e1000_ops \<Rightarrow> (e1000_hw, bool) state" where
  "e1000_has_link E ops = do {
     h \<leftarrow> gets (\<lambda>h. h);
     (r, link) \<leftarrow> (case media_type (phy h) of
        e1000_media_type_copper \<Rightarrow>
          (if get_link_status (mac h) then do {
             r \<leftarrow> check_for_link ops;
             lost \<leftarrow> gets (\<lambda>h. get_link_status (mac h));
             ret (r, \<not> lost) }
           else ret (0, True))
      | e1000_media_type_fiber \<Rightarrow> do {
          r \<leftarrow> check_for_link ops;
          v \<leftarrow> er32 E STATUS;
          ret (r, v AND STATUS_LU \<noteq> 0) }
      | e1000_media_type_internal_serdes \<Rightarrow> do {
          r \<leftarrow> check_for_link ops;
          up \<leftarrow> gets (\<lambda>h. serdes_has_link (mac h));
          ret (r, up) }
      | e1000_media_type_unknown \<Rightarrow> ret (0, False));
     t \<leftarrow> gets (\<lambda>h. phy_type (phy h));
     (if r = - E1000_ERR_PHY \<and> t = e1000_phy_igp_3 then do { v \<leftarrow> er32 E CTRL; skip } else skip);
     ret link }"

definition e1000e_enable_receives :: "mmio \<Rightarrow> (e1000_adapter, unit) state" where
  "e1000e_enable_receives E = do {
     fl \<leftarrow> gets flags;
     (if fl AND FLAG_RX_NEEDS_RESTART \<noteq> 0 \<and> fl AND FLAG_RX_RESTART_NOW \<noteq> 0 then do {
        reg_mod E RCTL (\<lambda>v. v OR 0x00000002);
        modify (\<lambda>a. a\<lparr>flags := flags a AND NOT FLAG_RX_RESTART_NOW\<rparr>) }
      else skip) }"

section \<open>Statistics\<close>

text \<open>
  The registers in the order they are read, each with the counter it adds to; the upper halves of
  the octet counts are read only to clear them.
\<close>

type_synonym stat_reg = "u32 \<times> (u64 \<Rightarrow> e1000_hw_stats \<Rightarrow> e1000_hw_stats)"

definition stat_regs_first :: "stat_reg list" where
  "stat_regs_first = [
    (0x04000, \<lambda>v s. s\<lparr>st_crcerrs := st_crcerrs s + v\<rparr>),
    (0x04074, \<lambda>v s. s\<lparr>st_gprc := st_gprc s + v\<rparr>),
    (0x04088, \<lambda>v s. s\<lparr>st_gorc := st_gorc s + v\<rparr>),
    (0x0408C, \<lambda>v s. s),
    (0x04078, \<lambda>v s. s\<lparr>st_bprc := st_bprc s + v\<rparr>),
    (0x0407C, \<lambda>v s. s\<lparr>st_mprc := st_mprc s + v\<rparr>),
    (0x040AC, \<lambda>v s. s\<lparr>st_roc := st_roc s + v\<rparr>),
    (0x04010, \<lambda>v s. s\<lparr>st_mpc := st_mpc s + v\<rparr>),
    (0x04014, \<lambda>v s. s\<lparr>st_scc := st_scc s + v\<rparr>),
    (0x04018, \<lambda>v s. s\<lparr>st_ecol := st_ecol s + v\<rparr>),
    (0x0401C, \<lambda>v s. s\<lparr>st_mcc := st_mcc s + v\<rparr>),
    (0x04020, \<lambda>v s. s\<lparr>st_latecol := st_latecol s + v\<rparr>),
    (0x04030, \<lambda>v s. s\<lparr>st_dc := st_dc s + v\<rparr>),
    (0x04048, \<lambda>v s. s\<lparr>st_xonrxc := st_xonrxc s + v\<rparr>),
    (0x0404C, \<lambda>v s. s\<lparr>st_xontxc := st_xontxc s + v\<rparr>),
    (0x04050, \<lambda>v s. s\<lparr>st_xoffrxc := st_xoffrxc s + v\<rparr>),
    (0x04054, \<lambda>v s. s\<lparr>st_xofftxc := st_xofftxc s + v\<rparr>),
    (0x04080, \<lambda>v s. s\<lparr>st_gptc := st_gptc s + v\<rparr>),
    (0x04090, \<lambda>v s. s\<lparr>st_gotc := st_gotc s + v\<rparr>),
    (0x04094, \<lambda>v s. s),
    (0x040A0, \<lambda>v s. s\<lparr>st_rnbc := st_rnbc s + v\<rparr>),
    (0x040A4, \<lambda>v s. s\<lparr>st_ruc := st_ruc s + v\<rparr>),
    (0x040F0, \<lambda>v s. s\<lparr>st_mptc := st_mptc s + v\<rparr>),
    (0x040F4, \<lambda>v s. s\<lparr>st_bptc := st_bptc s + v\<rparr>)]"

definition stat_regs_then :: "e1000_mac_type \<Rightarrow> stat_reg list" where
  "stat_regs_then t = [
    (0x04004, \<lambda>v s. s\<lparr>st_algnerrc := st_algnerrc s + v\<rparr>),
    (0x0400C, \<lambda>v s. s\<lparr>st_rxerrc := st_rxerrc s + v\<rparr>)] @
    (if t \<noteq> e1000_82574 \<and> t \<noteq> e1000_82583 then [(0x04034, \<lambda>v s. s\<lparr>st_tncrs := st_tncrs s + v\<rparr>)] else []) @ [
    (0x0403C, \<lambda>v s. s\<lparr>st_cexterr := st_cexterr s + v\<rparr>),
    (0x040F8, \<lambda>v s. s\<lparr>st_tsctc := st_tsctc s + v\<rparr>),
    (0x040FC, \<lambda>v s. s\<lparr>st_tsctfc := st_tsctfc s + v\<rparr>)]"

definition stat_regs_mng :: "stat_reg list" where
  "stat_regs_mng = [
    (0x040BC, \<lambda>v s. s\<lparr>st_mgptc := st_mgptc s + v\<rparr>),
    (0x040B4, \<lambda>v s. s\<lparr>st_mgprc := st_mgprc s + v\<rparr>),
    (0x040B8, \<lambda>v s. s\<lparr>st_mgpdc := st_mgpdc s + v\<rparr>)]"

definition stat_step :: "mmio \<Rightarrow> stat_reg \<Rightarrow> (e1000_adapter, unit) state" where
  "stat_step E rf = do {
     v \<leftarrow> hw_op (er32 E (fst rf));
     modify (\<lambda>a. a\<lparr>stats := snd rf (ucast v) (stats a)\<rparr>) }"

definition net_stats_of :: "e1000_hw_stats \<Rightarrow> net_device_stats" where
  "net_stats_of s = \<lparr>ns_multicast = st_mprc s, ns_collisions = st_colc s,
     ns_rx_errors = st_rxerrc s + st_crcerrs s + st_algnerrc s + st_ruc s + st_roc s + st_cexterr s,
     ns_rx_length_errors = st_ruc s + st_roc s, ns_rx_crc_errors = st_crcerrs s,
     ns_rx_frame_errors = st_algnerrc s, ns_rx_missed_errors = st_mpc s,
     ns_tx_errors = st_ecol s + st_latecol s, ns_tx_aborted_errors = st_ecol s,
     ns_tx_window_errors = st_latecol s, ns_tx_carrier_errors = st_tncrs s\<rparr>"

definition e1000e_update_stats :: "mmio \<Rightarrow> (e1000_adapter, unit) state" where
  "e1000e_update_stats E = do {
     speed \<leftarrow> gets link_speed;
     (if speed = 0 then skip
      else do {
        for_each stat_regs_first (stat_step E);
        tpt \<leftarrow> hw_op (er32 E 0x040D4);
        hw_op (set_mac (\<lambda>m. m\<lparr>tx_packet_delta := tpt\<rparr>));
        modify (\<lambda>a. a\<lparr>stats := (stats a)\<lparr>st_tpt := st_tpt (stats a) + ucast tpt\<rparr>\<rparr>);
        colc \<leftarrow> hw_op (er32 E 0x04028);
        hw_op (set_mac (\<lambda>m. m\<lparr>collision_delta := colc\<rparr>));
        modify (\<lambda>a. a\<lparr>stats := (stats a)\<lparr>st_colc := st_colc (stats a) + ucast colc\<rparr>\<rparr>);
        t \<leftarrow> gets (\<lambda>a. mac_type (mac (hw a)));
        for_each (stat_regs_then t) (stat_step E);
        modify (\<lambda>a. a\<lparr>net_stats := net_stats_of (stats a)\<rparr>);
        for_each stat_regs_mng (stat_step E) }) }"

section \<open>The snapshot of the PHY\<close>

text \<open>A register whose read fails keeps its old value in the snapshot.\<close>

definition snap :: "e1000_ops \<Rightarrow> u32 \<times> (u16 \<Rightarrow> e1000_phy_regs \<Rightarrow> e1000_phy_regs) \<Rightarrow> (e1000_adapter, unit) state" where
  "snap ops rf = do {
     r \<leftarrow> hw_op (rphy ops (fst rf));
     (case r of Inl e \<Rightarrow> skip | Inr v \<Rightarrow> modify (\<lambda>a. a\<lparr>phy_regs := snd rf v (phy_regs a)\<rparr>)) }"

definition phy_power_on :: e1000_phy_regs where
  "phy_power_on = \<lparr>pr_bmcr = 0x0040 OR 0x1000 OR 0x0100,
     pr_bmsr = 0x4000 OR 0x2000 OR 0x1000 OR 0x0800 OR 0x0100 OR 0x0008 OR 0x0001,
     pr_advertise = 0x0800 OR 0x0400 OR (0x0020 OR 0x0040 OR 0x0080 OR 0x0100) OR 0x0001,
     pr_lpa = 0, pr_expansion = 0x0004, pr_ctrl1000 = 0x0200, pr_stat1000 = 0, pr_estatus = 0x2000 OR 0x1000\<rparr>"

definition e1000_phy_read_status :: "mmio \<Rightarrow> e1000_ops \<Rightarrow> (e1000_adapter, unit) state" where
  "e1000_phy_read_status E ops = do {
     v \<leftarrow> hw_op (er32 E STATUS);
     t \<leftarrow> gets (\<lambda>a. media_type (phy (hw a)));
     (if v AND STATUS_LU \<noteq> 0 \<and> t = e1000_media_type_copper then
        for_each [(0x00, \<lambda>v p. p\<lparr>pr_bmcr := v\<rparr>), (0x01, \<lambda>v p. p\<lparr>pr_bmsr := v\<rparr>),
          (0x04, \<lambda>v p. p\<lparr>pr_advertise := v\<rparr>), (0x05, \<lambda>v p. p\<lparr>pr_lpa := v\<rparr>),
          (0x06, \<lambda>v p. p\<lparr>pr_expansion := v\<rparr>), (0x09, \<lambda>v p. p\<lparr>pr_ctrl1000 := v\<rparr>),
          (0x0A, \<lambda>v p. p\<lparr>pr_stat1000 := v\<rparr>), (0x0F, \<lambda>v p. p\<lparr>pr_estatus := v\<rparr>)] (snap ops)
      else modify (\<lambda>a. a\<lparr>phy_regs := phy_power_on\<rparr>)) }"

section \<open>The watchdog\<close>

definition FLAG_TARC_SPEED_MODE_BIT :: u32 where "FLAG_TARC_SPEED_MODE_BIT = push_bit 22 1"
definition FLAG_TSO_FORCE :: u32 where "FLAG_TSO_FORCE = push_bit 29 1"

text \<open>Feature bits of the kernel's network devices.\<close>

definition NETIF_F_TSO :: u32 where "NETIF_F_TSO = push_bit 16 1"
definition NETIF_F_TSO6 :: u32 where "NETIF_F_TSO6 = push_bit 20 1"

definition mod_phy_timer :: "(e1000_adapter, unit) state" where
  "mod_phy_timer = unless_down (log_ev Phy_info_timer)"

text \<open>The read that looks for a duplex mismatch only decides on a message.\<close>

definition duplex_check :: "e1000_ops \<Rightarrow> (e1000_adapter, unit) state" where
  "duplex_check ops = do {
     a \<leftarrow> gets (\<lambda>a. a);
     (if (phy_type (phy (hw a)) = e1000_phy_igp_3 \<or> phy_type (phy (hw a)) = e1000_phy_bm) \<and> mac_autoneg (mac (hw a)) \<and>
         (link_speed a = 10 \<or> link_speed a = 100) \<and> link_duplex a = 1
      then do { r \<leftarrow> hw_op (rphy ops 0x06); skip } else skip) }"

definition tso_for_speed :: "u16 \<Rightarrow> u32 \<Rightarrow> u32" where
  "tso_for_speed speed f =
     (if speed = 10 \<or> speed = 100 then f AND NOT NETIF_F_TSO AND NOT NETIF_F_TSO6
      else if speed = 1000 then f OR NETIF_F_TSO OR NETIF_F_TSO6
      else f)"

definition link_came_up :: "mmio \<Rightarrow> e1000_ops \<Rightarrow> (e1000_adapter, unit) state" where
  "link_came_up E ops = do {
     e1000_phy_read_status E ops;
     r \<leftarrow> hw_op (get_link_up_info ops);
     (case r of Inl e \<Rightarrow> skip | Inr (s, d) \<Rightarrow> modify (\<lambda>a. a\<lparr>link_speed := s, link_duplex := d\<rparr>));
     ctrl \<leftarrow> hw_op (er32 E CTRL);
     duplex_check ops;
     modify (\<lambda>a. a\<lparr>queue_len := (if link_speed a = 10 then 10 else if link_speed a = 100 then 100 else tx_queue_len a),
       tx_timeout_factor := (if link_speed a = 10 then 16 else 1)\<rparr>);
     a \<leftarrow> gets (\<lambda>a. a);
     (if flags a AND FLAG_TARC_SPEED_MODE_BIT \<noteq> 0 \<and> (link_speed a = 10 \<or> link_speed a = 100)
      then reg_mod E TARC0 (\<lambda>v. v AND NOT (push_bit 21 1)) else skip);
     (if flags a AND FLAG_TSO_FORCE = 0
      then modify (\<lambda>a. a\<lparr>features := tso_for_speed (link_speed a) (features a)\<rparr>) else skip);
     reg_mod E TCTL (\<lambda>v. v OR 0x00000002);
     r \<leftarrow> hw_op (cfg_on_link_up ops);
     modify (\<lambda>a. a\<lparr>carrier_ok := True\<rparr>);
     modify (\<lambda>a. a\<lparr>queue_stopped := False, klog := Wake_queue # klog a\<rparr>);
     mod_phy_timer }"

definition link_went_down :: "(e1000_adapter, unit) state" where
  "link_went_down = do {
     modify (\<lambda>a. a\<lparr>link_speed := 0, link_duplex := 0\<rparr>);
     modify (\<lambda>a. a\<lparr>carrier_ok := False\<rparr>);
     stop_queue;
     mod_phy_timer;
     fl \<leftarrow> gets flags;
     (if fl AND FLAG_RX_NEEDS_RESTART \<noteq> 0 then log_ev Reset_task else skip) }"

text \<open>The part before the label \<open>link_up\<close>; \<open>None\<close> as in the function for the VLAN.\<close>

definition watchdog_link :: "mmio \<Rightarrow> e1000_ops \<Rightarrow> bool \<Rightarrow> (e1000_adapter, unit option) state" where
  "watchdog_link E ops link = do {
     on \<leftarrow> hw_op (e1000e_enable_tx_pkt_filtering E (check_mng_mode ops) (e1000_mng_enable_host_if_generic E));
     a \<leftarrow> gets (\<lambda>a. a);
     r \<leftarrow> (if on \<and> mng_vlan_id a \<noteq> cookie_vlan (mng_cookie (hw a)) then e1000_update_mng_vlan E else ret (Some ()));
     on_some r (\<lambda>_. do {
       up \<leftarrow> gets carrier_ok;
       (if link then (if up then skip else link_came_up E ops)
        else (if up then link_went_down else skip));
       ret (Some ()) }) }"

text \<open>The traffic since the last run, for the adaptive spacing.\<close>

definition watchdog_deltas :: "(e1000_adapter, unit) state" where
  "watchdog_deltas = do {
     s \<leftarrow> gets stats;
     old \<leftarrow> gets tpt_old;
     hw_op (set_mac (\<lambda>m. m\<lparr>tx_packet_delta := ucast (st_tpt s - old)\<rparr>));
     modify (\<lambda>a. a\<lparr>tpt_old := st_tpt s\<rparr>);
     old \<leftarrow> gets colc_old;
     hw_op (set_mac (\<lambda>m. m\<lparr>collision_delta := ucast (st_colc s - old)\<rparr>));
     modify (\<lambda>a. a\<lparr>colc_old := st_colc s\<rparr>);
     modify (\<lambda>a. a\<lparr>gorc_now := ucast (st_gorc s - gorc_old a), gorc_old := st_gorc s,
       gotc_now := ucast (st_gotc s - gotc_old a), gotc_old := st_gotc s\<rparr>) }"

definition tx_pending :: "e1000_adapter \<Rightarrow> bool" where
  "tx_pending a \<longleftrightarrow> e1000_desc_unused (tx_ring a) + 1 < int (ring_count (tx_ring a))"

definition watchdog_rest :: "mmio \<Rightarrow> (e1000_adapter, unit) state" where
  "watchdog_rest E = do {
     e1000e_update_stats E;
     watchdog_deltas;
     hw_op e1000e_update_adaptive;
     a \<leftarrow> gets (\<lambda>a. a);
     (if \<not> carrier_ok a \<and> tx_pending a
      then modify (\<lambda>a. a\<lparr>tx_timeout_count := tx_timeout_count a + 1, klog := Reset_task # klog a\<rparr>) else skip);
     hw_op (ew32 ICS (if msix a then ims_val (rx_ring a) else 0x00000010));
     modify (\<lambda>a. a\<lparr>detect_tx_hung := True\<rparr>);
     laa \<leftarrow> gets (\<lambda>a. e1000e_get_laa_state_82571 (hw a));
     addr \<leftarrow> gets (\<lambda>a. mac_addr (mac (hw a)));
     (if laa then hw_op (e1000e_rar_set E addr 0) else skip);
     mod_watchdog }"

definition e1000_watchdog_task :: "mmio \<Rightarrow> e1000_ops \<Rightarrow> (e1000_adapter, unit option) state" where
  "e1000_watchdog_task E ops = do {
     link \<leftarrow> hw_op (e1000_has_link E ops);
     up \<leftarrow> gets carrier_ok;
     r \<leftarrow> (if up \<and> link then do { e1000e_enable_receives E; ret (Some ()) } else watchdog_link E ops link);
     on_some r (\<lambda>_. do { watchdog_rest E; ret (Some ()) }) }"

section \<open>Timers and tasks\<close>

definition e1000_watchdog :: "(e1000_adapter, unit) state" where
  "e1000_watchdog = log_ev Watchdog_task"

definition e1000_update_phy_info :: "(e1000_adapter, unit) state" where
  "e1000_update_phy_info = log_ev Update_phy_task"

definition e1000e_update_phy_task :: "e1000_ops \<Rightarrow> (e1000_adapter, unit) state" where
  "e1000e_update_phy_task ops = do { r \<leftarrow> hw_op (get_info ops); skip }"

definition e1000_tx_timeout :: "(e1000_adapter, unit) state" where
  "e1000_tx_timeout = do {
     modify (\<lambda>a. a\<lparr>tx_timeout_count := tx_timeout_count a + 1\<rparr>);
     log_ev Reset_task }"

definition e1000_reset_task :: "mmio \<Rightarrow> e1000_ops \<Rightarrow> (rx_routine \<Rightarrow> nat \<Rightarrow> (e1000_adapter, unit) state) \<Rightarrow>
    (e1000_adapter, unit option) state" where
  "e1000_reset_task E ops alloc = e1000e_reinit_locked E ops alloc"

section \<open>PHY registers for user programs\<close>

datatype mii_cmd = SIOCGMIIPHY | SIOCGMIIREG | SIOCSMIIREG

definition EOPNOTSUPP :: int where "EOPNOTSUPP = 95"
definition EPERM :: int where "EPERM = 1"

text \<open>\<open>admin\<close> is whether the caller may administer the network; the registers come from the snapshot.\<close>

definition mii_reg :: "e1000_adapter \<Rightarrow> u16 \<Rightarrow> u16 option" where
  "mii_reg a n = (let p = phy_regs a; id = phy_id (phy (hw a)) in
     if n = 0 then Some (pr_bmcr p) else if n = 1 then Some (pr_bmsr p)
     else if n = 2 then Some (ucast (drop_bit 16 id)) else if n = 3 then Some (ucast (id AND 0xFFFF))
     else if n = 4 then Some (pr_advertise p) else if n = 5 then Some (pr_lpa p)
     else if n = 6 then Some (pr_expansion p) else if n = 9 then Some (pr_ctrl1000 p)
     else if n = 10 then Some (pr_stat1000 p) else if n = 15 then Some (pr_estatus p)
     else None)"

definition e1000_mii_ioctl :: "bool \<Rightarrow> mii_cmd \<Rightarrow> u16 \<Rightarrow> e1000_adapter \<Rightarrow> int + u16" where
  "e1000_mii_ioctl admin cmd reg_num a =
     (if media_type (phy (hw a)) \<noteq> e1000_media_type_copper then Inl (- EOPNOTSUPP)
      else case cmd of
        SIOCGMIIPHY \<Rightarrow> Inr (ucast (phy_addr (phy (hw a))))
      | SIOCGMIIREG \<Rightarrow> (if \<not> admin then Inl (- EPERM)
          else case mii_reg a (reg_num AND 0x1F) of None \<Rightarrow> Inl (- EIO) | Some v \<Rightarrow> Inr v)
      | SIOCSMIIREG \<Rightarrow> Inl (- EOPNOTSUPP))"

end
