(* ===== verification/NetLife.thy ===== *)
theory NetLife
  imports NetWatch NetPages
begin

text \<open>
  The life of an interface: the memory it holds, whether it is down, and what every operation
  does to both; opening, closing, resets, changes of the frame size, interrupts, polls and
  transmissions in any order.
\<close>

section \<open>Memory held\<close>

text \<open>How often each block is allocated and not yet freed.\<close>

fun held :: "kev list \<Rightarrow> mem_block \<Rightarrow> int" where
  "held [] = (\<lambda>b. 0)"
| "held (Mem_alloc c # h) = (held h)(c := held h c + 1)"
| "held (Mem_free c # h) = (held h)(c := held h c - 1)"
| "held (e # h) = held h"

text \<open>The same for the resources of the device: a call that succeeds counts as well.\<close>

definition pci_gain :: "pci_ev \<Rightarrow> resource \<Rightarrow> int" where
  "pci_gain e r = (case e of
     Acquire q \<Rightarrow> (if q = r then 1 else 0)
   | Release q \<Rightarrow> (if q = r then - 1 else 0)
   | Called c code \<Rightarrow> (if code = 0 \<and> (c = Enable_device \<and> r = Device_enabled \<or> c = Request_regions \<and> r = Regions \<or>
       c = Register_netdev \<and> r = Registered) then 1 else 0)
   | _ \<Rightarrow> 0)"

fun owned :: "kev list \<Rightarrow> resource \<Rightarrow> int" where
  "owned [] = (\<lambda>r. 0)"
| "owned (Pci e # h) = (\<lambda>r. owned h r + pci_gain e r)"
| "owned (e # h) = owned h"

record life_view =
  view_held :: "mem_block \<Rightarrow> int"
  view_owned :: "resource \<Rightarrow> int"
  view_counts :: "nat \<times> nat"
  view_running :: bool
  view_off :: bool

definition life_view :: "e1000_adapter \<Rightarrow> life_view" where
  "life_view a = \<lparr>view_held = held (klog a), view_owned = owned (klog a), view_counts = (ring_count (tx_ring a), ring_count (rx_ring a)),
     view_running = running a, view_off = is_down a\<rparr>"

text \<open>The blocks of an open interface with \<open>n\<close> receive descriptors.\<close>

definition tx_blocks :: "mem_block set" where "tx_blocks = {Tx_info, Tx_desc}"

definition rx_blocks :: "nat \<Rightarrow> mem_block set" where
  "rx_blocks n = {Rx_info, Rx_desc} \<union> Ps_block ` {..<n}"

definition add_blocks :: "int \<Rightarrow> mem_block set \<Rightarrow> life_view \<Rightarrow> life_view" where
  "add_blocks c S v = v\<lparr>view_held := (\<lambda>b. view_held v b + (if b \<in> S then c else 0))\<rparr>"

section \<open>Operations that keep the view\<close>

abbreviation lives :: "(e1000_adapter, 'a) state \<Rightarrow> bool" where
  "lives m \<equiv> keeps life_view m"

lemma life_view_simps [simp]:
  "life_view (a\<lparr>hw := h\<rparr>) = life_view a"
  "life_view (a\<lparr>tx_ring := upd_buffer i f (tx_ring a)\<rparr>) = life_view a"
  "life_view (a\<lparr>rx_ring := upd_buffer i f (rx_ring a)\<rparr>) = life_view a"
  "life_view (a\<lparr>tx_ring := upd_desc i g (tx_ring a)\<rparr>) = life_view a"
  "life_view (a\<lparr>rx_ring := upd_desc i g' (rx_ring a)\<rparr>) = life_view a"
  "life_view (a\<lparr>rx_ring := upd_page i p (rx_ring a)\<rparr>) = life_view a"
  "life_view (a\<lparr>rx_ring := upd_ps i ps (rx_ring a)\<rparr>) = life_view a"
  "life_view (a\<lparr>rx_ring := upd_psd i h' (rx_ring a)\<rparr>) = life_view a"
  by (simp_all add: life_view_def)

lemma life_view_log [simp]:
  "held (e # klog a) = held (klog a) \<Longrightarrow> owned (e # klog a) = owned (klog a) \<Longrightarrow> life_view (a\<lparr>klog := e # klog a\<rparr>) = life_view a"
  by (simp add: life_view_def)

lemma life_view_fields [simp]: "life_view (a\<lparr>tx_dma_failed := n\<rparr>) = life_view a" "life_view (a\<lparr>mng_vlan_id := vid\<rparr>) = life_view a"
  "life_view (a\<lparr>resetting := x\<rparr>) = life_view a" "life_view (a\<lparr>rx_buffer_len := n'\<rparr>) = life_view a"
  "life_view (a\<lparr>mtu := m\<rparr>) = life_view a" "life_view (a\<lparr>max_frame_size := m\<rparr>) = life_view a"
  "life_view (a\<lparr>rx_dma_failed := n\<rparr>) = life_view a"
  "life_view (a\<lparr>klog := h, rx_ring := upd_ps i ps (rx_ring a)\<rparr>) = life_view (a\<lparr>klog := h\<rparr>)"
  by (simp_all add: life_view_def)

named_theorems life_intros

lemma keeps_sum [keeps_intros]:
  "(\<And>e. keeps v (f e)) \<Longrightarrow> (\<And>x. keeps v (g x)) \<Longrightarrow> keeps v (case z of Inl e \<Rightarrow> f e | Inr x \<Rightarrow> g x)"
  by (cases z) simp_all

lemma life_hw_op [life_intros]: "lives (hw_op m)"
  by (simp add: keeps_intros)

lemma life_put_pages [life_intros]: "lives (put_ps_pages ps)"
  by (induction ps rule: put_ps_pages.induct) (auto intro!: keeps_intros)

lemma life_put_buf [life_intros]: "lives (e1000_put_txbuf i)" "lives (e1000_put_rxbuf i)"
  unfolding e1000_put_txbuf_def e1000_put_rxbuf_def by (intro keeps_intros life_intros; simp add: life_view_def)+

lemma life_rings [life_intros]: "lives e1000_clean_tx_ring" "lives e1000_clean_rx_ring"
  unfolding e1000_clean_tx_ring_def e1000_clean_rx_ring_def
  by (intro keeps_intros life_intros; simp add: life_view_def)+

lemma life_irq_switch [life_intros]: "lives (e1000_irq_disable E)" "lives (e1000_irq_enable E)"
  "lives (e1000_get_hw_control E)" "lives (e1000_release_hw_control E)"
  unfolding e1000_irq_disable_def e1000_irq_enable_def e1000_get_hw_control_def e1000_release_hw_control_def
    hw_control_def
  by (intro keeps_intros life_intros)+

lemma life_vlan [life_intros]: "lives (e1000_vlan_rx_add_vid E vid)" "lives (e1000_vlan_rx_kill_vid E vid)"
  unfolding e1000_vlan_rx_add_vid_def e1000_vlan_rx_kill_vid_def update_vfta_def
  by (intro keeps_intros life_intros; simp add: life_view_def)+

lemma life_mng_vlan [life_intros]: "lives (e1000_update_mng_vlan E)"
  unfolding e1000_update_mng_vlan_def by (intro keeps_intros life_intros; simp add: life_view_def)

lemma life_register [life_intros]: "lives (e1000_vlan_rx_register E g)"
  unfolding e1000_vlan_rx_register_def by (intro keeps_intros life_intros; simp add: life_view_def)

lemma life_add_vids [life_intros]: "lives (add_vids E vids)"
  by (induction vids) (simp_all, (intro keeps_intros life_intros; simp)+)

lemma life_configure_parts [life_intros]: "lives (e1000_set_multi E ops)" "lives (e1000_restore_vlan E)"
  "lives (e1000_init_manageability E)" "lives (e1000_configure_tx E)" "lives (e1000_setup_rctl E)" "lives (e1000_configure_rx E)"
  unfolding e1000_set_multi_def e1000_restore_vlan_def e1000_init_manageability_def e1000_configure_tx_def
    e1000_setup_rctl_def e1000_configure_rx_def reg_mod_def
  by (intro keeps_intros life_intros; simp add: life_view_def)+

lemma life_configure: "(\<And>r n. lives (alloc r n)) \<Longrightarrow> lives (e1000_configure E ops alloc)"
  unfolding e1000_configure_def by (intro keeps_intros life_intros) simp_all

lemma life_reset [life_intros]: "lives (e1000e_reset E ops)"
  unfolding e1000e_reset_def reset_pba_def reset_fc_def
  by (intro keeps_intros life_intros; simp add: life_view_def)

lemma life_power [life_intros]: "lives (e1000e_power_up_phy ops)" "lives (e1000_power_down_phy ops)"
  unfolding e1000e_power_up_phy_def e1000_power_down_phy_def by (intro keeps_intros life_intros)+

lemma life_queue [life_intros]: "lives stop_queue" "lives (start_queue Start_queue)" "lives (start_queue Wake_queue)"
  by (simp_all add: stop_queue_def start_queue_def keeps_def life_view_def)

lemma life_set_itr [life_intros]: "lives e1000_set_itr"
  unfolding e1000_set_itr_def set_itr_now_def by (intro keeps_intros life_intros; simp add: life_view_def)

lemma life_handlers [life_intros]: "lives schedule_poll" "lives (intr_link E)" "lives (mod_watchdog)" "lives (poll_done E)"
  unfolding schedule_poll_def intr_link_def mod_watchdog_def poll_done_def
  by (intro keeps_intros life_intros; simp add: life_view_def)+

lemma life_intr [life_intros]: "lives (e1000_intr E)" "lives (e1000_intr_msi E)" "lives (e1000_msix_other E)"
  "lives e1000_intr_msix_rx" "lives (e1000_intr_msi_test E)"
  unfolding e1000_intr_def e1000_intr_msi_def e1000_msix_other_def e1000_intr_msix_rx_def e1000_intr_msi_test_def mod_watchdog_def
  by (intro keeps_intros life_intros; simp add: life_view_def)+

lemma life_clean_frame [life_intros]: "lives (clean_frame fuel i eop p n)"
  by (induction fuel arbitrary: i p n) (auto intro!: keeps_intros life_intros)

lemma life_clean_tx_loop [life_intros]: "lives (clean_tx_loop fuel i p n c)"
  by (induction fuel arbitrary: i p n c) (auto intro!: keeps_intros life_intros simp: Let_def)

lemma life_tx_irq [life_intros]: "lives (e1000_clean_tx_irq E K now)"
  unfolding e1000_clean_tx_irq_def wake_tx_def check_tx_hang_def e1000_print_tx_hang_def
  by (intro keeps_intros life_intros allI; simp add: life_view_def)

lemma life_poll [life_intros]: "(\<And>n. lives (rx n)) \<Longrightarrow> lives (e1000_poll E K rx now budget)"
  unfolding e1000_poll_def by (intro keeps_intros life_intros) simp_all

lemma life_alloc_loop [life_intros]: "lives (alloc_rx_loop K n i)"
  by (induction n arbitrary: i)
    (auto intro!: keeps_intros life_intros simp: alloc_rx_one_def rx_slot_skb_def netdev_alloc_skb_def Let_def life_view_def
      upd_buffer_def upd_desc_def)

lemma life_alloc [life_intros]: "lives (e1000_alloc_rx_buffers K n)"
  unfolding e1000_alloc_rx_buffers_def by (intro keeps_intros life_intros; simp add: life_view_def)

lemma life_rx_one [life_intros]: "lives (rx_one K i)"
  unfolding rx_one_def rx_copybreak_def netdev_alloc_skb_def e1000_rx_checksum_def e1000_receive_skb_def
  by (intro keeps_intros life_intros; simp add: life_view_def)

lemma life_rx_loop [life_intros]: "lives (clean_rx_loop K left i c p n)"
  by (induction left arbitrary: i c p n) (auto intro!: keeps_intros life_intros)

lemma life_refill [life_intros]: "(\<And>i. lives (f i)) \<Longrightarrow> lives (refill f m n)"
proof -
  assume f: "\<And>i. lives (f i)"
  have "lives (refill_loop f n i)" for n i by (induction n arbitrary: i) (auto intro!: keeps_intros f)
  then show ?thesis unfolding refill_def by (intro keeps_intros life_intros; simp add: life_view_def)
qed

lemma life_page_clean [life_intros]:
  "(\<And>i. lives (f i)) \<Longrightarrow> (\<And>n. lives (alloc n)) \<Longrightarrow> lives (page_clean w f alloc budget)"
proof -
  assume f: "\<And>i. lives (f i)" and g: "\<And>n. lives (alloc n)"
  have "lives (rx_page_loop w f alloc left i c p n)" for left i c p n
    by (induction left arbitrary: i c p n) (auto intro!: keeps_intros f g)
  then show ?thesis unfolding page_clean_def by (intro keeps_intros life_intros g; simp add: life_view_def)
qed

lemma life_page_parts [life_intros]: "lives (alloc_page K)" "lives (map_page K p)" "lives (netdev_alloc_skb K n)"
  "lives (e1000_rx_checksum st cs skb)" "lives (e1000_receive_skb K skb' st' vlan)"
  unfolding alloc_page_def map_page_def netdev_alloc_skb_def e1000_rx_checksum_def e1000_receive_skb_def
  by (intro keeps_intros life_intros; simp add: life_view_def)+

lemma life_ps_page [life_intros]: "lives (ps_page_fill K i j)"
  unfolding ps_page_fill_def by (intro keeps_intros life_intros; simp add: life_view_def)

lemma life_ps_fill [life_intros]: "lives (ps_fill K i js)"
  by (induction js) (auto intro!: keeps_intros life_intros)

lemma life_ps_take [life_intros]: "lives (ps_take i d js skb)"
  by (induction js arbitrary: skb) (auto intro!: keeps_intros life_intros simp: Let_def)

lemma life_page_slots [life_intros]: "lives (alloc_jumbo_one K i)" "lives (alloc_ps_one K i)" "lives (jumbo_one K i)" "lives (ps_one K i)"
  unfolding alloc_jumbo_one_def jumbo_skb_def jumbo_page_def alloc_ps_one_def jumbo_one_def jumbo_drop_def jumbo_part_def
    jumbo_finish_def ps_one_def ps_payload_def
  by (intro keeps_intros life_intros; simp add: life_view_def)+

lemma life_rx [life_intros]: "lives (rx_alloc K r n)" "lives (rx_clean K n)"
  unfolding rx_alloc_def rx_clean_def e1000_alloc_jumbo_rx_buffers_def e1000_alloc_rx_buffers_ps_def e1000_clean_rx_irq_def
    e1000_clean_jumbo_rx_irq_def e1000_clean_rx_irq_ps_def
  by (auto intro!: keeps_intros life_intros simp: life_view_def split: rx_routine.split)

lemma life_map_piece [life_intros]: "lives (map_piece K now m src len offset i count)"
proof (induction K now m src len offset i count rule: map_piece.induct)
  case (1 K now m src len offset i count)
  show ?case
    by (subst map_piece.simps, unfold Let_def) (intro keeps_intros life_intros 1; (rule refl | simp))
qed

lemma life_map_frags [life_intros]: "lives (map_frags K now m fs i count)"
  by (induction fs arbitrary: i count) (auto intro!: keeps_intros life_intros)

lemma life_queue_descs [life_intros]: "lives (queue_descs lower upper n i prev)"
  by (induction n arbitrary: i prev) (auto intro!: keeps_intros life_intros simp: Let_def)

lemma life_maybe_stop [life_intros]: "lives race \<Longrightarrow> lives (e1000_maybe_stop_tx race n)"
  unfolding e1000_maybe_stop_tx_def maybe_stop_tx_slow_def by (intro keeps_intros life_intros) simp_all

lemma life_xmit [life_intros]: "lives race \<Longrightarrow> lives (e1000_xmit_frame E K race now skb)"
  unfolding e1000_xmit_frame_def xmit_reserved_def xmit_mapped_def e1000_tso_def e1000_tx_csum_def put_context_def
    e1000_tx_map_def e1000_tx_queue_def drop_skb_def e1000_transfer_dhcp_info_def
  by (intro keeps_intros life_intros; simp add: life_view_def Let_def)

lemma life_watchdog_parts [life_intros]: "lives (e1000_phy_read_status E ops)" "lives mod_phy_timer"
  "lives (duplex_check ops)" "lives (stat_step E rf)" "lives (snap ops rg)"
  unfolding e1000_phy_read_status_def snap_def mod_phy_timer_def duplex_check_def stat_step_def
  by (intro keeps_intros life_intros; simp add: life_view_def)+

lemma life_update_stats [life_intros]: "lives (e1000e_update_stats E)" "lives watchdog_deltas"
  unfolding e1000e_update_stats_def watchdog_deltas_def
  by (intro keeps_intros life_intros; simp add: life_view_def)+

lemma life_watchdog [life_intros]: "lives (e1000_watchdog_task E ops)"
  unfolding e1000_watchdog_task_def e1000e_enable_receives_def reg_mod_def watchdog_link_def link_came_up_def
    link_went_down_def watchdog_rest_def
  by (intro keeps_intros life_intros; simp add: life_view_def)

lemma life_interrupt_set_up [life_intros]: "lives (e1000e_set_interrupt_capability K)" "lives (e1000_request_irq E K)" "lives e1000_free_irq"
  unfolding e1000e_set_interrupt_capability_def set_msi_def set_msix_def e1000e_reset_interrupt_capability_def e1000_request_irq_def
    e1000_request_msix_def request_msi_def request_legacy_def request_handler_def e1000_configure_msix_def e1000_free_irq_def
  by (intro keeps_intros life_intros; simp add: life_view_def)+

lemma life_test_msi [life_intros]: "lives meanwhile \<Longrightarrow> lives (e1000_test_msi E K meanwhile)"
  unfolding e1000_test_msi_def e1000_test_msi_interrupt_def msi_test_run_def request_handler_def
    e1000e_reset_interrupt_capability_def
  by (intro keeps_intros life_intros; simp add: life_view_def)

lemma life_set_mac [life_intros]: "lives (e1000_set_mac E addr)"
  unfolding e1000_set_mac_def by (intro keeps_intros life_intros; simp add: life_view_def)

section \<open>Allocation and release\<close>

lemma add_blocks_simps [simp]:
  "add_blocks c {} v = v" "add_blocks (- 1) S (add_blocks 1 S v) = v"
  "view_off (add_blocks c S v) = view_off v" "view_counts (add_blocks c S v) = view_counts v"
  "view_running (add_blocks c S v) = view_running v"
  by (simp_all add: add_blocks_def) (rule life_view.equality, auto)

lemma add_blocks_Un: "S \<inter> T = {} \<Longrightarrow> add_blocks c S (add_blocks c T v) = add_blocks c (S \<union> T) v"
  by (rule life_view.equality) (auto simp: add_blocks_def fun_eq_iff)

lemma life_log_alloc: "life_view (a\<lparr>klog := Mem_alloc b # klog a\<rparr>) = add_blocks 1 {b} (life_view a)"
  "life_view (a\<lparr>klog := Mem_free b # klog a\<rparr>) = add_blocks (- 1) {b} (life_view a)"
  by (auto simp: life_view_def add_blocks_def)

lemma wp_gets_bind: "wp (State_Monad.bind (gets f) g) Q s = wp (g (f s)) Q s"
  "wp (State_Monad.bind (modify k) h) Q s = wp (h ()) Q (k s)"
  by simp_all

text \<open>A step that keeps the view, before the rest.\<close>

lemma lives_step: "lives m \<Longrightarrow> (\<And>r b. life_view b = life_view a \<Longrightarrow> Q r b) \<Longrightarrow> wp m Q a"
  by (simp add: keeps_def wp_iff)

lemma setup_tx_wp:
  "wp (e1000e_setup_tx_resources K)
     (\<lambda>err b. life_view b = (if err = 0 then add_blocks 1 tx_blocks (life_view a) else life_view a)) a"
  by (auto simp: e1000e_setup_tx_resources_def e1000_alloc_ring_dma_def ENOMEM_def life_view_def add_blocks_def tx_blocks_def
      fun_eq_iff split: option.splits)

lemma alloc_pages_wp:
  "wp (alloc_ps_pages K left i)
     (\<lambda>k b. i \<le> k \<and> k \<le> i + left \<and> life_view b = add_blocks 1 (Ps_block ` {i..<k}) (life_view a)) a"
proof (induction left arbitrary: i a)
  case (Suc left)
  have split: "add_blocks 1 (Ps_block ` {Suc i..<k}) (add_blocks 1 {Ps_block i} v) = add_blocks 1 (Ps_block ` {i..<k}) v"
    if "Suc i \<le> k" for k v
  proof -
    have "{i..<k} = insert i {Suc i..<k}" using that by auto
    then have "Ps_block ` {Suc i..<k} \<union> {Ps_block i} = Ps_block ` {i..<k}" by simp
    then show ?thesis by (subst add_blocks_Un) auto
  qed
  show ?case by (auto simp: life_log_alloc split intro!: wp_mono[OF Suc])
qed simp

lemma free_list_wp:
  "distinct is \<Longrightarrow> wp (for_each is (\<lambda>i. log_ev (Mem_free (Ps_block i))))
     (\<lambda>r b. life_view b = add_blocks (- 1) (Ps_block ` set is) (life_view a)) a"
proof (induction "is" arbitrary: a)
  case (Cons i js)
  then have "add_blocks c (Ps_block ` set js) (add_blocks c {Ps_block i} v) = add_blocks c (Ps_block ` set (i # js)) v" for c v
    by (subst add_blocks_Un) auto
  with Cons show ?case by (auto simp: life_log_alloc intro!: wp_mono[OF Cons(1)])
qed simp

lemma free_pages_wp: "wp (free_ps_pages k) (\<lambda>r b. life_view b = add_blocks (- 1) (Ps_block ` {0..<k}) (life_view a)) a"
  using free_list_wp[of "[0..<k]" a] unfolding free_ps_pages_def set_upt by simp

lemma setup_rx_wp:
  "wp (e1000e_setup_rx_resources K)
     (\<lambda>err b. life_view b = (if err = 0 then add_blocks 1 (rx_blocks (ring_count (rx_ring a))) (life_view a)
        else life_view a)) a"
proof -
  let ?n = "ring_count (rx_ring a)"
  let ?a = "a\<lparr>klog := Mem_alloc Rx_info # klog a, rx_ring := (rx_ring a)\<lparr>buffer_info := replicate ?n buffer_zero,
      buf_page := replicate ?n None, ps_pages := replicate ?n []\<rparr>\<rparr>"
  let ?v = "add_blocks 1 {Rx_info} (life_view a)"
  have start: "life_view ?a = ?v" by (simp add: life_view_def add_blocks_def) auto
  have fail: "wp (free_ps_pages k) (\<lambda>r c. wp (log_ev (Mem_free Rx_info) \<bind> (\<lambda>_. ret (- ENOMEM)))
      (\<lambda>err b. life_view b = (if err = 0 then add_blocks 1 (rx_blocks ?n) (life_view a) else life_view a)) c) b"
    if "life_view b = add_blocks 1 (Ps_block ` {0..<k}) ?v" for b k
    using that by (intro wp_mono[OF free_pages_wp]) (simp add: life_log_alloc ENOMEM_def)
  have all: "add_blocks 1 {Rx_desc} (add_blocks 1 (Ps_block ` {0..<?n}) ?v) = add_blocks 1 (rx_blocks ?n) (life_view a)"
    by (subst add_blocks_Un, force)+ (simp add: rx_blocks_def Un_ac atLeast0LessThan insert_commute)
  have view: "life_view (b\<lparr>rx_ring := (rx_ring b)\<lparr>ring_dma := d, ring_desc := ds, ps_desc := ps, next_to_clean := 0, next_to_use := 0,
      rx_skb_top := None\<rparr>\<rparr>) = life_view b"
    for b d ds ps by (simp add: life_view_def)
  show ?thesis
  proof (cases "mem_ok K (klog a) Rx_info")
    case True
    show ?thesis
      unfolding e1000e_setup_rx_resources_def wp_bind wp_State prod.case
      using True fail all
      by (auto simp: start e1000_alloc_ring_dma_def life_log_alloc view intro!: wp_mono[OF alloc_pages_wp] split: option.splits)
  qed (simp add: e1000e_setup_rx_resources_def ENOMEM_def)
qed

lemma free_tx_wp: "wp e1000e_free_tx_resources (\<lambda>r b. life_view b = add_blocks (- 1) tx_blocks (life_view a)) a"
proof -
  have "life_view (b\<lparr>klog := Mem_free Tx_desc # Mem_free Tx_info # klog b, tx_ring := (tx_ring b)\<lparr>buffer_info := [], ring_desc := []\<rparr>\<rparr>) =
      add_blocks (- 1) tx_blocks (life_view b)" for b
    by (simp add: life_view_def add_blocks_def tx_blocks_def) auto
  note this [simp]
  show ?thesis
    unfolding e1000e_free_tx_resources_def wp_bind by (rule lives_step[OF life_rings(1)]) simp
qed

lemma free_rx_wp:
  "wp e1000e_free_rx_resources (\<lambda>r b. life_view b = add_blocks (- 1) (rx_blocks (ring_count (rx_ring a))) (life_view a)) a"
proof -
  let ?n = "ring_count (rx_ring a)"
  have last_step: "life_view (c\<lparr>klog := Mem_free Rx_desc # Mem_free Rx_info # klog c,
      rx_ring := (rx_ring c)\<lparr>buffer_info := [], buf_page := [], ps_pages := [], ring_desc := [], ps_desc := []\<rparr>\<rparr>) =
        add_blocks (- 1) (rx_blocks ?n) (life_view a)"
    if "life_view c = add_blocks (- 1) (Ps_block ` {0..<?n}) (life_view a)" for c
  proof -
    have "life_view (c\<lparr>klog := Mem_free Rx_desc # Mem_free Rx_info # klog c,
        rx_ring := (rx_ring c)\<lparr>buffer_info := [], buf_page := [], ps_pages := [], ring_desc := [], ps_desc := []\<rparr>\<rparr>) =
        add_blocks (- 1) {Rx_info, Rx_desc} (life_view c)"
      by (simp add: life_view_def add_blocks_def) auto
    then show ?thesis
      using that by (simp, subst add_blocks_Un) (auto simp: rx_blocks_def atLeast0LessThan)
  qed
  have rest: "wp (do { free_ps_pages (ring_count (rx_ring b)); log_ev (Mem_free Rx_info); set_rx (\<lambda>r. r\<lparr>buffer_info := [], buf_page := [], ps_pages := []\<rparr>);
      log_ev (Mem_free Rx_desc); set_rx (\<lambda>r. r\<lparr>ring_desc := [], ps_desc := []\<rparr>) })
      (\<lambda>r c. life_view c = add_blocks (- 1) (rx_blocks ?n) (life_view a)) b"
    if "life_view b = life_view a" for b
  proof -
    have n: "ring_count (rx_ring b) = ?n" using that by (simp add: life_view_def)
    show ?thesis unfolding n wp_bind by (rule wp_mono[OF free_pages_wp]) (simp add: that last_step)
  qed
  show ?thesis
    unfolding e1000e_free_rx_resources_def
    by (subst wp_bind, rule lives_step[OF life_rings(2)]) (simp add: rest wp_gets_bind del: wp_bind)
qed

section \<open>Open, close, up and down\<close>

lemma lives_bind:
  "lives m \<Longrightarrow> (\<And>r b. life_view b = life_view a \<Longrightarrow> wp (f r) Q b) \<Longrightarrow> wp (State_Monad.bind m f) Q a"
  by (simp add: lives_step)

lemma wp_on_some: "(r = None \<Longrightarrow> Q None a) \<Longrightarrow> (\<And>x. r = Some x \<Longrightarrow> wp (f x) Q a) \<Longrightarrow> wp (on_some r f) Q a"
  by (cases r) simp_all

lemma wp_bind_rule: "wp m (\<lambda>r b. wp (f r) Q b) a \<Longrightarrow> wp (State_Monad.bind m f) Q a"
  by simp

lemma life_configure_msix [life_intros]: "lives (e1000_configure_msix E)"
  unfolding e1000_configure_msix_def by (intro keeps_intros life_intros; simp add: life_view_def)

lemma down_wp: "wp (e1000e_down E ops) (\<lambda>r b. life_view b = (life_view a)\<lparr>view_off := True\<rparr>) a"
  unfolding e1000e_down_def reg_mod_def
  by (rule wp_bind_rule, simp del: wp_bind, intro lives_bind keeps_intros life_intros wp_on_some; simp add: life_view_def)

lemma up_wp:
  assumes "\<And>r n. lives (alloc r n)"
  shows "wp (e1000e_up E ops alloc) (\<lambda>r b. r \<noteq> None \<longrightarrow> life_view b = (life_view a)\<lparr>view_off := False\<rparr>) a"
proof -
  have tail: "wp (do { modify (\<lambda>a. a\<lparr>is_down := False\<rparr>); modify (\<lambda>a. a\<lparr>napi_scheduled := False\<rparr>); log_ev Napi_enable;
       m \<leftarrow> gets msix; (if m then e1000_configure_msix E else skip); e1000_irq_enable E;
       hw_op (ew32 ICS E1000_ICR_LSC); ret (Some ()) })
      (\<lambda>r b. r \<noteq> None \<longrightarrow> life_view b = (life_view a)\<lparr>view_off := False\<rparr>) b" if "life_view b = life_view a" for b
    using that
    by (rule_tac wp_bind_rule, simp del: wp_bind, intro lives_bind keeps_intros life_intros; simp add: life_view_def)
  show ?thesis
    unfolding e1000e_up_def by (rule lives_bind[OF life_configure[OF assms]], rule wp_on_some, simp, rule tail)
qed

lemma open_failed_wp: "wp (open_failed E ops err) (\<lambda>r b. r \<in> {None, Some err} \<and> life_view b = life_view a) a"
  unfolding open_failed_def by (intro lives_bind life_intros wp_on_some) simp_all

lemma open_start_wp: "wp (open_start E) (\<lambda>r b. life_view b = (life_view a)\<lparr>view_off := False\<rparr>) a"
  unfolding open_start_def
  by (rule wp_bind_rule, simp del: wp_bind, intro lives_bind keeps_intros life_intros; simp add: life_view_def wp_hw_op)


text \<open>The outcome of open: the blocks are held, or nothing has changed.\<close>

definition opened :: "life_view \<Rightarrow> life_view" where
  "opened v = (add_blocks 1 (tx_blocks \<union> rx_blocks (snd (view_counts v))) v)\<lparr>view_off := False\<rparr>"

definition open_post :: "life_view \<Rightarrow> int option \<Rightarrow> e1000_adapter \<Rightarrow> bool" where
  "open_post v r b \<longleftrightarrow> (case r of None \<Rightarrow> True | Some err \<Rightarrow> life_view b = (if err = 0 then opened v else v))"

lemma blocks_disjoint: "rx_blocks n \<inter> tx_blocks = {}" "tx_blocks \<inter> rx_blocks n = {}"
  by (auto simp: rx_blocks_def tx_blocks_def)

lemma remove_blocks: "add_blocks (- 1) (S \<union> T) (add_blocks 1 T (add_blocks 1 S v)) = v" if "T \<inter> S = {}"
  using that by (simp add: add_blocks_Un Un_commute)

lemma open_failed_post: "err \<noteq> 0 \<Longrightarrow> life_view a = v \<Longrightarrow> wp (open_failed E ops err) (open_post v) a"
  by (rule wp_mono[OF open_failed_wp]) (auto simp: open_post_def)

definition both :: "life_view \<Rightarrow> life_view" where
  "both v = add_blocks 1 (rx_blocks (snd (view_counts v))) (add_blocks 1 tx_blocks v)"

lemma both_count: "life_view a = both v \<Longrightarrow> ring_count (rx_ring a) = snd (view_counts v)"
  by (drule arg_cong[of _ _ "\<lambda>v. snd (view_counts v)"]) (simp add: both_def, simp add: life_view_def)

lemma open_end_wp:
  assumes "life_view a = both v"
  shows "wp (if err = 0 then do { open_start E; ret (Some 0) }
     else do { e1000_release_hw_control E; e1000_power_down_phy ops; e1000e_free_rx_resources; e1000e_free_tx_resources;
       open_failed E ops err }) (open_post v) a"
proof (cases "err = 0")
  case True
  have "(both v)\<lparr>view_off := False\<rparr> = opened v"
    by (simp add: both_def opened_def add_blocks_Un blocks_disjoint Un_commute)
  then show ?thesis
    using True assms by (auto simp: open_post_def intro!: wp_mono[OF open_start_wp])
next
  case False
  have free: "wp (do { e1000e_free_rx_resources; e1000e_free_tx_resources; open_failed E ops err }) (open_post v) b"
    if "life_view b = life_view a" for b
    using that assms both_count[of b v]
    by (rule_tac wp_bind_rule, rule_tac wp_mono[OF free_rx_wp], rule_tac wp_bind_rule, rule_tac wp_mono[OF free_tx_wp])
      (rule open_failed_post[OF False], simp add: both_def)
  show ?thesis
    unfolding if_not_P[OF False] by (intro lives_bind life_intros free) simp
qed

lemma net_open_wp:
  assumes "\<And>r n. lives (alloc r n)" "lives meanwhile"
  shows "wp (e1000_open E K ops alloc meanwhile) (open_post (life_view a)) a"
proof -
  have irq: "lives (open_irq E K meanwhile)"
    unfolding open_irq_def by (intro keeps_intros life_intros assms)
  have rest: "wp (do { e1000e_power_up_phy ops;
       modify (\<lambda>a. a\<lparr>mng_vlan_id := E1000_MNG_VLAN_NONE\<rparr>);
       on \<leftarrow> gets mng_vlan_on;
       r \<leftarrow> (if on then e1000_update_mng_vlan E else ret (Some ()));
       on_some r (\<lambda>_. do {
         fl \<leftarrow> gets flags;
         (if fl AND FLAG_HAS_AMT \<noteq> 0 then e1000_get_hw_control E else skip);
         r \<leftarrow> e1000_configure E ops alloc;
         on_some r (\<lambda>_. do {
           err \<leftarrow> open_irq E K meanwhile;
           (if err = 0 then do { open_start E; ret (Some 0) }
            else do { e1000_release_hw_control E; e1000_power_down_phy ops; e1000e_free_rx_resources;
              e1000e_free_tx_resources; open_failed E ops err }) }) }) }) (open_post v) b"
    if "life_view b = both v" for b v
    by (intro lives_bind keeps_intros life_intros wp_on_some life_configure[OF assms(1)] irq open_end_wp)
      (simp_all add: open_post_def that)
  have rx: "wp (do { err \<leftarrow> e1000e_setup_rx_resources K;
       (if err \<noteq> 0 then do { e1000e_free_tx_resources; open_failed E ops err } else f err) }) (open_post v) b"
    if "life_view b = add_blocks 1 tx_blocks v" "\<And>c. life_view c = both v \<Longrightarrow> wp (f 0) (open_post v) c" for b v f
  proof -
    have n: "ring_count (rx_ring b) = snd (view_counts v)"
      using arg_cong[OF that(1), of view_counts] by (cases "view_counts v") (simp add: life_view_def)
    have fail: "wp (do { e1000e_free_tx_resources; open_failed E ops err }) (open_post v) c"
      if "err \<noteq> 0" "life_view c = add_blocks 1 tx_blocks v" for err c
      by (rule wp_bind_rule, rule wp_mono[OF free_tx_wp]) (simp add: open_failed_post that)
    show ?thesis
      by (rule wp_bind_rule, rule wp_mono[OF setup_rx_wp])
        (use that fail n in \<open>auto simp: both_def simp del: wp_bind split: if_splits\<close>)
  qed
  show ?thesis
    unfolding e1000_open_def
    by (rule lives_bind, intro keeps_intros, simp add: open_post_def EBUSY_def del: wp_bind, intro impI,
      rule wp_bind_rule, rule wp_mono[OF setup_tx_wp])
      (auto simp del: wp_bind split: if_splits intro: open_failed_post rx rest)
qed

lemma net_close_wp:
  "wp (e1000_close E ops) (\<lambda>r b. r \<noteq> None \<longrightarrow> life_view b =
     (add_blocks (- 1) (tx_blocks \<union> rx_blocks (ring_count (rx_ring a))) (life_view a))\<lparr>view_off := True\<rparr>) a"
proof -
  let ?n = "ring_count (rx_ring a)" let ?down = "(life_view a)\<lparr>view_off := True\<rparr>"
  have rx: "wp e1000e_free_rx_resources (\<lambda>r c. life_view c =
      (add_blocks (- 1) (tx_blocks \<union> rx_blocks ?n) (life_view a))\<lparr>view_off := True\<rparr>) b"
    if "life_view b = add_blocks (- 1) tx_blocks ?down" for b
  proof -
    have n: "ring_count (rx_ring b) = ?n"
      using arg_cong[OF that, of "\<lambda>v. snd (view_counts v)"] by (simp add: life_view_def add_blocks_def)
    have "add_blocks (- 1) (rx_blocks ?n) (add_blocks (- 1) tx_blocks ?down) =
        (add_blocks (- 1) (tx_blocks \<union> rx_blocks ?n) (life_view a))\<lparr>view_off := True\<rparr>"
      by (subst add_blocks_Un[OF blocks_disjoint(1)]) (simp add: add_blocks_def Un_commute)
    then show ?thesis by (rule_tac wp_mono[OF free_rx_wp]) (simp add: n that)
  qed
  show ?thesis
    unfolding e1000_close_def
    apply (rule wp_bind_rule, rule wp_mono[OF down_wp])
    apply (rule wp_on_some, simp)
    apply (rule lives_bind[OF life_power(2)], rule lives_bind[OF life_interrupt_set_up(3)])
    apply (rule wp_bind_rule, rule wp_mono[OF free_tx_wp])
    apply (rule wp_bind_rule, rule wp_mono[OF rx], simp)
    apply (intro lives_bind keeps_intros life_intros)
    apply simp
    done
qed

lemma reinit_wp:
  assumes "\<And>r n. lives (alloc r n)"
  shows "wp (e1000e_reinit_locked E ops alloc) (\<lambda>r b. r \<noteq> None \<longrightarrow> life_view b = (life_view a)\<lparr>view_off := False\<rparr>) a"
  unfolding e1000e_reinit_locked_def
  apply (rule lives_bind, intro keeps_intros, simp)
  apply (rule wp_bind_rule, rule wp_mono[OF down_wp], rule wp_on_some, simp)
  apply (rule wp_bind_rule, rule wp_mono[OF up_wp[OF assms]], rule wp_on_some, simp)
  apply simp
  done

lemma mtu_wp:
  assumes "\<And>r n. lives (alloc r n)" "is_down a = (\<not> running a)"
  shows "wp (e1000_change_mtu E ops alloc n) (\<lambda>r b. r \<noteq> None \<longrightarrow> life_view b = life_view a) a"
proof -
  have off: "view_off (life_view a) = (\<not> running a)" using assms(2) by (simp add: life_view_def)
  show ?thesis
    unfolding e1000_change_mtu_def
    apply (simp add: wp_gets_bind Let_def del: wp_bind)
    apply (intro impI conjI)
     apply (simp, rule wp_mono[OF down_wp], rule wp_on_some, simp)
     apply (simp add: wp_gets_bind del: wp_bind)
     apply (rule wp_bind_rule, rule wp_mono[OF up_wp[OF assms(1)]], rule wp_on_some, simp)
     apply (simp add: off)
    apply (rule lives_bind[OF life_reset], rule wp_on_some, simp)
    apply simp
    done
qed

section \<open>A whole life\<close>

text \<open>
  What happens to an interface: it is opened and closed by the kernel, which sets \<open>running\<close> before
  and clears it after a failure or before the close; its frame size is changed, in either state; it
  is reset; its interrupts, polls, transmissions, watchdog, address and VLANs.  \<open>other\<close> is what
  happens at the same time.
\<close>

inductive life_step :: "mmio \<Rightarrow> kernel \<Rightarrow> e1000_ops \<Rightarrow> e1000_adapter \<Rightarrow> e1000_adapter \<Rightarrow> bool" for E K ops where
  life_open: "\<not> running a \<Longrightarrow> lives other \<Longrightarrow>
    run_state (e1000_open E K ops (rx_alloc K) other) (a\<lparr>running := True\<rparr>) = (Some err, b) \<Longrightarrow>
    life_step E K ops a (b\<lparr>running := (err = 0)\<rparr>)"
| life_close: "running a \<Longrightarrow> run_state (e1000_close E ops) (a\<lparr>running := False\<rparr>) = (Some (), b) \<Longrightarrow>
    life_step E K ops a b"
| life_mtu: "run_state (e1000_change_mtu E ops (rx_alloc K) n) a = (Some err, b) \<Longrightarrow> life_step E K ops a b"
| life_reinit: "running a \<Longrightarrow> run_state (e1000_reset_task E ops (rx_alloc K)) a = (Some (), b) \<Longrightarrow>
    life_step E K ops a b"
| life_msi: "life_step E K ops a (exec (e1000_intr_msi E) a)"
| life_intx: "life_step E K ops a (exec (e1000_intr E) a)"
| life_vector: "life_step E K ops a (exec e1000_intr_msix_rx a)"
| life_other_vector: "life_step E K ops a (exec (e1000_msix_other E) a)"
| life_polled: "life_step E K ops a (exec (e1000_poll E K (rx_clean K) now budget) a)"
| life_sent: "lives other \<Longrightarrow> life_step E K ops a (exec (e1000_xmit_frame E K other now skb) a)"
| life_watch: "life_step E K ops a (exec (e1000_watchdog_task E ops) a)"
| life_address: "life_step E K ops a (exec (e1000_set_mac E addr) a)"
| life_vlan_group: "life_step E K ops a (exec (e1000_vlan_rx_register E grp) a)"
| life_vlan_add: "life_step E K ops a (exec (e1000_vlan_rx_add_vid E vid) a)"
| life_vlan_kill: "life_step E K ops a (exec (e1000_vlan_rx_kill_vid E vid) a)"

text \<open>Memory is held while the interface runs and only then; it is down when it does not run.\<close>

definition live_blocks :: "e1000_adapter \<Rightarrow> mem_block set" where
  "live_blocks a = (if running a then tx_blocks \<union> rx_blocks (ring_count (rx_ring a)) else {})"

definition life_inv :: "e1000_adapter \<Rightarrow> bool" where
  "life_inv a \<longleftrightarrow> held (klog a) = (\<lambda>k. if k \<in> live_blocks a then 1 else 0) \<and> is_down a = (\<not> running a)"

lemma life_inv_view: "life_view b = life_view a \<Longrightarrow> life_inv a \<Longrightarrow> life_inv b"
  by (simp add: life_inv_def live_blocks_def life_view_def)

lemma life_inv_keeps: "lives m \<Longrightarrow> life_inv a \<Longrightarrow> life_inv (exec m a)"
  by (rule life_inv_view) (simp add: keeps_def)

lemma life_open_inv:
  assumes "\<And>r n. lives (alloc r n)" "lives other" "\<not> running a" "life_inv a"
    and "run_state (e1000_open E K ops alloc other) (a\<lparr>running := True\<rparr>) = (Some err, b)"
  shows "life_inv (b\<lparr>running := (err = 0)\<rparr>)"
  using net_open_wp[where alloc = alloc and meanwhile = other and E = E and K = K and ops = ops and a = "a\<lparr>running := True\<rparr>"] assms
  by (auto simp: wp_def open_post_def life_inv_def life_view_def opened_def add_blocks_def live_blocks_def fun_eq_iff
    split: if_splits)

lemma life_close_inv:
  assumes "running a" "life_inv a" "run_state (e1000_close E ops) (a\<lparr>running := False\<rparr>) = (Some (), b)"
  shows "life_inv b"
  using net_close_wp[where E = E and ops = ops and a = "a\<lparr>running := False\<rparr>"] assms
  by (auto simp: wp_def life_inv_def life_view_def add_blocks_def live_blocks_def fun_eq_iff)

lemma life_step_inv:
  assumes "life_step E K ops a b" "life_inv a"
  shows "life_inv b"
  using assms
proof (induction rule: life_step.induct)
  case (life_open a other err b)
  show ?case by (rule life_open_inv[where alloc = "rx_alloc K"]) (use life_open life_rx in auto)
next
  case (life_close a b)
  then show ?case by (auto intro: life_close_inv)
next
  case (life_mtu n a err b)
  then have "life_view b = life_view a"
    using mtu_wp[where alloc = "rx_alloc K" and a = a and E = E and ops = ops and n = n] life_rx by (auto simp: wp_def life_inv_def)
  then show ?case using life_mtu(2) by (rule life_inv_view)
next
  case (life_reinit a b)
  then have "life_view b = life_view a"
    using reinit_wp[where alloc = "rx_alloc K" and E = E and ops = ops and a = a] life_rx by (auto simp: wp_def life_inv_def e1000_reset_task_def life_view_def)
  then show ?case using life_reinit(3) by (rule life_inv_view)
qed (rule life_inv_keeps; (intro life_intros)?; assumption)+

text \<open>
  C8: an interface holds its memory exactly while it runs.  Starting closed, through any sequence
  of opens that succeed or fail at any point, closes, changes of the frame size, resets, interrupts,
  polls, transmissions, watchdog runs, new addresses and changes of the VLANs, each block of
  memory of its rings is allocated once and not yet freed while the interface runs, and none is
  held otherwise: nothing is leaked and nothing freed twice.
\<close>

theorem life_memory:
  assumes "held (klog a) = (\<lambda>k. 0)" "\<not> running a" "is_down a"
    and "rtranclp (life_step E K ops) a b"
  shows "held (klog b) k = (if running b \<and> k \<in> tx_blocks \<union> rx_blocks (ring_count (rx_ring b)) then 1 else 0) \<and>
    is_down b = (\<not> running b)"
proof -
  have "life_inv b"
    using assms(4)
  proof (induction rule: rtranclp_induct)
    case base
    then show ?case using assms(1-3) by (simp add: life_inv_def live_blocks_def)
  next
    case (step c d)
    then show ?case using life_step_inv by blast
  qed
  then show ?thesis by (auto simp: life_inv_def live_blocks_def)
qed

text \<open>A chip whose registers read zero, with functions that do nothing, and an interface that is down.\<close>

definition ops_null :: e1000_ops where
  "ops_null = \<lparr>reset_hw = ret 0, init_hw = ret 0, setup_link = ret 0, check_for_link = ret 0, get_link_up_info = ret (Inr (1000, 2)),
     update_mc_addr_list = (\<lambda>xs n m. ret (Some ())), check_mng_mode = ret False, rphy = (\<lambda>r. ret (Inr 0)), wphy = (\<lambda>r v. ret 0),
     get_info = ret 0, power_up = skip, power_down = skip, cfg_on_link_up = ret 0\<rparr>"

definition life_adapter0 :: e1000_adapter where
  "life_adapter0 = adapter_zero\<lparr>is_down := True, tx_ring := ring_zero\<lparr>ring_count := 2\<rparr>, rx_ring := ring_zero\<lparr>ring_count := 2\<rparr>,
     hw := hw_zero\<lparr>mng_cookie := replicate 16 0\<rparr>\<rparr>"

definition no_rx :: kernel where
  "no_rx = kernel0\<lparr>mem_ok := (\<lambda>h b. b \<noteq> Rx_info)\<rparr>"

lemma reset_some:
  assumes "vlgrp a = None"
  shows "wp (e1000e_reset E ops) (\<lambda>r b. r = Some ()) a"
proof -
  have pba: "keeps vlgrp (reset_pba E)" "keeps vlgrp (reset_fc p)" "keeps vlgrp (e1000_get_hw_control E)" "keeps vlgrp (hw_op m)" for p m
    unfolding reset_pba_def reset_fc_def e1000_get_hw_control_def hw_control_def by (intro keeps_intros; simp)+
  have step: "wp (State_Monad.bind m f) Q b"
    if "keeps vlgrp m" "vlgrp b = None" "\<And>r c. vlgrp c = None \<Longrightarrow> wp (f r) Q c" for m f Q b
    by (rule wp_bind_rule) (use that in \<open>simp add: keeps_def wp_iff\<close>)
  have mng: "wp (State_Monad.bind (e1000_update_mng_vlan E) f) Q b" if "vlgrp b = None" "wp (f (Some ())) Q b" for f Q b
    using that by (simp add: e1000_update_mng_vlan_def Let_def)
  show ?thesis
    unfolding e1000e_reset_def
    by (intro mng step keeps_intros pba assms) (simp_all del: wp_bind, intro step keeps_intros pba, simp_all)
qed

lemma life_open0: "\<exists>b. run_state (e1000_open (\<lambda>h r. 0) no_rx ops_null (rx_alloc no_rx) skip)
    (life_adapter0\<lparr>running := True\<rparr>) = (Some (- ENOMEM), b)"
proof -
  have free: "keeps vlgrp e1000e_free_tx_resources"
    unfolding e1000e_free_tx_resources_def e1000_clean_tx_ring_def e1000_put_txbuf_def by (intro keeps_intros; simp)
  have failed: "wp (open_failed E ops err) (\<lambda>r b. r = Some err) a" if "vlgrp a = None" for E ops err and a :: e1000_adapter
    unfolding open_failed_def by (rule wp_bind_rule, rule wp_mono[OF reset_some[OF that]]) simp
  have "wp (do { e1000e_free_tx_resources; open_failed E ops err }) (\<lambda>r b. r = Some err) a" if "vlgrp a = None"
    for E ops err and a :: e1000_adapter
    by (rule wp_bind_rule) (use free failed that in \<open>simp add: keeps_def wp_iff\<close>)
  then have "wp (e1000_open (\<lambda>h r. 0) no_rx ops_null (rx_alloc no_rx) skip) (\<lambda>r b. r = Some (- ENOMEM))
      (life_adapter0\<lparr>running := True\<rparr>)"
    by (simp add: e1000_open_def wp_gets_bind e1000e_setup_tx_resources_def e1000e_setup_rx_resources_def e1000_alloc_ring_dma_def
      no_rx_def kernel0_def life_adapter0_def adapter_zero_def ENOMEM_def)
  then show ?thesis by (auto simp: wp_def split: prod.splits)
qed

lemma life_memory_witness:
  "\<exists>b. life_step (\<lambda>h r. 0) no_rx ops_null life_adapter0 b \<and>
     held (klog b) Tx_info = 0"
proof -
  obtain b where run: "run_state (e1000_open (\<lambda>h r. 0) no_rx ops_null (rx_alloc no_rx) skip)
      (life_adapter0\<lparr>running := True\<rparr>) = (Some (- ENOMEM), b)"
    using life_open0 by blast
  let ?b = "b\<lparr>running := (- ENOMEM = (0 :: int))\<rparr>"
  have step: "life_step (\<lambda>h r. 0) no_rx ops_null life_adapter0 ?b"
    by (rule life_open[OF _ _ run]) (simp_all add: life_adapter0_def adapter_zero_def keeps_intros)
  then have run: "rtranclp (life_step (\<lambda>h r. 0) no_rx ops_null ) life_adapter0 ?b"
    by (rule r_into_rtranclp)
  have "held (klog ?b) Tx_info = (if running ?b \<and> Tx_info \<in> tx_blocks \<union> rx_blocks (ring_count (rx_ring ?b)) then 1 else 0) \<and>
      is_down ?b = (\<not> running ?b)"
    by (rule life_memory[OF _ _ _ run])
      (simp_all add: life_adapter0_def adapter_zero_def)
  with step show ?thesis by (auto simp: ENOMEM_def)
qed

section \<open>What close and the test of MSI leave behind\<close>

text \<open>
  Closing frees the lists of buffers and keeps the sizes of the rings.  The reset task does not look
  whether the interface runs: one that is scheduled before the close and runs after it clears the
  rings through the freed lists.
\<close>

definition ring_view :: "e1000_adapter \<Rightarrow> (nat \<times> e1000_buffer list) \<times> nat \<times> e1000_buffer list" where
  "ring_view a = ((ring_count (tx_ring a), buffer_info (tx_ring a)), ring_count (rx_ring a), buffer_info (rx_ring a))"

lemma ring_view_hw: "keeps ring_view (hw_op m)"
  by (intro keeps_intros) (simp add: ring_view_def)

lemma close_frees_rings:
  "wp (e1000_close E ops) (\<lambda>r b. r \<noteq> None \<longrightarrow> buffer_info (tx_ring b) = [] \<and> buffer_info (rx_ring b) = []) a"
proof -
  have step: "wp (State_Monad.bind m f) Q b"
    if "keeps ring_view m" "\<And>r c. ring_view c = ring_view b \<Longrightarrow> wp (f r) Q c" for m f Q and b :: e1000_adapter
    by (rule wp_bind_rule) (use that in \<open>simp add: keeps_def wp_iff\<close>)
  have any: "wp m (\<lambda>r b. True) a" for m and a :: e1000_adapter by (simp add: wp_iff)
  have kill: "keeps ring_view (e1000_vlan_rx_kill_vid E vid)" "keeps ring_view (e1000_release_hw_control E)" for vid
    unfolding e1000_vlan_rx_kill_vid_def update_vfta_def e1000_release_hw_control_def hw_control_def
      e1000_irq_disable_def e1000_irq_enable_def
    by (intro keeps_intros ring_view_hw; simp add: ring_view_def)+
  have "keeps (\<lambda>a. buffer_info (tx_ring a)) (put_ps_pages ps)" for ps
    by (induction ps rule: put_ps_pages.induct) (auto intro!: keeps_intros)
  note this [keeps_intros]
  have tx_buf: "keeps (\<lambda>a. buffer_info (tx_ring a)) e1000_clean_rx_ring" "keeps (\<lambda>a. buffer_info (tx_ring a)) (free_ps_pages n)" for n
    unfolding e1000_clean_rx_ring_def e1000_put_rxbuf_def free_ps_pages_def by (intro keeps_intros; simp)+
  have rx_step: "wp (State_Monad.bind m f) Q b"
    if "keeps (\<lambda>a. buffer_info (tx_ring a)) m" "\<And>r c. buffer_info (tx_ring c) = buffer_info (tx_ring b) \<Longrightarrow> wp (f r) Q c"
    for m f Q and b :: e1000_adapter
    by (rule wp_bind_rule) (use that in \<open>simp add: keeps_def wp_iff\<close>)
  have rx: "wp e1000e_free_rx_resources (\<lambda>r c. buffer_info (tx_ring c) = [] \<and> buffer_info (rx_ring c) = []) b"
    if "buffer_info (tx_ring b) = []" for b
    unfolding e1000e_free_rx_resources_def
    by (rule rx_step[OF tx_buf(1)], simp only: wp_gets_bind, rule rx_step[OF tx_buf(2)]) (simp add: that)
  have tx: "wp e1000e_free_tx_resources (\<lambda>r c. buffer_info (tx_ring c) = []) b" for b
    unfolding e1000e_free_tx_resources_def by (rule wp_bind_rule, rule wp_mono[OF any]) simp
  show ?thesis
    unfolding e1000_close_def
    apply (rule wp_bind_rule, rule wp_mono[OF any], rule wp_on_some, simp)
    apply (rule wp_bind_rule, rule wp_mono[OF any], rule wp_bind_rule, rule wp_mono[OF any])
    apply (rule wp_bind_rule, rule wp_mono[OF tx])
    apply (rule wp_bind_rule, rule wp_mono[OF rx], assumption)
    apply (intro step keeps_intros kill)
    apply (simp add: ring_view_def)
    done
qed

text \<open>
  The test of MSI does not look at the code of its last request: when the message arrives and
  the kernel then refuses the handlers, the test succeeds and open goes on without any handler.
\<close>

definition only_test :: "kernel \<Rightarrow> kernel" where
  "only_test K = K\<lparr>request_irq := (\<lambda>h f. if f = Intr_msi_test then 0 else - EBUSY), enable_msi := (\<lambda>h. 0)\<rparr>"

definition message_arrives :: "(e1000_adapter, unit) state" where
  "message_arrives = modify (\<lambda>a. a\<lparr>flags := flags a AND NOT FLAG_MSI_TEST_FAILED\<rparr>)"

lemma msi_flags:
  "(g AND NOT FLAG_MSI_TEST_FAILED) AND FLAG_MSI_TEST_FAILED = 0"
  "FLAG_MSI_ENABLED \<noteq> 0" "(f OR FLAG_MSI_ENABLED) AND FLAG_MSI_ENABLED = FLAG_MSI_ENABLED"
  by (simp_all add: and.assoc) (simp_all add: FLAG_MSI_ENABLED_def and.commute)

lemma msi_test_unhandled:
  assumes "flags a AND FLAG_MSI_ENABLED \<noteq> 0" "\<not> msix a" "int_mode a = E1000E_INT_MODE_MSI"
  shows "run_state (e1000_test_msi E (only_test K) message_arrives) a = (r, b) \<Longrightarrow> r = 0 \<and>
    klog b = [Pci_command (pci_command K (klog a)), Disable_msi, Enable_msi, Disable_msi, Free_irq 0,
      Request_irq Intr_msi_test, Enable_msi, Disable_msi, Free_irq 0,
      Pci_command (pci_command K (klog a) AND NOT 0x100)] @ klog a"
  using assms
  by (auto simp: e1000_test_msi_def e1000_test_msi_interrupt_def msi_test_run_def only_test_def request_handler_def
    message_arrives_def e1000_free_irq_def e1000e_reset_interrupt_capability_def hw_op_def e1000_irq_enable_def
    e1000_irq_disable_def e1e_flush_def e1000e_set_interrupt_capability_def set_msi_def E1000E_INT_MODE_MSI_def
    E1000E_INT_MODE_MSIX_def e1000_request_irq_def request_msi_def request_legacy_def EBUSY_def msi_flags split: prod.splits)

text \<open>
  Before the first configuration of the transmit unit the offsets of its head and tail registers
  are zero: an open that fails for want of receive memory writes zero to the control register.
\<close>

lemma first_open_writes_ctrl:
  assumes "ring_head (tx_ring a) = 0" "ring_tail (tx_ring a) = 0"
  shows "wp e1000e_free_tx_resources (\<lambda>r b. rhist (hw b) = Wr CTRL 0 # Wr CTRL 0 # rhist (hw a)) a"
proof -
  let ?v = "\<lambda>a. (ring_head (tx_ring a), ring_tail (tx_ring a), rhist (hw a))"
  have loop: "keeps ?v (for_each is e1000_put_txbuf)" for "is"
    unfolding e1000_put_txbuf_def by (intro keeps_intros; simp add: upd_buffer_def)
  have step: "wp (State_Monad.bind m f) Q b"
    if "keeps ?v m" "\<And>r c. ?v c = ?v b \<Longrightarrow> wp (f r) Q c" for m f Q and b :: e1000_adapter
    by (rule wp_bind_rule) (use that in \<open>simp add: keeps_def wp_iff\<close>)
  have "wp e1000_clean_tx_ring (\<lambda>r b. rhist (hw b) = Wr CTRL 0 # Wr CTRL 0 # rhist (hw a)) a"
    unfolding e1000_clean_tx_ring_def
    by (simp only: wp_gets_bind, rule step[OF loop]) (use assms in \<open>simp add: wp_hw_op\<close>)
  then show ?thesis
    unfolding e1000e_free_tx_resources_def by (rule_tac wp_bind_rule, rule_tac wp_mono) simp_all
qed

end
