(* ===== verification/NetProbe.thy ===== *)
theory NetProbe
  imports NetOpen NetWatch
begin

text \<open>
  The life of the device, netdev.c: the boards and their variants, probe with its chain of error
  exits, and removal.
\<close>

section \<open>The PCI layer\<close>

text \<open>
  A further parameter for the calls of the PCI layer and for memory: \<open>pci_code\<close> is the code of a call,
  \<open>res_ok\<close> whether a structure can be allocated or a BAR mapped, \<open>flash_bar\<close> whether the second BAR
  is memory, \<open>exp_cap\<close> the position of the PCI Express capability (0 without one), \<open>cfg_word\<close> a word
  of the configuration space, \<open>up_word\<close> the control word of the bridge above the device,
  \<open>choose_state\<close> the power state for a sleep.
\<close>

record pci =
  pci_code :: "kev list \<Rightarrow> pci_call \<Rightarrow> int"
  res_ok :: "kev list \<Rightarrow> resource \<Rightarrow> bool"
  device_id :: u16
  flash_bar :: bool
  exp_cap :: nat
  cfg_word :: "kev list \<Rightarrow> nat \<Rightarrow> u16"
  up_word :: "kev list \<Rightarrow> u16"
  choose_state :: nat

abbreviation pci_ev :: "pci_ev \<Rightarrow> (e1000_adapter, unit) state" where
  "pci_ev e \<equiv> log_ev (Pci e)"

definition pci_do :: "pci \<Rightarrow> pci_call \<Rightarrow> (e1000_adapter, int) state" where
  "pci_do P c = do {
     h \<leftarrow> gets klog;
     pci_ev (Called c (pci_code P h c));
     ret (pci_code P h c) }"

text \<open>The result is whether the resource is there.\<close>

definition pci_get :: "pci \<Rightarrow> resource \<Rightarrow> (e1000_adapter, bool) state" where
  "pci_get P r = do {
     h \<leftarrow> gets klog;
     (if res_ok P h r then pci_ev (Acquire r) else skip);
     ret (res_ok P h r) }"

definition e1000e_disable_l1aspm :: "pci \<Rightarrow> (e1000_adapter, unit) state" where
  "e1000e_disable_l1aspm P = do {
     h \<leftarrow> gets klog;
     (let v = cfg_word P h (exp_cap P + 16) in
      if v AND 0x2 \<noteq> 0 then pci_ev (Link_control (v AND NOT 0x2)) else skip) }"

definition e1000_read_pcie_cap_reg :: "pci \<Rightarrow> kev list \<Rightarrow> nat \<Rightarrow> int + u16" where
  "e1000_read_pcie_cap_reg P h reg =
     (if exp_cap P = 0 then Inl (- E1000_ERR_CONFIG) else Inr (cfg_word P h (exp_cap P + reg)))"

section \<open>Boards\<close>

datatype board = board_82571 | board_82572 | board_82573 | board_82574 | board_82583
  | board_80003es2lan | board_ich8lan | board_ich9lan | board_ich10lan

datatype variants = Variants_82571 | Variants_ich8lan | No_variants

record e1000_info =
  info_mac :: e1000_mac_type
  info_flags :: u32
  info_pba :: u32
  get_variants :: variants

definition FLAG_HAS_FLASH :: u32 where "FLAG_HAS_FLASH = push_bit 1 1"
definition FLAG_HAS_WOL :: u32 where "FLAG_HAS_WOL = push_bit 3 1"
definition FLAG_IS_QUAD_PORT_A :: u32 where "FLAG_IS_QUAD_PORT_A = push_bit 12 1"
definition FLAG_IS_QUAD_PORT :: u32 where "FLAG_IS_QUAD_PORT = push_bit 13 1"
definition FLAG_TIPG_MEDIUM_FOR_80003ESLAN :: u32 where "FLAG_TIPG_MEDIUM_FOR_80003ESLAN = push_bit 14 1"
definition FLAG_APME_IN_WUC :: u32 where "FLAG_APME_IN_WUC = push_bit 15 1"
definition FLAG_APME_IN_CTRL3 :: u32 where "FLAG_APME_IN_CTRL3 = push_bit 16 1"
definition FLAG_APME_CHECK_PORT_B :: u32 where "FLAG_APME_CHECK_PORT_B = push_bit 17 1"
definition FLAG_TARC_SET_BIT_ZERO :: u32 where "FLAG_TARC_SET_BIT_ZERO = push_bit 23 1"

definition flags_or :: "u32 list \<Rightarrow> u32" where
  "flags_or fs = foldr (OR) fs 0"

definition e1000_82571_info :: e1000_info where
  "e1000_82571_info = \<lparr>info_mac = e1000_82571, info_flags = flags_or [FLAG_HAS_HW_VLAN_FILTER,
     FLAG_HAS_JUMBO_FRAMES, FLAG_HAS_WOL, FLAG_APME_IN_CTRL3, FLAG_RX_CSUM_ENABLED,
     FLAG_HAS_CTRLEXT_ON_LOAD, FLAG_HAS_SMART_POWER_DOWN, FLAG_RESET_OVERWRITES_LAA,
     FLAG_TARC_SPEED_MODE_BIT, FLAG_APME_CHECK_PORT_B],
     info_pba = 38, get_variants = Variants_82571\<rparr>"

definition e1000_82572_info :: e1000_info where
  "e1000_82572_info = \<lparr>info_mac = e1000_82572, info_flags = flags_or [FLAG_HAS_HW_VLAN_FILTER,
     FLAG_HAS_JUMBO_FRAMES, FLAG_HAS_WOL, FLAG_APME_IN_CTRL3, FLAG_RX_CSUM_ENABLED,
     FLAG_HAS_CTRLEXT_ON_LOAD, FLAG_TARC_SPEED_MODE_BIT],
     info_pba = 38, get_variants = Variants_82571\<rparr>"

definition e1000_82573_info :: e1000_info where
  "e1000_82573_info = \<lparr>info_mac = e1000_82573, info_flags = flags_or [FLAG_HAS_HW_VLAN_FILTER,
     FLAG_HAS_WOL, FLAG_APME_IN_CTRL3, FLAG_RX_CSUM_ENABLED, FLAG_HAS_SMART_POWER_DOWN,
     FLAG_HAS_AMT, FLAG_HAS_ERT, FLAG_HAS_SWSM_ON_LOAD],
     info_pba = 20, get_variants = Variants_82571\<rparr>"

definition e1000_82574_info :: e1000_info where
  "e1000_82574_info = \<lparr>info_mac = e1000_82574, info_flags = flags_or [FLAG_HAS_HW_VLAN_FILTER,
     FLAG_HAS_MSIX, FLAG_HAS_JUMBO_FRAMES, FLAG_HAS_WOL, FLAG_APME_IN_CTRL3, FLAG_RX_CSUM_ENABLED,
     FLAG_HAS_SMART_POWER_DOWN, FLAG_HAS_AMT, FLAG_HAS_CTRLEXT_ON_LOAD],
     info_pba = 20, get_variants = Variants_82571\<rparr>"

definition e1000_82583_info :: e1000_info where
  "e1000_82583_info = \<lparr>info_mac = e1000_82583, info_flags = flags_or [FLAG_HAS_HW_VLAN_FILTER,
     FLAG_HAS_WOL, FLAG_APME_IN_CTRL3, FLAG_RX_CSUM_ENABLED, FLAG_HAS_SMART_POWER_DOWN,
     FLAG_HAS_AMT, FLAG_HAS_CTRLEXT_ON_LOAD],
     info_pba = 20, get_variants = Variants_82571\<rparr>"

definition e1000_es2_info :: e1000_info where
  "e1000_es2_info = \<lparr>info_mac = e1000_80003es2lan, info_flags = flags_or [FLAG_HAS_HW_VLAN_FILTER,
     FLAG_HAS_JUMBO_FRAMES, FLAG_HAS_WOL, FLAG_APME_IN_CTRL3, FLAG_RX_CSUM_ENABLED,
     FLAG_HAS_CTRLEXT_ON_LOAD, FLAG_RX_NEEDS_RESTART, FLAG_TARC_SET_BIT_ZERO,
     FLAG_APME_CHECK_PORT_B, FLAG_DISABLE_FC_PAUSE_TIME, FLAG_TIPG_MEDIUM_FOR_80003ESLAN],
     info_pba = 38, get_variants = No_variants\<rparr>"

definition e1000_ich8_info :: e1000_info where
  "e1000_ich8_info = \<lparr>info_mac = e1000_ich8lan, info_flags = flags_or [FLAG_HAS_WOL, FLAG_IS_ICH,
     FLAG_RX_CSUM_ENABLED, FLAG_HAS_CTRLEXT_ON_LOAD, FLAG_HAS_AMT, FLAG_HAS_FLASH, FLAG_APME_IN_WUC],
     info_pba = 8, get_variants = Variants_ich8lan\<rparr>"

definition e1000_ich9_info :: e1000_info where
  "e1000_ich9_info = \<lparr>info_mac = e1000_ich9lan, info_flags = flags_or [FLAG_HAS_JUMBO_FRAMES,
     FLAG_IS_ICH, FLAG_HAS_WOL, FLAG_RX_CSUM_ENABLED, FLAG_HAS_CTRLEXT_ON_LOAD, FLAG_HAS_AMT,
     FLAG_HAS_ERT, FLAG_HAS_FLASH, FLAG_APME_IN_WUC],
     info_pba = 10, get_variants = Variants_ich8lan\<rparr>"

definition e1000_ich10_info :: e1000_info where
  "e1000_ich10_info = \<lparr>info_mac = e1000_ich10lan, info_flags = flags_or [FLAG_HAS_JUMBO_FRAMES,
     FLAG_IS_ICH, FLAG_HAS_WOL, FLAG_RX_CSUM_ENABLED, FLAG_HAS_CTRLEXT_ON_LOAD, FLAG_HAS_AMT,
     FLAG_HAS_ERT, FLAG_HAS_FLASH, FLAG_APME_IN_WUC],
     info_pba = 10, get_variants = Variants_ich8lan\<rparr>"

fun e1000_info_tbl :: "board \<Rightarrow> e1000_info" where
  "e1000_info_tbl board_82571 = e1000_82571_info"
| "e1000_info_tbl board_82572 = e1000_82572_info"
| "e1000_info_tbl board_82573 = e1000_82573_info"
| "e1000_info_tbl board_82574 = e1000_82574_info"
| "e1000_info_tbl board_82583 = e1000_82583_info"
| "e1000_info_tbl board_80003es2lan = e1000_es2_info"
| "e1000_info_tbl board_ich8lan = e1000_ich8_info"
| "e1000_info_tbl board_ich9lan = e1000_ich9_info"
| "e1000_info_tbl board_ich10lan = e1000_ich10_info"

text \<open>The devices the driver is for, by the identifier of the device.\<close>

definition e1000e_pci_tbl :: "(u16 \<times> board) list" where
  "e1000e_pci_tbl =
     [(0x105E, board_82571), (0x105F, board_82571), (0x10A4, board_82571), (0x10BC, board_82571),
      (0x10A5, board_82571), (0x1060, board_82571), (0x10D9, board_82571), (0x10DA, board_82571),
      (0x10D5, board_82571),
      (0x10B9, board_82572), (0x107D, board_82572), (0x107E, board_82572), (0x107F, board_82572),
      (0x108B, board_82573), (0x108C, board_82573), (0x109A, board_82573),
      (0x10D3, board_82574), (0x150C, board_82583),
      (0x1096, board_80003es2lan), (0x10BA, board_80003es2lan), (0x1098, board_80003es2lan),
      (0x10BB, board_80003es2lan),
      (0x104C, board_ich8lan), (0x10C5, board_ich8lan), (0x10C4, board_ich8lan), (0x104A, board_ich8lan),
      (0x104B, board_ich8lan), (0x104D, board_ich8lan), (0x1049, board_ich8lan),
      (0x10C0, board_ich9lan), (0x10C2, board_ich9lan), (0x10C3, board_ich9lan), (0x10BD, board_ich9lan),
      (0x294C, board_ich9lan), (0x10E5, board_ich9lan), (0x10BF, board_ich9lan), (0x10F5, board_ich9lan),
      (0x10CB, board_ich9lan), (0x10CC, board_ich9lan), (0x10CD, board_ich9lan), (0x10CE, board_ich9lan),
      (0x10DE, board_ich10lan), (0x10DF, board_ich10lan)]"

section \<open>The functions of a chip family that the device uses\<close>

text \<open>
  \<open>get_bus_info\<close> has the PCI Express link status as an argument, \<open>init_mac_params\<close> the identifier of the
  device; the functions for the PHY are those of the NULL tests in e1000.h.
\<close>

record e1000_chip =
  chip_ops :: e1000_ops
  init_mac_params :: "u16 \<Rightarrow> (e1000_hw, int) state"
  init_nvm_params :: "(e1000_hw, int) state"
  init_phy_params :: "(e1000_hw, int) state"
  get_bus_info :: "int + u16 \<Rightarrow> (e1000_hw, int) state"
  check_reset_block :: "(e1000_hw, int) state"
  phy_reset :: "(e1000_hw, int) state"
  nvm_validate :: "(e1000_hw, int) state"
  nvm_rd :: "u16 \<Rightarrow> nat \<Rightarrow> (e1000_hw, int + u16 list) state"
  read_mac_addr :: "(e1000_hw, int) state"
  phy_acquire :: "(e1000_hw, int) state"
  phy_release :: "(e1000_hw, unit) state"

definition set_lan_id_op :: "mmio \<Rightarrow> (e1000_hw, unit) state" where
  "set_lan_id_op E = do {
     up \<leftarrow> gets is_82573_up;
     (if up then e1000_set_lan_id_single_port else e1000_set_lan_id_multi_port_pcie E) }"

definition chip_82571 :: "mmio \<Rightarrow> u16 \<Rightarrow> (e1000_hw, int) state \<Rightarrow> e1000_chip" where
  "chip_82571 E junk m88_len = \<lparr>chip_ops = ops_82571 E junk m88_len,
     init_mac_params = e1000_init_mac_params_82571 E,
     init_nvm_params = e1000_init_nvm_params_82571 E e1000_nvm_override_none,
     init_phy_params = e1000_init_phy_params_82571 E,
     get_bus_info = (\<lambda>status. e1000e_get_bus_info_pcie (ret status) (set_lan_id_op E)),
     check_reset_block = check_reset_block_op E, phy_reset = phy_reset_op E,
     nvm_validate = e1000_validate_nvm_checksum_82571 E, nvm_rd = e1000e_read_nvm_eerd E,
     read_mac_addr = e1000_read_mac_addr_82571 E,
     phy_acquire = e1000_get_hw_semaphore_82571 E, phy_release = e1000_put_hw_semaphore_82571 E\<rparr>"

section \<open>The card\<close>

text \<open>
  The adapter with the members only the device functions use, the permanent address of the network
  device, whether the flash is mapped, and the two static variables of the driver.
\<close>

record e1000_card =
  ad :: e1000_adapter
  bd_number :: nat
  fc_autoneg :: bool
  eeprom_wol :: u32
  eeprom_vers :: u16
  netdev_perm_addr :: "u8 list"
  flash_mapped :: bool
  cards_found :: nat
  global_quad_port_a :: nat

definition ad_op :: "(e1000_adapter, 'a) state \<Rightarrow> (e1000_card, 'a) state" where
  "ad_op m = State (\<lambda>c. let (r, a) = run_state m (ad c) in (r, c\<lparr>ad := a\<rparr>))"

abbreviation card_hw :: "(e1000_hw, 'a) state \<Rightarrow> (e1000_card, 'a) state" where
  "card_hw m \<equiv> ad_op (hw_op m)"

abbreviation card_ev :: "pci_ev \<Rightarrow> (e1000_card, unit) state" where
  "card_ev e \<equiv> ad_op (pci_ev e)"

abbreviation set_ad :: "(e1000_adapter \<Rightarrow> e1000_adapter) \<Rightarrow> (e1000_card, unit) state" where
  "set_ad f \<equiv> ad_op (modify f)"

abbreviation get_ad :: "(e1000_adapter \<Rightarrow> 'b) \<Rightarrow> (e1000_card, 'b) state" where
  "get_ad f \<equiv> ad_op (gets f)"

section \<open>Variants\<close>

definition quad_devices :: "u16 list" where
  "quad_devices = [0x10A4, 0x10A5, 0x10BC, 0x10D5]"

text \<open>The ports of a quad port adapter are counted; the first of four is marked.\<close>

definition tag_quad_port :: "u16 \<Rightarrow> (e1000_card, unit) state" where
  "tag_quad_port dev = (if dev \<in> set quad_devices then modify (\<lambda>c.
     let fl = flags (ad c) OR FLAG_IS_QUAD_PORT;
         fl = (if global_quad_port_a c = 0 then fl OR FLAG_IS_QUAD_PORT_A else fl);
         n = global_quad_port_a c + 1 in
     c\<lparr>ad := (ad c)\<lparr>flags := fl\<rparr>, global_quad_port_a := (if n = 4 then 0 else n)\<rparr>) else skip)"

definition wol_82571 :: "u16 \<Rightarrow> bool \<Rightarrow> u32 \<Rightarrow> u32" where
  "wol_82571 dev port_b fl =
     (if dev \<in> {0x105F, 0x1060, 0x105E} \<and> port_b \<or>
         fl AND FLAG_IS_QUAD_PORT \<noteq> 0 \<and> fl AND FLAG_IS_QUAD_PORT_A = 0 \<or> dev = 0x10DA
      then fl AND NOT FLAG_HAS_WOL else fl)"

definition e1000_get_variants_82571 :: "mmio \<Rightarrow> pci \<Rightarrow> e1000_chip \<Rightarrow> (e1000_card, int) state" where
  "e1000_get_variants_82571 E P C = do {
     status \<leftarrow> card_hw (er32 E STATUS);
     tag_quad_port (device_id P);
     t \<leftarrow> get_ad (\<lambda>a. mac_type (mac (hw a)));
     (if t = e1000_82571 then
        set_ad (\<lambda>a. a\<lparr>flags := wol_82571 (device_id P) (status AND 0x4 \<noteq> 0) (flags a)\<rparr>)
      else if t = e1000_82573 \<and> device_id P = 0x109A then do {
        r \<leftarrow> card_hw (nvm_rd C 0x001A 1);
        (case r of
           Inl e \<Rightarrow> (if e < 0 then skip else set_ad (\<lambda>a. a\<lparr>flags := flags a OR FLAG_HAS_JUMBO_FRAMES\<rparr>))
         | Inr d \<Rightarrow> (if hd d AND 0x000C = 0
             then set_ad (\<lambda>a. a\<lparr>flags := flags a OR FLAG_HAS_JUMBO_FRAMES\<rparr>) else skip)) }
      else skip);
     ret 0 }"

definition e1000_get_variants_ich8lan :: "(e1000_card, int) state" where
  "e1000_get_variants_ich8lan = do {
     set_ad (\<lambda>a. if phy_type (phy (hw a)) = e1000_phy_ife
       then a\<lparr>flags := flags a AND NOT FLAG_HAS_JUMBO_FRAMES\<rparr> else a);
     set_ad (\<lambda>a. if mac_type (mac (hw a)) = e1000_ich8lan \<and> phy_type (phy (hw a)) = e1000_phy_igp_3
       then a\<lparr>flags := flags a OR FLAG_LSC_GIG_SPEED_DROP\<rparr> else a);
     ret 0 }"

definition run_variants :: "mmio \<Rightarrow> pci \<Rightarrow> e1000_chip \<Rightarrow> variants \<Rightarrow> (e1000_card, int) state" where
  "run_variants E P C v = (case v of
     Variants_82571 \<Rightarrow> e1000_get_variants_82571 E P C
   | Variants_ich8lan \<Rightarrow> e1000_get_variants_ich8lan
   | No_variants \<Rightarrow> ret 0)"

section \<open>The software side\<close>

text \<open>One structure for each ring; a failure frees what there is.\<close>

definition e1000_alloc_queues :: "pci \<Rightarrow> (e1000_adapter, int) state" where
  "e1000_alloc_queues P = do {
     tx \<leftarrow> pci_get P Tx_struct;
     (if \<not> tx then ret (- ENOMEM)
      else do {
        set_tx (\<lambda>r. ring_zero);
        rx \<leftarrow> pci_get P Rx_struct;
        (if \<not> rx then do { pci_ev (Release Tx_struct); ret (- ENOMEM) }
         else do { set_rx (\<lambda>r. ring_zero); ret 0 }) }) }"

definition e1000_sw_init :: "mmio \<Rightarrow> kernel \<Rightarrow> pci \<Rightarrow> e1000_chip \<Rightarrow> (e1000_adapter, int) state" where
  "e1000_sw_init E K P C = do {
     modify (\<lambda>a. a\<lparr>rx_buffer_len := 1522, rx_ps_bsize0 := 128, max_frame_size := mtu a + 14 + 4,
       min_frame_size := 60 + 4\<rparr>);
     seq_ok (hw_op (init_mac_params C (device_id P)))
       (seq_ok (hw_op (init_nvm_params C))
         (seq_ok (hw_op (init_phy_params C)) (do {
            e1000e_set_interrupt_capability K;
            err \<leftarrow> e1000_alloc_queues P;
            (if err \<noteq> 0 then ret (- ENOMEM)
             else do {
               e1000_irq_disable E;
               modify (\<lambda>a. a\<lparr>is_down := True\<rparr>);
               ret 0 }) }))) }"

section \<open>Error exits of probe\<close>

text \<open>Each label releases what was there before it and goes on with the next one.\<close>

definition err_dma :: "int \<Rightarrow> (e1000_card, int option) state" where
  "err_dma err = do { card_ev (Release Device_enabled); ret (Some err) }"

definition err_alloc_etherdev :: "int \<Rightarrow> (e1000_card, int option) state" where
  "err_alloc_etherdev err = do { card_ev (Release Regions); err_dma err }"

definition err_ioremap :: "int \<Rightarrow> (e1000_card, int option) state" where
  "err_ioremap err = do { card_ev (Release Net_device); err_alloc_etherdev err }"

definition err_flashmap :: "int \<Rightarrow> (e1000_card, int option) state" where
  "err_flashmap err = do { card_ev (Release (Bar 0)); err_ioremap err }"

definition err_sw_init :: "int \<Rightarrow> (e1000_card, int option) state" where
  "err_sw_init err = do {
     ad_op e1000e_reset_interrupt_capability;
     flash \<leftarrow> gets flash_mapped;
     (if flash then card_ev (Release (Bar 1)) else skip);
     err_flashmap err }"

definition err_hw_init :: "int \<Rightarrow> (e1000_card, int option) state" where
  "err_hw_init err = do {
     card_ev (Release Tx_struct);
     card_ev (Release Rx_struct);
     err_sw_init err }"

text \<open>The PHY is reset unless that is blocked.\<close>

definition free_phy :: "e1000_chip \<Rightarrow> (e1000_card, unit) state" where
  "free_phy C = do {
     blocked \<leftarrow> card_hw (check_reset_block C);
     (if blocked = 0 then do { r \<leftarrow> card_hw (phy_reset C); skip } else skip) }"

definition err_eeprom :: "e1000_chip \<Rightarrow> int \<Rightarrow> (e1000_card, int option) state" where
  "err_eeprom C err = do { free_phy C; err_hw_init err }"

definition err_register :: "mmio \<Rightarrow> e1000_chip \<Rightarrow> int \<Rightarrow> (e1000_card, int option) state" where
  "err_register E C err = do {
     fl \<leftarrow> get_ad flags;
     (if fl AND FLAG_HAS_AMT = 0 then ad_op (e1000_release_hw_control E) else skip);
     err_eeprom C err }"

section \<open>Probe\<close>

definition NETIF_F_SG :: u32 where "NETIF_F_SG = 1"
definition NETIF_F_HW_CSUM :: u32 where "NETIF_F_HW_CSUM = 8"
definition NETIF_F_HIGHDMA :: u32 where "NETIF_F_HIGHDMA = 32"
definition NETIF_F_HW_VLAN_TX :: u32 where "NETIF_F_HW_VLAN_TX = 128"
definition NETIF_F_HW_VLAN_RX :: u32 where "NETIF_F_HW_VLAN_RX = 256"
definition NETIF_F_HW_VLAN_FILTER :: u32 where "NETIF_F_HW_VLAN_FILTER = 512"

definition probe_features :: "bool \<Rightarrow> u32 \<Rightarrow> u32" where
  "probe_features dac fl = flags_or ([NETIF_F_SG, NETIF_F_HW_CSUM, NETIF_F_HW_VLAN_TX, NETIF_F_HW_VLAN_RX] @
     (if fl AND FLAG_HAS_HW_VLAN_FILTER \<noteq> 0 then [NETIF_F_HW_VLAN_FILTER] else []) @
     [NETIF_F_TSO, NETIF_F_TSO6] @ (if dac then [NETIF_F_HIGHDMA] else []))"

text \<open>The code that stops probe, or whether 64-bit addresses are used.\<close>

definition probe_dma :: "pci \<Rightarrow> (e1000_adapter, int + bool) state" where
  "probe_dma P = do {
     err \<leftarrow> pci_do P (Dma_mask 64);
     (if err = 0 then do {
        err \<leftarrow> pci_do P (Consistent_mask 64);
        ret (Inr (err = 0)) }
      else do {
        err \<leftarrow> pci_do P (Dma_mask 32);
        (if err = 0 then ret (Inr False)
         else do {
           err \<leftarrow> pci_do P (Consistent_mask 32);
           ret (if err = 0 then Inr False else Inl err) }) }) }"

text \<open>The checksum of the NVM is tried three times.\<close>

fun nvm_tries :: "e1000_chip \<Rightarrow> nat \<Rightarrow> (e1000_hw, bool) state" where
  "nvm_tries C 0 = ret False"
| "nvm_tries C (Suc n) = do {
     r \<leftarrow> nvm_validate C;
     (if r \<ge> 0 then ret True else nvm_tries C n) }"

text \<open>The words are read for two warnings.\<close>

definition e1000_eeprom_checks :: "e1000_chip \<Rightarrow> (e1000_hw, unit) state" where
  "e1000_eeprom_checks C = do {
     t \<leftarrow> gets (\<lambda>h. mac_type (mac h));
     (if t \<noteq> e1000_82573 then skip
      else do {
        r \<leftarrow> nvm_rd C 0x000F 1;
        r \<leftarrow> nvm_rd C 0x001A 1;
        skip }) }"

definition nvm_word :: "e1000_chip \<Rightarrow> u16 \<Rightarrow> (e1000_card, u16) state" where
  "nvm_word C off = do {
     r \<leftarrow> card_hw (nvm_rd C off 1);
     ret (case r of Inl e \<Rightarrow> 0 | Inr d \<Rightarrow> hd d) }"

text \<open>Wake on LAN as the NVM has it.\<close>

definition probe_wol :: "mmio \<Rightarrow> e1000_chip \<Rightarrow> (e1000_card, unit) state" where
  "probe_wol E C = do {
     a \<leftarrow> get_ad (\<lambda>a. a);
     on \<leftarrow> (if flags a AND FLAG_APME_IN_WUC \<noteq> 0 then do {
         v \<leftarrow> card_hw (er32 E 0x05800);
         ret ((ucast v :: u16) AND 0x0001 \<noteq> 0) }
       else if flags a AND FLAG_APME_IN_CTRL3 \<noteq> 0 then do {
         v \<leftarrow> nvm_word C (if flags a AND FLAG_APME_CHECK_PORT_B \<noteq> 0 \<and> bus_func (bus (hw a)) = 1
           then 0x0014 else 0x0024);
         ret (v AND 0x0400 \<noteq> 0) }
       else ret False);
     (if on then modify (\<lambda>c. c\<lparr>eeprom_wol := eeprom_wol c OR 0x2\<rparr>) else skip);
     (if flags a AND FLAG_HAS_WOL = 0 then modify (\<lambda>c. c\<lparr>eeprom_wol := 0\<rparr>) else skip);
     w \<leftarrow> gets eeprom_wol;
     set_ad (\<lambda>a. a\<lparr>wol := w\<rparr>);
     card_ev (Wakeup_enable (w \<noteq> 0)) }"

definition probe_link_params :: "e1000_adapter \<Rightarrow> e1000_adapter" where
  "probe_link_params a = (let h = hw a in
     a\<lparr>hw := h\<lparr>mac := (mac h)\<lparr>mac_autoneg := True\<rparr>,
         fc := (fc h)\<lparr>requested_mode := e1000_fc_default, current_mode := e1000_fc_default\<rparr>,
         phy := (phy h)\<lparr>autoneg_advertised := 0x2f\<rparr>\<rparr>,
       rx_ring := (rx_ring a)\<lparr>ring_count := 256\<rparr>, tx_ring := (tx_ring a)\<lparr>ring_count := 256\<rparr>\<rparr>)"

definition probe_register :: "mmio \<Rightarrow> pci \<Rightarrow> e1000_chip \<Rightarrow> (e1000_card, int option) state" where
  "probe_register E P C = do {
     fl \<leftarrow> get_ad flags;
     (if fl AND FLAG_HAS_AMT = 0 then ad_op (e1000_get_hw_control E) else skip);
     set_ad (\<lambda>a. a\<lparr>carrier_ok := False\<rparr>);
     ad_op stop_queue;
     err \<leftarrow> ad_op (pci_do P Register_netdev);
     (if err \<noteq> 0 then err_register E C err
      else do {
        r \<leftarrow> card_hw (e1000e_read_pba_num (nvm_rd C));
        ret (Some 0) }) }"

definition probe_finish :: "mmio \<Rightarrow> pci \<Rightarrow> e1000_chip \<Rightarrow> (e1000_card, int option) state" where
  "probe_finish E P C = do {
     set_ad probe_link_params;
     modify (\<lambda>c. c\<lparr>fc_autoneg := True\<rparr>);
     probe_wol E C;
     v \<leftarrow> nvm_word C 5;
     modify (\<lambda>c. c\<lparr>eeprom_vers := v\<rparr>);
     r \<leftarrow> ad_op (e1000e_reset E (chip_ops C));
     on_some r (\<lambda>_. probe_register E P C) }"

definition copper_options :: "e1000_hw \<Rightarrow> e1000_hw" where
  "copper_options h = (if media_type (phy h) = e1000_media_type_copper
     then h\<lparr>phy := (phy h)\<lparr>mdix := 0, disable_polarity_correction := False, ms_type := e1000_ms_hw_default\<rparr>\<rparr>
     else h)"

text \<open>The network device, the first reset, the NVM and the station address.\<close>

definition probe_device :: "mmio \<Rightarrow> pci \<Rightarrow> e1000_chip \<Rightarrow> bool \<Rightarrow> (e1000_card, int option) state" where
  "probe_device E P C dac = do {
     h \<leftarrow> get_ad klog;
     r \<leftarrow> card_hw (get_bus_info C (e1000_read_pcie_cap_reg P h 0x12));
     card_hw (set_phy (\<lambda>p. p\<lparr>autoneg_wait_to_complete := False\<rparr>));
     card_hw (modify copper_options);
     blocked \<leftarrow> card_hw (check_reset_block C);
     set_ad (\<lambda>a. a\<lparr>features := probe_features dac (flags a)\<rparr>);
     mng \<leftarrow> card_hw (e1000e_enable_mng_pass_thru E);
     (if mng then set_ad (\<lambda>a. a\<lparr>flags := flags a OR FLAG_MNG_PT_ENABLED\<rparr>) else skip);
     r \<leftarrow> card_hw (reset_hw (chip_ops C));
     good \<leftarrow> card_hw (nvm_tries C 3);
     (if \<not> good then err_eeprom C (- EIO)
      else do {
        card_hw (e1000_eeprom_checks C);
        r \<leftarrow> card_hw (read_mac_addr C);
        addr \<leftarrow> get_ad (\<lambda>a. mac_addr (mac (hw a)));
        set_ad (\<lambda>a. a\<lparr>dev_addr := addr\<rparr>);
        modify (\<lambda>c. c\<lparr>netdev_perm_addr := addr\<rparr>);
        (if \<not> is_valid_ether_addr addr then err_eeprom C (- EIO) else probe_finish E P C) }) }"

definition probe_sw :: "mmio \<Rightarrow> kernel \<Rightarrow> pci \<Rightarrow> e1000_params \<Rightarrow> e1000_chip \<Rightarrow> variants \<Rightarrow> bool \<Rightarrow>
    (e1000_card, int option) state" where
  "probe_sw E K P M C v dac = do {
     modify (\<lambda>c. c\<lparr>bd_number := cards_found c, cards_found := cards_found c + 1\<rparr>);
     bd \<leftarrow> gets bd_number;
     ad_op (e1000e_check_options M bd);
     err \<leftarrow> ad_op (e1000_sw_init E K P C);
     (if err \<noteq> 0 then err_sw_init err
      else do {
        err \<leftarrow> run_variants E P C v;
        (if err \<noteq> 0 then err_hw_init err else probe_device E P C dac) }) }"

text \<open>The adapter is new; what is left of the log and of the device goes with it.\<close>

definition new_card :: "e1000_info \<Rightarrow> e1000_card \<Rightarrow> e1000_card" where
  "new_card ei c = c\<lparr>ad := adapter_zero\<lparr>klog := klog (ad c),
       hw := hw_zero\<lparr>rhist := rhist (hw (ad c)), mac := mac_zero\<lparr>mac_type := info_mac ei\<rparr>\<rparr>,
       pba := info_pba ei, flags := info_flags ei, flags2 := 0\<rparr>,
     bd_number := 0, fc_autoneg := False, eeprom_wol := 0, eeprom_vers := 0,
     netdev_perm_addr := replicate 6 0, flash_mapped := False\<rparr>"

definition probe_map :: "mmio \<Rightarrow> kernel \<Rightarrow> pci \<Rightarrow> e1000_params \<Rightarrow> e1000_chip \<Rightarrow> variants \<Rightarrow> bool \<Rightarrow>
    (e1000_card, int option) state" where
  "probe_map E K P M C v dac = do {
     err \<leftarrow> ad_op (pci_do P Save_state);
     (if err \<noteq> 0 then err_ioremap err
      else do {
        ok \<leftarrow> ad_op (pci_get P (Bar 0));
        (if \<not> ok then err_ioremap (- EIO)
         else do {
           fl \<leftarrow> get_ad flags;
           (if fl AND FLAG_HAS_FLASH \<noteq> 0 \<and> flash_bar P then do {
              ok \<leftarrow> ad_op (pci_get P (Bar 1));
              modify (\<lambda>c. c\<lparr>flash_mapped := ok\<rparr>);
              (if \<not> ok then err_flashmap (- EIO) else probe_sw E K P M C v dac) }
            else probe_sw E K P M C v dac) }) }) }"

text \<open>\<open>chips\<close> gives the functions of each board's chip family.\<close>

definition e1000_probe :: "mmio \<Rightarrow> kernel \<Rightarrow> pci \<Rightarrow> e1000_params \<Rightarrow> (board \<Rightarrow> e1000_chip) \<Rightarrow> board \<Rightarrow>
    (e1000_card, int option) state" where
  "e1000_probe E K P M chips b = (let ei = e1000_info_tbl b in do {
     ad_op (e1000e_disable_l1aspm P);
     err \<leftarrow> ad_op (pci_do P Enable_device);
     (if err \<noteq> 0 then ret (Some err)
      else do {
        dma \<leftarrow> ad_op (probe_dma P);
        (case dma of
           Inl err \<Rightarrow> err_dma err
         | Inr dac \<Rightarrow> do {
             err \<leftarrow> ad_op (pci_do P Request_regions);
             (if err \<noteq> 0 then err_dma err
              else do {
                card_ev Set_master;
                ok \<leftarrow> ad_op (pci_get P Net_device);
                (if \<not> ok then err_alloc_etherdev (- ENOMEM)
                 else do {
                   modify (new_card ei);
                   probe_map E K P M (chips b) (get_variants ei) dac }) }) }) }) })"

section \<open>Removal\<close>

text \<open>The kernel takes an interface that is up down before it forgets the device.\<close>

definition unregister_netdev :: "mmio \<Rightarrow> e1000_chip \<Rightarrow> (e1000_adapter, unit option) state" where
  "unregister_netdev E C = do {
     up \<leftarrow> gets running;
     r \<leftarrow> (if up then do { modify (\<lambda>a. a\<lparr>running := False\<rparr>); e1000_close E (chip_ops C) }
           else ret (Some ()));
     on_some r (\<lambda>_. do { pci_ev (Release Registered); ret (Some ()) }) }"

definition e1000_remove :: "mmio \<Rightarrow> e1000_chip \<Rightarrow> (e1000_card, unit option) state" where
  "e1000_remove E C = do {
     set_ad (\<lambda>a. a\<lparr>is_down := True\<rparr>);
     ad_op (log_ev Stop_timers);
     card_ev Flush_work;
     ad_op (e1000_release_hw_control E);
     r \<leftarrow> ad_op (unregister_netdev E C);
     on_some r (\<lambda>_. do {
       free_phy C;
       ad_op e1000e_reset_interrupt_capability;
       card_ev (Release Tx_struct);
       card_ev (Release Rx_struct);
       card_ev (Release (Bar 0));
       flash \<leftarrow> gets flash_mapped;
       (if flash then card_ev (Release (Bar 1)) else skip);
       card_ev (Release Regions);
       card_ev (Release Net_device);
       card_ev No_error_reporting;
       card_ev (Release Device_enabled);
       ret (Some ()) }) }"

end
