(* ===== verification/ProbeProps.thy ===== *)
theory ProbeProps
  imports NetProbe NetLife
begin

text \<open>
  What probe and removal hold of the system: every exit of probe releases what it acquired, and the
  whole life of a device, with an interface that is opened and closed in between, leaves nothing.
\<close>

section \<open>The view of a card\<close>

definition ad_view :: "e1000_adapter \<Rightarrow> (mem_block \<Rightarrow> int) \<times> (resource \<Rightarrow> int) \<times> bool \<times> bool" where
  "ad_view a = (held (klog a), owned (klog a), running a, is_down a)"

definition card_view :: "e1000_card \<Rightarrow> ((mem_block \<Rightarrow> int) \<times> (resource \<Rightarrow> int) \<times> bool \<times> bool) \<times> bool" where
  "card_view c = (ad_view (ad c), flash_mapped c)"

lemmas view_defs = card_view_def ad_view_def

lemma wp_ad_op: "wp (ad_op m) Q c = wp m (\<lambda>r a. Q r (c\<lparr>ad := a\<rparr>)) (ad c)"
  by (simp add: ad_op_def wp_def split: prod.splits)

named_theorems card_intros

lemma card_ad [card_intros]: "keeps ad_view m \<Longrightarrow> keeps card_view (ad_op m)"
  by (simp add: keeps_def ad_op_def card_view_def split_def Let_def)

lemma ad_lives [card_intros]: "lives m \<Longrightarrow> keeps ad_view m"
  by (simp add: keeps_def ad_view_def life_view_def)

lemmas card_lives = card_ad[OF ad_lives]

lemma card_hw_keeps [card_intros]: "keeps card_view (card_hw m)"
  by (intro card_lives life_intros)

lemma step_keeps:
  "keeps v m \<Longrightarrow> (\<And>r d. v d = v c \<Longrightarrow> wp (f r) Q d) \<Longrightarrow> wp (State_Monad.bind m f) Q c"
  unfolding wp_bind by (simp add: keeps_def wp_iff)

lemma wp_step: "wp m (\<lambda>r d. wp (f r) Q d) c \<Longrightarrow> wp (State_Monad.bind m f) Q c"
  by simp

text \<open>The resources in \<open>S\<close> are held once more than \<open>v\<close> says; the memory is as \<open>H\<close> says.\<close>

definition plus :: "resource set \<Rightarrow> (resource \<Rightarrow> int) \<Rightarrow> resource \<Rightarrow> int" where
  "plus S v = (\<lambda>r. v r + (if r \<in> S then 1 else 0))"

definition stands :: "(mem_block \<Rightarrow> int) \<Rightarrow> (resource \<Rightarrow> int) \<Rightarrow> resource set \<Rightarrow> e1000_card \<Rightarrow> bool" where
  "stands H v S c \<longleftrightarrow> held (klog (ad c)) = H \<and> owned (klog (ad c)) = plus S v"

lemma stands_view: "card_view d = card_view c \<Longrightarrow> stands H v S d = stands H v S c"
  by (simp add: view_defs stands_def)

lemma plus_release: "r \<in> S \<Longrightarrow> (\<lambda>q. plus S v q + pci_gain (Release r) q) = plus (S - {r}) v"
  by (auto simp: plus_def pci_gain_def)

lemma plus_acquire: "r \<notin> S \<Longrightarrow> (\<lambda>q. plus S v q + pci_gain (Acquire r) q) = plus (insert r S) v"
  by (auto simp: plus_def pci_gain_def)

lemma wp_release:
  "stands H v (insert r S) c \<Longrightarrow> r \<notin> S \<Longrightarrow> (\<And>d. stands H v S d \<Longrightarrow> flash_mapped d = flash_mapped c \<Longrightarrow> running (ad d) = running (ad c) \<Longrightarrow> Q () d) \<Longrightarrow>
   wp (card_ev (Release r)) Q c"
  by (simp add: wp_ad_op stands_def plus_release)

lemma wp_acquire:
  "r \<notin> S \<Longrightarrow> stands H v S c \<Longrightarrow>
   (\<And>d. stands H v (insert r S) d \<Longrightarrow> running (ad d) = running (ad c) \<Longrightarrow> flash_mapped d = flash_mapped c \<Longrightarrow> Q True d) \<Longrightarrow>
   (\<And>d. stands H v S d \<Longrightarrow> running (ad d) = running (ad c) \<Longrightarrow> flash_mapped d = flash_mapped c \<Longrightarrow> Q False d) \<Longrightarrow>
   wp (ad_op (pci_get P r)) Q c"
  by (simp add: wp_ad_op stands_def plus_acquire pci_get_def)

section \<open>The error exits\<close>

text \<open>What is there at each label.\<close>

definition res_dma :: "resource set" where "res_dma = {Device_enabled}"
definition res_regions :: "resource set" where "res_regions = insert Regions res_dma"
definition res_netdev :: "resource set" where "res_netdev = insert Net_device res_regions"
definition res_bar :: "resource set" where "res_bar = insert (Bar 0) res_netdev"
definition res_sw :: "bool \<Rightarrow> resource set" where "res_sw flash = (if flash then insert (Bar 1) res_bar else res_bar)"
definition res_hw :: "bool \<Rightarrow> resource set" where "res_hw flash = insert Tx_struct (insert Rx_struct (res_sw flash))"

lemmas res_defs = res_dma_def res_regions_def res_netdev_def res_bar_def res_sw_def res_hw_def

text \<open>Past the mapping of the flash.\<close>

definition at_sw :: "(mem_block \<Rightarrow> int) \<Rightarrow> (resource \<Rightarrow> int) \<Rightarrow> e1000_card \<Rightarrow> bool" where
  "at_sw H v c \<longleftrightarrow> stands H v (res_sw (flash_mapped c)) c \<and> \<not> running (ad c)"

definition at_hw :: "(mem_block \<Rightarrow> int) \<Rightarrow> (resource \<Rightarrow> int) \<Rightarrow> e1000_card \<Rightarrow> bool" where
  "at_hw H v c \<longleftrightarrow> stands H v (res_hw (flash_mapped c)) c \<and> \<not> running (ad c) \<and> is_down (ad c)"

lemma at_view: "at_sw H v c \<Longrightarrow> card_view d = card_view c \<Longrightarrow> at_sw H v d"
  "at_hw H v c \<Longrightarrow> card_view d = card_view c \<Longrightarrow> at_hw H v d"
  by (auto simp: at_sw_def at_hw_def view_defs stands_def)

definition failed :: "(mem_block \<Rightarrow> int) \<Rightarrow> (resource \<Rightarrow> int) \<Rightarrow> int \<Rightarrow> int option \<Rightarrow> e1000_card \<Rightarrow> bool" where
  "failed H v err r c \<longleftrightarrow> r = Some err \<and> stands H v {} c"

lemma err_dma_wp: "stands H v res_dma c \<Longrightarrow> wp (err_dma e) (failed H v e) c"
  unfolding err_dma_def res_dma_def by (rule wp_step, erule wp_release) (simp_all add: failed_def)

lemma err_alloc_wp: "stands H v res_regions c \<Longrightarrow> wp (err_alloc_etherdev e) (failed H v e) c"
  unfolding err_alloc_etherdev_def res_regions_def
  by (rule wp_step, erule wp_release) (simp add: res_defs, erule err_dma_wp)

lemma err_ioremap_wp: "stands H v res_netdev c \<Longrightarrow> wp (err_ioremap e) (failed H v e) c"
  unfolding err_ioremap_def res_netdev_def
  by (rule wp_step, erule wp_release) (simp add: res_defs, erule err_alloc_wp)

lemma err_flashmap_wp: "stands H v res_bar c \<Longrightarrow> wp (err_flashmap e) (failed H v e) c"
  unfolding err_flashmap_def res_bar_def
  by (rule wp_step, erule wp_release) (simp add: res_defs, erule err_ioremap_wp)

lemma life_reset_cap [life_intros]: "lives e1000e_reset_interrupt_capability"
  unfolding e1000e_reset_interrupt_capability_def by (intro keeps_intros life_intros; simp add: life_view_def)

text \<open>The flash is unmapped if it is mapped, before the rest.\<close>

lemma wp_unmap_flash:
  assumes "at_sw H v c" "\<And>d. stands H v res_bar d \<Longrightarrow> wp (f ()) Q d"
  shows "wp (do { flash \<leftarrow> gets flash_mapped; (if flash then card_ev (Release (Bar 1)) else skip) \<bind> f }) Q c"
proof (cases "flash_mapped c")
  case True
  have "wp (card_ev (Release (Bar 1))) (\<lambda>r d. wp (f r) Q d) c"
  proof (rule wp_release[where S = res_bar])
    show "stands H v (insert (Bar 1) res_bar) c" using assms(1) True by (simp only: at_sw_def res_sw_def if_True)
  qed (auto simp: res_defs intro: assms(2))
  then show ?thesis using True by simp
qed (use assms in \<open>simp add: at_sw_def res_sw_def\<close>)

lemma err_sw_wp:
  assumes "at_sw H v c"
  shows "wp (err_sw_init e) (failed H v e) c"
  unfolding err_sw_init_def
  by (rule step_keeps[OF card_lives[OF life_reset_cap]], rule wp_unmap_flash, rule at_view(1)[OF assms], assumption,
    erule err_flashmap_wp)

lemma err_hw_wp:
  assumes "at_hw H v c"
  shows "wp (err_hw_init e) (failed H v e) c"
proof -
  have 1: "stands H v (insert Tx_struct (insert Rx_struct (res_sw (flash_mapped c)))) c" "\<not> running (ad c)"
    using assms unfolding at_hw_def res_hw_def by blast+
  have 2: "Tx_struct \<notin> insert Rx_struct (res_sw flash)" "Rx_struct \<notin> res_sw flash" for flash
    by (simp_all add: res_defs)
  show ?thesis
    unfolding err_hw_init_def
    by (rule wp_step, rule wp_release[OF 1(1) 2(1)], rule wp_step, erule wp_release[OF _ 2(2)], rule err_sw_wp)
      (use 1(2) in \<open>simp add: at_sw_def\<close>)
qed

lemma free_phy_keeps [card_intros]: "keeps card_view (free_phy C)"
  unfolding free_phy_def by (intro keeps_intros card_intros life_intros)

lemma hw_step:
  "at_hw H v c \<Longrightarrow> keeps card_view m \<Longrightarrow> (\<And>r d. at_hw H v d \<Longrightarrow> wp (f r) Q d) \<Longrightarrow> wp (State_Monad.bind m f) Q c"
  using at_view(2) by (blast intro: step_keeps)

lemma sw_step:
  "at_sw H v c \<Longrightarrow> keeps card_view m \<Longrightarrow> (\<And>r d. at_sw H v d \<Longrightarrow> wp (f r) Q d) \<Longrightarrow> wp (State_Monad.bind m f) Q c"
  using at_view(1) by (blast intro: step_keeps)

lemma err_eeprom_wp: "at_hw H v c \<Longrightarrow> wp (err_eeprom C e) (failed H v e) c"
  unfolding err_eeprom_def by (erule hw_step, rule free_phy_keeps, erule err_hw_wp)

lemma err_register_wp: "at_hw H v c \<Longrightarrow> wp (err_register E C e) (failed H v e) c"
  unfolding err_register_def
  by (erule hw_step, intro card_intros keeps_intros, erule hw_step, intro card_intros keeps_intros life_intros,
    erule err_eeprom_wp)

section \<open>The way through probe\<close>

text \<open>A code other than zero, and nothing more held than before; or success, with everything held.\<close>

definition probe_post :: "(mem_block \<Rightarrow> int) \<Rightarrow> (resource \<Rightarrow> int) \<Rightarrow> int option \<Rightarrow> e1000_card \<Rightarrow> bool" where
  "probe_post H v r c = (case r of None \<Rightarrow> True
   | Some err \<Rightarrow> (if err \<noteq> 0 then stands H v {} c
       else stands H v (insert Registered (res_hw (flash_mapped c))) c \<and> \<not> running (ad c) \<and> is_down (ad c)))"

lemma failed_post: "wp m (failed H v err) c \<Longrightarrow> err \<noteq> 0 \<Longrightarrow> wp m (probe_post H v) c"
  by (erule wp_mono) (simp add: failed_def probe_post_def)

lemma card_fields [card_intros]: "keeps card_view (gets f)" "keeps card_view (modify g)" if "\<And>c. card_view (g c) = card_view c"
  using that by (simp_all add: keeps_def)

lemma card_ev_keeps [card_intros]: "(\<And>r. pci_gain e r = 0) \<Longrightarrow> keeps card_view (card_ev e)"
  by (simp add: keeps_def ad_op_def view_defs)

lemma card_stop_queue [card_intros]: "keeps card_view (ad_op stop_queue)"
  by (intro card_intros life_intros)

lemma wp_register:
  assumes "at_hw H v c" "\<And>err d. err \<noteq> 0 \<Longrightarrow> at_hw H v d \<Longrightarrow> Q err d"
    "\<And>d. probe_post H v (Some 0) d \<Longrightarrow> Q 0 d"
  shows "wp (ad_op (pci_do P Register_netdev)) Q c"
proof -
  let ?err = "pci_code P (klog (ad c)) Register_netdev"
  let ?d = "c\<lparr>ad := (ad c)\<lparr>klog := Pci (Called Register_netdev ?err) # klog (ad c)\<rparr>\<rparr>"
  have gain: "(\<lambda>r. plus (res_hw flash) v r + pci_gain (Called Register_netdev 0) r) = plus (insert Registered (res_hw flash)) v" for flash
    by (auto simp: plus_def pci_gain_def res_defs)
  show ?thesis
  proof (cases "?err = 0")
    case True
    then have "probe_post H v (Some 0) ?d"
      using assms(1) by (simp add: at_hw_def stands_def probe_post_def gain)
    then show ?thesis using assms(3) True by (simp add: wp_ad_op pci_do_def)
  next
    case False
    then have "at_hw H v ?d" using assms(1) by (auto simp: at_hw_def stands_def pci_gain_def)
    then show ?thesis using assms(2) False by (simp add: wp_ad_op pci_do_def)
  qed
qed

lemma post_step:
  "probe_post H v (Some 0) c \<Longrightarrow> keeps card_view m \<Longrightarrow> wp (State_Monad.bind m (\<lambda>_. ret (Some 0))) (probe_post H v) c"
  by (rule step_keeps, assumption) (auto simp: probe_post_def stands_def view_defs)

lemma probe_register_wp: "at_hw H v c \<Longrightarrow> wp (probe_register E P C) (probe_post H v) c"
  unfolding probe_register_def
  apply (erule hw_step, (intro keeps_intros card_intros life_intros; simp add: view_defs)[1])
  apply (erule hw_step, (intro keeps_intros card_intros life_intros)[1])
  apply (erule hw_step, (intro keeps_intros card_intros; simp add: view_defs)[1])
  apply (erule hw_step, intro card_intros life_intros)
  apply (rule wp_step, erule wp_register)
   apply (simp add: failed_post[OF err_register_wp])
  apply (simp del: wp_bind, erule post_step, intro card_intros life_intros)
  done

lemma nvm_word_keeps [card_intros]: "keeps card_view (nvm_word C off)"
  unfolding nvm_word_def by (intro keeps_intros card_intros)

lemma probe_wol_keeps [card_intros]: "keeps card_view (probe_wol E C)"
  unfolding probe_wol_def by (intro keeps_intros card_intros life_intros; simp add: view_defs pci_gain_def)

lemma finish_wp: "at_hw H v c \<Longrightarrow> wp (probe_finish E P C) (probe_post H v) c"
  unfolding probe_finish_def
  apply (erule hw_step, (intro keeps_intros card_intros life_intros; simp add: view_defs probe_link_params_def Let_def)[1])+
  apply (rule wp_on_some)
   apply (simp add: probe_post_def)
  apply (erule probe_register_wp)
  done

lemma device_wp: "at_hw H v c \<Longrightarrow> wp (probe_device E P C dac) (probe_post H v) c"
  unfolding probe_device_def
  apply (erule hw_step, (intro keeps_intros card_intros life_intros; simp add: view_defs)[1])+
  apply (simp del: wp_bind)
  apply (intro conjI impI)
   apply (simp add: failed_post[OF err_eeprom_wp] EIO_def)
  apply (erule hw_step, (intro keeps_intros card_intros life_intros; simp add: view_defs)[1])+
  apply (simp add: failed_post[OF err_eeprom_wp] finish_wp EIO_def)
  done

lemma life_check_options [life_intros]: "lives (e1000e_check_options M bd)"
  unfolding e1000e_check_options_def by (intro keeps_intros life_intros; simp add: life_view_def split_def Let_def)

lemma variants_keeps [card_intros]: "keeps card_view (tag_quad_port dev)" "keeps card_view (e1000_get_variants_82571 E P C)"
  "keeps card_view e1000_get_variants_ich8lan" "keeps card_view (run_variants E P C v)"
proof -
  show tag: "keeps card_view (tag_quad_port dev)" for dev
    unfolding tag_quad_port_def by (intro keeps_intros card_intros; simp add: view_defs Let_def)
  show chip: "keeps card_view (e1000_get_variants_82571 E P C)"
    unfolding e1000_get_variants_82571_def by (intro keeps_intros keeps_sum tag card_intros life_intros; simp add: view_defs)
  show ich: "keeps card_view e1000_get_variants_ich8lan"
    unfolding e1000_get_variants_ich8lan_def by (intro keeps_intros card_intros; simp add: view_defs)
  show "keeps card_view (run_variants E P C v)"
    by (cases v) (simp_all add: run_variants_def chip ich keeps_intros)
qed

lemma seq_ok_keeps:
  "keeps v m \<Longrightarrow> (\<And>r b. r \<noteq> 0 \<Longrightarrow> v b = v a \<Longrightarrow> Q r b) \<Longrightarrow> (\<And>b. v b = v a \<Longrightarrow> wp n Q b) \<Longrightarrow> wp (seq_ok m n) Q a"
  unfolding seq_ok_def by (rule step_keeps, assumption) simp

text \<open>The two structures for the rings, or nothing.\<close>

definition queues_post :: "e1000_adapter \<Rightarrow> int \<Rightarrow> e1000_adapter \<Rightarrow> bool" where
  "queues_post a err b \<longleftrightarrow> (if err \<noteq> 0 then ad_view b = ad_view a
     else held (klog b) = held (klog a) \<and> owned (klog b) = plus {Tx_struct, Rx_struct} (owned (klog a)) \<and> running b = running a)"

lemma alloc_queues_wp: "wp (e1000_alloc_queues P) (queues_post a) a"
  by (auto simp: e1000_alloc_queues_def pci_get_def queues_post_def ad_view_def plus_def pci_gain_def fun_eq_iff ENOMEM_def)

lemma sw_init_wp:
  "wp (e1000_sw_init E K P C) (\<lambda>err b. queues_post a err b \<and> (err = 0 \<longrightarrow> is_down b)) a"
proof -
  have tail: "wp (do { err \<leftarrow> e1000_alloc_queues P; (if err \<noteq> 0 then ret (- ENOMEM)
      else do { e1000_irq_disable E; modify (\<lambda>a. a\<lparr>is_down := True\<rparr>); ret 0 }) })
      (\<lambda>err b. queues_post a err b \<and> (err = 0 \<longrightarrow> is_down b)) c" if "ad_view c = ad_view a" for c
  proof (rule wp_step, rule wp_mono[OF alloc_queues_wp])
    fix err b
    assume q: "queues_post c err b"
    show "wp (if err \<noteq> 0 then ret (- ENOMEM) else do { e1000_irq_disable E; modify (\<lambda>a. a\<lparr>is_down := True\<rparr>); ret 0 })
      (\<lambda>err b. queues_post a err b \<and> (err = 0 \<longrightarrow> is_down b)) b"
    proof (cases "err = 0")
      case True
      have "wp (do { e1000_irq_disable E; modify (\<lambda>a. a\<lparr>is_down := True\<rparr>); ret 0 })
        (\<lambda>err b. queues_post a err b \<and> (err = 0 \<longrightarrow> is_down b)) b"
        by (rule step_keeps[where v = life_view], intro life_intros)
          (use q that True in \<open>simp add: queues_post_def life_view_def ad_view_def\<close>)
      then show ?thesis using True by simp
    qed (use q that in \<open>simp add: queues_post_def ENOMEM_def\<close>)
  qed
  show ?thesis
    unfolding e1000_sw_init_def
    apply (rule step_keeps[where v = ad_view])
     apply (simp add: keeps_def ad_view_def)
    apply (rule seq_ok_keeps[where v = ad_view], intro card_intros life_intros, simp add: queues_post_def)+
    apply (rule step_keeps[where v = ad_view], intro card_intros life_intros, rule tail)
    apply simp
    done
qed

lemma queues_at:
  "at_sw H v c \<Longrightarrow> queues_post (ad c) err a \<Longrightarrow> err = 0 \<longrightarrow> is_down a \<Longrightarrow>
   if err = 0 then at_hw H v (c\<lparr>ad := a\<rparr>) else at_sw H v (c\<lparr>ad := a\<rparr>)"
  by (auto simp: at_sw_def at_hw_def queues_post_def stands_def ad_view_def plus_def res_hw_def res_sw_def res_bar_def res_netdev_def
    res_regions_def res_dma_def fun_eq_iff)

lemma sw_wp:
  assumes "at_sw H v c"
  shows "wp (probe_sw E K P M C x dac) (probe_post H v) c"
proof -
  have rest: "wp (if err \<noteq> 0 then err_sw_init err
      else do { err \<leftarrow> run_variants E P C x; (if err \<noteq> 0 then err_hw_init err else probe_device E P C dac) })
      (probe_post H v) d" if "if err = 0 then at_hw H v d else at_sw H v d" for err d
  proof (cases "err = 0")
    case True
    then have "at_hw H v d" using that by simp
    then have "wp (do { err \<leftarrow> run_variants E P C x; (if err \<noteq> 0 then err_hw_init err else probe_device E P C dac) })
        (probe_post H v) d"
      by (rule hw_step) (intro card_intros, simp add: failed_post[OF err_hw_wp] device_wp)
    then show ?thesis using True by simp
  qed (use that in \<open>simp add: failed_post[OF err_sw_wp]\<close>)
  show ?thesis
    using assms unfolding probe_sw_def
    apply -
    apply (erule sw_step, (intro keeps_intros card_intros life_intros; simp add: view_defs)[1])
    apply (erule sw_step, (intro keeps_intros card_intros life_intros; simp add: view_defs)[1])
    apply (erule sw_step, (intro keeps_intros card_intros life_intros; simp add: view_defs)[1])
    apply (rule wp_step, unfold wp_ad_op, rule wp_mono[OF sw_init_wp], erule conjE, rule rest, erule queues_at, assumption+)
    done
qed

section \<open>The bus and the mapping\<close>

lemma pci_do_keeps [card_intros]:
  "c \<noteq> Enable_device \<Longrightarrow> c \<noteq> Request_regions \<Longrightarrow> c \<noteq> Register_netdev \<Longrightarrow> keeps ad_view (pci_do P c)"
  by (simp add: keeps_def pci_do_def ad_view_def pci_gain_def)

text \<open>A call that acquires a resource.\<close>

lemma wp_call:
  assumes "stands H v S c" "r \<notin> S" "(x, r) \<in> {(Enable_device, Device_enabled), (Request_regions, Regions)}"
    and "\<And>err d. err \<noteq> 0 \<Longrightarrow> stands H v S d \<Longrightarrow> Q err d"
    and "\<And>d. stands H v (insert r S) d \<Longrightarrow> Q 0 d"
  shows "wp (ad_op (pci_do P x)) Q c"
proof -
  have "(\<lambda>q. plus S v q + pci_gain (Called x code) q) = plus (if code = 0 then insert r S else S) v" for code
    using assms(2,3) by (auto simp: plus_def pci_gain_def)
  then have log: "stands H v (if code = 0 then insert r S else S)
      (c\<lparr>ad := (ad c)\<lparr>klog := Pci (Called x code) # klog (ad c)\<rparr>\<rparr>)" for code
    using assms(1) by (simp add: stands_def)
  show ?thesis
    using log[of "pci_code P (klog (ad c)) x"] assms(4,5)
    by (cases "pci_code P (klog (ad c)) x = 0") (simp_all add: wp_ad_op pci_do_def)
qed

lemma stand_step:
  "stands H v S c \<Longrightarrow> keeps card_view m \<Longrightarrow> (\<And>r d. stands H v S d \<Longrightarrow> running (ad d) = running (ad c) \<Longrightarrow>
     flash_mapped d = flash_mapped c \<Longrightarrow> wp (f r) Q d) \<Longrightarrow> wp (State_Monad.bind m f) Q c"
  by (rule step_keeps, assumption) (simp add: view_defs stands_def)

lemma map_wp:
  assumes "stands H v res_netdev c" "\<not> running (ad c)" "\<not> flash_mapped c"
  shows "wp (probe_map E K P M C x dac) (probe_post H v) c"
proof -
  have bar: "wp (do {
      fl \<leftarrow> get_ad flags;
      (if fl AND FLAG_HAS_FLASH \<noteq> 0 \<and> flash_bar P then do {
         ok \<leftarrow> ad_op (pci_get P (Bar 1));
         modify (\<lambda>c. c\<lparr>flash_mapped := ok\<rparr>);
         (if \<not> ok then err_flashmap (- EIO) else probe_sw E K P M C x dac) }
       else probe_sw E K P M C x dac) }) (probe_post H v) d"
    if "stands H v res_bar d" "\<not> running (ad d)" "\<not> flash_mapped d" for d
  proof -
    have sw: "wp (probe_sw E K P M C x dac) (probe_post H v) d"
      using that by (intro sw_wp) (simp add: at_sw_def res_sw_def)
    have "wp (do {
         ok \<leftarrow> ad_op (pci_get P (Bar 1));
         modify (\<lambda>c. c\<lparr>flash_mapped := ok\<rparr>);
         (if \<not> ok then err_flashmap (- EIO) else probe_sw E K P M C x dac) }) (probe_post H v) d"
    proof (rule wp_step, rule wp_acquire[where S = res_bar])
      show "Bar 1 \<notin> res_bar" by (simp add: res_defs)
    next
      fix e
      assume "stands H v (insert (Bar 1) res_bar) e" "running (ad e) = running (ad d)"
      then have "at_sw H v (e\<lparr>flash_mapped := True\<rparr>)" using that by (simp add: at_sw_def res_sw_def stands_def)
      from sw_wp[OF this] show "wp (do { modify (\<lambda>c. c\<lparr>flash_mapped := True\<rparr>);
          (if \<not> True then err_flashmap (- EIO) else probe_sw E K P M C x dac) }) (probe_post H v) e" by simp
    next
      fix e
      assume "stands H v res_bar e"
      then have "stands H v res_bar (e\<lparr>flash_mapped := False\<rparr>)" by (simp add: stands_def)
      from failed_post[OF err_flashmap_wp[OF this]]
      show "wp (do { modify (\<lambda>c. c\<lparr>flash_mapped := False\<rparr>);
          (if \<not> False then err_flashmap (- EIO) else probe_sw E K P M C x dac) }) (probe_post H v) e" by (simp add: EIO_def)
    qed (use that in simp)
    with sw show ?thesis by (simp add: wp_ad_op)
  qed
  show ?thesis
    using assms(2,3) unfolding probe_map_def
    apply -
    apply (rule stand_step[OF assms(1)], intro card_intros; simp)
    apply (intro conjI impI)
     apply (simp add: failed_post[OF err_ioremap_wp])
    apply (rule wp_acquire[where S = res_netdev], simp add: res_defs, assumption)
     apply (simp only: not_True_eq_False if_False, rule bar; simp add: res_bar_def)
    apply (simp add: failed_post[OF err_ioremap_wp] EIO_def)
    done
qed

text \<open>What the codes of the masks say.\<close>

lemma dma_keeps [card_intros]: "keeps ad_view (probe_dma P)"
  unfolding probe_dma_def by (intro keeps_intros card_intros; simp)

lemma dma_code: "wp (probe_dma P) (\<lambda>r b. \<forall>err. r = Inl err \<longrightarrow> err \<noteq> 0) a"
  by (simp add: probe_dma_def pci_do_def)

lemma probe_wp: "wp (e1000_probe E K P M chips b) (probe_post (held (klog (ad c))) (owned (klog (ad c)))) c"
proof -
  let ?H = "held (klog (ad c))" let ?v = "owned (klog (ad c))" let ?ei = "e1000_info_tbl b"
  let ?map = "\<lambda>dac. do { modify (new_card ?ei); probe_map E K P M (chips b) (get_variants ?ei) dac }"
  let ?get = "\<lambda>dac. do { card_ev Set_master; ok \<leftarrow> ad_op (pci_get P Net_device);
      (if \<not> ok then err_alloc_etherdev (- ENOMEM) else ?map dac) }"
  let ?regions = "\<lambda>dac. do { err \<leftarrow> ad_op (pci_do P Request_regions); (if err \<noteq> 0 then err_dma err else ?get dac) }"
  have map: "wp (?map dac) (probe_post ?H ?v) d" if "stands ?H ?v res_netdev d" for d dac
  proof -
    have "stands ?H ?v res_netdev (new_card ?ei d)" "\<not> running (ad (new_card ?ei d))" "\<not> flash_mapped (new_card ?ei d)"
      using that by (simp_all add: stands_def new_card_def adapter_zero_def)
    then show ?thesis using map_wp by simp
  qed
  have get: "wp (?get dac) (probe_post ?H ?v) d" if "stands ?H ?v res_regions d" for d dac
    apply (rule stand_step[OF that], intro card_intros, simp add: pci_gain_def)
    apply (rule wp_step, rule wp_acquire[where S = res_regions], simp add: res_defs, assumption)
     apply (simp add: map[unfolded res_netdev_def] del: wp_bind)
    apply (simp add: failed_post[OF err_alloc_wp] ENOMEM_def)
    done
  have regions: "wp (?regions dac) (probe_post ?H ?v) d" if "stands ?H ?v res_dma d" for d dac
    apply (rule wp_step, rule wp_call[OF that, where r = Regions], simp add: res_defs, simp)
     apply (simp add: failed_post[OF err_dma_wp])
    apply (simp add: get[unfolded res_regions_def] del: wp_bind)
    done
  have dma: "wp (do { dma \<leftarrow> ad_op (probe_dma P); (case dma of Inl err \<Rightarrow> err_dma err | Inr dac \<Rightarrow> ?regions dac) })
      (probe_post ?H ?v) d" if "stands ?H ?v res_dma d" for d
  proof (rule wp_step, rule wp_mono)
    show "wp (ad_op (probe_dma P)) (\<lambda>(r :: int + bool) e. (\<forall>err. r = Inl err \<longrightarrow> err \<noteq> 0) \<and> card_view e = card_view d) d"
      by (rule wp_conj, simp add: wp_ad_op dma_code, rule keeps_wp, intro card_intros)
  next
    fix r :: "int + bool" and e
    assume r: "(\<forall>err. r = Inl err \<longrightarrow> err \<noteq> 0) \<and> card_view e = card_view d"
    then have "stands ?H ?v res_dma e" using that stands_view by blast
    with r show "wp (case r of Inl err \<Rightarrow> err_dma err | Inr dac \<Rightarrow> ?regions dac) (probe_post ?H ?v) e"
      by (cases r) (simp_all add: failed_post[OF err_dma_wp] regions del: wp_bind)
  qed
  have start: "stands ?H ?v {} c" by (simp add: stands_def plus_def)
  have aspm: "keeps ad_view (e1000e_disable_l1aspm P)"
    unfolding e1000e_disable_l1aspm_def by (intro keeps_intros; simp add: ad_view_def pci_gain_def)
  show ?thesis
    unfolding e1000_probe_def Let_def
    apply (rule stand_step[OF start], rule card_ad, rule aspm)
    apply (rule wp_step, rule wp_call[where r = Device_enabled], assumption, simp, simp)
     apply (simp add: probe_post_def)
    apply (simp add: dma[unfolded res_dma_def] del: wp_bind)
    done
qed

text \<open>
  C9: every way through probe, on any device, board and chip family, with calls of the kernel that
  fail anywhere: a code other than zero means that the driver holds of the system what it held
  before, neither more (nothing is leaked) nor less (nothing is released twice); zero means that it
  holds in addition each resource of a probed device once, the flash mapping if there is one, and that
  the interface is down and does not run.  The memory of rings is not touched.
\<close>

theorem probe_balanced:
  "case run_state (e1000_probe E K P M chips b) c of
     (None, d) \<Rightarrow> True
   | (Some err, d) \<Rightarrow> held (klog (ad d)) = held (klog (ad c)) \<and>
      (if err \<noteq> 0 then owned (klog (ad d)) = owned (klog (ad c))
       else owned (klog (ad d)) = (\<lambda>r. owned (klog (ad c)) r +
           (if r \<in> {Device_enabled, Regions, Net_device, Bar 0, Tx_struct, Rx_struct, Registered} \<union>
             (if flash_mapped d then {Bar 1} else {}) then 1 else 0)) \<and>
         \<not> running (ad d) \<and> is_down (ad d))"
proof -
  have "insert Registered (res_hw flash) = {Device_enabled, Regions, Net_device, Bar 0, Tx_struct, Rx_struct, Registered} \<union>
      (if flash then {Bar 1} else {})" for flash
    by (auto simp: res_defs)
  then show ?thesis
    using probe_wp[where E = E and K = K and P = P and M = M and chips = chips and b = b and c = c]
    by (auto simp: wp_def probe_post_def stands_def plus_def split: prod.splits option.splits if_splits)
qed

section \<open>Removal and a whole life\<close>

lemma lives_owned: "lives m \<Longrightarrow> owned (klog (exec m a)) = owned (klog a)"
  by (simp add: keeps_def life_view_def)

lemma add_blocks_owned [simp]: "view_owned (add_blocks n S v) = view_owned v"
  by (simp add: add_blocks_def)

lemma life_step_owned:
  assumes "life_step E K ops a b" "life_inv a"
  shows "owned (klog b) = owned (klog a)"
  using assms
proof (induction rule: life_step.induct)
  case (life_open a other err b)
  then have "open_post (life_view (a\<lparr>running := True\<rparr>)) (Some err) b"
    using net_open_wp[where alloc = "rx_alloc K" and meanwhile = other and E = E and K = K and ops = ops and a = "a\<lparr>running := True\<rparr>"] life_rx
    by (auto simp: wp_def)
  then have "view_owned (life_view b) = view_owned (life_view (a\<lparr>running := True\<rparr>))"
    by (simp add: open_post_def opened_def split: if_splits)
  then show ?case by (simp add: life_view_def)
next
  case (life_close a b)
  then have "view_owned (life_view b) = view_owned (life_view (a\<lparr>running := False\<rparr>))"
    using net_close_wp[where E = E and ops = ops and a = "a\<lparr>running := False\<rparr>"] by (auto simp: wp_def)
  then show ?case by (simp add: life_view_def)
next
  case (life_mtu n a err b)
  then have "life_view b = life_view a"
    using mtu_wp[where alloc = "rx_alloc K" and a = a and E = E and ops = ops and n = n] life_rx by (auto simp: wp_def life_inv_def)
  then show ?case by (simp add: life_view_def)
next
  case (life_reinit a b)
  then have "view_owned (life_view b) = view_owned (life_view a)"
    using reinit_wp[where alloc = "rx_alloc K" and E = E and ops = ops and a = a] life_rx by (auto simp: wp_def e1000_reset_task_def)
  then show ?case by (simp add: life_view_def)
qed (rule lives_owned; (intro life_intros)?; assumption)+

lemma life_steps_inv:
  assumes "rtranclp (life_step E K ops) a b" "life_inv a"
  shows "life_inv b \<and> owned (klog b) = owned (klog a)"
  using assms(1)
proof (induction rule: rtranclp_induct)
  case (step c d)
  then show ?case using life_step_inv life_step_owned by metis
qed (simp add: assms(2))

text \<open>Taking the interface down frees its memory; \<open>v\<close> is what else is held.\<close>

definition left_with :: "(resource \<Rightarrow> int) \<Rightarrow> unit option \<Rightarrow> e1000_adapter \<Rightarrow> bool" where
  "left_with v r b \<longleftrightarrow> (r \<noteq> None \<longrightarrow> held (klog b) = (\<lambda>k. 0) \<and> owned (klog b) = v)"

lemma unregister_wp:
  assumes "life_inv a"
  shows "wp (unregister_netdev E C) (left_with (\<lambda>q. owned (klog a) q + pci_gain (Release Registered) q)) (a\<lparr>is_down := True\<rparr>)"
proof -
  let ?v = "owned (klog a)" let ?v' = "\<lambda>q. owned (klog a) q + pci_gain (Release Registered) q"
  have held: "held (klog a) = (\<lambda>k. if k \<in> live_blocks a then 1 else 0)" using assms by (simp add: life_inv_def)
  have tail: "wp (on_some r (\<lambda>_. do { pci_ev (Release Registered); ret (Some ()) })) (left_with ?v') b"
    if "left_with ?v r b" for r b
    by (rule wp_on_some) (use that in \<open>simp_all add: left_with_def\<close>)
  show ?thesis
  proof (cases "running a")
    case True
    let ?a = "a\<lparr>is_down := True, running := False\<rparr>"
    have "left_with ?v r b" if "r \<noteq> None \<longrightarrow> life_view b =
        (add_blocks (- 1) (tx_blocks \<union> rx_blocks (ring_count (rx_ring ?a))) (life_view ?a))\<lparr>view_off := True\<rparr>" for r b
      using that held True by (auto simp: left_with_def life_view_def add_blocks_def live_blocks_def fun_eq_iff)
    then have "wp (e1000_close E (chip_ops C)) (left_with ?v) ?a" by (rule wp_mono[OF net_close_wp])
    then have "wp (e1000_close E (chip_ops C)) (\<lambda>r b. wp (on_some r (\<lambda>_. do { pci_ev (Release Registered); ret (Some ()) }))
        (left_with ?v') b) ?a"
      using tail by (rule wp_mono)
    then show ?thesis using True by (simp add: unregister_netdev_def)
  next
    case False
    then show ?thesis using held by (simp add: unregister_netdev_def live_blocks_def left_with_def)
  qed
qed

text \<open>The exits of removal, in its order.\<close>

definition removed :: "(resource \<Rightarrow> int) \<Rightarrow> unit option \<Rightarrow> e1000_card \<Rightarrow> bool" where
  "removed v r c \<longleftrightarrow> (r \<noteq> None \<longrightarrow> stands (\<lambda>k. 0) v {} c)"

lemma remove_exits:
  assumes "stands H v (res_hw (flash_mapped c)) c"
  shows "wp (do {
       card_ev (Release Tx_struct);
       card_ev (Release Rx_struct);
       card_ev (Release (Bar 0));
       flash \<leftarrow> gets flash_mapped;
       (if flash then card_ev (Release (Bar 1)) else skip);
       card_ev (Release Regions);
       card_ev (Release Net_device);
       card_ev No_error_reporting;
       card_ev (Release Device_enabled);
       ret (Some ()) }) (\<lambda>r d. stands H v {} d) c"
  using assms
  by (auto simp: wp_ad_op stands_def plus_def pci_gain_def res_defs fun_eq_iff)

definition life_of :: "e1000_card \<Rightarrow> life_view \<times> bool" where
  "life_of c = (life_view (ad c), flash_mapped c)"

lemma life_of_keeps: "lives m \<Longrightarrow> keeps life_of (ad_op m)"
  by (simp add: keeps_def ad_op_def life_of_def split_def Let_def)

lemma remove_wp:
  assumes "life_inv (ad c)" "owned (klog (ad c)) = plus (insert Registered (res_hw (flash_mapped c))) v"
  shows "wp (e1000_remove E C) (removed v) c"
proof -
  let ?a = "ad c"
  let ?exits = "do {
       free_phy C;
       ad_op e1000e_reset_interrupt_capability;
       card_ev (Release Tx_struct);
       card_ev (Release Rx_struct);
       card_ev (Release (Bar 0));
       flash \<leftarrow> gets flash_mapped;
       (if flash then card_ev (Release (Bar 1)) else skip);
       card_ev (Release Regions);
       card_ev (Release Net_device);
       card_ev No_error_reporting;
       card_ev (Release Device_enabled);
       ret (Some ()) }"
  have exits: "wp ?exits (removed v) d" if "stands (\<lambda>k. 0) v (res_hw (flash_mapped d)) d" for d
  proof -
    have "wp ?exits (\<lambda>r d. stands (\<lambda>k. 0) v {} d) d"
      by (rule stand_step[OF that], intro card_intros, erule stand_step, intro card_intros life_intros)
        (rule remove_exits, simp)
    then show ?thesis by (rule wp_mono) (simp add: removed_def)
  qed
  have gain: "(\<lambda>q. plus (insert Registered (res_hw flash)) v q + pci_gain (Release Registered) q) = plus (res_hw flash) v" for flash
    by (auto simp: plus_def pci_gain_def res_defs fun_eq_iff)
  have unreg: "wp (do { r \<leftarrow> ad_op (unregister_netdev E C); on_some r (\<lambda>_. ?exits) }) (removed v) d"
    if "life_view (ad d) = (life_view ?a)\<lparr>view_off := True\<rparr>" "flash_mapped d = flash_mapped c" for d
  proof -
    let ?b = "(ad d)\<lparr>is_down := \<not> running (ad d)\<rparr>"
    have view: "life_view ?b = life_view ?a"
      using that assms(1) by (simp add: life_view_def life_inv_def)
    have off: "?b\<lparr>is_down := True\<rparr> = ad d"
      using arg_cong[OF that(1), of view_off] by (simp add: life_view_def)
    have own: "owned (klog ?b) = plus (insert Registered (res_hw (flash_mapped d))) v"
      using arg_cong[OF view, of view_owned] assms(2) that(2) by (simp add: life_view_def)
    have "wp (unregister_netdev E C) (left_with (plus (res_hw (flash_mapped d)) v)) (ad d)"
      using unregister_wp[OF life_inv_view[OF view assms(1)], where E = E and C = C] unfolding off own gain .
    then have "wp (unregister_netdev E C) (\<lambda>r b. wp (on_some r (\<lambda>_. ?exits)) (removed v) (d\<lparr>ad := b\<rparr>)) (ad d)"
      by (rule wp_mono) (rule wp_on_some, simp add: removed_def, rule exits, simp add: left_with_def stands_def)
    then show ?thesis by (simp add: wp_ad_op)
  qed
  show ?thesis
    unfolding e1000_remove_def
    apply (rule wp_step, simp only: wp_ad_op wp_State prod.case)
    apply (rule step_keeps[OF life_of_keeps], intro keeps_intros, simp)
    apply (rule step_keeps[OF life_of_keeps], intro keeps_intros, simp add: pci_gain_def)
    apply (rule step_keeps[OF life_of_keeps], intro life_intros, rule unreg)
     apply (simp_all add: life_of_def)
     apply (simp add: life_view_def)
    done
qed


definition chip_null :: e1000_chip where
  "chip_null = \<lparr>chip_ops = ops_null, init_mac_params = (\<lambda>d. ret 0), init_nvm_params = ret 0, init_phy_params = ret 0,
     get_bus_info = (\<lambda>s. ret 0), check_reset_block = ret 0, phy_reset = ret 0, nvm_validate = ret 0,
     nvm_rd = (\<lambda>off n. ret (Inr (replicate n 0))),
     read_mac_addr = do { set_mac (\<lambda>m. m\<lparr>mac_addr := [0, 0x1B, 0x21, 1, 2, 3]\<rparr>); ret 0 },
     phy_acquire = ret 0, phy_release = skip\<rparr>"

definition pci_null :: pci where
  "pci_null = \<lparr>pci_code = (\<lambda>h c. 0), res_ok = (\<lambda>h r. True), device_id = 0x109A, flash_bar = False, exp_cap = 0,
     cfg_word = (\<lambda>h n. 0), up_word = (\<lambda>h. 0), choose_state = 3\<rparr>"

definition params_null :: e1000_params where
  "params_null = \<lparr>TxIntDelay = [], TxAbsIntDelay = [], RxIntDelay = [], RxAbsIntDelay = [], InterruptThrottleRate = [],
     IntMode = [], SmartPowerDownEnable = [], CrcStripping = [], KumeranLockLoss = []\<rparr>"

definition card_null :: e1000_card where
  "card_null = \<lparr>ad = adapter_zero, bd_number = 0, fc_autoneg = False, eeprom_wol = 0, eeprom_vers = 0,
     netdev_perm_addr = [], flash_mapped = False, cards_found = 0, global_quad_port_a = 0\<rparr>"

text \<open>The result of a step is known, and that there is no group of VLANs stays so.\<close>

definition no_vlans :: "e1000_card \<Rightarrow> bool" where
  "no_vlans c \<longleftrightarrow> vlgrp (ad c) = None"

lemma vlan_keeps: "keeps vlgrp m \<Longrightarrow> keeps no_vlans (ad_op m)"
  by (simp add: keeps_def ad_op_def no_vlans_def split_def Let_def)

lemma vlan_step:
  "no_vlans c \<Longrightarrow> keeps no_vlans m \<Longrightarrow> (\<And>r d. no_vlans d \<Longrightarrow> wp (f r) Q d) \<Longrightarrow> wp (State_Monad.bind m f) Q c"
  by (rule step_keeps, assumption) simp

lemma any_step: "(\<And>r d. wp (f r) Q d) \<Longrightarrow> wp (State_Monad.bind m f) Q c"
  unfolding wp_bind by (simp add: wp_iff)

lemma result_step: "wp m (\<lambda>r d. r = x) c \<Longrightarrow> (\<And>d. wp (f x) Q d) \<Longrightarrow> wp (State_Monad.bind m f) Q c"
  by (auto intro: wp_mono)

lemma known_step:
  "wp m (\<lambda>r d. r = x \<and> no_vlans d) c \<Longrightarrow> (\<And>d. no_vlans d \<Longrightarrow> wp (f x) Q d) \<Longrightarrow> wp (State_Monad.bind m f) Q c"
  by (auto intro: wp_mono)

lemma call_null: "wp (ad_op (pci_do pci_null x)) (\<lambda>r d. r = 0) c" "wp (ad_op (pci_get pci_null q)) (\<lambda>r d. r = True) c"
  "no_vlans c \<Longrightarrow> wp (ad_op (pci_do pci_null x)) (\<lambda>r d. r = 0 \<and> no_vlans d) c"
  "no_vlans c \<Longrightarrow> wp (ad_op (pci_get pci_null q)) (\<lambda>r d. r = True \<and> no_vlans d) c"
  by (simp_all add: wp_ad_op pci_do_def pci_get_def pci_null_def no_vlans_def)

lemma finish_null: "no_vlans c \<Longrightarrow> wp (probe_finish E pci_null chip_null) (\<lambda>r d. r = Some 0) c"
  unfolding probe_finish_def
  apply (rule known_step[where x = "()"], simp add: wp_ad_op no_vlans_def probe_link_params_def Let_def)
  apply (rule known_step[where x = "()"], simp add: no_vlans_def)
  apply (rule known_step[where x = "()"])
   apply (simp add: probe_wol_def nvm_word_def wp_ad_op wp_hw_op no_vlans_def chip_null_def er32_def Let_def)
  apply (rule known_step[where x = 0], simp add: nvm_word_def wp_ad_op wp_hw_op no_vlans_def chip_null_def)
  apply (rule known_step[where x = "()"], simp add: no_vlans_def)
  apply (rule wp_step, unfold wp_ad_op, rule wp_mono[OF reset_some], simp add: no_vlans_def)
  apply (simp add: probe_register_def del: wp_bind)
  apply (rule any_step, rule any_step, rule any_step, rule any_step, rule result_step[OF call_null(1)])
  apply (simp del: wp_bind, rule any_step, simp)
  done

lemma read_null: "read_mac_addr chip_null = do { set_mac (\<lambda>m. m\<lparr>mac_addr := [0, 0x1B, 0x21, 1, 2, 3]\<rparr>); ret 0 }"
  "flash_bar pci_null = False"
  by (simp_all add: chip_null_def pci_null_def)

lemma device_null: "no_vlans c \<Longrightarrow> wp (probe_device E pci_null chip_null dac) (\<lambda>r d. r = Some 0) c"
  unfolding probe_device_def
  apply (erule vlan_step, (intro keeps_intros vlan_keeps; simp)[1])
  apply (erule vlan_step, (intro keeps_intros vlan_keeps; simp)[1])
  apply (erule vlan_step, (intro keeps_intros vlan_keeps; simp)[1])
  apply (erule vlan_step, (intro keeps_intros vlan_keeps; simp)[1])
  apply (erule vlan_step, (intro keeps_intros vlan_keeps; simp)[1])
  apply (erule vlan_step, (intro keeps_intros vlan_keeps; simp)[1])
  apply (erule vlan_step, (intro keeps_intros vlan_keeps; simp)[1])
  apply (erule vlan_step, (intro keeps_intros vlan_keeps; simp)[1])
  apply (erule vlan_step, (intro keeps_intros vlan_keeps; simp)[1])
  apply (rule known_step[where x = True], simp add: wp_ad_op wp_hw_op chip_null_def no_vlans_def numeral_eq_Suc)
  apply (simp del: wp_bind)
  apply (erule vlan_step, (intro keeps_intros vlan_keeps; simp)[1])
  apply (simp add: wp_ad_op wp_hw_op read_null is_valid_ether_addr_def zero_addr_def numeral_eq_Suc)
  apply (rule finish_null, simp add: no_vlans_def)
  done

lemma ad_known: "wp m (\<lambda>r b. r = x \<and> vlgrp b = None) (ad c) \<Longrightarrow> wp (ad_op m) (\<lambda>r d. r = x \<and> no_vlans d) c"
  unfolding wp_ad_op by (erule wp_mono) (simp add: no_vlans_def)

lemma init_null: "init_mac_params chip_null = (\<lambda>d. ret 0)" "init_nvm_params chip_null = ret 0" "init_phy_params chip_null = ret 0"
  by (simp_all add: chip_null_def)

lemma sw_init_null: "vlgrp a = None \<Longrightarrow> wp (e1000_sw_init E kernel0 pci_null chip_null) (\<lambda>r b. r = 0 \<and> vlgrp b = None) a"
proof -
  assume a: "vlgrp a = None"
  have cap: "keeps vlgrp (e1000e_set_interrupt_capability kernel0)"
    unfolding e1000e_set_interrupt_capability_def set_msi_def set_msix_def e1000e_reset_interrupt_capability_def
    by (intro keeps_intros; simp)
  have dis: "keeps vlgrp (e1000_irq_disable E)"
    unfolding e1000_irq_disable_def by (intro keeps_intros; simp)
  have queues: "wp (e1000_alloc_queues pci_null) (\<lambda>r b. r = 0 \<and> vlgrp b = vlgrp c) c" for c
    by (simp add: e1000_alloc_queues_def pci_get_def pci_null_def)
  have rings: "wp (State_Monad.bind (e1000_alloc_queues pci_null) f) Q c"
    if "\<And>d. vlgrp d = vlgrp c \<Longrightarrow> wp (f 0) Q d" for f c and Q :: "int \<Rightarrow> e1000_adapter \<Rightarrow> bool"
    by (rule wp_step, rule wp_mono[OF queues]) (use that in auto)
  show ?thesis
    unfolding e1000_sw_init_def
    apply (rule step_keeps[where v = vlgrp], (intro keeps_intros; simp)[1])
    apply (simp add: wp_hw_op init_null del: wp_bind)
    apply (rule step_keeps[OF cap], rule rings)
    apply (simp del: wp_bind)
    apply (rule step_keeps[OF dis], simp add: a)
    done
qed

lemma variants_null: "no_vlans c \<Longrightarrow> wp (run_variants E P C v) (\<lambda>r d. r = 0 \<and> no_vlans d) c"
proof (rule wp_conj)
  show "wp (run_variants E P C v) (\<lambda>r d. r = 0) c"
    unfolding run_variants_def e1000_get_variants_82571_def e1000_get_variants_ich8lan_def
    by (cases v; simp del: wp_bind; (rule any_step)+; simp)
next
  assume c: "no_vlans c"
  have "keeps no_vlans (tag_quad_port dev)" for dev
    unfolding tag_quad_port_def by (intro keeps_intros; simp add: no_vlans_def Let_def)
  then have "keeps no_vlans (e1000_get_variants_82571 E P C)"
    unfolding e1000_get_variants_82571_def by (intro keeps_intros keeps_sum vlan_keeps; simp)
  moreover have "keeps no_vlans e1000_get_variants_ich8lan"
    unfolding e1000_get_variants_ich8lan_def by (intro keeps_intros vlan_keeps; simp)
  ultimately have "keeps no_vlans (run_variants E P C v)"
    by (cases v) (simp_all add: run_variants_def keeps_intros)
  with c show "wp (run_variants E P C v) (\<lambda>r. no_vlans) c" by (simp add: keeps_def wp_iff)
qed

lemma sw_null: "no_vlans c \<Longrightarrow> wp (probe_sw E kernel0 pci_null params_null chip_null x dac) (\<lambda>r d. r = Some 0) c"
  unfolding probe_sw_def
  apply (erule vlan_step, (intro keeps_intros vlan_keeps; simp add: no_vlans_def)[1])
  apply (erule vlan_step, (intro keeps_intros vlan_keeps; simp)[1])
  apply (erule vlan_step, rule vlan_keeps, unfold e1000e_check_options_def, (intro keeps_intros; simp add: split_def Let_def)[1])
  apply (rule known_step[OF ad_known], rule sw_init_null, simp add: no_vlans_def, simp del: wp_bind)
  apply (rule known_step[OF variants_null], assumption, simp add: device_null)
  done

lemma probe_null_ok: "wp (e1000_probe E kernel0 pci_null params_null (\<lambda>b. chip_null) b) (\<lambda>r d. r = Some 0) c"
  unfolding e1000_probe_def Let_def
  apply (rule any_step, rule result_step[OF call_null(1)], simp del: wp_bind)
  apply (rule result_step[where x = "Inr True"], simp add: wp_ad_op probe_dma_def pci_do_def pci_null_def, simp del: wp_bind)
  apply (rule result_step[OF call_null(1)], simp del: wp_bind)
  apply (rule any_step, rule result_step[OF call_null(2)], simp del: wp_bind)
  apply (rule known_step[where x = "()"], simp add: new_card_def no_vlans_def adapter_zero_def)
  apply (unfold probe_map_def)
  apply (rule known_step[OF call_null(3)], assumption, simp del: wp_bind)
  apply (rule known_step[OF call_null(4)], assumption, simp del: wp_bind)
  apply (erule vlan_step, (intro keeps_intros vlan_keeps; simp)[1])
  apply (simp add: sw_null read_null)
  done

lemma remove_idle: "\<not> running (ad c) \<Longrightarrow> wp (e1000_remove E C) (\<lambda>r z. r = Some ()) c"
proof -
  assume c: "\<not> running (ad c)"
  have unreg: "wp (ad_op (unregister_netdev E C)) (\<lambda>r z. r = Some ()) d" if "\<not> running (ad d)" for d
    using that by (simp add: unregister_netdev_def wp_ad_op)
  have step: "wp (State_Monad.bind m f) Q d"
    if "\<not> running (ad d)" "keeps (\<lambda>c. running (ad c)) m" "\<And>r e. \<not> running (ad e) \<Longrightarrow> wp (f r) Q e" for m f d Q
    using that by (blast intro: step_keeps)
  have run: "keeps running m \<Longrightarrow> keeps (\<lambda>c. running (ad c)) (ad_op m)" for m :: "(e1000_adapter, unit) state"
    by (simp add: keeps_def ad_op_def split_def Let_def)
  show ?thesis
    unfolding e1000_remove_def
    apply (rule step[OF c], rule run, (intro keeps_intros; simp)[1])
    apply (erule step, rule run, (intro keeps_intros; simp)[1])
    apply (erule step, rule run, (intro keeps_intros; simp)[1])
    apply (erule step, rule run, unfold e1000_release_hw_control_def hw_control_def, (intro keeps_intros; simp)[1])
    apply (rule result_step[OF unreg], assumption, unfold on_some_simps)
    apply (rule any_step)+
    apply simp
    done
qed


end
