(* ===== verification/NetPm.thy ===== *)
theory NetPm
  imports NetProbe NetPages
begin

text \<open>
  Power management and recovery from errors of the bus, netdev.c: suspend, resume, the three steps
  of error recovery, polling without interrupts, and the workarounds of e1000_ich8lan.c they use.
\<close>

section \<open>Workarounds of the ICH8 chips\<close>

abbreviation PHY_CTRL :: u32 where "PHY_CTRL \<equiv> 0x00F10"

definition e1000e_disable_gig_wol_ich8lan :: "mmio \<Rightarrow> (e1000_hw, unit) state" where
  "e1000e_disable_gig_wol_ich8lan E = do {
     t \<leftarrow> gets (\<lambda>h. mac_type (mac h));
     (if t = e1000_ich9lan \<or> t = e1000_ich10lan then reg_update E PHY_CTRL (\<lambda>v. v OR 0x00000002 OR 0x00000040)
      else skip) }"

text \<open>The diagnostic register of the Kumeran interface: near-end loopback on and off.\<close>

definition e1000e_gig_downshift_workaround_ich8lan :: "mmio \<Rightarrow> e1000_chip \<Rightarrow> (e1000_hw, unit) state" where
  "e1000e_gig_downshift_workaround_ich8lan E C = do {
     h \<leftarrow> gets (\<lambda>h. h);
     (if mac_type (mac h) \<noteq> e1000_ich8lan \<or> phy_type (phy h) \<noteq> e1000_phy_igp_3 then skip
      else do {
        r \<leftarrow> e1000e_read_kmrn_reg E (phy_acquire C) (phy_release C) 0x3;
        (case r of Inl e \<Rightarrow> skip
         | Inr v \<Rightarrow> do {
             r \<leftarrow> e1000e_write_kmrn_reg (phy_acquire C) (phy_release C) 0x3 (v OR 0x1000);
             (if r \<noteq> 0 then skip
              else do {
                r \<leftarrow> e1000e_write_kmrn_reg (phy_acquire C) (phy_release C) 0x3 ((v OR 0x1000) AND NOT 0x1000);
                skip }) }) }) }"

text \<open>
  The voltage regulator of the PHY is told to power down and read back; after a failure the PHY is
  reset and the steps are done once more.  \<open>data\<close> is the variable for a PHY register, kept by a read
  that fails.
\<close>

definition read_or_keep :: "phy_rd \<Rightarrow> u32 \<Rightarrow> u16 \<Rightarrow> (e1000_hw, u16) state" where
  "read_or_keep rd reg data = do { r \<leftarrow> rd reg; ret (case r of Inl e \<Rightarrow> data | Inr v \<Rightarrow> v) }"

definition IGP3_VR_CTRL :: u32 where "IGP3_VR_CTRL = push_bit 5 776 OR 18"

fun igp3_powerdown :: "mmio \<Rightarrow> e1000_chip \<Rightarrow> u16 \<Rightarrow> nat \<Rightarrow> (e1000_hw, unit) state" where
  "igp3_powerdown E C data 0 = skip"
| "igp3_powerdown E C data (Suc n) = do {
     reg_update E PHY_CTRL (\<lambda>v. v OR 0x00000040 OR 0x00000008);
     t \<leftarrow> gets (\<lambda>h. mac_type (mac h));
     (if t = e1000_ich8lan then e1000e_gig_downshift_workaround_ich8lan E C else skip);
     data \<leftarrow> read_or_keep (rphy (chip_ops C)) IGP3_VR_CTRL data;
     r \<leftarrow> wphy (chip_ops C) IGP3_VR_CTRL ((data AND NOT 0x0300) OR 0x0200);
     data \<leftarrow> read_or_keep (rphy (chip_ops C)) IGP3_VR_CTRL (data AND NOT 0x0300);
     (if data AND 0x0300 = 0x0200 \<or> n = 0 then skip
      else do {
        reg_update E CTRL (\<lambda>v. v OR 0x80000000);
        igp3_powerdown E C (data AND 0x0300) n }) }"

definition e1000e_igp3_phy_powerdown_workaround_ich8lan :: "mmio \<Rightarrow> e1000_chip \<Rightarrow> u16 \<Rightarrow> (e1000_hw, unit) state" where
  "e1000e_igp3_phy_powerdown_workaround_ich8lan E C junk = do {
     t \<leftarrow> gets (\<lambda>h. phy_type (phy h));
     (if t \<noteq> e1000_phy_igp_3 then skip else igp3_powerdown E C junk 2) }"

definition e1000e_downshift_workaround :: "mmio \<Rightarrow> e1000_chip \<Rightarrow> (e1000_adapter, unit) state" where
  "e1000e_downshift_workaround E C = hw_op (e1000e_gig_downshift_workaround_ich8lan E C)"

section \<open>Suspend and resume\<close>

abbreviation WUC :: u32 where "WUC \<equiv> 0x05800"
abbreviation WUFC :: u32 where "WUFC \<equiv> 0x05808"
abbreviation WUS :: u32 where "WUS \<equiv> 0x05810"

text \<open>Wake-up from the two deepest power states.\<close>

definition pci_wake :: "bool \<Rightarrow> (e1000_adapter, unit) state" where
  "pci_wake on = do { pci_ev (Enable_wake True on); pci_ev (Enable_wake False on) }"

text \<open>The filters that wake: a change of the link does not when there is one.\<close>

definition wufc_of :: "u32 \<Rightarrow> u32 \<Rightarrow> u32" where
  "wufc_of w status = (if status AND 0x00000002 \<noteq> 0 then w AND NOT 0x00000001 else w)"

definition suspend_wake :: "mmio \<Rightarrow> e1000_chip \<Rightarrow> u32 \<Rightarrow> (e1000_adapter, unit option) state" where
  "suspend_wake E C wufc =
     (if wufc \<noteq> 0 then do {
        e1000_setup_rctl E;
        r \<leftarrow> e1000_set_multi E (chip_ops C);
        on_some r (\<lambda>_. do {
          (if wufc AND 0x00000008 \<noteq> 0 then reg_mod E RCTL (\<lambda>v. v OR 0x00000010) else skip);
          reg_mod E CTRL (\<lambda>v. v OR 0x00100000 OR 0x00200000);
          a \<leftarrow> gets (\<lambda>a. a);
          (let media = media_type (phy (hw a)) in
           if media = e1000_media_type_fiber \<or> media = e1000_media_type_internal_serdes
           then reg_mod E CTRL_EXT (\<lambda>v. v OR 0x00000080) else skip);
          (if flags a AND FLAG_IS_ICH \<noteq> 0 then hw_op (e1000e_disable_gig_wol_ich8lan E) else skip);
          r \<leftarrow> hw_op (e1000e_disable_pcie_master E);
          hw_op (ew32 WUC 0x2);
          hw_op (ew32 WUFC wufc);
          pci_wake True;
          ret (Some ()) }) }
      else do {
        hw_op (ew32 WUC 0);
        hw_op (ew32 WUFC 0);
        pci_wake False;
        ret (Some ()) })"

text \<open>On a quad port adapter the bridge above must not report errors while the power goes.\<close>

definition suspend_power :: "pci \<Rightarrow> (e1000_adapter, unit) state" where
  "suspend_power P = do {
     a \<leftarrow> gets (\<lambda>a. a);
     (if flags a AND FLAG_IS_QUAD_PORT \<noteq> 0 then do {
        pci_ev (Upstream_control (up_word P (klog a) AND NOT 0x0001));
        pci_ev (Power_state (choose_state P));
        pci_ev (Upstream_control (up_word P (klog a))) }
      else pci_ev (Power_state (choose_state P))) }"

text \<open>The interface is taken away from the stack and its handlers from the kernel.\<close>

definition suspend_quiesce :: "mmio \<Rightarrow> e1000_chip \<Rightarrow> (e1000_adapter, unit option) state" where
  "suspend_quiesce E C = do {
     pci_ev Detach;
     up \<leftarrow> gets running;
     r \<leftarrow> (if up then e1000e_down E (chip_ops C) else ret (Some ()));
     on_some r (\<lambda>_. do {
       (if up then e1000_free_irq else skip);
       e1000e_reset_interrupt_capability;
       ret (Some ()) }) }"

definition e1000_suspend :: "mmio \<Rightarrow> pci \<Rightarrow> e1000_chip \<Rightarrow> u16 \<Rightarrow> (e1000_adapter, int option) state" where
  "e1000_suspend E P C junk = do {
     w \<leftarrow> gets wol;
     r \<leftarrow> suspend_quiesce E C;
     on_some r (\<lambda>_. do {
       err \<leftarrow> pci_do P Save_state;
       (if err \<noteq> 0 then ret (Some err)
        else do {
          status \<leftarrow> hw_op (er32 E STATUS);
          r \<leftarrow> suspend_wake E C (wufc_of w status);
          on_some r (\<lambda>_. do {
            fl \<leftarrow> gets flags;
            (if fl AND FLAG_MNG_PT_ENABLED \<noteq> 0 then pci_wake True else skip);
            hw_op (e1000e_igp3_phy_powerdown_workaround_ich8lan E C junk);
            e1000_release_hw_control E;
            pci_ev (Release Device_enabled);
            suspend_power P;
            ret (Some 0) }) }) }) }"

definition e1000_shutdown :: "mmio \<Rightarrow> pci \<Rightarrow> e1000_chip \<Rightarrow> u16 \<Rightarrow> (e1000_adapter, int option) state" where
  "e1000_shutdown E P C junk = e1000_suspend E P C junk"

text \<open>The end of resume, after the handlers.\<close>

definition resume_up :: "mmio \<Rightarrow> kernel \<Rightarrow> e1000_chip \<Rightarrow> (e1000_adapter, unit option) state" where
  "resume_up E K C = do {
     e1000_init_manageability E;
     up \<leftarrow> gets running;
     r \<leftarrow> (if up then e1000e_up E (chip_ops C) (rx_alloc K) else ret (Some ()));
     on_some r (\<lambda>_. do {
       pci_ev Attach;
       fl \<leftarrow> gets flags;
       (if fl AND FLAG_HAS_AMT = 0 then e1000_get_hw_control E else skip);
       ret (Some ()) }) }"

definition e1000_resume :: "mmio \<Rightarrow> kernel \<Rightarrow> pci \<Rightarrow> e1000_chip \<Rightarrow> (e1000_adapter, int option) state" where
  "e1000_resume E K P C = do {
     pci_ev (Power_state 0);
     pci_ev Restore_state;
     e1000e_disable_l1aspm P;
     err \<leftarrow> pci_do P Enable_device;
     (if err \<noteq> 0 then ret (Some err)
      else do {
        err \<leftarrow> pci_do P Error_reporting;
        pci_ev Set_master;
        pci_wake False;
        e1000e_set_interrupt_capability K;
        up \<leftarrow> gets running;
        err \<leftarrow> (if up then e1000_request_irq E K else ret 0);
        (if err \<noteq> 0 then ret (Some err)
         else do {
           e1000e_power_up_phy (chip_ops C);
           r \<leftarrow> e1000e_reset E (chip_ops C);
           on_some r (\<lambda>_. do {
             hw_op (ew32 WUS 0xFFFFFFFF);
             r \<leftarrow> resume_up E K C;
             on_some r (\<lambda>_. ret (Some 0)) }) }) }) }"

section \<open>Polling and recovery\<close>

definition e1000_netpoll :: "mmio \<Rightarrow> (e1000_adapter, unit) state" where
  "e1000_netpoll E = do {
     pci_ev Disable_irq;
     r \<leftarrow> e1000_intr E;
     pci_ev Enable_irq }"

datatype pci_ers_result = PCI_ERS_RESULT_NEED_RESET | PCI_ERS_RESULT_DISCONNECT | PCI_ERS_RESULT_RECOVERED

definition e1000_io_error_detected :: "mmio \<Rightarrow> e1000_chip \<Rightarrow> (e1000_adapter, pci_ers_result option) state" where
  "e1000_io_error_detected E C = do {
     pci_ev Detach;
     up \<leftarrow> gets running;
     r \<leftarrow> (if up then e1000e_down E (chip_ops C) else ret (Some ()));
     on_some r (\<lambda>_. do { pci_ev (Release Device_enabled); ret (Some PCI_ERS_RESULT_NEED_RESET) }) }"

definition e1000_io_slot_reset :: "mmio \<Rightarrow> pci \<Rightarrow> e1000_chip \<Rightarrow> (e1000_adapter, pci_ers_result option) state" where
  "e1000_io_slot_reset E P C = do {
     e1000e_disable_l1aspm P;
     err \<leftarrow> pci_do P Enable_device;
     (if err \<noteq> 0 then do { pci_ev Clear_errors; ret (Some PCI_ERS_RESULT_DISCONNECT) }
      else do {
        pci_ev Set_master;
        pci_ev Restore_state;
        pci_wake False;
        r \<leftarrow> e1000e_reset E (chip_ops C);
        on_some r (\<lambda>_. do {
          hw_op (ew32 WUS 0xFFFFFFFF);
          pci_ev Clear_errors;
          ret (Some PCI_ERS_RESULT_RECOVERED) }) }) }"

text \<open>Bringing the interface up never fails, so the error branch of the code is not taken.\<close>

definition e1000_io_resume :: "mmio \<Rightarrow> kernel \<Rightarrow> e1000_chip \<Rightarrow> (e1000_adapter, unit option) state" where
  "e1000_io_resume E K C = resume_up E K C"

section \<open>Requests of user programs\<close>

text \<open>The commands the driver knows, and any other.\<close>

definition e1000_ioctl :: "bool \<Rightarrow> mii_cmd option \<Rightarrow> u16 \<Rightarrow> e1000_adapter \<Rightarrow> int + u16" where
  "e1000_ioctl admin cmd reg_num a =
     (case cmd of Some c \<Rightarrow> e1000_mii_ioctl admin c reg_num a | None \<Rightarrow> Inl (- EOPNOTSUPP))"

end
