(* ===== verification/PmProps.thy ===== *)
theory PmProps
  imports NetPm ProbeProps
begin

text \<open>
  What a sleep does to an interface: suspend and resume together restore it, and what is left
  behind when suspend fails half way.
\<close>

section \<open>The steps of a sleep\<close>

lemma life_pci_ev [life_intros]: "(\<And>r. pci_gain e r = 0) \<Longrightarrow> lives (pci_ev e)"
  by (simp add: keeps_def life_view_def)

lemma life_pci_wake [life_intros]: "lives (pci_wake on)"
  unfolding pci_wake_def by (intro keeps_intros; simp add: life_view_def pci_gain_def)

lemma life_pci_do [life_intros]:
  "c \<noteq> Enable_device \<Longrightarrow> c \<noteq> Request_regions \<Longrightarrow> c \<noteq> Register_netdev \<Longrightarrow> lives (pci_do P c)"
  by (simp add: keeps_def pci_do_def life_view_def pci_gain_def)

lemma life_aspm [life_intros]: "lives (e1000e_disable_l1aspm P)"
  unfolding e1000e_disable_l1aspm_def by (intro keeps_intros; simp add: life_view_def pci_gain_def)

lemma life_suspend_wake [life_intros]: "lives (suspend_wake E C wufc)"
  unfolding suspend_wake_def reg_mod_def on_some_def by (intro keeps_intros life_intros)

lemma life_suspend_power [life_intros]: "lives (suspend_power P)"
  unfolding suspend_power_def by (intro keeps_intros; simp add: life_view_def pci_gain_def)

text \<open>One resource more or less.\<close>

definition gain_view :: "resource \<Rightarrow> int \<Rightarrow> life_view \<Rightarrow> life_view" where
  "gain_view q n v = v\<lparr>view_owned := (\<lambda>r. view_owned v r + (if r = q then n else 0))\<rparr>"

lemma gain_view_back [simp]: "gain_view q 1 (gain_view q (- 1) v) = v"
  by (rule life_view.equality) (auto simp: gain_view_def)

lemma gain_view_simps [simp]: "view_off (gain_view q n v) = view_off v" "view_running (gain_view q n v) = view_running v"
  "(gain_view q n v)\<lparr>view_off := x\<rparr> = gain_view q n (v\<lparr>view_off := x\<rparr>)"
  by (simp_all add: gain_view_def)

lemma quiesce_wp:
  assumes "life_inv a"
  shows "wp (suspend_quiesce E C) (\<lambda>r b. r \<noteq> None \<longrightarrow> life_view b = (life_view a)\<lparr>view_off := True\<rparr>) a"
proof -
  have down: "life_view b = (life_view a)\<lparr>view_off := True\<rparr>" if "life_view b = life_view c" "life_view c = life_view a" "\<not> running c" for b c
    using that assms by (simp add: life_view_def life_inv_def)
  show ?thesis
    unfolding suspend_quiesce_def
    apply (rule lives_bind, intro life_intros, simp add: pci_gain_def)
    apply (simp add: wp_gets_bind del: wp_bind)
    apply (intro conjI impI)
     apply (rule wp_bind_rule, rule wp_mono[OF down_wp], rule wp_on_some, simp)
     apply (rule lives_bind[OF life_interrupt_set_up(3)], rule lives_bind[OF life_reset_cap], simp)
    apply (rule lives_bind[OF life_reset_cap], unfold wp_return, intro impI, rule down, assumption+)
    done
qed

text \<open>A suspend that succeeds takes the interface down and gives up the device; nothing else changes.\<close>

definition suspended :: "life_view \<Rightarrow> int option \<Rightarrow> e1000_adapter \<Rightarrow> bool" where
  "suspended v r b \<longleftrightarrow> (case r of None \<Rightarrow> True
   | Some err \<Rightarrow> life_view b = (if err = 0 then gain_view Device_enabled (- 1) else id) (v\<lparr>view_off := True\<rparr>))"

lemma suspend_wp:
  assumes "life_inv a"
  shows "wp (e1000_suspend E P C junk) (suspended (life_view a)) a"
proof -
  have release: "wp (pci_ev (Release Device_enabled) \<bind> f) Q b"
    if "\<And>c. life_view c = gain_view Device_enabled (- 1) (life_view b) \<Longrightarrow> wp (f ()) Q c" for f b
    and Q :: "int option \<Rightarrow> e1000_adapter \<Rightarrow> bool"
    unfolding wp_gets_bind by (rule that, rule life_view.equality) (auto simp: life_view_def gain_view_def pci_gain_def fun_eq_iff)
  show ?thesis
    unfolding e1000_suspend_def
    apply (simp add: wp_gets_bind del: wp_bind)
    apply (rule wp_bind_rule, rule wp_mono[OF quiesce_wp[OF assms]], rule wp_on_some, simp add: suspended_def)
    apply (rule lives_bind, (intro life_intros; simp)[1])
    apply (simp del: wp_bind, intro conjI impI)
     apply (simp add: suspended_def)
    apply (rule lives_bind, intro life_intros)
    apply (rule lives_bind, intro life_intros, rule wp_on_some, simp add: suspended_def)
    apply (rule lives_bind, intro keeps_intros, rule lives_bind, intro keeps_intros life_intros)
    apply (rule lives_bind, intro life_intros, rule lives_bind, intro life_intros, rule release)
    apply (rule lives_bind, intro life_intros, simp add: suspended_def)
    done
qed

lemma resume_up_wp:
  "wp (resume_up E K C) (\<lambda>r b. r \<noteq> None \<longrightarrow> life_view b = (if running a then (life_view a)\<lparr>view_off := False\<rparr> else life_view a)) a"
proof -
  have rest: "wp (do { pci_ev Attach; fl \<leftarrow> gets flags; (if fl AND FLAG_HAS_AMT = 0 then e1000_get_hw_control E else skip); ret (Some ()) })
      (\<lambda>r b. r \<noteq> None \<longrightarrow> life_view b = v) b" if "life_view b = v" for v b
    apply (rule lives_bind, (intro life_intros; simp add: pci_gain_def)[1])
    apply (rule lives_bind, intro keeps_intros, rule lives_bind, intro keeps_intros life_intros)
    apply (simp add: that)
    done
  have tail: "wp (on_some r (\<lambda>_. do { pci_ev Attach; fl \<leftarrow> gets flags;
      (if fl AND FLAG_HAS_AMT = 0 then e1000_get_hw_control E else skip); ret (Some ()) }))
      (\<lambda>r b. r \<noteq> None \<longrightarrow> life_view b = v) b" if "r \<noteq> None \<longrightarrow> life_view b = v" for v b r
    by (rule wp_on_some, simp, rule rest) (use that in simp)
  have up: "wp (do { r \<leftarrow> (if up then e1000e_up E (chip_ops C) (rx_alloc K) else ret (Some ()));
      on_some r (\<lambda>_. do { pci_ev Attach; fl \<leftarrow> gets flags;
        (if fl AND FLAG_HAS_AMT = 0 then e1000_get_hw_control E else skip); ret (Some ()) }) })
      (\<lambda>r c. r \<noteq> None \<longrightarrow> life_view c = (if up then (life_view b)\<lparr>view_off := False\<rparr> else life_view b)) b" for up b
  proof (cases up)
    case True
    then show ?thesis
      by (simp del: wp_bind) (rule wp_bind_rule, rule wp_mono[OF up_wp], rule life_rx, rule tail)
  qed (simp add: rest del: wp_bind)
  show ?thesis
    unfolding resume_up_def
    apply (rule lives_bind, intro life_intros, simp only: wp_gets_bind)
    apply (rule wp_mono[OF up])
    apply (auto simp: life_view_def split: if_splits)
    done
qed

text \<open>Resume takes the device back; the interface is as it was before the sleep.\<close>

definition resumed :: "e1000_adapter \<Rightarrow> int option \<Rightarrow> e1000_adapter \<Rightarrow> bool" where
  "resumed a r b \<longleftrightarrow> (r = Some 0 \<longrightarrow> life_view b =
     gain_view Device_enabled 1 (if running a then (life_view a)\<lparr>view_off := False\<rparr> else life_view a))"

lemma resumed_end:
  assumes "life_view c = gain_view Device_enabled 1 (life_view a)"
    and "life_view t = (if running c then (life_view c)\<lparr>view_off := False\<rparr> else life_view c)"
  shows "resumed a r t"
proof -
  have "running c = running a" using arg_cong[OF assms(1), of view_running] by (simp add: life_view_def gain_view_def)
  then show ?thesis using assms by (simp add: resumed_def)
qed

lemma resume_wp: "wp (e1000_resume E K P C) (resumed a) a"
proof -
  have enable: "wp (pci_do P Enable_device \<bind> f) Q b"
    if "\<And>c err. err \<noteq> 0 \<Longrightarrow> wp (f err) Q c"
      "\<And>c. life_view c = gain_view Device_enabled 1 (life_view b) \<Longrightarrow> wp (f 0) Q c" for f b
    and Q :: "int option \<Rightarrow> e1000_adapter \<Rightarrow> bool"
  proof (cases "pci_code P (klog b) Enable_device = 0")
    case True
    have "life_view (b\<lparr>klog := Pci (Called Enable_device 0) # klog b\<rparr>) = gain_view Device_enabled 1 (life_view b)"
      by (rule life_view.equality) (auto simp: life_view_def gain_view_def pci_gain_def fun_eq_iff)
    from that(2)[OF this] show ?thesis using True by (simp add: pci_do_def)
  qed (use that(1) in \<open>simp add: pci_do_def\<close>)
  show ?thesis
    unfolding e1000_resume_def
    apply (rule lives_bind, (intro life_intros; simp add: pci_gain_def)[1])
    apply (rule lives_bind, (intro life_intros; simp add: pci_gain_def)[1])
    apply (rule lives_bind, intro life_intros, rule enable, simp add: resumed_def)
    apply (simp del: wp_bind)
    apply (rule lives_bind, (intro life_intros; simp)[1])
    apply (rule lives_bind, (intro life_intros; simp add: pci_gain_def)[1])
    apply (rule lives_bind, intro life_intros, rule lives_bind, intro life_intros)
    apply (simp only: wp_gets_bind)
    apply (rule lives_bind, intro keeps_intros life_intros)
    apply (simp del: wp_bind, intro conjI impI)
     apply (simp add: resumed_def)
    apply (rule lives_bind, intro life_intros, rule lives_bind, intro life_intros)
    apply (rule wp_on_some, simp add: resumed_def)
    apply (rule lives_bind, intro life_intros)
    apply (rule wp_bind_rule, rule wp_mono[OF resume_up_wp], rule wp_on_some, simp add: resumed_def)
    apply (unfold wp_return, rule resumed_end)
     prefer 2
     apply (erule impE, simp, assumption)
    apply simp
    done
qed

section \<open>A whole sleep\<close>


text \<open>
  When the state of the device cannot be saved, suspend returns the code and leaves an interface that
  runs down and without handlers, detached from the stack.
\<close>

lemma suspend_half_way:
  assumes "life_inv a" "running a" "run_state (e1000_suspend E P C junk) a = (Some err, b)" "err \<noteq> 0"
  shows "running b \<and> is_down b \<and> owned (klog b) = owned (klog a)"
  using suspend_wp[OF assms(1), where E = E and P = P and C = C and junk = junk] assms(2-)
  by (auto simp: wp_def suspended_def life_view_def)

definition idle :: "e1000_adapter \<Rightarrow> bool" where
  "idle a \<longleftrightarrow> vlgrp a = None \<and> \<not> running a"

lemma idle_step: "idle a \<Longrightarrow> keeps idle m \<Longrightarrow> (\<And>r b. idle b \<Longrightarrow> wp (f r) Q b) \<Longrightarrow> wp (State_Monad.bind m f) Q a"
  by (rule step_keeps, assumption) simp

lemma suspend_idle: "idle a \<Longrightarrow> wol a = 0 \<Longrightarrow> wp (e1000_suspend E pci_null C junk) (\<lambda>r b. r = Some 0 \<and> idle b) a"
proof -
  assume a: "idle a" "wol a = 0"
  have wake: "wp (suspend_wake E C (wufc_of 0 st)) (\<lambda>r b. r = Some () \<and> idle b) b" if "idle b" for b st
    using that by (simp add: suspend_wake_def wufc_of_def pci_wake_def wp_hw_op idle_def)
  have quiet: "wp (suspend_quiesce E C) (\<lambda>r b. r = Some () \<and> idle b) a"
    using a(1) by (simp add: suspend_quiesce_def e1000e_reset_interrupt_capability_def idle_def)
  have save: "wp (pci_do pci_null Save_state) (\<lambda>r b. r = 0 \<and> idle b) b" if "idle b" for b
    using that by (simp add: pci_do_def pci_null_def idle_def)
  have ends: "keeps idle (if on then pci_wake True else skip)" "keeps idle (e1000_release_hw_control E)"
    "keeps idle (suspend_power P)" for on P
    unfolding pci_wake_def e1000_release_hw_control_def hw_control_def suspend_power_def
    by (intro keeps_intros; simp add: idle_def)+
  show ?thesis
    unfolding e1000_suspend_def
    apply (simp only: wp_gets_bind a)
    apply (rule wp_bind_rule, rule wp_mono[OF quiet], rule wp_on_some, simp)
    apply (rule wp_bind_rule, rule wp_mono[OF save], simp)
    apply (simp del: wp_bind, rule idle_step, simp, intro keeps_intros, simp add: idle_def)
    apply (rule wp_bind_rule, rule wp_mono[OF wake], assumption, rule wp_on_some, simp)
    apply (rule idle_step, simp, intro keeps_intros)
    apply (erule idle_step, rule ends, erule idle_step, intro keeps_intros, simp add: idle_def)
    apply (erule idle_step, rule ends, erule idle_step, intro keeps_intros, simp add: idle_def)
    apply (erule idle_step, rule ends, simp)
    done
qed

lemma resume_idle: "idle a \<Longrightarrow> wp (e1000_resume E K pci_null C) (\<lambda>r b. r = Some 0) a"
proof -
  assume a: "idle a"
  have step: "keeps idle (e1000e_disable_l1aspm P)" "keeps idle (pci_do P x)" "keeps idle (pci_wake on)"
    "keeps idle (e1000e_set_interrupt_capability K)" "keeps idle (e1000e_power_up_phy (chip_ops C))"
    "keeps idle (e1000_init_manageability E)" for P x on
    unfolding e1000e_disable_l1aspm_def pci_do_def pci_wake_def e1000e_set_interrupt_capability_def set_msi_def set_msix_def
      e1000e_reset_interrupt_capability_def e1000e_power_up_phy_def e1000_init_manageability_def
    by (intro keeps_intros; simp add: idle_def)+
  have run: "keeps running (e1000e_reset E (chip_ops C))"
    using life_reset[where E = E and ops = "chip_ops C"] by (simp add: keeps_def life_view_def)
  have reset: "wp (e1000e_reset E (chip_ops C)) (\<lambda>r b. r = Some () \<and> \<not> running b) b" if "idle b" for b
    by (rule wp_conj, rule reset_some) (use that run in \<open>simp_all add: idle_def keeps_def wp_iff\<close>)
  have up: "wp (resume_up E K C) (\<lambda>r b. r = Some ()) b" if "\<not> running b" for b
  proof -
    have "keeps running (e1000_init_manageability E)"
      unfolding e1000_init_manageability_def by (intro keeps_intros; simp)
    then show ?thesis
      unfolding resume_up_def
      apply (rule step_keeps[where v = running])
      apply (simp add: that wp_gets_bind del: wp_bind)
      apply (intro impI, rule any_step, simp)
      done
  qed
  have call: "wp (pci_do pci_null x) (\<lambda>r b. r = 0 \<and> idle b) b" if "idle b" for x b
    using that by (simp add: pci_do_def pci_null_def idle_def)
  have off: "\<not> running b" if "idle b" for b using that by (simp add: idle_def)
  show ?thesis
    unfolding e1000_resume_def
    apply (rule idle_step[OF a], (intro keeps_intros; simp add: idle_def)[1])
    apply (erule idle_step, (intro keeps_intros; simp add: idle_def)[1])
    apply (erule idle_step, rule step)
    apply (rule wp_bind_rule, rule wp_mono[OF call], assumption, erule conjE, simp del: wp_bind)
    apply (erule idle_step, rule step)
    apply (erule idle_step, (intro keeps_intros; simp add: idle_def)[1])
    apply (erule idle_step, rule step)
    apply (erule idle_step, rule step)
    apply (simp add: wp_gets_bind off del: wp_bind)
    apply (erule idle_step, rule step)
    apply (rule wp_bind_rule, rule wp_mono[OF reset], assumption, erule conjE, simp del: wp_bind)
    apply (rule step_keeps[where v = running], intro keeps_intros, simp)
    apply (rule wp_bind_rule, rule wp_mono[OF up], simp, simp)
    done
qed


end
