(* ===== verification/Spec2Isabelle.thy ===== *)
theory Spec2Isabelle
  imports Watchdog BoardProps BoardAps LcmProps SpiWrite McFilter FcProps ManageProps Props82571 TxProps RxProps RxOwn PageOwn NetParam IrqProps NetConf NetLife ProbeProps PmProps
begin

text \<open>
  The software of the TEAK 303X board: drivers and programs for the devices behind its Super
  I/O chip and its LAN bypass controller, the program of its LCM panel, and the hardware layer
  of its network driver e1000e.

  Prelude gives the machine integers (words, so that arithmetic wraps where the C code wraps),
  the state monad in which C functions are written, weakest preconditions for them, and port
  I/O.  Hardware is a parameter: every access is an event of a history and the value of a read
  is an arbitrary function of the history before it.  A theorem that does not constrain this
  function holds for every device; where a device has to behave as documented, a named
  predicate says so and a concrete chip in the witness satisfies it.

  1. Board drivers (src/watchdog, src/fan-ite8712, src/ledIO-ite8712, src/ResetIO-ite8712,
     src/lan-bypass).  SuperIO holds what the ITE8712 drivers share and the contract of its
     indexed registers; CharDev the character-device interface.  Watchdog, Fan, LedIO, PowerIO
     and Bypass have one definition per file operation over a record of the driver's static
     variables; BypassAp and BoardAps the user programs, as steps of their command loops on
     top of the drivers.  BoardProps has the properties that span them.  Shown: invariants of
     every reachable state (watchdog, bypass), the effect of each operation on every branch,
     and what the programs do wrong.

  2. Panel program (src/lcm).  LcmCrc models the checksum and the transmission (a line that
     may refuse or split a write is a parameter), Lcm the frames, LcmMain the receive loop,
     the connection state machine, the menu and the timer.  LcmRx, LcmFacts and LcmProps
     show: the checksum is CRC-16 with polynomial 0x1021, delivery over a line that makes
     progress (the retry loop is a partial function and its return is part of the statement),
     the round trip of frames, detection of damaged frames, and the buffer bounds.

  3. Network driver (src/e1000e-0.5.18.3/src), the layer below the network interface.
     E1000Base: register access and struct e1000_hw (hw.h).  Function pointers of the C
     structure are arguments of the functions that call them.
       Nvm, Spi, SpiWrite   e1000_nvm.c and the word write of e1000_82571.c: checksums,
                            register-based and bit-banged access; the write script.
       MacAddr, McFilter    addresses, filters, counters of e1000_mac.c; the multicast
                            filter against the list it was built from.
       PhyReg, PhyAccess    register access of e1000_phy.c; the PHY behind it, the contract of
                            an access as a locale and its interpretations.
       MacFc, MacLink, PhyLink, PhySetup, FcProps
                            flow control, link checks, link set-up; pause frames from the
                            advertisement to the MAC.
       MacMisc              semaphore, LEDs, PCI Express, adaptive spacing.
       Manage, ManageProps  e1000_manage.c: the host interface to the management firmware;
                            what its memory holds when a command is handed over.
       Hw82571, Mac82571    e1000_82571.c: the functions of the chips the board carries, and
                            the pointers of the structure as they are set for them (_op).
       Props82571           the SerDes link check refines an automaton of four states, whose
                            reachable states report the link; administered addresses survive
                            the programming of the filters.

  4. Network driver, the network interface (netdev.c, param.c).  The kernel is a parameter like
     the hardware: a record of functions from the history of calls to their results.  The build
     is the one with NAPI, MSI-X and TSO, on a little-endian machine.
       NetBase              socket buffers, the kernel, rings, struct e1000_adapter.
       NetTx, TxRing, TxMap, TxSend, TxProps
                            transmission from e1000_xmit_frame to e1000_clean_tx_irq.  TxRing
                            relates the ring to a queue of frames; TxMap and TxSend show that
                            sending appends to it and the reclaim takes from its head.
       NetRx, RxRing, RxProps, RxOwn
                            reception with one buffer for each frame: delivery in order, and
                            who owns a buffer in every reachable state.
       NetPages, PageOwn    reception of jumbo frames and of split packets into pages; who owns
                            a page in every reachable state.
       NetIrq, IrqProps     interrupt handlers, poll and masks: either interrupts are on or a
                            poll is scheduled; the choice of an interrupt mode.
       NetVlan              VLAN filtering, and what the filter holds after it is restored.
       NetConf              the functions of the chip family as a record, configuration, reset,
                            up and down, frame size.
       NetOpen, NetWatch, NetLife
                            memory of the rings, the test of MSI, open and close; the watchdog,
                            the statistics, timers and tasks; the memory held over any life of
                            an interface.
       NetItr, NetParam     interrupt throttling with its bounds and its convergence; the
                            module parameters and the configuration they give.

       NetProbe, ProbeProps the boards, probe with its chain of error exits, removal; what the
                            driver holds of the system after each exit and after a whole life.
                            The PCI layer is a further parameter.
       NetPm, PmProps       suspend, resume, error recovery, the ICH8 workarounds they use; a
                            sleep restores the interface.

  Bounds and fuel.  Loops of the code that count attempts are recursions on that count
  (poll n: 1920 for the MDI register, 100000 for the NVM registers, 5000 for the SPI
  status, 2000 for the flash commit, 10 for the ownership of the MDIO,
  2 for the power-down of the ICH8 PHY); no other fuel is used.  Delays do not change the state.

  Not modelled.  The ethtool requests (ethtool.c) and the kernel glue
  (kcompat*, *.mod.c), the parts for chips of the 80003ES2LAN and ICH families, message output, the keyboard reader of the demo programs, the kernel
  configuration, and the Windows drivers (binary).
\<close>

end
